(* ===== verification/Prelude.thy ===== *)
theory Prelude
  imports Main "HOL-Library.Word" "HOL-Library.Monad_Syntax" "HOL-Library.Signed_Division"
begin

text \<open>
  The shared base of the development: how a C function that may run into undefined behaviour,
  a C \<open>for\<close> loop and the arrays of the programs are modelled, and the lemmas the components
  use about them.

  A function that can run into undefined behaviour (reading an automatic variable that was never
  written, indexing an array out of range, leaving a value-returning function without a value that
  the caller then uses) has a result of type \<open>'a option\<close>; \<^term>\<open>None\<close> is "the C standard gives
  this run no meaning". Error codes are ordinary values.
\<close>

type_synonym byte = "8 word"

named_theorems array_laws \<open>reading an array after writing it\<close>
named_theorems loop_rules \<open>closed forms of loops\<close>

section \<open>Options and lists\<close>

lemmas bind_Some_iff = Option.bind_eq_Some_conv

lemma find_append:
  "List.find P (xs @ ys) = (case List.find P xs of Some x \<Rightarrow> Some x | None \<Rightarrow> List.find P ys)"
  by (induction xs) auto

lemma find_map: "List.find P (map f xs) = map_option f (List.find (\<lambda>x. P (f x)) xs)"
  by (induction xs) auto

lemma find_upt_shift:
  "List.find P [m + k..<n + k] = map_option (\<lambda>i. i + k) (List.find (\<lambda>i. P (i + k)) [m..<n])"
proof -
  have "[m + k..<n + k] = map (\<lambda>i. i + k) [m..<n]"
    by (rule nth_equalityI) auto
  then show ?thesis by (simp only: find_map)
qed

lemma find_upt_split:
  "i \<le> m \<Longrightarrow> m \<le> n \<Longrightarrow> List.find P [i..<n] =
    (case List.find P [i..<m] of Some x \<Rightarrow> Some x | None \<Rightarrow> List.find P [m..<n])"
  using upt_add_eq_append [of i m "n - m"] by (simp add: find_append)

lemma find_upt_Some:
  "List.find Q [i..<n] = Some j \<Longrightarrow> i \<le> j \<and> j < n \<and> Q j \<and> (\<forall>k. i \<le> k \<longrightarrow> k < j \<longrightarrow> \<not> Q k)"
proof (induction "n - i" arbitrary: i)
  case 0
  then show ?case by simp
next
  case (Suc k)
  then have "i < n" by simp
  show ?case
  proof (cases "Q i")
    case True
    with Suc.prems \<open>i < n\<close> show ?thesis by (simp add: upt_conv_Cons)
  next
    case False
    with Suc.prems \<open>i < n\<close> have "List.find Q [Suc i..<n] = Some j" by (simp add: upt_conv_Cons)
    moreover have "k = n - Suc i" using Suc.hyps(2) by simp
    ultimately have "Suc i \<le> j \<and> j < n \<and> Q j \<and> (\<forall>k. Suc i \<le> k \<longrightarrow> k < j \<longrightarrow> \<not> Q k)"
      using Suc.hyps(1) by blast
    then show ?thesis using False by (metis Suc_leD le_antisym not_less_eq_eq)
  qed
qed

lemma find_upt_None: "List.find Q [i..<n] = None \<longleftrightarrow> (\<forall>k. i \<le> k \<longrightarrow> k < n \<longrightarrow> \<not> Q k)"
  by (auto simp: find_None_iff)

lemma find_upt_least:
  assumes "i \<le> j" and "j < n" and "Q j" and "\<And>k. i \<le> k \<Longrightarrow> k < j \<Longrightarrow> \<not> Q k"
  shows "List.find Q [i..<n] = Some j"
proof (cases "List.find Q [i..<n]")
  case None
  with assms show ?thesis by (auto simp: find_upt_None)
next
  case (Some m)
  from find_upt_Some [OF this] assms show ?thesis
    using Some by (metis linorder_neqE_nat)
qed

section \<open>C \<open>for\<close> loops\<close>

text \<open>
  One run of a loop body ends in one of three ways: it goes on to the next iteration, it leaves
  the loop by \<open>break\<close>, or it leaves the function by \<open>return\<close>.
\<close>

datatype ('s, 'r) flow = Next 's | Break 's | Return 'r

function for_loop ::
  "nat \<Rightarrow> nat \<Rightarrow> (nat \<Rightarrow> 's \<Rightarrow> ('s, 'r) flow option) \<Rightarrow> 's \<Rightarrow> ('s, 'r) flow option" where
  "for_loop i n body s =
     (if i < n
      then (case body i s of
              None \<Rightarrow> None
            | Some (Next s') \<Rightarrow> for_loop (Suc i) n body s'
            | Some (Break s') \<Rightarrow> Some (Next s')
            | Some (Return r) \<Rightarrow> Some (Return r))
      else Some (Next s))"
  by pat_completeness auto
termination
  by (relation "measure (\<lambda>(i, n, body, s). n - i)") auto

declare for_loop.simps [simp del]

lemma for_loop_done [simp]: "n \<le> i \<Longrightarrow> for_loop i n body s = Some (Next s)"
  by (simp add: for_loop.simps)

lemma for_loop_step:
  "i < n \<Longrightarrow> for_loop i n body s =
     (case body i s of
        None \<Rightarrow> None
      | Some (Next s') \<Rightarrow> for_loop (Suc i) n body s'
      | Some (Break s') \<Rightarrow> Some (Next s')
      | Some (Return r) \<Rightarrow> Some (Return r))"
  by (subst for_loop.simps) simp

text \<open>A loop whose body never leaves it, with an invariant: it ends, and the invariant holds.\<close>

lemma for_loop_invariant:
  assumes "P i s" and "i \<le> n"
    and "\<And>j t. i \<le> j \<Longrightarrow> j < n \<Longrightarrow> P j t \<Longrightarrow> \<exists>t'. body j t = Some (Next t') \<and> P (Suc j) t'"
  shows "\<exists>s'. for_loop i n body s = Some (Next s') \<and> P n s'"
  using assms
proof (induction "n - i" arbitrary: i s)
  case 0
  then show ?case by auto
next
  case (Suc k)
  then have "i < n" by simp
  with Suc.prems obtain t where t: "body i s = Some (Next t)" "P (Suc i) t" by blast
  have "\<exists>s'. for_loop (Suc i) n body t = Some (Next s') \<and> P n s'"
  proof (rule Suc.hyps(1))
    show "k = n - Suc i" using Suc.hyps(2) by simp
  qed (use t \<open>i < n\<close> Suc.prems(3) in auto)
  with t \<open>i < n\<close> show ?case by (simp add: for_loop_step)
qed

text \<open>A loop that runs \<open>m\<close> iterations and then stops by itself or by \<open>break\<close>.\<close>

lemma for_loop_until:
  assumes "P i s" and "i \<le> m" and "m \<le> n"
    and "\<And>j t. i \<le> j \<Longrightarrow> j < m \<Longrightarrow> P j t \<Longrightarrow> \<exists>t'. body j t = Some (Next t') \<and> P (Suc j) t'"
    and "\<And>t. m < n \<Longrightarrow> P m t \<Longrightarrow> body m t = Some (Break t)"
  shows "\<exists>s'. for_loop i n body s = Some (Next s') \<and> P m s'"
  using assms
proof (induction "m - i" arbitrary: i s)
  case 0
  then show ?case by (cases "m < n") (auto simp: for_loop_step)
next
  case (Suc k)
  then have "i < m" by simp
  with Suc.prems obtain t where t: "body i s = Some (Next t)" "P (Suc i) t" by blast
  have "\<exists>s'. for_loop (Suc i) n body t = Some (Next s') \<and> P m s'"
  proof (rule Suc.hyps(1))
    show "k = m - Suc i" using Suc.hyps(2) by simp
  qed (use t \<open>i < m\<close> Suc.prems(3-5) in auto)
  with t \<open>i < m\<close> Suc.prems(3) show ?case by (simp add: for_loop_step)
qed

text \<open>A loop that applies a total function: a fold.\<close>

lemma for_loop_fold [loop_rules]:
  assumes "\<And>j t. i \<le> j \<Longrightarrow> j < n \<Longrightarrow> body j t = Some (Next (f j t))"
  shows "for_loop i n body s = Some (Next (fold f [i..<n] s))"
  using assms
proof (induction "n - i" arbitrary: i s)
  case 0
  then show ?case by simp
next
  case (Suc k)
  then have "i < n" by simp
  with Suc show ?case by (simp add: for_loop_step upt_conv_Cons)
qed

text \<open>A loop that searches: it returns at the first index that satisfies the test.\<close>

lemma for_loop_search [loop_rules]:
  assumes "\<And>j. i \<le> j \<Longrightarrow> j < n \<Longrightarrow> body j s = Some (if Q j then Return (r j) else Next s)"
  shows "for_loop i n body s =
    Some (case List.find Q [i..<n] of Some j \<Rightarrow> Return (r j) | None \<Rightarrow> Next s)"
  using assms
proof (induction "n - i" arbitrary: i)
  case 0
  then show ?case by simp
next
  case (Suc k)
  then have "i < n" by simp
  with Suc show ?case by (simp add: for_loop_step upt_conv_Cons)
qed

text \<open>The same with a state that only depends on the index (a counter beside the loop index).\<close>

lemma for_loop_search_counter:
  assumes "i \<le> n"
    and "\<And>j. i \<le> j \<Longrightarrow> j < n \<Longrightarrow>
           body j (st j) = Some (if Q j then Return (r j) else Next (st (Suc j)))"
  shows "for_loop i n body (st i) =
    Some (case List.find Q [i..<n] of Some j \<Rightarrow> Return (r j) | None \<Rightarrow> Next (st n))"
  using assms
proof (induction "n - i" arbitrary: i)
  case 0
  then show ?case by simp
next
  case (Suc k)
  then have "i < n" by simp
  with Suc show ?case by (simp add: for_loop_step upt_conv_Cons)
qed

text \<open>
  Two nested loops that search an array of \<open>a\<close> rows of \<open>b\<close> cells with one running counter are a
  search through all \<open>a * b\<close> cells.
\<close>

lemma for_loop_nested_search:
  assumes "i \<le> a"
    and step: "\<And>i j. i < a \<Longrightarrow> j < b \<Longrightarrow> body i j (st (i * b + j)) =
      Some (if Q (i * b + j) then Return (r (i * b + j)) else Next (st (i * b + Suc j)))"
  shows "for_loop i a (\<lambda>i. for_loop 0 b (body i)) (st (i * b)) =
    Some (case List.find Q [i * b..<a * b] of Some m \<Rightarrow> Return (r m) | None \<Rightarrow> Next (st (a * b)))"
  using assms(1)
proof (induction "a - i" arbitrary: i)
  case 0
  then show ?case by simp
next
  case (Suc k)
  then have i: "i < a" by simp
  have row: "for_loop 0 b (body i) (st (i * b + 0)) =
    Some (case List.find (\<lambda>j. Q (i * b + j)) [0..<b] of
            Some j \<Rightarrow> Return (r (i * b + j)) | None \<Rightarrow> Next (st (i * b + b)))"
    by (rule for_loop_search_counter [where st = "\<lambda>j. st (i * b + j)"]) (use step i in auto)
  have IH: "for_loop (Suc i) a (\<lambda>i. for_loop 0 b (body i)) (st (i * b + b)) =
    Some (case List.find Q [i * b + b..<a * b] of Some m \<Rightarrow> Return (r m) | None \<Rightarrow> Next (st (a * b)))"
    using Suc.hyps(1) [of "Suc i"] Suc.hyps(2) i by (simp add: add.commute)
  have shift: "List.find Q [i * b..<i * b + b] =
    map_option (\<lambda>j. i * b + j) (List.find (\<lambda>j. Q (i * b + j)) [0..<b])"
    using find_upt_shift [of Q 0 "i * b" b] by (simp add: add.commute)
  have "i * b + b \<le> a * b"
    using i mult_le_mono1 [of "Suc i" a b] by simp
  then have "List.find Q [i * b..<a * b] = (case List.find Q [i * b..<i * b + b] of
      Some x \<Rightarrow> Some x | None \<Rightarrow> List.find Q [i * b + b..<a * b])"
    by (intro find_upt_split) auto
  then show ?case
    using i row IH shift by (simp add: for_loop_step split: option.split)
qed

lemma for_loop_break_invariant:
  assumes "P i s" and "i \<le> r" and "r < n"
    and "\<And>j t. i \<le> j \<Longrightarrow> j < r \<Longrightarrow> P j t \<Longrightarrow> \<exists>t'. body j t = Some (Next t') \<and> P (Suc j) t'"
    and "\<And>t. P r t \<Longrightarrow> body r t = Some (Break s')"
  shows "for_loop i n body s = Some (Next s')"
  using assms
proof (induction "r - i" arbitrary: i s)
  case 0
  then show ?case by (auto simp: for_loop_step)
next
  case (Suc k)
  then have "i < r" by simp
  with Suc.prems obtain t where t: "body i s = Some (Next t)" "P (Suc i) t" by blast
  have "for_loop (Suc i) n body t = Some (Next s')"
  proof (rule Suc.hyps(1))
    show "k = r - Suc i" using Suc.hyps(2) by simp
  qed (use t \<open>i < r\<close> Suc.prems(3-5) in auto)
  with t \<open>i < r\<close> Suc.prems(3) show ?case by (simp add: for_loop_step)
qed

lemma for_loop_break:
  assumes "i \<le> r" and "r < n" and "\<And>j. i \<le> j \<Longrightarrow> j < r \<Longrightarrow> body j s = Some (Next s)"
    and "body r s = Some (Break s')"
  shows "for_loop i n body s = Some (Next s')"
  using assms by (intro for_loop_break_invariant [where P = "\<lambda>_ t. t = s"]) auto

lemma for_loop_return:
  assumes "i \<le> r" and "r < n" and "\<And>j. i \<le> j \<Longrightarrow> j < r \<Longrightarrow> body j s = Some (Next s)"
    and "body r s = Some (Return x)"
  shows "for_loop i n body s = Some (Return x)"
  using assms
proof (induction "r - i" arbitrary: i)
  case 0
  then show ?case by (simp add: for_loop_step)
next
  case (Suc k)
  then have "i < r" by simp
  moreover from this have "for_loop (Suc i) n body s = Some (Return x)" using Suc by simp
  ultimately show ?case using Suc.prems by (simp add: for_loop_step)
qed

lemma for_loop_cong:
  assumes "\<And>j t. i \<le> j \<Longrightarrow> j < n \<Longrightarrow> body j t = body' j t"
  shows "for_loop i n body s = for_loop i n body' s"
  using assms
proof (induction "n - i" arbitrary: i s)
  case 0
  then show ?case by simp
next
  case (Suc k)
  then have "i < n" by simp
  with Suc show ?case by (auto simp: for_loop_step split: option.splits flow.splits)
qed

text \<open>What a function does after a loop, unless the loop returned from it.\<close>

definition after_loop :: "('s, 'r) flow option \<Rightarrow> ('s \<Rightarrow> 'r option) \<Rightarrow> 'r option" where
  "after_loop m k =
     (case m of
        None \<Rightarrow> None
      | Some (Return r) \<Rightarrow> Some r
      | Some (Next s) \<Rightarrow> k s
      | Some (Break s) \<Rightarrow> k s)"

lemma after_loop_simps [simp]:
  "after_loop None k = None"
  "after_loop (Some (Return r)) k = Some r"
  "after_loop (Some (Next s)) k = k s"
  "after_loop (Some (Break s)) k = k s"
  by (simp_all add: after_loop_def)

section \<open>Arrays\<close>

text \<open>
  The interface of everything in these programs that is read and written by index: the blocks of
  a disk, the structures inside one block, the inode table spread over many blocks. \<open>valid\<close> are
  the indices in range, \<open>fits\<close> the values the cells can hold.
\<close>

locale array_store =
  fixes get :: "'m \<Rightarrow> 'i \<Rightarrow> 'v"
    and put :: "'m \<Rightarrow> 'i \<Rightarrow> 'v \<Rightarrow> 'm"
    and valid :: "'i \<Rightarrow> bool"
    and fits :: "'v \<Rightarrow> bool"
  assumes get_put_same: "valid i \<Longrightarrow> fits v \<Longrightarrow> get (put m i v) i = v"
    and get_put_other: "valid i \<Longrightarrow> valid j \<Longrightarrow> i \<noteq> j \<Longrightarrow> fits v \<Longrightarrow> get (put m i v) j = get m j"
begin

lemma get_put:
  "valid i \<Longrightarrow> valid j \<Longrightarrow> fits v \<Longrightarrow> get (put m i v) j = (if i = j then v else get m j)"
  by (simp add: get_put_same get_put_other)

lemma get_put_twice:
  "valid i \<Longrightarrow> valid j \<Longrightarrow> fits v \<Longrightarrow> fits w \<Longrightarrow> get (put (put m i v) i w) j = get (put m i w) j"
  by (simp add: get_put)

lemma get_put_comm:
  "valid i \<Longrightarrow> valid j \<Longrightarrow> valid k \<Longrightarrow> i \<noteq> j \<Longrightarrow> fits v \<Longrightarrow> fits w \<Longrightarrow>
   get (put (put m i v) j w) k = get (put (put m j w) i v) k"
  by (auto simp: get_put)

text \<open>Reading a range of cells: what a write does to the list of their values.\<close>

lemma map_get_put:
  assumes "list_all valid is" and "valid i" and "fits v" and "distinct is"
  shows "map (get (put m i v)) is = (map (get m) is)[length (takeWhile (\<lambda>j. j \<noteq> i) is) := v]"
  using assms
proof (induction "is")
  case Nil
  then show ?case by simp
next
  case (Cons j js)
  show ?case
  proof (cases "j = i")
    case True
    with Cons.prems have "map (get (put m i v)) js = map (get m) js"
      by (auto simp: list_all_iff get_put)
    with True Cons.prems show ?thesis by (simp add: get_put)
  next
    case False
    with Cons show ?thesis by (simp add: get_put)
  qed
qed

lemma map_get_put_notin:
  "list_all valid is \<Longrightarrow> valid i \<Longrightarrow> fits v \<Longrightarrow> i \<notin> set is \<Longrightarrow> map (get (put m i v)) is = map (get m) is"
  by (induction "is") (auto simp: get_put_other)

end

text \<open>An array of arrays, read by one index that names the outer and the inner cell.\<close>

locale nested_store =
  outer: array_store oget oput ovalid ofits + inner: array_store iget iput ivalid ifits
  for oget :: "'m \<Rightarrow> 'a \<Rightarrow> 'b" and oput ovalid ofits
    and iget :: "'b \<Rightarrow> 'c \<Rightarrow> 'v" and iput ivalid ifits +
  fixes blk :: "'i \<Rightarrow> 'a" and slot :: "'i \<Rightarrow> 'c" and valid :: "'i \<Rightarrow> bool"
  assumes valid_blk: "valid i \<Longrightarrow> ovalid (blk i)"
    and valid_slot: "valid i \<Longrightarrow> ivalid (slot i)"
    and blk_slot_inj: "valid i \<Longrightarrow> valid j \<Longrightarrow> blk i = blk j \<Longrightarrow> slot i = slot j \<Longrightarrow> i = j"
    and ofits_iput: "ofits (iput b s v)"

sublocale nested_store \<subseteq> nested: array_store
  "\<lambda>m i. iget (oget m (blk i)) (slot i)"
  "\<lambda>m i v. oput m (blk i) (iput (oget m (blk i)) (slot i) v)" valid ifits
proof unfold_locales
  fix i v m
  assume "valid i" and "ifits v"
  then show "iget (oget (oput m (blk i) (iput (oget m (blk i)) (slot i) v)) (blk i)) (slot i) = v"
    by (simp add: outer.get_put_same inner.get_put_same valid_blk valid_slot ofits_iput)
next
  fix i j v m
  assume ij: "valid i" "valid j" "i \<noteq> j" "ifits v"
  show "iget (oget (oput m (blk i) (iput (oget m (blk i)) (slot i) v)) (blk j)) (slot j)
          = iget (oget m (blk j)) (slot j)"
  proof (cases "blk i = blk j")
    case True
    with ij have "slot i \<noteq> slot j" using blk_slot_inj by blast
    with True ij show ?thesis
      by (simp add: outer.get_put_same inner.get_put_other valid_blk valid_slot ofits_iput)
  next
    case False
    with ij show ?thesis by (simp add: outer.get_put_other valid_blk ofits_iput)
  qed
qed

text \<open>A C array indexed by a computed \<open>int\<close>: out of bounds has no defined behaviour.\<close>

definition array_get :: "'a list \<Rightarrow> int \<Rightarrow> 'a option" where
  "array_get xs i = (if 0 \<le> i \<and> i < int (length xs) then Some (xs ! nat i) else None)"

definition array_set :: "'a list \<Rightarrow> int \<Rightarrow> 'a \<Rightarrow> 'a list option" where
  "array_set xs i v = (if 0 \<le> i \<and> i < int (length xs) then Some (xs[nat i := v]) else None)"

lemma array_get_nat [simp]: "i < length xs \<Longrightarrow> array_get xs (int i) = Some (xs ! i)"
  by (simp add: array_get_def)

lemma array_set_nat [simp]: "i < length xs \<Longrightarrow> array_set xs (int i) v = Some (xs[i := v])"
  by (simp add: array_set_def)

text \<open>C division and remainder of non-negative numbers.\<close>

lemma sdiv_nat [simp]: "(int a) sdiv (int b) = int (a div b)"
  by (cases "a = 0"; cases "b = 0") (auto simp: signed_divide_int_def zdiv_int)

lemma smod_nat [simp]: "(int a) smod (int b) = int (a mod b)"
  by (cases "a = 0"; cases "b = 0") (auto simp: signed_modulo_int_def signed_divide_int_def zmod_int
      minus_div_mult_eq_mod zdiv_int)

lemma sdiv_smod_numeral [simp]:
  "(int a) sdiv (numeral k) = int (a div numeral k)"
  "(int a) smod (numeral k) = int (a mod numeral k)"
  using sdiv_nat [of a "numeral k"] smod_nat [of a "numeral k"] by (simp_all del: sdiv_nat smod_nat)

end
