(* ===== verification/Bytes.thy ===== *)
theory Bytes
  imports Prelude
begin

text \<open>
  Memory as the programs see it: bytes. A buffer maps a byte offset to its value, and the C
  structures are read out of it at the offsets the x86-64 ABI gives them, little-endian. Casting
  one buffer to another type (\<open>iNode buffer[32]\<close>, \<open>int buffer[1024]\<close>, \<open>char *buffer[1024]\<close>)
  is reading the same bytes another way.
\<close>

unbundle bit_operations_syntax

type_synonym buf = "nat \<Rightarrow> byte"

section \<open>Runs of bytes in a buffer\<close>

definition load_bytes :: "buf \<Rightarrow> nat \<Rightarrow> nat \<Rightarrow> byte list" where
  "load_bytes b off n = map b [off..<off + n]"

definition store_bytes :: "buf \<Rightarrow> nat \<Rightarrow> byte list \<Rightarrow> buf" where
  "store_bytes b off bs = (\<lambda>i. if off \<le> i \<and> i < off + length bs then bs ! (i - off) else b i)"

lemma length_load_bytes [simp]: "length (load_bytes b off n) = n"
  by (simp add: load_bytes_def)

lemma nth_load_bytes [simp]: "i < n \<Longrightarrow> load_bytes b off n ! i = b (off + i)"
  by (simp add: load_bytes_def)

lemma load_store_same [array_laws]:
  "n = length bs \<Longrightarrow> load_bytes (store_bytes b off bs) off n = bs"
  by (rule nth_equalityI) (auto simp: load_bytes_def store_bytes_def)

lemma load_store_disjoint [array_laws]:
  "off + length bs \<le> off' \<or> off' + n \<le> off \<Longrightarrow>
   load_bytes (store_bytes b off bs) off' n = load_bytes b off' n"
  by (rule nth_equalityI) (auto simp: load_bytes_def store_bytes_def)

text \<open>Two cells of an array of cells of one size do not overlap.\<close>

lemma load_store_cell [array_laws]:
  assumes "i \<noteq> j" and "length bs = n"
  shows "load_bytes (store_bytes b (n * i) bs) (n * j) n = load_bytes b (n * j) n"
proof (rule load_store_disjoint)
  have "n * Suc i \<le> n * j \<or> n * Suc j \<le> n * i"
    using assms(1) by (metis Suc_leI linorder_neqE_nat mult_le_mono2)
  then show "n * i + length bs \<le> n * j \<or> n * j + n \<le> n * i"
    using assms(2) by (simp add: add.commute)
qed

lemma store_bytes_outside:
  "i < off \<or> off + length bs \<le> i \<Longrightarrow> store_bytes b off bs i = b i"
  by (auto simp: store_bytes_def)

lemma store_bytes_inside:
  "off \<le> i \<Longrightarrow> i < off + length bs \<Longrightarrow> store_bytes b off bs i = bs ! (i - off)"
  by (auto simp: store_bytes_def)

text \<open>The string that an array of characters holds, if it ends in the array.\<close>

definition c_str :: "byte list \<Rightarrow> byte list option" where
  "c_str bs = (if 0 \<in> set bs then Some (takeWhile (\<lambda>x. x \<noteq> 0) bs) else None)"

section \<open>Little-endian integers\<close>

fun le_bytes :: "nat \<Rightarrow> 'a::len word \<Rightarrow> byte list" where
  "le_bytes 0 w = []"
| "le_bytes (Suc n) w = ucast w # le_bytes n (drop_bit 8 w)"

fun le_word :: "byte list \<Rightarrow> 'a::len word" where
  "le_word [] = 0"
| "le_word (b # bs) = ucast b OR push_bit 8 (le_word bs)"

lemma length_le_bytes [simp]: "length (le_bytes n w) = n"
  by (induction n arbitrary: w) auto

lemma le_word_le_bytes: "le_word (le_bytes n w) = take_bit (8 * n) w"
proof (induction n arbitrary: w)
  case 0
  then show ?case by simp
next
  case (Suc n)
  show ?case
    by (rule bit_word_eqI) (auto simp: Suc bit_simps)
qed

lemma le_word_le_bytes_full [simp]:
  "LENGTH('a::len) \<le> 8 * n \<Longrightarrow> le_word (le_bytes n (w :: 'a word)) = w"
  by (simp add: le_word_le_bytes take_bit_word_eq_self)

lemma bit_le_word:
  "bit (le_word bs :: 'a::len word) k \<Longrightarrow> k < 8 * length bs"
proof (induction bs arbitrary: k)
  case (Cons b bs)
  have "k < 8 \<or> bit (le_word bs :: 'a word) (k - 8) \<and> 8 \<le> k"
    using Cons.prems by (auto simp: bit_simps not_le dest: bit_imp_le_length)
  with Cons.IH [of "k - 8"] show ?case by auto
qed simp

lemma drop_le_word_Cons:
  assumes "8 * Suc (length bs) \<le> LENGTH('a::len)"
  shows "drop_bit 8 (le_word (b # bs) :: 'a word) = le_word bs"
proof (rule bit_word_eqI)
  fix k
  assume "k < LENGTH('a)"
  have "\<not> bit b (8 + k)" using bit_imp_le_length [of b "8 + k"] by auto
  then show "bit (drop_bit 8 (le_word (b # bs)) :: 'a word) k = bit (le_word bs :: 'a word) k"
    using assms bit_le_word [of bs k, where 'a = 'a] by (auto simp: bit_simps)
qed

lemma ucast_le_word_Cons:
  assumes "8 \<le> LENGTH('a::len)"
  shows "ucast (le_word (b # bs) :: 'a word) = (b :: byte)"
  using assms by (intro bit_word_eqI) (auto simp: bit_simps)

lemma le_bytes_le_word:
  "8 * length bs \<le> LENGTH('a::len) \<Longrightarrow> le_bytes (length bs) (le_word bs :: 'a word) = bs"
proof (induction bs)
  case (Cons b bs)
  then show ?case
    using drop_le_word_Cons [of bs b, where 'a = 'a] ucast_le_word_Cons [of b bs, where 'a = 'a]
    by (simp del: le_word.simps)
qed simp

section \<open>The integer types of the programs, read and written in place\<close>

definition ld32 :: "buf \<Rightarrow> nat \<Rightarrow> 32 word" where
  "ld32 b off = le_word (load_bytes b off 4)"

definition st32 :: "buf \<Rightarrow> nat \<Rightarrow> 32 word \<Rightarrow> buf" where
  "st32 b off w = store_bytes b off (le_bytes 4 w)"

lemma ld32_st32_same [array_laws]: "ld32 (st32 b off w) off = w"
  by (simp add: ld32_def st32_def load_store_same)

lemma ld32_st32_other [array_laws]:
  "off + 4 \<le> off' \<or> off' + 4 \<le> off \<Longrightarrow> ld32 (st32 b off w) off' = ld32 b off'"
  by (simp add: ld32_def st32_def load_store_disjoint)

text \<open>
  C's conversions: a 64-bit value assigned or cast to \<open>int\<close> keeps its low 32 bits, read as two's
  complement; an \<open>int\<close> stored into a field keeps its low bits and is sign-extended.
\<close>

definition to_int :: "int \<Rightarrow> int" where
  "to_int i = sint (word_of_int i :: 32 word)"

definition word32_of :: "int \<Rightarrow> 32 word" where
  "word32_of i = word_of_int i"

definition word64_of :: "int \<Rightarrow> 64 word" where
  "word64_of i = word_of_int i"

lemma sint_word_of_int_id:
  "- (2 ^ (LENGTH('a) - 1)) \<le> i \<Longrightarrow> i < 2 ^ (LENGTH('a) - 1) \<Longrightarrow>
   sint (word_of_int i :: 'a::len word) = i"
  by (simp add: signed_take_bit_int_eq_self_iff sint_sbintrunc')

lemma to_int_id [simp]: "- (2 ^ 31) \<le> i \<Longrightarrow> i < 2 ^ 31 \<Longrightarrow> to_int i = i"
  by (simp add: to_int_def sint_word_of_int_id)

lemma sint_word32_of [simp]: "- (2 ^ 31) \<le> i \<Longrightarrow> i < 2 ^ 31 \<Longrightarrow> sint (word32_of i) = i"
  by (simp add: word32_of_def sint_word_of_int_id)

lemma sint_word64_of [simp]: "- (2 ^ 63) \<le> i \<Longrightarrow> i < 2 ^ 63 \<Longrightarrow> sint (word64_of i) = i"
  by (simp add: word64_of_def sint_word_of_int_id)

text \<open>An array of 1024 \<open>int\<close>s over a block.\<close>

definition get_int :: "buf \<Rightarrow> nat \<Rightarrow> 32 word" where
  "get_int b i = ld32 b (4 * i)"

definition put_int :: "buf \<Rightarrow> nat \<Rightarrow> 32 word \<Rightarrow> buf" where
  "put_int b i w = st32 b (4 * i) w"

interpretation int_array: array_store get_int put_int "\<lambda>i. i < 1024" "\<lambda>_. True"
  by unfold_locales (auto simp: get_int_def put_int_def intro!: ld32_st32_same ld32_st32_other)

lemma sint_of_nat_small: "i < 2 ^ 31 \<Longrightarrow> sint (of_nat i :: 32 word) = int i"
  using sint_word_of_int_id [of "int i", where 'a = 32] by simp

end
