(* ===== verification/Disk.thy ===== *)
theory Disk
  imports Bytes
begin

text \<open>
  The simulated block device (\<open>disk.c\<close>, \<open>disk.h\<close>): one host file per block, named by a prefix
  and the block number in decimal. First the device as the code has it, over the files of the
  host; then the abstract disk the file system is modelled on, an array of blocks; then the
  refinement between the two.
\<close>

definition BLOCK_SIZE :: nat where "BLOCK_SIZE = 4096"
definition BLOCK_NUM :: nat where "BLOCK_NUM = 65536"

section \<open>The host files\<close>

text \<open>
  \<open>disk_prefix\<close> is the global of \<open>disk.c\<close>; \<open>files\<close> are the files of the host. Of a block file
  only the bytes below \<^term>\<open>BLOCK_SIZE\<close> exist. \<open>may_open\<close> says which names the host lets
  \<open>fopen(name, "w")\<close> create.
\<close>

record host =
  disk_prefix :: string
  files :: "string \<Rightarrow> buf option"

text \<open>\<open>sprintf("%d")\<close> of a block number.\<close>

definition digit :: "nat \<Rightarrow> char" where
  "digit n = char_of (48 + n)"

fun decimal :: "nat \<Rightarrow> string" where
  "decimal n = (if n < 10 then [digit n] else decimal (n div 10) @ [digit (n mod 10)])"

declare decimal.simps [simp del]

definition block_name :: "string \<Rightarrow> nat \<Rightarrow> string" where
  "block_name prefix n = prefix @ decimal n"

definition zero_block :: buf where "zero_block = (\<lambda>_. 0)"

text \<open>
  \<open>disk_init\<close>: \<open>fuse_tilde\<close> is the word \<open>fscanf\<close> reads from the file \<open>fuse~\<close>, if that file can be
  opened; it is the path of the Makefile, whose last eight characters are replaced. The prefix
  and the block names have to fit their buffers of 256 characters.
\<close>

definition disk_init :: "(string \<Rightarrow> bool) \<Rightarrow> string option \<Rightarrow> host \<Rightarrow> (int \<times> host) option" where
  "disk_init may_open fuse_tilde h =
     (case fuse_tilde of
        None \<Rightarrow> Some (1, h)
      | Some word \<Rightarrow>
          if length word < 8 \<or> 256 \<le> length word \<or> 256 \<le> length word - 8 + 11 + 5 then None
          else
            let pre = take (length word - 8) word @ ''vdisk/block''
            in after_loop (for_loop 0 BLOCK_NUM
                 (\<lambda>i g. Some (if may_open (block_name pre i)
                    then Next (g\<lparr>files := (files g)(block_name pre i \<mapsto> zero_block)\<rparr>)
                    else Return (1, g)))
                 (h\<lparr>disk_prefix := pre\<rparr>)) (\<lambda>g. Some (0, g)))"

text \<open>
  \<open>disk_read\<close> returns 1 and leaves the caller's buffer alone when the block number is out of
  range. A block file that is not there makes \<open>fopen\<close> return \<open>NULL\<close>, and \<open>fread(NULL)\<close> is
  undefined.
\<close>

definition disk_read :: "host \<Rightarrow> int \<Rightarrow> buf \<Rightarrow> (int \<times> buf) option" where
  "disk_read h block_id buffer =
     (if block_id \<ge> int BLOCK_NUM \<or> block_id < 0 then Some (1, buffer)
      else case files h (block_name (disk_prefix h) (nat block_id)) of
             None \<Rightarrow> None
           | Some content \<Rightarrow> Some (0, content))"

definition disk_write :: "(string \<Rightarrow> bool) \<Rightarrow> host \<Rightarrow> int \<Rightarrow> buf \<Rightarrow> (int \<times> host) option" where
  "disk_write may_open h block_id buffer =
     (if block_id \<ge> int BLOCK_NUM \<or> block_id < 0 then Some (1, h)
      else if may_open (block_name (disk_prefix h) (nat block_id))
      then Some (0, h\<lparr>files := (files h)(block_name (disk_prefix h) (nat block_id) \<mapsto> buffer)\<rparr>)
      else None)"

section \<open>The abstract disk\<close>

text \<open>
  \<open>fs.c\<close> ignores the return codes. Reading a block out of range leaves the buffer as it was,
  which in \<open>fs.c\<close> is always an automatic array nothing was written to: \<^term>\<open>None\<close>, and a function
  that then uses the buffer has no defined behaviour. Writing a block out of range does nothing.
\<close>

type_synonym disk = "nat \<Rightarrow> buf"

definition read_block :: "disk \<Rightarrow> int \<Rightarrow> buf option" where
  "read_block d b = (if b \<ge> int BLOCK_NUM \<or> b < 0 then None else Some (d (nat b)))"

definition write_block :: "disk \<Rightarrow> int \<Rightarrow> buf \<Rightarrow> disk" where
  "write_block d b x = (if b \<ge> int BLOCK_NUM \<or> b < 0 then d else d(nat b := x))"

definition on_disk :: "int \<Rightarrow> bool" where
  "on_disk b \<longleftrightarrow> 0 \<le> b \<and> b < int BLOCK_NUM"

lemma read_block_Some_iff [simp]: "read_block d b = Some x \<longleftrightarrow> on_disk b \<and> x = d (nat b)"
  by (auto simp: read_block_def on_disk_def)

lemma read_block_None_iff [simp]: "read_block d b = None \<longleftrightarrow> \<not> on_disk b"
  by (auto simp: read_block_def on_disk_def)

lemma read_block_on [simp]: "on_disk b \<Longrightarrow> read_block d b = Some (d (nat b))"
  by simp

lemma write_block_on: "on_disk b \<Longrightarrow> write_block d b x = d(nat b := x)"
  by (auto simp: write_block_def on_disk_def)

lemma write_block_off: "\<not> on_disk b \<Longrightarrow> write_block d b x = d"
  by (auto simp: write_block_def on_disk_def)

interpretation blocks: array_store "\<lambda>d b. d (nat b)" write_block on_disk "\<lambda>_. True"
  by unfold_locales (auto simp: write_block_on on_disk_def nat_eq_iff)

section \<open>Refinement: the host files implement the abstract disk\<close>

text \<open>The decimal names of two blocks differ.\<close>

definition digit_value :: "char \<Rightarrow> nat" where
  "digit_value c = of_char c - 48"

definition number_value :: "string \<Rightarrow> nat" where
  "number_value s = fold (\<lambda>c acc. 10 * acc + digit_value c) s 0"

lemma digit_value_digit: "n < 10 \<Longrightarrow> digit_value (digit n) = n"
  by (simp add: digit_value_def digit_def)

lemma number_value_decimal [simp]: "number_value (decimal n) = n"
proof (induction n rule: decimal.induct)
  case (1 n)
  show ?case
  proof (cases "n < 10")
    case True
    then show ?thesis by (subst decimal.simps) (simp add: number_value_def digit_value_digit)
  next
    case False
    with "1.IH" have "number_value (decimal (n div 10)) = n div 10" by simp
    with False show ?thesis
      by (subst decimal.simps) (simp add: number_value_def digit_value_digit)
  qed
qed

lemma decimal_inject [simp]: "decimal m = decimal n \<longleftrightarrow> m = n"
  by (metis number_value_decimal)

lemma block_name_inject [simp]: "block_name p m = block_name p n \<longleftrightarrow> m = n"
  by (simp add: block_name_def)

definition represents :: "host \<Rightarrow> disk \<Rightarrow> bool" where
  "represents h d \<longleftrightarrow> (\<forall>n < BLOCK_NUM. files h (block_name (disk_prefix h) n) = Some (d n))"

lemma disk_read_refines:
  "represents h d \<Longrightarrow> disk_read h b buffer =
     Some (case read_block d b of None \<Rightarrow> (1, buffer) | Some x \<Rightarrow> (0, x))"
  by (auto simp: represents_def disk_read_def read_block_def nat_less_iff)

lemma disk_write_refines:
  assumes "represents h d" and "\<forall>n < BLOCK_NUM. may_open (block_name (disk_prefix h) n)"
  shows "\<exists>h'. disk_write may_open h b x = Some (if on_disk b then 0 else 1, h')
           \<and> disk_prefix h' = disk_prefix h \<and> represents h' (write_block d b x)"
  using assms
  by (auto simp: represents_def disk_write_def write_block_def on_disk_def nat_less_iff)

end
