(* ===== verification/Layout.thy ===== *)
theory Layout
  imports Disk
begin

text \<open>
  The on-disk structures of \<open>fs.c\<close>: \<open>iNode\<close> (128 bytes) and \<open>DictioryContent\<close> (32 bytes), as records
  and as the bytes the x86-64 ABI gives them, and the arrays of 32 inodes, of 128 directory entries
  and of 1024 block numbers that a block of 4096 bytes is cast to.
\<close>

text \<open>\<open>S_IFDIR|0755\<close> and \<open>S_IFREG|0644\<close>.\<close>

definition DIRMODE :: "32 word" where "DIRMODE = 0x4000 OR 0x1ED"
definition REGMODE :: "32 word" where "REGMODE = 0x8000 OR 0x1A4"

abbreviation (input) DerictPointer :: nat where "DerictPointer \<equiv> 12"
abbreviation (input) Main_Direct_Inode_Position :: int where "Main_Direct_Inode_Position \<equiv> 4"

section \<open>The records\<close>

text \<open>
  \<open>st_pad\<close> are the four bytes of padding the compiler puts after \<open>st_mode\<close>; a struct assignment
  copies them with the rest. The field \<open>id\<close> is \<open>inode_id\<close> here.
\<close>

record iNode =
  st_mode :: "32 word"
  st_pad :: "byte list"
  st_nlink :: "64 word"
  st_uid :: "32 word"
  st_gid :: "32 word"
  st_size :: "64 word"
  atime :: "64 word"
  mtime :: "64 word"
  ctime :: "64 word"
  direct_pointer :: "32 word list"
  indirect_pointer :: "32 word list"
  inode_id :: "32 word"
  make_full :: "byte list"

record DictioryContent =
  file_name :: "byte list"
  inode_number :: "32 word"

definition wf_inode :: "iNode \<Rightarrow> bool" where
  "wf_inode n \<longleftrightarrow> length (st_pad n) = 4 \<and> length (direct_pointer n) = 12
     \<and> length (indirect_pointer n) = 2 \<and> length (make_full n) = 12"

definition wf_entry :: "DictioryContent \<Rightarrow> bool" where
  "wf_entry e \<longleftrightarrow> length (file_name e) = 28"

section \<open>Bytes of the records\<close>

definition words_bytes :: "32 word list \<Rightarrow> byte list" where
  "words_bytes ws = concat (map (le_bytes 4) ws)"

fun bytes_words :: "nat \<Rightarrow> byte list \<Rightarrow> 32 word list" where
  "bytes_words 0 bs = []"
| "bytes_words (Suc n) bs = le_word (take 4 bs) # bytes_words n (drop 4 bs)"

definition encode_inode :: "iNode \<Rightarrow> byte list" where
  "encode_inode n = le_bytes 4 (st_mode n) @ st_pad n @ le_bytes 8 (st_nlink n)
     @ le_bytes 4 (st_uid n) @ le_bytes 4 (st_gid n) @ le_bytes 8 (st_size n)
     @ le_bytes 8 (atime n) @ le_bytes 8 (mtime n) @ le_bytes 8 (ctime n)
     @ words_bytes (direct_pointer n) @ words_bytes (indirect_pointer n)
     @ le_bytes 4 (inode_id n) @ make_full n"

definition decode_inode :: "byte list \<Rightarrow> iNode" where
  "decode_inode bs = \<lparr>
     st_mode = le_word (take 4 bs),
     st_pad = take 4 (drop 4 bs),
     st_nlink = le_word (take 8 (drop 8 bs)),
     st_uid = le_word (take 4 (drop 16 bs)),
     st_gid = le_word (take 4 (drop 20 bs)),
     st_size = le_word (take 8 (drop 24 bs)),
     atime = le_word (take 8 (drop 32 bs)),
     mtime = le_word (take 8 (drop 40 bs)),
     ctime = le_word (take 8 (drop 48 bs)),
     direct_pointer = bytes_words 12 (drop 56 bs),
     indirect_pointer = bytes_words 2 (drop 104 bs),
     inode_id = le_word (take 4 (drop 112 bs)),
     make_full = take 12 (drop 116 bs)\<rparr>"

definition encode_entry :: "DictioryContent \<Rightarrow> byte list" where
  "encode_entry e = file_name e @ le_bytes 4 (inode_number e)"

definition decode_entry :: "byte list \<Rightarrow> DictioryContent" where
  "decode_entry bs = \<lparr>file_name = take 28 bs, inode_number = le_word (take 4 (drop 28 bs))\<rparr>"

lemma length_words_bytes [simp]: "length (words_bytes ws) = 4 * length ws"
  by (induction ws) (auto simp: words_bytes_def)

lemma length_bytes_words [simp]: "length (bytes_words n bs) = n"
  by (induction n arbitrary: bs) auto

lemma bytes_words_words_bytes [simp]:
  "length ws = n \<Longrightarrow> bytes_words n (words_bytes ws @ rest) = ws"
  by (induction n arbitrary: ws) (auto simp: words_bytes_def length_Suc_conv)

lemma length_encode_inode [simp]: "wf_inode n \<Longrightarrow> length (encode_inode n) = 128"
  by (simp add: encode_inode_def wf_inode_def)

lemma length_encode_entry [simp]: "wf_entry e \<Longrightarrow> length (encode_entry e) = 32"
  by (simp add: encode_entry_def wf_entry_def)

lemma wf_decode_inode [simp]: "length bs = 128 \<Longrightarrow> wf_inode (decode_inode bs)"
  by (simp add: decode_inode_def wf_inode_def)

lemma wf_decode_entry [simp]: "length bs = 32 \<Longrightarrow> wf_entry (decode_entry bs)"
  by (simp add: decode_entry_def wf_entry_def)

lemma decode_encode_inode [simp]:
  assumes "wf_inode n"
  shows "decode_inode (encode_inode n) = n"
  using assms by (simp add: decode_inode_def encode_inode_def wf_inode_def)

lemma decode_encode_entry [simp]: "wf_entry e \<Longrightarrow> decode_entry (encode_entry e) = e"
  by (simp add: decode_entry_def encode_entry_def wf_entry_def)

lemma encode_decode_entry: "length bs = 32 \<Longrightarrow> encode_entry (decode_entry bs) = bs"
proof -
  assume l: "length bs = 32"
  then have "le_bytes 4 (le_word (drop 28 bs) :: 32 word) = drop 28 bs"
    using le_bytes_le_word [of "drop 28 bs", where 'a = 32] by simp
  with l show ?thesis by (simp add: encode_entry_def decode_entry_def)
qed

section \<open>Arrays of records over a block\<close>

definition get_inode :: "buf \<Rightarrow> nat \<Rightarrow> iNode" where
  "get_inode b i = decode_inode (load_bytes b (128 * i) 128)"

definition put_inode :: "buf \<Rightarrow> nat \<Rightarrow> iNode \<Rightarrow> buf" where
  "put_inode b i n = store_bytes b (128 * i) (encode_inode n)"

definition get_entry :: "buf \<Rightarrow> nat \<Rightarrow> DictioryContent" where
  "get_entry b j = decode_entry (load_bytes b (32 * j) 32)"

definition put_entry :: "buf \<Rightarrow> nat \<Rightarrow> DictioryContent \<Rightarrow> buf" where
  "put_entry b j e = store_bytes b (32 * j) (encode_entry e)"

lemma wf_get_inode [simp]: "wf_inode (get_inode b i)"
  by (simp add: get_inode_def)

lemma wf_get_entry [simp]: "wf_entry (get_entry b j)"
  by (simp add: get_entry_def)

interpretation inode_array: array_store get_inode put_inode "\<lambda>i. i < 32" wf_inode
  by unfold_locales (auto simp: get_inode_def put_inode_def load_store_same load_store_cell)

interpretation entry_array: array_store get_entry put_entry "\<lambda>j. j < 128" wf_entry
  by unfold_locales (auto simp: get_entry_def put_entry_def load_store_same load_store_cell)

end
