(* ===== verification/Bitmap.thy ===== *)
theory Bitmap
  imports Layout
begin

text \<open>
  The allocation bitmaps of \<open>fs.c\<close>: block 1 has one bit per inode, blocks 2 and 3 one bit per data
  block, the most significant bit of a byte first. The code scans them for the first clear bit, sets
  a bit (\<open>make_..._covered\<close>) and is meant to clear it (\<open>make_..._uncovered\<close>).
\<close>

section \<open>The code\<close>

definition bit_map_mask :: "byte list" where
  "bit_map_mask = [128, 64, 32, 16, 8, 4, 2, 1]"

definition uncover_data_block :: "byte list" where
  "uncover_data_block = [127, 191, 223, 239, 247, 251, 253, 254]"

text \<open>The two nested loops over the bytes and bits of one block; the state is \<open>number\<close>.\<close>

definition scan_map :: "buf \<Rightarrow> nat \<Rightarrow> (nat, int) flow option" where
  "scan_map buffer number =
     for_loop 0 4096
       (\<lambda>j. for_loop 0 8
         (\<lambda>k number. Some (if buffer j AND bit_map_mask ! k = 0
                           then Return (int number) else Next (number + 1))))
       number"

definition find_empty_inode :: "disk \<Rightarrow> int option" where
  "find_empty_inode d = do {
     buffer \<leftarrow> read_block d 1;
     after_loop (scan_map buffer 0) (\<lambda>_. Some 0)
   }"

definition find_empty_datablock :: "disk \<Rightarrow> int option" where
  "find_empty_datablock d =
     after_loop
       (for_loop 2 4 (\<lambda>i number. do { buffer \<leftarrow> read_block d (int i); scan_map buffer number }) 0)
       (\<lambda>_. Some 0)"

text \<open>
  Setting a bit: \<open>bias\<close> and \<open>index\<close> are in range exactly for the numbers the block has a bit for;
  outside, the code indexes \<open>buffer\<close> or the mask out of range.
\<close>

definition or_bit :: "byte list \<Rightarrow> disk \<Rightarrow> int \<Rightarrow> int \<Rightarrow> disk option" where
  "or_bit masks d blk_id n =
     (if 0 \<le> n \<and> n < 32768 then do {
        buffer \<leftarrow> read_block d blk_id;
        let bias = nat n div 8;
        let index = nat n mod 8;
        Some (write_block d blk_id (buffer(bias := buffer bias OR masks ! index)))
      } else None)"

definition make_inode_map_covered :: "disk \<Rightarrow> int \<Rightarrow> disk option" where
  "make_inode_map_covered d n = or_bit bit_map_mask d 1 n"

definition make_inode_map_uncovered :: "disk \<Rightarrow> int \<Rightarrow> disk option" where
  "make_inode_map_uncovered d n = or_bit uncover_data_block d 1 n"

definition make_data_map_covered :: "disk \<Rightarrow> int \<Rightarrow> disk option" where
  "make_data_map_covered d data_block_number =
     (if data_block_number \<ge> 32768
      then or_bit bit_map_mask d 3 (data_block_number - 32768)
      else or_bit bit_map_mask d 2 data_block_number)"

definition make_data_map_uncovered :: "disk \<Rightarrow> int \<Rightarrow> disk option" where
  "make_data_map_uncovered d data_block_number =
     (if data_block_number \<ge> 32768
      then or_bit uncover_data_block d 3 (data_block_number - 32768)
      else or_bit uncover_data_block d 2 data_block_number)"

definition datablock_find_disk_id :: "int \<Rightarrow> int" where
  "datablock_find_disk_id data_block_number = 1028 + data_block_number"

section \<open>The bits of a bitmap\<close>

text \<open>The number of bits in one block.\<close>

definition MAP_BITS :: nat where "MAP_BITS = 32768"

definition map_bit :: "buf \<Rightarrow> nat \<Rightarrow> bool" where
  "map_bit b n \<longleftrightarrow> bit (b (n div 8)) (7 - n mod 8)"

definition inode_used :: "disk \<Rightarrow> nat \<Rightarrow> bool" where
  "inode_used d n \<longleftrightarrow> map_bit (d 1) n"

definition data_used :: "disk \<Rightarrow> nat \<Rightarrow> bool" where
  "data_used d n \<longleftrightarrow> map_bit (d (if n < MAP_BITS then 2 else 3)) (n mod MAP_BITS)"

lemma lt8_cases: "k < (8::nat) \<Longrightarrow> k = 0 \<or> k = 1 \<or> k = 2 \<or> k = 3 \<or> k = 4 \<or> k = 5 \<or> k = 6 \<or> k = 7"
  by arith

lemma bit_map_mask_nth: "k < 8 \<Longrightarrow> bit_map_mask ! k = push_bit (7 - k) 1"
  by (drule lt8_cases) (auto simp: bit_map_mask_def)

lemma uncover_nth: "k < 8 \<Longrightarrow> uncover_data_block ! k = NOT (push_bit (7 - k) 1)"
  by (drule lt8_cases) (auto simp: uncover_data_block_def)

lemma mask_test: "k < 8 \<Longrightarrow> (b AND bit_map_mask ! k = 0) = (\<not> bit b (7 - k))"
  by (simp add: bit_map_mask_nth bit_iff_and_push_bit_not_eq_0)

lemma bit_or_mask:
  "k < 8 \<Longrightarrow> i < 8 \<Longrightarrow> bit (b OR bit_map_mask ! k) (7 - i) = (i = k \<or> bit b (7 - i))"
  by (auto simp: bit_map_mask_nth bit_simps)

lemma bit_or_uncover:
  "k < 8 \<Longrightarrow> i < 8 \<Longrightarrow> bit ((b::byte) OR uncover_data_block ! k) (7 - i) = (i \<noteq> k \<or> bit b (7 - i))"
  by (auto simp: uncover_nth bit_simps)

section \<open>Finding a free number\<close>

lemma scan_map_eq:
  "scan_map b base = Some (case List.find (\<lambda>n. \<not> map_bit b n) [0..<MAP_BITS] of
      Some n \<Rightarrow> Return (int (base + n)) | None \<Rightarrow> Next (base + MAP_BITS))"
proof -
  have "for_loop 0 4096
       (\<lambda>j. for_loop 0 8 (\<lambda>k number. Some (if b j AND bit_map_mask ! k = 0
            then Return (int number) else Next (number + 1)))) (base + 0 * 8) =
     Some (case List.find (\<lambda>n. \<not> map_bit b n) [0 * 8..<4096 * 8] of
        Some n \<Rightarrow> Return (int (base + n)) | None \<Rightarrow> Next (base + 4096 * 8))"
    by (rule for_loop_nested_search [where st = "\<lambda>m. base + m"])
      (auto simp: mask_test map_bit_def)
  moreover have "MAP_BITS = 4096 * 8" by (simp add: MAP_BITS_def)
  ultimately show ?thesis by (simp only: scan_map_def mult_0 add_0_right)
qed

lemma on_disk_small [simp]: "on_disk 0" "on_disk 1" "on_disk 2" "on_disk 3"
  by (simp_all add: on_disk_def BLOCK_NUM_def)

lemma find_empty_inode_eq:
  "find_empty_inode d = Some (case List.find (\<lambda>n. \<not> inode_used d n) [0..<MAP_BITS] of
      Some n \<Rightarrow> int n | None \<Rightarrow> 0)"
  by (simp add: find_empty_inode_def scan_map_eq inode_used_def split: option.split)

lemma find_data_split:
  "List.find (\<lambda>n. \<not> data_used d n) [0..<(2 * MAP_BITS)] =
     (case List.find (\<lambda>n. \<not> map_bit (d 2) n) [0..<MAP_BITS] of
        Some n \<Rightarrow> Some n
      | None \<Rightarrow> map_option (\<lambda>n. n + MAP_BITS) (List.find (\<lambda>n. \<not> map_bit (d 3) n) [0..<MAP_BITS]))"
proof -
  have low: "List.find (\<lambda>n. \<not> data_used d n) [0..<MAP_BITS] = List.find (\<lambda>n. \<not> map_bit (d 2) n) [0..<MAP_BITS]"
    by (rule find_cong) (auto simp: data_used_def)
  have "List.find (\<lambda>n. \<not> data_used d n) [MAP_BITS..<(2 * MAP_BITS)]
      = map_option (\<lambda>n. n + MAP_BITS) (List.find (\<lambda>n. \<not> data_used d (n + MAP_BITS)) [0..<MAP_BITS])"
    using find_upt_shift [of "\<lambda>n. \<not> data_used d n" 0 MAP_BITS MAP_BITS] by (simp add: mult_2)
  moreover have "List.find (\<lambda>n. \<not> data_used d (n + MAP_BITS)) [0..<MAP_BITS]
      = List.find (\<lambda>n. \<not> map_bit (d 3) n) [0..<MAP_BITS]"
    by (rule find_cong) (auto simp: data_used_def)
  ultimately show ?thesis
    using find_upt_split [of 0 MAP_BITS "2 * MAP_BITS" "\<lambda>n. \<not> data_used d n"] low by (simp split: option.split)
qed

lemma find_empty_datablock_eq:
  "find_empty_datablock d = Some (case List.find (\<lambda>n. \<not> data_used d n) [0..<(2 * MAP_BITS)] of
      Some n \<Rightarrow> int n | None \<Rightarrow> 0)"
  by (simp add: find_empty_datablock_def for_loop_step scan_map_eq find_data_split
      split: option.split)

section \<open>Setting bits\<close>

lemma map_bit_or:
  assumes "\<And>b k i. k < 8 \<Longrightarrow> i < 8 \<Longrightarrow> bit (b OR masks ! k) (7 - i) = (C i k \<or> bit b (7 - i))"
  shows "map_bit (b(n div 8 := b (n div 8) OR masks ! (n mod 8))) m
    = (m div 8 = n div 8 \<and> C (m mod 8) (n mod 8) \<or> map_bit b m)"
  using assms by (auto simp: map_bit_def)

lemma div_mod_8_eq_iff: "m div 8 = n div 8 \<and> m mod 8 = n mod 8 \<longleftrightarrow> m = (n::nat)"
  by (metis div_mult_mod_eq)

lemma map_bit_cover [simp]:
  "map_bit (b(n div 8 := b (n div 8) OR bit_map_mask ! (n mod 8))) m = (m = n \<or> map_bit b m)"
  by (subst map_bit_or [where C = "\<lambda>i k. i = k"]) (simp_all only: bit_or_mask div_mod_8_eq_iff)

lemma map_bit_uncover [simp]:
  "map_bit (b(n div 8 := b (n div 8) OR uncover_data_block ! (n mod 8))) m
     = (m div 8 = n div 8 \<and> m \<noteq> n \<or> map_bit b m)"
  by (subst map_bit_or [where C = "\<lambda>i k. i \<noteq> k"]) (auto simp: bit_or_uncover, metis div_mult_mod_eq)

text \<open>What the four operations do to the disk: one byte of one bitmap block.\<close>

definition set_bit_in :: "byte list \<Rightarrow> disk \<Rightarrow> nat \<Rightarrow> nat \<Rightarrow> disk" where
  "set_bit_in masks d blk n =
     d(blk := (d blk)(n div 8 := d blk (n div 8) OR masks ! (n mod 8)))"

lemma or_bit_eq:
  "on_disk b \<Longrightarrow> or_bit masks d b n =
     (if 0 \<le> n \<and> n < int MAP_BITS then Some (set_bit_in masks d (nat b) (nat n)) else None)"
  by (simp add: or_bit_def set_bit_in_def write_block_on Let_def MAP_BITS_def)

lemma make_inode_map_covered_eq:
  "n < MAP_BITS \<Longrightarrow> make_inode_map_covered d (int n) = Some (set_bit_in bit_map_mask d 1 n)"
  by (simp add: make_inode_map_covered_def or_bit_eq)

lemma make_inode_map_uncovered_eq:
  "n < MAP_BITS \<Longrightarrow> make_inode_map_uncovered d (int n) = Some (set_bit_in uncover_data_block d 1 n)"
  by (simp add: make_inode_map_uncovered_def or_bit_eq)

definition data_map_block :: "nat \<Rightarrow> nat" where
  "data_map_block n = (if n < MAP_BITS then 2 else 3)"

lemma make_data_map_covered_eq:
  "n < 2 * MAP_BITS \<Longrightarrow> make_data_map_covered d (int n) =
     Some (set_bit_in bit_map_mask d (data_map_block n) (n mod MAP_BITS))"
  by (auto simp: make_data_map_covered_def or_bit_eq data_map_block_def MAP_BITS_def mod_if
      intro!: arg_cong2 [where f = "set_bit_in bit_map_mask d"])

lemma make_data_map_uncovered_eq:
  "n < 2 * MAP_BITS \<Longrightarrow> make_data_map_uncovered d (int n) =
     Some (set_bit_in uncover_data_block d (data_map_block n) (n mod MAP_BITS))"
  by (auto simp: make_data_map_uncovered_def or_bit_eq data_map_block_def MAP_BITS_def mod_if
      intro!: arg_cong2 [where f = "set_bit_in uncover_data_block d"])

lemma inode_used_cover [simp]:
  "inode_used (set_bit_in bit_map_mask d (Suc 0) n) k = (k = n \<or> inode_used d k)"
  by (simp add: inode_used_def set_bit_in_def)

lemma inode_used_uncover [simp]:
  "inode_used (set_bit_in uncover_data_block d (Suc 0) n) k
     = (k div 8 = n div 8 \<and> k \<noteq> n \<or> inode_used d k)"
  by (simp add: inode_used_def set_bit_in_def)

lemma mod_MAP_BITS: "n < 2 * MAP_BITS \<Longrightarrow> n mod MAP_BITS = (if n < MAP_BITS then n else n - MAP_BITS)"
  by (simp add: mod_if [of n] mod_if [of "n - MAP_BITS"])

lemma data_used_cover:
  "n < 2 * MAP_BITS \<Longrightarrow> k < 2 * MAP_BITS \<Longrightarrow>
   data_used (set_bit_in bit_map_mask d (data_map_block n) (n mod MAP_BITS)) k
     = (k = n \<or> data_used d k)"
  by (auto simp: data_used_def set_bit_in_def data_map_block_def mod_MAP_BITS)

lemma div_8_MAP_BITS:
  "MAP_BITS \<le> n \<Longrightarrow> n div 8 = (n - MAP_BITS) div 8 + 4096"
  "k < MAP_BITS \<Longrightarrow> k div 8 < 4096"
  by (auto simp: MAP_BITS_def)

lemma data_used_uncover:
  assumes "n < 2 * MAP_BITS" and "k < 2 * MAP_BITS"
  shows "data_used (set_bit_in uncover_data_block d (data_map_block n) (n mod MAP_BITS)) k
     = (k div 8 = n div 8 \<and> k \<noteq> n \<or> data_used d k)"
proof (cases "(n < MAP_BITS) = (k < MAP_BITS)")
  case True
  with assms show ?thesis
    by (auto simp: data_used_def set_bit_in_def data_map_block_def mod_MAP_BITS
        div_8_MAP_BITS(1) [of n] div_8_MAP_BITS(1) [of k])
next
  case False
  then have "k div 8 \<noteq> n div 8"
    using div_8_MAP_BITS(1) [of n] div_8_MAP_BITS(1) [of k] div_8_MAP_BITS(2) [of n]
      div_8_MAP_BITS(2) [of k] by (cases "n < MAP_BITS") auto
  with False show ?thesis
    by (auto simp: data_used_def set_bit_in_def data_map_block_def)
qed

lemma set_bit_in_other [simp]: "b \<noteq> blk \<Longrightarrow> set_bit_in masks d blk n b = d b"
  by (simp add: set_bit_in_def)

section \<open>The allocators\<close>

text \<open>
  What the rest of \<open>fs.c\<close> relies on when it calls \<open>find_empty_...\<close> and then \<open>make_..._covered\<close>.
  \<open>used\<close> is the abstract allocation state, \<open>cap\<close> the number of bits.
\<close>

locale allocator =
  fixes find_free :: "'m \<Rightarrow> int option"
    and cover :: "'m \<Rightarrow> int \<Rightarrow> 'm option"
    and used :: "'m \<Rightarrow> nat \<Rightarrow> bool"
    and cap :: nat
  assumes find_free_least:
      "n < cap \<Longrightarrow> \<not> used m n \<Longrightarrow> (\<And>k. k < n \<Longrightarrow> used m k) \<Longrightarrow> find_free m = Some (int n)"
    and find_free_full: "(\<And>n. n < cap \<Longrightarrow> used m n) \<Longrightarrow> find_free m = Some 0"
    and cover_used: "n < cap \<Longrightarrow>
      \<exists>m'. cover m (int n) = Some m' \<and> (\<forall>k < cap. used m' k \<longleftrightarrow> k = n \<or> used m k)"
begin

lemma find_free_fresh:
  assumes "n < cap" and "\<not> used m n"
  shows "\<exists>k. find_free m = Some (int k) \<and> k \<le> n \<and> \<not> used m k"
proof -
  let ?k = "LEAST k. \<not> used m k"
  have free: "\<not> used m ?k" using assms(2) by (rule LeastI)
  have le: "?k \<le> n" using assms(2) by (rule Least_le)
  have "find_free m = Some (int ?k)"
    using free le assms(1) not_less_Least by (intro find_free_least) auto
  with free le show ?thesis by blast
qed

text \<open>Find and mark: a fresh number, marked, and nothing else changed.\<close>

lemma allocate:
  assumes "n < cap" and "\<not> used m n"
  shows "\<exists>k m'. find_free m = Some (int k) \<and> cover m (int k) = Some m' \<and> k \<le> n \<and> \<not> used m k
           \<and> (\<forall>j < cap. used m' j \<longleftrightarrow> j = k \<or> used m j)"
proof -
  from find_free_fresh [OF assms] obtain k where
    k: "find_free m = Some (int k)" "k \<le> n" "\<not> used m k" by blast
  with assms(1) have "k < cap" by simp
  from cover_used [OF this] k show ?thesis by blast
qed

text \<open>Two allocations in a row never return the same number.\<close>

lemma allocate_distinct:
  assumes "find_free m = Some (int k)" and "k < cap" and "cover m (int k) = Some m'"
    and "n < cap" and "\<not> used m' n" and "find_free m' = Some (int k')"
  shows "k' \<noteq> k"
proof
  assume "k' = k"
  from find_free_fresh [OF assms(4,5)] assms(6) have "\<not> used m' k'" by auto
  moreover from cover_used [OF assms(2), of m] assms(2,3) have "used m' k" by auto
  ultimately show False using \<open>k' = k\<close> by simp
qed

end

interpretation inode_alloc: allocator find_empty_inode make_inode_map_covered inode_used MAP_BITS
proof unfold_locales
  fix n and m :: disk
  assume "n < MAP_BITS" "\<not> inode_used m n" "\<And>k. k < n \<Longrightarrow> inode_used m k"
  then have "List.find (\<lambda>n. \<not> inode_used m n) [0..<MAP_BITS] = Some n"
    by (intro find_upt_least) auto
  then show "find_empty_inode m = Some (int n)" by (simp add: find_empty_inode_eq)
next
  fix m :: disk
  assume "\<And>n. n < MAP_BITS \<Longrightarrow> inode_used m n"
  then have "List.find (\<lambda>n. \<not> inode_used m n) [0..<MAP_BITS] = None"
    by (simp add: find_upt_None)
  then show "find_empty_inode m = Some 0" by (simp add: find_empty_inode_eq)
qed (simp add: make_inode_map_covered_eq)

interpretation data_alloc: allocator find_empty_datablock make_data_map_covered data_used "2 * MAP_BITS"
proof unfold_locales
  fix n and m :: disk
  assume "n < 2 * MAP_BITS" "\<not> data_used m n" "\<And>k. k < n \<Longrightarrow> data_used m k"
  then have "List.find (\<lambda>n. \<not> data_used m n) [0..<2 * MAP_BITS] = Some n"
    by (intro find_upt_least) auto
  then show "find_empty_datablock m = Some (int n)" by (simp add: find_empty_datablock_eq)
next
  fix m :: disk
  assume "\<And>n. n < 2 * MAP_BITS \<Longrightarrow> data_used m n"
  then have "List.find (\<lambda>n. \<not> data_used m n) [0..<2 * MAP_BITS] = None"
    by (simp add: find_upt_None)
  then show "find_empty_datablock m = Some 0" by (simp add: find_empty_datablock_eq)
qed (simp add: make_data_map_covered_eq data_used_cover)

end
