(* ===== verification/Inodes.thy ===== *)
theory Inodes
  imports Bitmap
begin

text \<open>
  The inode table of \<open>fs.c\<close> (32 inodes in each of the blocks 4 to 1027), the initialisation of the
  file system (\<open>mkfs\<close>) and the allocation of a new inode.
\<close>

text \<open>
  What the code asks the system for: the caller's ids and the time. One operation runs within one
  second of \<open>time(NULL)\<close>.
\<close>

record env =
  getuid :: "32 word"
  getgid :: "32 word"
  time_now :: "64 word"

section \<open>The code\<close>

text \<open>\<open>/\<close> and \<open>%\<close> of C truncate towards zero.\<close>

definition inode_find_disk_id_and_index_in_disk :: "int \<Rightarrow> int \<times> int" where
  "inode_find_disk_id_and_index_in_disk n =
     (let disk_index = n sdiv 32; index = n smod 32; disk_id = 4 + disk_index
      in (index, disk_id))"

text \<open>
  Reading and writing \<open>buffer_inode[index]\<close>: an index below 0 is out of the array's bounds.
\<close>

definition inode_at :: "buf \<Rightarrow> int \<Rightarrow> iNode option" where
  "inode_at buffer index = (if 0 \<le> index \<and> index < 32 then Some (get_inode buffer (nat index)) else None)"

definition set_inode_at :: "buf \<Rightarrow> int \<Rightarrow> iNode \<Rightarrow> buf option" where
  "set_inode_at buffer index n =
     (if 0 \<le> index \<and> index < 32 then Some (put_inode buffer (nat index) n) else None)"

definition just_read_inode_from_disk :: "disk \<Rightarrow> int \<Rightarrow> iNode option" where
  "just_read_inode_from_disk d n =
     (let (index, disk_id) = inode_find_disk_id_and_index_in_disk n
      in do { buffer_inode \<leftarrow> read_block d disk_id; inode_at buffer_inode index })"

definition repalce_iNode_according_to_disk_number :: "disk \<Rightarrow> int \<Rightarrow> iNode \<Rightarrow> disk option" where
  "repalce_iNode_according_to_disk_number d n new_file_node =
     (let (index, disk_id) = inode_find_disk_id_and_index_in_disk n
      in do {
        buffer_inode \<leftarrow> read_block d disk_id;
        buffer_inode' \<leftarrow> set_inode_at buffer_inode index new_file_node;
        Some (write_block d disk_id buffer_inode')
      })"

definition initial_superblock :: "disk \<Rightarrow> disk" where
  "initial_superblock d = write_block d 0 zero_block"

definition initial_inode_map :: "disk \<Rightarrow> disk" where
  "initial_inode_map d = write_block d 1 zero_block"

text \<open>
  The buffer here has 4069 bytes (not 4096), and \<open>disk_write\<close> copies 4096: the last 27 bytes of
  each block are whatever lies behind the array, \<open>stack3\<close> when block 3 is written and \<open>stack2\<close> when
  block 2 is.
\<close>

definition initial_datablock_map :: "buf \<Rightarrow> buf \<Rightarrow> disk \<Rightarrow> disk" where
  "initial_datablock_map stack3 stack2 d =
     (let buffer = (\<lambda>_. 0);
          d' = write_block d 3 (\<lambda>i. if i < 4069 then buffer i else stack3 i);
          buffer' = buffer(0 := 240)
      in write_block d' 2 (\<lambda>i. if i < 4069 then buffer' i else stack2 i))"

text \<open>\<open>give_the_value_to_inode\<close> and the two \<open>apply_a_new_inode\<close> fill in the same fields.\<close>

definition give_the_value_to_inode :: "env \<Rightarrow> iNode \<Rightarrow> iNode" where
  "give_the_value_to_inode e n = n\<lparr>
     st_mode := DIRMODE, st_nlink := 1, st_uid := getuid e, st_gid := getgid e, st_size := 0,
     atime := time_now e, mtime := time_now e, ctime := time_now e\<rparr>"

definition mkfs :: "env \<Rightarrow> buf \<Rightarrow> buf \<Rightarrow> disk \<Rightarrow> (int \<times> disk) option" where
  "mkfs e stack3 stack2 d = do {
     let d1 = initial_datablock_map stack3 stack2 (initial_inode_map (initial_superblock d));
     d2 \<leftarrow> make_inode_map_covered d1 Main_Direct_Inode_Position;
     let (index, disk_id) = inode_find_disk_id_and_index_in_disk Main_Direct_Inode_Position;
     buffer_inode \<leftarrow> read_block d2 disk_id;
     n \<leftarrow> inode_at buffer_inode index;
     buffer_inode' \<leftarrow> set_inode_at buffer_inode index (give_the_value_to_inode e n);
     Some (0, write_block d2 disk_id buffer_inode')
   }"

definition apply_a_new_inode_and_initial :: "env \<Rightarrow> disk \<Rightarrow> (int \<times> disk) option" where
  "apply_a_new_inode_and_initial e d = do {
     new_inode_number \<leftarrow> find_empty_inode d;
     d1 \<leftarrow> make_inode_map_covered d new_inode_number;
     let (index, disk_id) = inode_find_disk_id_and_index_in_disk new_inode_number;
     inode_buffer \<leftarrow> read_block d1 disk_id;
     n \<leftarrow> inode_at inode_buffer index;
     inode_buffer' \<leftarrow> set_inode_at inode_buffer index (n\<lparr>
       st_mode := REGMODE, st_nlink := 1, st_uid := getuid e, st_gid := getgid e, st_size := 0,
       atime := time_now e, mtime := time_now e, ctime := time_now e,
       inode_id := word32_of new_inode_number\<rparr>);
     Some (new_inode_number, write_block d1 disk_id inode_buffer')
   }"

definition apply_a_new_inode_and_initial_as_dict :: "env \<Rightarrow> disk \<Rightarrow> (int \<times> disk) option" where
  "apply_a_new_inode_and_initial_as_dict e d = do {
     new_inode_number \<leftarrow> find_empty_inode d;
     d1 \<leftarrow> make_inode_map_covered d new_inode_number;
     let (index, disk_id) = inode_find_disk_id_and_index_in_disk new_inode_number;
     inode_buffer \<leftarrow> read_block d1 disk_id;
     n \<leftarrow> inode_at inode_buffer index;
     inode_buffer' \<leftarrow> set_inode_at inode_buffer index (n\<lparr>
       st_mode := DIRMODE, st_nlink := 1, st_uid := getuid e, st_gid := getgid e, st_size := 0,
       atime := time_now e, mtime := time_now e, ctime := time_now e,
       inode_id := word32_of new_inode_number\<rparr>);
     Some (new_inode_number, write_block d1 disk_id inode_buffer')
   }"

section \<open>The inode table is an array\<close>

definition INODES :: nat where "INODES = 32768"

definition inode_block :: "nat \<Rightarrow> nat" where "inode_block n = 4 + n div 32"

definition inode_of :: "disk \<Rightarrow> nat \<Rightarrow> iNode" where
  "inode_of d n = get_inode (d (inode_block n)) (n mod 32)"

definition set_inode :: "disk \<Rightarrow> nat \<Rightarrow> iNode \<Rightarrow> disk" where
  "set_inode d n x = d(inode_block n := put_inode (d (inode_block n)) (n mod 32) x)"

lemma inode_block_on_disk [simp]: "n < INODES \<Longrightarrow> on_disk (int (inode_block n))"
  by (auto simp: on_disk_def BLOCK_NUM_def INODES_def inode_block_def)

lemma inode_block_range: "n < INODES \<Longrightarrow> 4 \<le> inode_block n \<and> inode_block n < 1028"
  by (auto simp: INODES_def inode_block_def)

interpretation inode_table: nested_store
  "\<lambda>d b. d (nat b)" write_block on_disk "\<lambda>_. True"
  get_inode put_inode "\<lambda>i. i < 32" wf_inode
  "\<lambda>n. int (inode_block n)" "\<lambda>n. n mod 32" "\<lambda>n. n < INODES"
proof unfold_locales
  fix i j :: nat
  assume "int (inode_block i) = int (inode_block j)" and "i mod 32 = j mod 32"
  then show "i = j" by (metis inode_block_def add_left_cancel div_mult_mod_eq of_nat_eq_iff)
qed auto

lemma find_index_eq:
  "inode_find_disk_id_and_index_in_disk (int n) = (int (n mod 32), int (inode_block n))"
  by (cases "n = 0") (simp_all add: inode_find_disk_id_and_index_in_disk_def inode_block_def
      signed_divide_int_def signed_modulo_int_def zdiv_int zmod_int)

lemma inode_at_eq: "i < 32 \<Longrightarrow> inode_at b (int i) = Some (get_inode b i)"
  by (simp add: inode_at_def)

lemma set_inode_at_eq: "i < 32 \<Longrightarrow> set_inode_at b (int i) x = Some (put_inode b i x)"
  by (simp add: set_inode_at_def)

lemma just_read_inode_eq:
  "n < INODES \<Longrightarrow> just_read_inode_from_disk d (int n) = Some (inode_of d n)"
  by (simp add: just_read_inode_from_disk_def find_index_eq inode_at_eq inode_of_def del: of_nat_mod)

lemma replace_inode_eq:
  "n < INODES \<Longrightarrow> repalce_iNode_according_to_disk_number d (int n) x = Some (set_inode d n x)"
  by (simp add: repalce_iNode_according_to_disk_number_def find_index_eq set_inode_at_eq set_inode_def
      write_block_on del: of_nat_mod)

lemma inode_of_set_inode:
  "n < INODES \<Longrightarrow> m < INODES \<Longrightarrow> wf_inode x \<Longrightarrow>
   inode_of (set_inode d n x) m = (if n = m then x else inode_of d m)"
  using inode_table.nested.get_put [of n m x d]
  by (simp only: inode_of_def set_inode_def write_block_on inode_block_on_disk nat_int)

lemma wf_inode_of [simp]: "wf_inode (inode_of d n)"
  by (simp add: inode_of_def)

lemma set_inode_other_block [simp]:
  "b \<noteq> inode_block n \<Longrightarrow> set_inode d n x b = d b"
  by (simp add: set_inode_def)

end
