(* ===== verification/Dirs.thy ===== *)
theory Dirs
  imports Inodes
begin

text \<open>
  Directories of \<open>fs.c\<close>: a directory's data blocks are arrays of 128 entries of 32 bytes, \<open>st_size / 32\<close>
  entries in all, reached through 12 direct pointers and two indirect blocks. Lookup of a name,
  appending an entry, reading, overwriting and deleting the entry of a given rank.
\<close>

abbreviation (input) ENOENT :: int where "ENOENT \<equiv> 2"
abbreviation (input) ENOSPC :: int where "ENOSPC \<equiv> 28"

section \<open>The code: looking a name up\<close>

definition get_min :: "int \<Rightarrow> int \<Rightarrow> int" where
  "get_min a b = (if a > b then b else a)"

definition same_name :: "byte list \<Rightarrow> DictioryContent \<Rightarrow> int option" where
  "same_name son_name name_we_get =
     after_loop (for_loop 0 28
       (\<lambda>i s. Some (if son_name ! i \<noteq> file_name name_we_get ! i then Return 0 else Next s)) ())
       (\<lambda>_. Some 1)"

text \<open>A data block by the number stored in an inode or in an index block.\<close>

definition data_block :: "disk \<Rightarrow> 32 word \<Rightarrow> buf option" where
  "data_block d p = read_block d (datablock_find_disk_id (sint p))"

text \<open>
  \<open>file_size\<close> counts entries. The block is read before the first comparison with \<open>file_size\<close>, so a
  block that cannot be read is harmless if no entry of it is looked at. The function has no \<open>return\<close>
  after the loop, and its caller uses the value: falling out of the loop is \<^term>\<open>None\<close>.
\<close>

definition compare_entry ::
  "int \<Rightarrow> byte list \<Rightarrow> buf option \<Rightarrow> nat \<Rightarrow> nat \<Rightarrow> (nat, int) flow option" where
  "compare_entry file_size son_name file_name_buffer j visited_file =
     (if int visited_file \<ge> file_size then Some (Return (- ENOENT))
      else do {
        b \<leftarrow> file_name_buffer;
        same \<leftarrow> same_name son_name (get_entry b j);
        Some (if same \<noteq> 0 then Return (sint (inode_number (get_entry b j)))
              else Next (visited_file + 1))
      })"

definition visited_directly_to_get_file :: "disk \<Rightarrow> int \<Rightarrow> iNode \<Rightarrow> byte list \<Rightarrow> int option" where
  "visited_directly_to_get_file d file_size father_inode son_name = (
     let disk_size = get_min (file_size sdiv 128 + 1) (int DerictPointer)
     in after_loop (for_loop 0 (nat disk_size)
          (\<lambda>i. let file_name_buffer = data_block d (direct_pointer father_inode ! i)
               in for_loop 0 128 (compare_entry file_size son_name file_name_buffer))
          0) (\<lambda>_. None))"

text \<open>
  The search through an indirect block. On a match it returns entry \<open>i\<close> of the block (the index of the
  block), not entry \<open>j\<close>; past 128 that is out of the array.
\<close>

definition visit_indirect :: "nat \<Rightarrow> nat \<Rightarrow> disk \<Rightarrow> int \<Rightarrow> iNode \<Rightarrow> byte list \<Rightarrow> int option" where
  "visit_indirect which start d file_size father_inode son_name = do {
     datablock_index_buffer \<leftarrow> data_block d (indirect_pointer father_inode ! which);
     after_loop (for_loop 0 1024
       (\<lambda>i. let file_name_buffer = data_block d (get_int datablock_index_buffer i)
            in for_loop 0 128 (\<lambda>j visited_file.
                 if file_size \<le> int visited_file then Some (Return (- ENOENT))
                 else do {
                   b \<leftarrow> file_name_buffer;
                   same \<leftarrow> same_name son_name (get_entry b j);
                   if same \<noteq> 0
                   then if i < 128 then Some (Return (sint (inode_number (get_entry b i)))) else None
                   else Some (Next (visited_file + 1))
                 }))
       start) (\<lambda>_. None)
   }"

definition visit_first_indirect_to_get_file :: "disk \<Rightarrow> int \<Rightarrow> iNode \<Rightarrow> byte list \<Rightarrow> int option" where
  "visit_first_indirect_to_get_file = visit_indirect 0 (DerictPointer * 128)"

definition visit_second_indirect_to_get_file :: "disk \<Rightarrow> int \<Rightarrow> iNode \<Rightarrow> byte list \<Rightarrow> int option" where
  "visit_second_indirect_to_get_file = visit_indirect 1 (DerictPointer * 128 + 1024 * 128)"

definition find_file_in_dict :: "disk \<Rightarrow> iNode \<Rightarrow> byte list \<Rightarrow> int option" where
  "find_file_in_dict d father_inode son_name = do {
     let file_size = to_int (sint (st_size father_inode)) sdiv 32;
     result \<leftarrow> visited_directly_to_get_file d file_size father_inode son_name;
     if file_size > int (DerictPointer * 128) \<and> result = - ENOENT
     then do {
       result' \<leftarrow> visit_first_indirect_to_get_file d file_size father_inode son_name;
       if file_size > int (DerictPointer * 128 + 1024 * 128) \<and> result' = - ENOENT
       then visit_second_indirect_to_get_file d file_size father_inode son_name
       else Some result'
     }
     else Some result
   }"

section \<open>The code: appending an entry\<close>

text \<open>The pair of calls that takes a free data block.\<close>

definition take_datablock :: "disk \<Rightarrow> (int \<times> disk) option" where
  "take_datablock d = do {
     n \<leftarrow> find_empty_datablock d;
     d' \<leftarrow> make_data_map_covered d n;
     Some (n, d')
   }"

text \<open>An unreadable block leaves the buffer unwritten, and writing it back does nothing.\<close>

definition add_a_dict_in_data_block :: "disk \<Rightarrow> int \<Rightarrow> DictioryContent \<Rightarrow> int \<Rightarrow> disk option" where
  "add_a_dict_in_data_block d data_block_node_number aim_file file_position =
     (let disk_id = datablock_find_disk_id data_block_node_number
      in if 0 \<le> file_position \<and> file_position < 128
         then Some (case read_block d disk_id of
                None \<Rightarrow> d
              | Some file_buffer \<Rightarrow>
                  write_block d disk_id (put_entry file_buffer (nat file_position) aim_file))
         else None)"

text \<open>
  \<open>add_file_to_dict\<close> returns the changed inode, which the caller writes. Past the direct pointers it
  uses the block of \<open>direct_pointer[0]\<close> (the first 128 entries) as its index block.
\<close>

definition add_file_to_dict ::
  "env \<Rightarrow> disk \<Rightarrow> iNode \<Rightarrow> DictioryContent \<Rightarrow> (iNode \<times> disk) option" where
  "add_file_to_dict e d dict_inode aim_file = do {
     let pre_file_number = to_int (sint (st_size dict_inode) sdiv 32);
     let pre_disk_number = pre_file_number sdiv 128;
     let bias = pre_file_number smod 128;
     (n, d') \<leftarrow>
       (if pre_disk_number < int DerictPointer
        then if bias = 0
          then do {
            (data_block_node_number, d1) \<leftarrow> take_datablock d;
            ps \<leftarrow> array_set (direct_pointer dict_inode) pre_disk_number (word32_of data_block_node_number);
            d2 \<leftarrow> add_a_dict_in_data_block d1 data_block_node_number aim_file 0;
            Some (dict_inode\<lparr>direct_pointer := ps\<rparr>, d2)
          }
          else do {
            p \<leftarrow> array_get (direct_pointer dict_inode) pre_disk_number;
            d2 \<leftarrow> add_a_dict_in_data_block d (sint p) aim_file bias;
            Some (dict_inode, d2)
          }
        else if pre_disk_number < 12 + 1024
        then do {
          (n1, d1) \<leftarrow>
            (if pre_disk_number = 12
             then do {
               (data_number, d1) \<leftarrow> take_datablock d;
               Some (dict_inode\<lparr>indirect_pointer := (indirect_pointer dict_inode)[0 := word32_of data_number]\<rparr>, d1)
             }
             else Some (dict_inode, d));
          let index_id = datablock_find_disk_id (sint (direct_pointer n1 ! 0));
          let buffer_number = read_block d1 index_id;
          if bias = 0
          then do {
            (data_block_node_number, d2) \<leftarrow> take_datablock d1;
            let d3 = (case buffer_number of
                        None \<Rightarrow> d2
                      | Some b \<Rightarrow> write_block d2 index_id
                          (put_int b (nat (pre_disk_number - 12)) (word32_of data_block_node_number)));
            d4 \<leftarrow> add_a_dict_in_data_block d3 data_block_node_number aim_file bias;
            Some (n1, d4)
          }
          else do {
            b \<leftarrow> buffer_number;
            d2 \<leftarrow> add_a_dict_in_data_block d1 (sint (get_int b (nat (pre_disk_number - 12)))) aim_file bias;
            Some (n1, d2)
          }
        }
        else Some (dict_inode, d));
     Some (n\<lparr>st_size := st_size n + 32, mtime := time_now e, ctime := time_now e\<rparr>, d')
   }"

section \<open>The code: the entry of a given rank\<close>

text \<open>
  The test is on \<open>rank\<close> (an entry number), not on the block number. In the other branch nothing is ever
  stored in the array whose element is returned.
\<close>

definition get_filename_data_from_dir_in_rank_view :: "disk \<Rightarrow> int \<Rightarrow> iNode \<Rightarrow> DictioryContent option" where
  "get_filename_data_from_dir_in_rank_view d rank dir_inode =
     (let disk_rank = rank sdiv 128; disk_bias = rank smod 128
      in if rank < 12
         then do {
           p \<leftarrow> array_get (direct_pointer dir_inode) disk_rank;
           buffer_file_info \<leftarrow> data_block d p;
           if 0 \<le> disk_bias \<and> disk_bias < 128 then Some (get_entry buffer_file_info (nat disk_bias)) else None
         }
         else None)"

definition write_filename_intodir_in_rank_view ::
  "disk \<Rightarrow> int \<Rightarrow> iNode \<Rightarrow> DictioryContent \<Rightarrow> disk option" where
  "write_filename_intodir_in_rank_view d rank dir_inode aim_data =
     (let disk_rank = rank sdiv 128; bias = rank smod 128
      in if rank < 12
         then do {
           p \<leftarrow> array_get (direct_pointer dir_inode) disk_rank;
           if 0 \<le> bias \<and> bias < 128
           then Some (case data_block d p of
                  None \<Rightarrow> d
                | Some buffer_file_info \<Rightarrow>
                    write_block d (datablock_find_disk_id (sint p)) (put_entry buffer_file_info (nat bias) aim_data))
           else None
         }
         else do {
           let index = (rank - 11) sdiv 1024;
           let indirect_bias = nat (rank - 11 - index * 1024);
           q \<leftarrow> array_get (indirect_pointer dir_inode) index;
           buffer \<leftarrow> data_block d q;
           let buffer' = (case data_block d (get_int buffer indirect_bias) of None \<Rightarrow> buffer | Some b \<Rightarrow> b);
           Some (write_block d (datablock_find_disk_id (sint (get_int buffer' indirect_bias))) buffer')
         })"

definition delete_file_according_to_rank :: "disk \<Rightarrow> int \<Rightarrow> iNode \<Rightarrow> disk option" where
  "delete_file_according_to_rank d rank dir_inode =
     (let file_amount = to_int (sint (st_size dir_inode) sdiv 32)
      in if rank = file_amount then Some d
         else do {
           last_file \<leftarrow> get_filename_data_from_dir_in_rank_view d (file_amount - 1) dir_inode;
           write_filename_intodir_in_rank_view d rank dir_inode last_file
         })"

section \<open>The code: reading a directory block by block\<close>

text \<open>
  The result is the buffer after the call: \<open>Some None\<close> if nothing was stored in it.
\<close>

definition get_fuul_disk_according_to_rank :: "disk \<Rightarrow> int \<Rightarrow> iNode \<Rightarrow> buf option option" where
  "get_fuul_disk_according_to_rank d rank aim_inode =
     (if rank < 12
      then do { p \<leftarrow> array_get (direct_pointer aim_inode) rank; Some (data_block d p) }
      else do {
        let index = (rank - 11) sdiv 1024;
        let trans_bias = nat (rank - 11 - index * 1024);
        q \<leftarrow> array_get (indirect_pointer aim_inode) index;
        buffer_data_block_number \<leftarrow> data_block d q;
        Some (data_block d (get_int buffer_data_block_number trans_bias))
      })"

text \<open>
  \<open>read_the_one_disk_according_to_rank\<close> is for directories, its copy \<open>..._in_inode\<close> for file contents. The index block is
  read into an array of 1024 pointers of 8 bytes, of which one block fills 512; the low 32 bits of the
  pointer become the block number.
\<close>

definition read_the_one_disk_according_to_rank :: "disk \<Rightarrow> int \<Rightarrow> iNode \<Rightarrow> buf option option" where
  "read_the_one_disk_according_to_rank d rank now_file_inode =
     (if rank < 12
      then do { p \<leftarrow> array_get (direct_pointer now_file_inode) rank; Some (data_block d p) }
      else do {
        let index = rank sdiv (1024 + 12);
        let transdfer_rank = rank - index * 1024 - 12;
        q \<leftarrow> array_get (indirect_pointer now_file_inode) index;
        real_data_node_number \<leftarrow> data_block d q;
        if 0 \<le> transdfer_rank \<and> transdfer_rank < 512
        then Some (data_block d (ld32 real_data_node_number (8 * nat transdfer_rank)))
        else None
      })"

definition write_into_disk_acccording_to_rank :: "disk \<Rightarrow> int \<Rightarrow> iNode \<Rightarrow> buf \<Rightarrow> disk option" where
  "write_into_disk_acccording_to_rank d rank new_file_node content =
     (if rank < 12
      then do {
        p \<leftarrow> array_get (direct_pointer new_file_node) rank;
        Some (write_block d (datablock_find_disk_id (sint p)) content)
      }
      else do {
        let index = rank sdiv (1024 + 12);
        let transdfer_rank = rank - index * 1024 - 12;
        q \<leftarrow> array_get (indirect_pointer new_file_node) index;
        real_data_node_number \<leftarrow> data_block d q;
        if 0 \<le> transdfer_rank \<and> transdfer_rank < 512
        then Some (write_block d
               (datablock_find_disk_id (sint (ld32 real_data_node_number (8 * nat transdfer_rank)))) content)
        else None
      })"

definition read_the_one_disk_according_to_rank_in_inode :: "disk \<Rightarrow> int \<Rightarrow> iNode \<Rightarrow> buf option option" where
  "read_the_one_disk_according_to_rank_in_inode d rank now_file_inode =
     (if rank < 12
      then do { p \<leftarrow> array_get (direct_pointer now_file_inode) rank; Some (data_block d p) }
      else do {
        let index = rank sdiv (1024 + 12);
        let transdfer_rank = rank - index * 1024 - 12;
        q \<leftarrow> array_get (indirect_pointer now_file_inode) index;
        real_data_node_number \<leftarrow> data_block d q;
        if 0 \<le> transdfer_rank \<and> transdfer_rank < 512
        then Some (data_block d (ld32 real_data_node_number (8 * nat transdfer_rank)))
        else None
      })"

definition write_into_disk_acccording_to_rank_in_inode :: "disk \<Rightarrow> int \<Rightarrow> iNode \<Rightarrow> buf \<Rightarrow> disk option" where
  "write_into_disk_acccording_to_rank_in_inode d rank new_file_node content =
     (if rank < 12
      then do {
        p \<leftarrow> array_get (direct_pointer new_file_node) rank;
        Some (write_block d (datablock_find_disk_id (sint p)) content)
      }
      else do {
        let index = rank sdiv (1024 + 12);
        let transdfer_rank = rank - index * 1024 - 12;
        q \<leftarrow> array_get (indirect_pointer new_file_node) index;
        real_data_node_number \<leftarrow> data_block d q;
        if 0 \<le> transdfer_rank \<and> transdfer_rank < 512
        then Some (write_block d
               (datablock_find_disk_id (sint (ld32 real_data_node_number (8 * nat transdfer_rank)))) content)
        else None
      })"

end
