(* ===== verification/DirFacts.thy ===== *)
theory DirFacts
  imports Dirs
begin

text \<open>
  Directories as lists of entries. \<^term>\<open>dir_ok\<close> is the invariant of a directory inode; under it the
  code's lookup is a search of the list, appending appends, and deleting a rank moves the last entry
  into its place.
\<close>

section \<open>Names\<close>

lemma find_first_difference:
  assumes "length xs = n" and "length ys = n"
  shows "(List.find (\<lambda>i. xs ! i \<noteq> ys ! i) [0..<n] = None) = (xs = ys)"
  using assms by (auto simp: find_upt_None intro: nth_equalityI)

lemma same_name_eq:
  assumes "28 \<le> length son" and "wf_entry e"
  shows "same_name son e = Some (if take 28 son = file_name e then 1 else 0)"
proof -
  have len: "length (take 28 son) = 28" "length (file_name e) = 28"
    using assms by (simp_all add: wf_entry_def)
  have cong: "List.find (\<lambda>i. son ! i \<noteq> file_name e ! i) [0..<28]
      = List.find (\<lambda>i. take 28 son ! i \<noteq> file_name e ! i) [0..<28]"
    by (rule find_cong) auto
  have "same_name son e = after_loop (Some (case List.find (\<lambda>i. son ! i \<noteq> file_name e ! i) [0..<28] of
      Some j \<Rightarrow> Return 0 | None \<Rightarrow> Next ())) (\<lambda>_. Some 1)"
    unfolding same_name_def by (subst for_loop_search) auto
  then show ?thesis
    using find_first_difference [OF len] unfolding cong by (auto split: option.split)
qed

section \<open>The invariant of a directory\<close>

text \<open>The data area: blocks 1028 to 65535, numbered from 0.\<close>

definition DATA_NUM :: nat where "DATA_NUM = 64508"

definition data_id :: "nat \<Rightarrow> nat" where "data_id p = 1028 + p"

lemma data_id_on_disk [simp]: "p < DATA_NUM \<Longrightarrow> on_disk (datablock_find_disk_id (int p))"
  by (simp add: on_disk_def datablock_find_disk_id_def DATA_NUM_def BLOCK_NUM_def)

lemma nat_data_id [simp]: "nat (datablock_find_disk_id (int p)) = data_id p"
  by (simp add: datablock_find_disk_id_def data_id_def nat_add_distrib)

lemma data_id_inject [simp]: "data_id p = data_id q \<longleftrightarrow> p = q"
  by (simp add: data_id_def)

lemma data_id_meta [simp]: "n < INODES \<Longrightarrow> data_id p \<noteq> inode_block n" "n < INODES \<Longrightarrow> inode_block n \<noteq> data_id p"
  "data_id p \<noteq> data_map_block k" "data_id p \<noteq> 0" "data_id p \<noteq> Suc 0" "data_id p \<noteq> 2" "data_id p \<noteq> 3"
  "0 \<noteq> data_id p" "Suc 0 \<noteq> data_id p" "2 \<noteq> data_id p" "3 \<noteq> data_id p"
  using inode_block_range [of n] by (auto simp: data_id_def data_map_block_def)

text \<open>The number in pointer \<open>k\<close> of an inode, and the blocks a directory of \<open>N\<close> entries has.\<close>

definition ptr :: "iNode \<Rightarrow> nat \<Rightarrow> nat" where
  "ptr n k = nat (sint (direct_pointer n ! k))"

definition blocks_of :: "nat \<Rightarrow> nat" where
  "blocks_of N = N div 128 + (if N mod 128 = 0 then 0 else 1)"

definition ptr_ok :: "disk \<Rightarrow> iNode \<Rightarrow> nat \<Rightarrow> bool" where
  "ptr_ok d n k \<longleftrightarrow> 0 \<le> sint (direct_pointer n ! k) \<and> ptr n k < DATA_NUM \<and> data_used d (ptr n k)"

definition dir_ok :: "disk \<Rightarrow> iNode \<Rightarrow> nat \<Rightarrow> bool" where
  "dir_ok d n N \<longleftrightarrow> wf_inode n \<and> st_size n = word64_of (int (32 * N)) \<and> N \<le> 12 * 128
     \<and> (\<forall>k < blocks_of N. ptr_ok d n k)
     \<and> (\<forall>k < blocks_of N. \<forall>l < blocks_of N. ptr n k = ptr n l \<longrightarrow> k = l)"

definition entry_at :: "disk \<Rightarrow> iNode \<Rightarrow> nat \<Rightarrow> DictioryContent" where
  "entry_at d n r = get_entry (d (data_id (ptr n (r div 128)))) (r mod 128)"

definition dir_entries :: "disk \<Rightarrow> iNode \<Rightarrow> nat \<Rightarrow> DictioryContent list" where
  "dir_entries d n N = map (entry_at d n) [0..<N]"

lemma data_block_ptr:
  "ptr_ok d n k \<Longrightarrow> data_block d' (direct_pointer n ! k) = Some (d' (data_id (ptr n k)))"
  by (auto simp: data_block_def ptr_ok_def ptr_def DATA_NUM_def datablock_find_disk_id_def data_id_def
      on_disk_def BLOCK_NUM_def nat_add_distrib)

lemma block_lt:
  assumes "r < N"
  shows "r div 128 < blocks_of N"
proof (cases "N mod 128 = 0")
  case True
  then have "N div 128 * 128 = N" by (simp add: mod_0_imp_dvd)
  with assms have "r < N div 128 * 128" by (simp only:)
  then have "r div 128 < N div 128" by (rule less_mult_imp_div_less)
  with True show ?thesis by (simp add: blocks_of_def)
next
  case False
  with assms show ?thesis by (simp add: blocks_of_def div_le_mono less_Suc_eq_le)
qed

lemma dir_count:
  assumes "dir_ok d n N"
  shows "to_int (sint (st_size n)) sdiv 32 = int N" "to_int (sint (st_size n) sdiv 32) = int N"
proof -
  have N: "N \<le> 1536" and s: "st_size n = word64_of (int (32 * N))"
    using assms by (auto simp: dir_ok_def)
  have "sint (st_size n) = int (32 * N)"
    unfolding s by (rule sint_word64_of) (use N in auto)
  then show "to_int (sint (st_size n)) sdiv 32 = int N" "to_int (sint (st_size n) sdiv 32) = int N"
    using N sdiv_smod_numeral(1) [of "32 * N"] by auto
qed

section \<open>Lookup\<close>

lemma visited_directly_eq:
  assumes "N < 12 * 128" and "28 \<le> length son"
    and ok: "\<And>k. k < blocks_of N \<Longrightarrow> ptr_ok d n k"
  shows "visited_directly_to_get_file d (int N) n son =
    Some (case List.find (\<lambda>e. file_name e = take 28 son) (dir_entries d n N) of
            Some e \<Rightarrow> sint (inode_number e) | None \<Rightarrow> - ENOENT)"
proof -
  define Q where "Q = (\<lambda>r. N \<le> r \<or> file_name (entry_at d n r) = take 28 son)"
  define R where "R = (\<lambda>r. if N \<le> r then - ENOENT else sint (inode_number (entry_at d n r)))"
  define m where "m = N div 128 + 1"
  have size: "nat (get_min (int N sdiv 128 + 1) (int DerictPointer)) = m"
    using assms(1) by (auto simp: get_min_def m_def)
  have "for_loop 0 m
     (\<lambda>i. for_loop 0 128 (compare_entry (int N) son (data_block d (direct_pointer n ! i)))) (0 * 128) =
    Some (case List.find Q [0 * 128..<m * 128] of Some r \<Rightarrow> Return (R r) | None \<Rightarrow> Next (m * 128))"
  proof (rule for_loop_nested_search [where st = "\<lambda>r. r"])
    fix i j :: nat
    assume "i < m" and j: "j < 128"
    show "compare_entry (int N) son (data_block d (direct_pointer n ! i)) j (i * 128 + j) = Some (if Q (i * 128 + j) then Return (R (i * 128 + j)) else Next (i * 128 + Suc j))"
    proof (cases "N \<le> i * 128 + j")
      case True
      then show ?thesis by (simp add: compare_entry_def Q_def R_def)
    next
      case False
      then have "(i * 128 + j) div 128 < blocks_of N" by (intro block_lt) simp
      with j have "data_block d (direct_pointer n ! i) = Some (d (data_id (ptr n i)))"
        by (intro data_block_ptr [of d] ok) simp_all
      then show ?thesis
        using False j assms(2) by (auto simp: compare_entry_def Q_def R_def same_name_eq entry_at_def)
    qed
  qed simp
  then have loop: "visited_directly_to_get_file d (int N) n son =
    after_loop (Some (case List.find Q [0..<m * 128] of Some r \<Rightarrow> Return (R r) | None \<Rightarrow> Next (m * 128))) (\<lambda>_. None)"
    by (simp only: visited_directly_to_get_file_def Let_def size mult_0)
  have m: "N < m * 128"
    by (simp add: m_def)
  have "List.find Q [0..<m * 128] = (case List.find Q [0..<N] of Some r \<Rightarrow> Some r | None \<Rightarrow> List.find Q [N..<m * 128])"
    using m by (intro find_upt_split) auto
  moreover have "List.find Q [N..<m * 128] = Some N"
    using m by (simp add: upt_conv_Cons Q_def)
  moreover have "List.find Q [0..<N] = List.find (\<lambda>r. file_name (entry_at d n r) = take 28 son) [0..<N]"
    by (rule find_cong) (auto simp: Q_def)
  ultimately show ?thesis
    unfolding loop dir_entries_def find_map
    by (auto simp: R_def dest: find_upt_Some split: option.split)
qed

lemma find_file_in_dict_eq:
  assumes "dir_ok d n N" and "N < 12 * 128" and "28 \<le> length son"
  shows "find_file_in_dict d n son =
    Some (case List.find (\<lambda>e. file_name e = take 28 son) (dir_entries d n N) of
            Some e \<Rightarrow> sint (inode_number e) | None \<Rightarrow> - ENOENT)"
proof -
  have "\<And>k. k < blocks_of N \<Longrightarrow> ptr_ok d n k" using assms(1) by (simp add: dir_ok_def)
  from visited_directly_eq [OF assms(2,3) this] assms(2) show ?thesis
    by (simp add: find_file_in_dict_def dir_count [OF assms(1)])
qed

text \<open>
  From 12 * 128 entries on, a name that is not among the first 12 * 128 leads out of the loop of
  \<open>visited_directly_to_get_file\<close>: the indirect blocks are never searched.
\<close>

lemma find_file_in_dict_large:
  assumes "12 * 128 \<le> N" and "28 \<le> length son" and ok: "\<And>k. k < 12 \<Longrightarrow> ptr_ok d n k"
    and new: "\<And>r. r < 12 * 128 \<Longrightarrow> file_name (entry_at d n r) \<noteq> take 28 son"
  shows "visited_directly_to_get_file d (int N) n son = None"
proof -
  have size: "nat (get_min (int N sdiv 128 + 1) (int DerictPointer)) = 12"
    using assms(1) by (auto simp: get_min_def)
  have "for_loop 0 12
     (\<lambda>i. for_loop 0 128 (compare_entry (int N) son (data_block d (direct_pointer n ! i)))) (0 * 128) =
    Some (case List.find (\<lambda>_. False) [0 * 128..<12 * 128] of Some r \<Rightarrow> Return 0 | None \<Rightarrow> Next (12 * 128))"
  proof (rule for_loop_nested_search [where st = "\<lambda>r. r"])
    fix i j :: nat
    assume i: "i < 12" and j: "j < 128"
    then have "data_block d (direct_pointer n ! i) = Some (d (data_id (ptr n i)))"
      by (intro data_block_ptr [of d] ok)
    moreover have "file_name (get_entry (d (data_id (ptr n i))) j) \<noteq> take 28 son"
      using new [of "i * 128 + j"] i j by (simp add: entry_at_def)
    ultimately show "compare_entry (int N) son (data_block d (direct_pointer n ! i)) j (i * 128 + j) = Some (if False then Return 0 else Next (i * 128 + Suc j))"
      using assms(1,2) i j by (simp add: compare_entry_def same_name_eq)
  qed simp
  then have "visited_directly_to_get_file d (int N) n son =
    after_loop (Some (case List.find (\<lambda>_. False) [0..<12 * 128] of Some r \<Rightarrow> Return 0 | None \<Rightarrow> Next (12 * 128 :: nat)))
      (\<lambda>_. None)"
    by (simp only: visited_directly_to_get_file_def Let_def size mult_0)
  then show ?thesis by (simp add: find_upt_None [THEN iffD2])
qed

section \<open>Appending an entry\<close>

lemma take_datablock_fresh:
  assumes "m < DATA_NUM" and "\<not> data_used d m"
  shows "\<exists>p d'. take_datablock d = Some (int p, d') \<and> p \<le> m \<and> \<not> data_used d p
    \<and> (\<forall>k < 2 * MAP_BITS. data_used d' k \<longleftrightarrow> k = p \<or> data_used d k)
    \<and> (\<forall>b. b \<noteq> 2 \<longrightarrow> b \<noteq> 3 \<longrightarrow> d' b = d b)"
proof -
  from assms(1) have m: "m < 2 * MAP_BITS" by (simp add: DATA_NUM_def MAP_BITS_def)
  from data_alloc.allocate [OF m assms(2)] obtain p d' where
    p: "find_empty_datablock d = Some (int p)" "make_data_map_covered d (int p) = Some d'"
      "p \<le> m" "\<not> data_used d p" "\<forall>k < 2 * MAP_BITS. data_used d' k \<longleftrightarrow> k = p \<or> data_used d k" by blast
  with m have "d' = set_bit_in bit_map_mask d (data_map_block p) (p mod MAP_BITS)"
    by (simp add: make_data_map_covered_eq)
  then have "\<forall>b. b \<noteq> 2 \<longrightarrow> b \<noteq> 3 \<longrightarrow> d' b = d b"
    by (simp add: data_map_block_def)
  with p show ?thesis by (auto simp: take_datablock_def)
qed

text \<open>The new entry lands in a block of its own or behind the entries of the last block.\<close>

lemma add_in_block:
  assumes "p < DATA_NUM" and "s < 128"
  shows "add_a_dict_in_data_block d (int p) x (int s) =
    Some (d(data_id p := put_entry (d (data_id p)) s x))"
  using assms by (simp add: add_a_dict_in_data_block_def write_block_on del: read_block_Some_iff)

lemma ptr_ok_eq: "ptr_ok d n k \<Longrightarrow> sint (direct_pointer n ! k) = int (ptr n k)"
  by (simp add: ptr_ok_def ptr_def)

lemma ptr_update:
  "length (direct_pointer n) = 12 \<Longrightarrow> k < 12 \<Longrightarrow> p < DATA_NUM \<Longrightarrow>
   ptr (n\<lparr>direct_pointer := (direct_pointer n)[k := word32_of (int p)]\<rparr>) l = (if l = k then p else ptr n l)"
  by (auto simp: ptr_def nth_list_update DATA_NUM_def)

lemma blocks_of_Suc: "blocks_of (Suc N) = (if N mod 128 = 0 then Suc (N div 128) else blocks_of N)"
  "N mod 128 = 0 \<Longrightarrow> blocks_of N = N div 128" "N mod 128 \<noteq> 0 \<Longrightarrow> blocks_of N = Suc (N div 128)"
  by (simp_all add: blocks_of_def mod_Suc div_Suc)

lemma entry_at_frame:
  assumes "\<And>b. b = data_id (ptr n (r div 128)) \<Longrightarrow> d' b = d b"
    and "ptr n' (r div 128) = ptr n (r div 128)"
  shows "entry_at d' n' r = entry_at d n r"
  using assms by (simp add: entry_at_def)

text \<open>What appending leaves alone: everything but the bitmap and the block that takes the entry.\<close>

definition append_frame :: "disk \<Rightarrow> disk \<Rightarrow> nat \<Rightarrow> bool" where
  "append_frame d d' p \<longleftrightarrow> (\<forall>b. b \<noteq> 2 \<longrightarrow> b \<noteq> 3 \<longrightarrow> b \<noteq> data_id p \<longrightarrow> d' b = d b)
     \<and> (\<forall>k < 2 * MAP_BITS. data_used d' k \<longleftrightarrow> k = p \<or> data_used d k)"

text \<open>The invariant and the entries after an entry was put in slot \<open>N\<close>, whichever way its block was found.\<close>

lemma append_entries:
  assumes ok: "dir_ok d n N" and N: "N < 12 * 128" and x: "wf_entry x"
    and n': "wf_inode n'" "st_size n' = st_size n + 32" "0 \<le> sint (direct_pointer n' ! (N div 128))"
    and p: "ptr n' (N div 128) = p" "p < DATA_NUM"
    and same: "\<And>k. k < blocks_of N \<Longrightarrow> direct_pointer n' ! k = direct_pointer n ! k"
    and fresh: "\<And>k. k < blocks_of N \<Longrightarrow> ptr n k = p \<Longrightarrow> k = N div 128"
    and frame: "append_frame d d' p"
    and stored: "get_entry (d' (data_id p)) (N mod 128) = x"
    and old: "\<And>j. N mod 128 \<noteq> 0 \<Longrightarrow> j < N mod 128 \<Longrightarrow> get_entry (d' (data_id p)) j = get_entry (d (data_id p)) j"
  shows "dir_ok d' n' (Suc N) \<and> dir_entries d' n' (Suc N) = dir_entries d n N @ [x]
    \<and> (\<forall>l < blocks_of (Suc N). ptr n' l = p \<or> l < blocks_of N \<and> ptr n' l = ptr n l)"
proof (intro conjI)
  have ptrs: "ptr n' k = ptr n k" if "k < blocks_of N" for k
    using same [OF that] by (simp add: ptr_def)
  have blocks: "k = N div 128 \<or> k < blocks_of N" if "k < blocks_of (Suc N)" for k
    using that blocks_of_Suc [of N] by (cases "N mod 128 = 0") auto
  have okp: "ptr_ok d' n' k" if "k < blocks_of (Suc N)" for k
  proof (cases "k < blocks_of N")
    case True
    with ok have "ptr_ok d n k" by (simp add: dir_ok_def)
    with True frame show ?thesis
      by (auto simp: ptr_ok_def ptrs same append_frame_def DATA_NUM_def MAP_BITS_def)
  next
    case False
    with blocks [OF that] p n'(3) frame show ?thesis
      by (auto simp: ptr_ok_def append_frame_def DATA_NUM_def MAP_BITS_def)
  qed
  have inj: "k = l" if "k < blocks_of (Suc N)" "l < blocks_of (Suc N)" "ptr n' k = ptr n' l" for k l
    using that blocks [of k] blocks [of l] ok p(1) ptrs fresh [of k] fresh [of l]
    by (metis dir_ok_def)
  have "st_size n + 32 = word64_of (int (32 * Suc N))"
    using ok by (simp add: dir_ok_def word64_of_def)
  with okp inj n' N show "dir_ok d' n' (Suc N)" by (simp add: dir_ok_def)
  have "entry_at d' n' r = entry_at d n r" if "r < N" for r
  proof (cases "r div 128 = N div 128")
    case True
    with that have mod: "r mod 128 < N mod 128"
      by (metis div_mult_mod_eq nat_add_left_cancel_less)
    then have "ptr n (N div 128) = p"
      using block_lt [OF that] True ptrs [of "N div 128"] p(1) by simp
    with True mod old [of "r mod 128"] p(1) show ?thesis by (simp add: entry_at_def)
  next
    case False
    from block_lt [OF that] have lt: "r div 128 < blocks_of N" .
    with False fresh have "ptr n (r div 128) \<noteq> p" by blast
    with lt frame show ?thesis
      by (simp add: entry_at_def ptrs append_frame_def)
  qed
  moreover have "entry_at d' n' N = x" using stored p(1) by (simp add: entry_at_def)
  ultimately show "dir_entries d' n' (Suc N) = dir_entries d n N @ [x]"
    by (simp add: dir_entries_def)
  show "\<forall>l < blocks_of (Suc N). ptr n' l = p \<or> l < blocks_of N \<and> ptr n' l = ptr n l"
    using blocks ptrs p(1) by blast
qed

text \<open>What appending an entry achieves; the two lemmas are the two branches of the code.\<close>

definition appended :: "env \<Rightarrow> disk \<Rightarrow> iNode \<Rightarrow> nat \<Rightarrow> DictioryContent \<Rightarrow> bool" where
  "appended e d n N x \<longleftrightarrow> (\<exists>n' d' p. add_file_to_dict e d n x = Some (n', d')
    \<and> dir_ok d' n' (Suc N) \<and> dir_entries d' n' (Suc N) = dir_entries d n N @ [x]
    \<and> append_frame d d' p \<and> (data_used d p \<longrightarrow> (\<exists>k < blocks_of N. p = ptr n k)) \<and> p < DATA_NUM
    \<and> st_mode n' = st_mode n
    \<and> (\<forall>l < blocks_of (Suc N). ptr n' l = p \<or> l < blocks_of N \<and> ptr n' l = ptr n l))"

lemma append_in_fresh_block:
  assumes ok: "dir_ok d n N" and N: "N < 12 * 128" and x: "wf_entry x"
    and full: "N mod 128 = 0" and free: "\<exists>m < DATA_NUM. \<not> data_used d m"
  shows "appended e d n N x"
proof -
  have len: "length (direct_pointer n) = 12" and wf: "wf_inode n" and k: "N div 128 < 12"
    using ok N by (auto simp: dir_ok_def wf_inode_def)
  note count = dir_count(2) [OF ok]
  from free obtain m where "m < DATA_NUM" "\<not> data_used d m" by blast
  from take_datablock_fresh [OF this] \<open>m < DATA_NUM\<close> obtain p d1 where
    p: "take_datablock d = Some (int p, d1)" "p < DATA_NUM" "\<not> data_used d p"
      "\<forall>k < 2 * MAP_BITS. data_used d1 k \<longleftrightarrow> k = p \<or> data_used d k"
      "\<forall>b. b \<noteq> 2 \<longrightarrow> b \<noteq> 3 \<longrightarrow> d1 b = d b" by auto
  define n' where "n' = n\<lparr>direct_pointer := (direct_pointer n)[N div 128 := word32_of (int p)],
    st_size := st_size n + 32, mtime := time_now e, ctime := time_now e\<rparr>"
  define d' where "d' = d1(data_id p := put_entry (d1 (data_id p)) 0 x)"
  have add: "add_file_to_dict e d n x = Some (n', d')"
    using full p(1,2) k len add_in_block [of p 0 d1 x]
    by (simp add: add_file_to_dict_def count n'_def d'_def del: of_nat_mod of_nat_div)
  have frame: "append_frame d d' p"
    using p(4,5) by (auto simp: append_frame_def d'_def data_used_def)
  have ptrs: "ptr n' k = (if k = N div 128 then p else ptr n k)" for k
    using k len p(2) ptr_update [of n "N div 128" p k] by (simp add: n'_def ptr_def)
  have bl: "blocks_of N = N div 128" using full by (simp add: blocks_of_def)
  have "dir_ok d' n' (Suc N) \<and> dir_entries d' n' (Suc N) = dir_entries d n N @ [x]
      \<and> (\<forall>l < blocks_of (Suc N). ptr n' l = p \<or> l < blocks_of N \<and> ptr n' l = ptr n l)"
  proof (rule append_entries [OF ok N x, where p = p])
    show "wf_inode n'" using wf by (simp add: n'_def wf_inode_def)
    show "get_entry (d' (data_id p)) (N mod 128) = x"
      using x full by (simp add: d'_def entry_array.get_put_same)
    show "k = N div 128" if "k < blocks_of N" "ptr n k = p" for k
      using that ok p(2,3) by (auto simp: dir_ok_def ptr_ok_def)
    show "0 \<le> sint (direct_pointer n' ! (N div 128))"
      using k len p(2) by (simp add: n'_def DATA_NUM_def)
    show "direct_pointer n' ! k = direct_pointer n ! k" if "k < blocks_of N" for k
      using that bl by (simp add: n'_def)
    show "get_entry (d' (data_id p)) j = get_entry (d (data_id p)) j"
      if "N mod 128 \<noteq> 0" "j < N mod 128" for j
      using that(1) full by contradiction
    show "ptr n' (N div 128) = p" by (simp add: ptrs)
    show "st_size n' = st_size n + 32" by (simp add: n'_def)
  qed (rule p(2) frame)+
  with add frame p(2,3) show ?thesis unfolding appended_def by (intro exI [of _ n'] exI [of _ d'] exI [of _ p]) (auto simp: n'_def)
qed

lemma append_in_last_block:
  assumes ok: "dir_ok d n N" and N: "N < 12 * 128" and x: "wf_entry x" and room: "N mod 128 \<noteq> 0"
  shows "appended e d n N x"
proof -
  have len: "length (direct_pointer n) = 12" and wf: "wf_inode n" and k: "N div 128 < 12"
    using ok N by (auto simp: dir_ok_def wf_inode_def)
  note count = dir_count(2) [OF ok]
  from room have lt: "N div 128 < blocks_of N" by (simp add: blocks_of_def)
  with ok have okp: "ptr_ok d n (N div 128)" by (simp add: dir_ok_def)
  define p where "p = ptr n (N div 128)"
  have p: "p < DATA_NUM" "data_used d p" "sint (direct_pointer n ! (N div 128)) = int p"
    using okp ptr_ok_eq [OF okp] by (auto simp: p_def ptr_ok_def)
  define n' where "n' = n\<lparr>st_size := st_size n + 32, mtime := time_now e, ctime := time_now e\<rparr>"
  define d' where "d' = d(data_id p := put_entry (d (data_id p)) (N mod 128) x)"
  have add: "add_file_to_dict e d n x = Some (n', d')"
    using room p k len add_in_block [of p "N mod 128" d x]
    by (simp add: add_file_to_dict_def count n'_def d'_def del: of_nat_mod of_nat_div)
  have frame: "append_frame d d' p"
    using p by (auto simp: append_frame_def d'_def data_used_def)
  have "dir_ok d' n' (Suc N) \<and> dir_entries d' n' (Suc N) = dir_entries d n N @ [x]
      \<and> (\<forall>l < blocks_of (Suc N). ptr n' l = p \<or> l < blocks_of N \<and> ptr n' l = ptr n l)"
  proof (rule append_entries [OF ok N x, where p = p])
    show "wf_inode n'" using wf by (simp add: n'_def wf_inode_def)
    show "get_entry (d' (data_id p)) (N mod 128) = x"
      using x by (simp add: d'_def entry_array.get_put_same)
    show "get_entry (d' (data_id p)) j = get_entry (d (data_id p)) j"
      if "N mod 128 \<noteq> 0" "j < N mod 128" for j
      using that x less_trans [OF that(2), of 128] by (simp add: d'_def entry_array.get_put_other)
    show "k = N div 128" if "k < blocks_of N" "ptr n k = p" for k
      using that ok lt unfolding p_def dir_ok_def by blast
    show "0 \<le> sint (direct_pointer n' ! (N div 128))" using p(3) by (simp add: n'_def)
    show "direct_pointer n' ! k = direct_pointer n ! k" for k by (simp add: n'_def)
    show "ptr n' (N div 128) = p" by (simp add: n'_def p_def ptr_def)
    show "st_size n' = st_size n + 32" by (simp add: n'_def)
  qed (rule p(1) frame)+
  with add frame p(1) lt show ?thesis unfolding appended_def
    by (intro exI [of _ n'] exI [of _ d'] exI [of _ p]) (auto simp: n'_def p_def)
qed

lemma add_file_to_dict_append:
  assumes ok: "dir_ok d n N" and N: "N < 12 * 128" and x: "wf_entry x"
    and free: "N mod 128 = 0 \<Longrightarrow> \<exists>m < DATA_NUM. \<not> data_used d m"
  shows "\<exists>n' d' p. add_file_to_dict e d n x = Some (n', d')
    \<and> dir_ok d' n' (Suc N) \<and> dir_entries d' n' (Suc N) = dir_entries d n N @ [x]
    \<and> append_frame d d' p \<and> (data_used d p \<longrightarrow> (\<exists>k < blocks_of N. p = ptr n k)) \<and> p < DATA_NUM
    \<and> st_mode n' = st_mode n
    \<and> (\<forall>l < blocks_of (Suc N). ptr n' l = p \<or> l < blocks_of N \<and> ptr n' l = ptr n l)"
  unfolding appended_def [symmetric] using append_in_fresh_block [OF ok N x _ free] append_in_last_block [OF ok N x] by blast

section \<open>Deleting the entry of a rank\<close>

lemma get_filename_eq:
  assumes "dir_ok d n N" and "r < N" and "r < 12"
  shows "get_filename_data_from_dir_in_rank_view d (int r) n = Some (entry_at d n r)"
proof -
  have b: "r div 128 < blocks_of N" using assms(2) by (rule block_lt)
  with assms(1) have ok: "ptr_ok d n (r div 128)" and len: "length (direct_pointer n) = 12"
    by (auto simp: dir_ok_def wf_inode_def)
  have "r div 128 < 12" using assms(3) by simp
  with len have "array_get (direct_pointer n) (int (r div 128)) = Some (direct_pointer n ! (r div 128))"
    by simp
  with data_block_ptr [OF ok, of d] assms(3) show ?thesis
    by (simp add: get_filename_data_from_dir_in_rank_view_def entry_at_def del: of_nat_div of_nat_mod)
qed

lemma get_filename_large: "12 \<le> r \<Longrightarrow> get_filename_data_from_dir_in_rank_view d (int r) n = None"
  by (simp add: get_filename_data_from_dir_in_rank_view_def Let_def)

lemma write_filename_eq:
  assumes "dir_ok d n N" and "r < N" and "r < 12"
  shows "write_filename_intodir_in_rank_view d (int r) n x =
    Some (d(data_id (ptr n 0) := put_entry (d (data_id (ptr n 0))) r x))"
proof -
  have b: "r div 128 < blocks_of N" using assms(2) by (rule block_lt)
  have z: "r div 128 = 0" "r mod 128 = r" using assms(3) by simp_all
  with b assms(1) have ok: "ptr_ok d n 0" and len: "length (direct_pointer n) = 12"
    by (auto simp: dir_ok_def wf_inode_def)
  have "array_get (direct_pointer n) 0 = Some (direct_pointer n ! 0)"
    using len by (simp add: array_get_def)
  moreover have "datablock_find_disk_id (sint (direct_pointer n ! 0)) = datablock_find_disk_id (int (ptr n 0))"
    by (simp add: ptr_ok_eq [OF ok])
  moreover have "ptr n 0 < DATA_NUM" using ok by (simp add: ptr_ok_def)
  ultimately show ?thesis
    using data_block_ptr [OF ok, of d] assms(3) z
    by (simp add: write_filename_intodir_in_rank_view_def write_block_on del: of_nat_div of_nat_mod)
qed

text \<open>Deleting moves the last entry into the place of the deleted one.\<close>

definition swap_remove :: "nat \<Rightarrow> 'a list \<Rightarrow> 'a list" where
  "swap_remove i xs = butlast (xs[i := last xs])"

lemma delete_file_swap:
  assumes ok: "dir_ok d n N" and "i < N" and "N \<le> 12"
  shows "\<exists>d'. delete_file_according_to_rank d (int i) n = Some d'
    \<and> dir_entries d' n (N - 1) = swap_remove i (dir_entries d n N)
    \<and> (\<forall>b. b \<noteq> data_id (ptr n 0) \<longrightarrow> d' b = d b)"
proof -
  define x where "x = entry_at d n (N - 1)"
  define d' where "d' = d(data_id (ptr n 0) := put_entry (d (data_id (ptr n 0))) i x)"
  have last: "get_filename_data_from_dir_in_rank_view d (int N - 1) n = Some x"
    using get_filename_eq [OF ok, of "N - 1"] assms(2,3) by (simp add: x_def of_nat_diff)
  have del: "delete_file_according_to_rank d (int i) n = Some d'"
    using assms write_filename_eq [OF ok assms(2), of x]
    by (simp add: delete_file_according_to_rank_def dir_count(2) [OF ok] last d'_def)
  have "entry_at d' n r = (if r = i then x else entry_at d n r)" if "r < N" for r
    using that assms(2,3) entry_array.get_put [of i r x]
    by (simp add: entry_at_def d'_def x_def)
  then have all: "dir_entries d' n N = (dir_entries d n N)[i := x]"
    by (intro nth_equalityI) (auto simp: dir_entries_def nth_list_update)
  have "x = last (dir_entries d n N)"
    using assms(2) by (simp add: dir_entries_def last_map x_def)
  moreover have "dir_entries d' n (N - 1) = butlast (dir_entries d' n N)"
    using assms(2) by (cases N) (simp_all add: dir_entries_def)
  ultimately have "dir_entries d' n (N - 1) = swap_remove i (dir_entries d n N)"
    by (simp add: swap_remove_def all)
  with del show ?thesis by (auto simp: d'_def)
qed

end
