(* ===== verification/Paths.thy ===== *)
theory Paths
  imports DirFacts
begin

text \<open>
  Path resolution of \<open>fs.c\<close> (\<open>understand_the_path\<close>) and \<open>getattr\<close>. A C string is the list of its bytes
  without the terminating 0.
\<close>

section \<open>The code\<close>

abbreviation (input) slash :: byte where "slash \<equiv> 47"

text \<open>
  The outer loop of \<open>understand_the_path\<close> over the rest of the path: the inner loop copies the bytes up
  to the next slash into \<open>son_name[30]\<close>, which has to hold them. When the path ends there, the number found
  is the result, even \<open>-ENOENT\<close>; otherwise the inode of that number is read, also for \<open>-ENOENT\<close>, and the
  slash is skipped. A path that ends in a slash leaves \<open>result_number\<close> at its old value.
\<close>

function walk_path :: "disk \<Rightarrow> byte list \<Rightarrow> iNode \<Rightarrow> int \<Rightarrow> int option" where
  "walk_path d rest father_inode result_number =
     (if rest = [] then Some result_number
      else let name = takeWhile (\<lambda>c. c \<noteq> slash) rest;
               rest' = dropWhile (\<lambda>c. c \<noteq> slash) rest;
               son_name = name @ replicate (30 - length name) 0
      in if 30 < length name then None
         else if rest' = [] then find_file_in_dict d father_inode son_name
         else do {
           time_inode_number \<leftarrow> find_file_in_dict d father_inode son_name;
           father_inode' \<leftarrow> just_read_inode_from_disk d time_inode_number;
           walk_path d (tl rest') father_inode' result_number
         })"
  by pat_completeness auto
termination
proof (relation "measure (\<lambda>(d, rest, f, r). length rest)", goal_cases)
  case 1
  show ?case by simp
next
  case (2 d rest f r name rest' son x y)
  then have "rest' \<noteq> []" and "rest' = dropWhile (\<lambda>c. c \<noteq> slash) rest" by auto
  then have "length (tl rest') < length rest'" "length rest' \<le> length rest"
    by (simp_all add: length_dropWhile_le)
  then show ?case by simp
qed

declare walk_path.simps [simp del]

definition understand_the_path :: "disk \<Rightarrow> byte list \<Rightarrow> int option" where
  "understand_the_path d path = do {
     father_inode \<leftarrow> just_read_inode_from_disk d Main_Direct_Inode_Position;
     walk_path d (drop 1 path) father_inode Main_Direct_Inode_Position
   }"

text \<open>\<open>struct stat\<close>, the fields the code sets.\<close>

record stat =
  attr_mode :: "32 word"
  attr_nlink :: "64 word"
  attr_uid :: "32 word"
  attr_gid :: "32 word"
  attr_size :: "64 word"
  attr_atime :: "64 word"
  attr_ctime :: "64 word"
  attr_mtime :: "64 word"

definition zero_stat :: stat where
  "zero_stat = \<lparr>attr_mode = 0, attr_nlink = 0, attr_uid = 0, attr_gid = 0, attr_size = 0,
     attr_atime = 0, attr_ctime = 0, attr_mtime = 0\<rparr>"

definition pass_value_from_iNode_to_stat :: "iNode \<Rightarrow> stat \<Rightarrow> stat" where
  "pass_value_from_iNode_to_stat aim attr = attr\<lparr>
     attr_mode := st_mode aim, attr_nlink := st_nlink aim, attr_uid := st_uid aim,
     attr_gid := st_gid aim, attr_size := st_size aim, attr_atime := atime aim,
     attr_ctime := ctime aim, attr_mtime := mtime aim\<rparr>"

definition fs_getattr :: "disk \<Rightarrow> byte list \<Rightarrow> (int \<times> stat) option" where
  "fs_getattr d path = do {
     let attr = zero_stat;
     iNode_Number \<leftarrow> understand_the_path d path;
     if iNode_Number = - ENOENT then Some (iNode_Number, attr)
     else do {
       aim_inode \<leftarrow> just_read_inode_from_disk d iNode_Number;
       Some (0, pass_value_from_iNode_to_stat aim_inode attr)
     }
   }"

text \<open>
  The C string at offset \<open>off\<close> of a block, which has to end in the block. A name of 28 bytes has no
  terminating 0 of its own: it runs on into \<open>inode_number\<close>.
\<close>

definition c_string_at :: "buf \<Rightarrow> nat \<Rightarrow> byte list option" where
  "c_string_at b off =
     (let bs = load_bytes b off (4096 - off)
      in if 0 \<in> set bs then Some (takeWhile (\<lambda>c. c \<noteq> 0) bs) else None)"

text \<open>
  \<open>readdir\<close>: the result is the list of names handed to \<open>filler\<close>. The inner loop ends when the block
  or the directory does.
\<close>

definition fs_readdir :: "disk \<Rightarrow> byte list \<Rightarrow> (int \<times> byte list list) option" where
  "fs_readdir d path = do {
     n \<leftarrow> understand_the_path d path;
     aim_node \<leftarrow> just_read_inode_from_disk d n;
     let file_size = to_int (sint (st_size aim_node) sdiv 32);
     let disk_size = file_size sdiv 128 + 1;
     after_loop (for_loop 0 (nat disk_size)
       (\<lambda>i filled. do {
          file_name_buffer \<leftarrow> get_fuul_disk_according_to_rank d (int i) aim_node;
          for_loop 0 128 (\<lambda>cnt filled.
            if int (length filled) < file_size
            then do {
              b \<leftarrow> file_name_buffer;
              name \<leftarrow> c_string_at b (32 * cnt);
              Some (Next (filled @ [name]))
            }
            else Some (Break filled)) filled
        }) [])
       (\<lambda>filled. Some (0, filled))
   }"

section \<open>What a path denotes\<close>

text \<open>
  The specification: a path is a list of names. A name is looked up in the entries of a directory;
  \<open>resolves d i cs r\<close> says that the names \<open>cs\<close>, followed from the directory with inode \<open>i\<close>, give \<open>r\<close>.
\<close>

definition good_name :: "byte list \<Rightarrow> bool" where
  "good_name c \<longleftrightarrow> c \<noteq> [] \<and> length c \<le> 28 \<and> slash \<notin> set c"

definition pad28 :: "byte list \<Rightarrow> byte list" where
  "pad28 c = c @ replicate (28 - length c) 0"

definition lookup_name :: "disk \<Rightarrow> iNode \<Rightarrow> nat \<Rightarrow> byte list \<Rightarrow> DictioryContent option" where
  "lookup_name d n N c = List.find (\<lambda>e. file_name e = pad28 c) (dir_entries d n N)"

inductive resolves :: "disk \<Rightarrow> nat \<Rightarrow> byte list list \<Rightarrow> int \<Rightarrow> bool" for d where
  found: "i < INODES \<Longrightarrow> dir_ok d (inode_of d i) N \<Longrightarrow> N < 12 * 128 \<Longrightarrow> good_name c \<Longrightarrow>
     lookup_name d (inode_of d i) N c = Some e \<Longrightarrow> resolves d i [c] (sint (inode_number e))"
| missing: "i < INODES \<Longrightarrow> dir_ok d (inode_of d i) N \<Longrightarrow> N < 12 * 128 \<Longrightarrow> good_name c \<Longrightarrow>
     lookup_name d (inode_of d i) N c = None \<Longrightarrow> resolves d i [c] (- ENOENT)"
| step: "i < INODES \<Longrightarrow> dir_ok d (inode_of d i) N \<Longrightarrow> N < 12 * 128 \<Longrightarrow> good_name c \<Longrightarrow>
     lookup_name d (inode_of d i) N c = Some e \<Longrightarrow> sint (inode_number e) = int j \<Longrightarrow>
     resolves d j (c' # cs) r \<Longrightarrow> resolves d i (c # c' # cs) r"

inductive_cases resolves_NilE: "resolves d i [] r"
inductive_cases resolves_ConsE: "resolves d i (c # cs) r"

text \<open>The text of a path: its names, each after a slash.\<close>

fun path_text :: "byte list list \<Rightarrow> byte list" where
  "path_text [] = []"
| "path_text (c # cs) = slash # c @ path_text cs"

section \<open>The code resolves paths\<close>

lemma find_good_name:
  assumes "dir_ok d n N" and "N < 12 * 128" and "good_name c"
  shows "find_file_in_dict d n (c @ replicate (30 - length c) 0) =
    Some (case lookup_name d n N c of Some e \<Rightarrow> sint (inode_number e) | None \<Rightarrow> - ENOENT)"
  using find_file_in_dict_eq [OF assms(1,2), of "c @ replicate (30 - length c) 0"] assms(3)
  by (simp add: good_name_def lookup_name_def pad28_def)

lemma take_drop_good:
  assumes "good_name c"
  shows "takeWhile (\<lambda>x. x \<noteq> slash) (c @ path_text cs) = c"
    and "dropWhile (\<lambda>x. x \<noteq> slash) (c @ path_text cs) = path_text cs"
proof -
  have c: "\<forall>x \<in> set c. x \<noteq> slash" using assms by (auto simp: good_name_def)
  then show "takeWhile (\<lambda>x. x \<noteq> slash) (c @ path_text cs) = c"
    by (cases cs) (auto simp: takeWhile_append)
  from c show "dropWhile (\<lambda>x. x \<noteq> slash) (c @ path_text cs) = path_text cs"
    by (cases cs) (auto simp: dropWhile_append)
qed

lemma take_drop_last:
  assumes "good_name c"
  shows "takeWhile (\<lambda>x. x \<noteq> slash) c = c" and "dropWhile (\<lambda>x. x \<noteq> slash) c = []"
  using take_drop_good [OF assms, of "[]"] by simp_all

lemma walk_path_last:
  assumes "good_name c"
  shows "walk_path d c n res = find_file_in_dict d n (c @ replicate (30 - length c) 0)"
  unfolding walk_path.simps [of d c n res] take_drop_last [OF assms] Let_def
  using assms by (simp add: good_name_def)

lemma resolves_good: "resolves d i cs r \<Longrightarrow> i < INODES \<and> (\<forall>c \<in> set cs. good_name c)"
  by (induction rule: resolves.induct) auto

lemma walk_path_resolves:
  assumes "resolves d i cs r"
  shows "walk_path d (tl (path_text cs)) (inode_of d i) res = Some r"
  using assms
proof (induction rule: resolves.induct)
  case (found i N c e)
  then show ?case by (simp add: walk_path_last find_good_name)
next
  case (missing i N c)
  then show ?case by (simp add: walk_path_last find_good_name)
next
  case (step i N c e j c' cs r)
  then have j: "j < INODES" by (auto dest: resolves_good)
  from step have c: "c \<noteq> []" "length c \<le> 28" by (auto simp: good_name_def)
  show ?case
    by (subst walk_path.simps)
      (use step c j take_drop_good [of c "c' # cs"] in \<open>simp add: find_good_name just_read_inode_eq Let_def\<close>)
qed

lemma understand_the_path_resolves:
  assumes "resolves d 4 cs r"
  shows "understand_the_path d (path_text cs) = Some r"
proof -
  have "cs \<noteq> []" using assms by (auto elim: resolves_NilE)
  then have "drop 1 (path_text cs) = tl (path_text cs)" by (cases cs) auto
  moreover have "just_read_inode_from_disk d 4 = Some (inode_of d 4)"
    using just_read_inode_eq [of 4 d] by (simp add: INODES_def)
  ultimately show ?thesis
    using walk_path_resolves [OF assms] by (simp add: understand_the_path_def)
qed

lemma understand_root: "path = [slash] \<or> path = [] \<Longrightarrow> understand_the_path d path = Some 4"
  using just_read_inode_eq [of 4 d]
  by (auto simp: understand_the_path_def INODES_def walk_path.simps)

end
