(* ===== verification/FsNames.thy ===== *)
theory FsNames
  imports Paths
begin

text \<open>
  The operations of \<open>fs.c\<close> that change the name space: \<open>mknod\<close>, \<open>mkdir\<close>, \<open>unlink\<close>, \<open>rmdir\<close> and
  \<open>rename\<close>, with the release of a file's data blocks.
\<close>

section \<open>The code: creating\<close>

text \<open>
  The end of the path after the last slash and the part before it, as \<open>mknod\<close> and \<open>mkdir\<close> take them
  apart. Without a slash the search runs off the front of the string. The last part has to fit
  \<open>file_name[30]\<close>; its first 28 bytes become the name in the entry.
\<close>

definition split_path :: "byte list \<Rightarrow> (byte list \<times> byte list) option" where
  "split_path path =
     (if slash \<notin> set path then None
      else let last_file_name = rev (takeWhile (\<lambda>c. c \<noteq> slash) (rev path));
               last_file_name_length = length last_file_name;
               dict_path_length = length path - last_file_name_length - 1
      in if 30 < last_file_name_length then None
         else Some (if dict_path_length = 0 then [slash] else take dict_path_length path,
                    take 28 (last_file_name @ replicate 28 0)))"

text \<open>
  \<open>mknod\<close> and \<open>mkdir\<close> differ in the function that makes the inode only. The parent's inode block is read
  before the entry is added and written after it. The test of the size comes last, after everything is
  written.
\<close>

definition create_node ::
  "(env \<Rightarrow> disk \<Rightarrow> (int \<times> disk) option) \<Rightarrow> env \<Rightarrow> disk \<Rightarrow> byte list \<Rightarrow> (int \<times> disk) option" where
  "create_node apply_inode e d path = do {
     (dict_path, new_name) \<leftarrow> split_path path;
     father_inode_number \<leftarrow> understand_the_path d dict_path;
     (new_number, d1) \<leftarrow> apply_inode e d;
     let new_file = \<lparr>file_name = new_name, inode_number = word32_of new_number\<rparr>;
     let (index, disk_id) = inode_find_disk_id_and_index_in_disk father_inode_number;
     buffer_inode \<leftarrow> read_block d1 disk_id;
     father \<leftarrow> inode_at buffer_inode index;
     (father', d2) \<leftarrow> add_file_to_dict e d1 father new_file;
     buffer_inode' \<leftarrow> set_inode_at buffer_inode index father';
     let d3 = write_block d2 disk_id buffer_inode';
     Some (if sint (st_size father') sdiv 32 > int (128 * DerictPointer) then - ENOSPC else 0, d3)
   }"

definition fs_mknod :: "env \<Rightarrow> disk \<Rightarrow> byte list \<Rightarrow> (int \<times> disk) option" where
  "fs_mknod = create_node apply_a_new_inode_and_initial"

definition fs_mkdir :: "env \<Rightarrow> disk \<Rightarrow> byte list \<Rightarrow> (int \<times> disk) option" where
  "fs_mkdir = create_node apply_a_new_inode_and_initial_as_dict"

section \<open>The code: releasing the blocks of a file\<close>

definition uncover_range :: "nat \<Rightarrow> (nat \<Rightarrow> 32 word) \<Rightarrow> disk \<Rightarrow> disk option" where
  "uncover_range n block d =
     after_loop (for_loop 0 n
       (\<lambda>i d. do { d' \<leftarrow> make_data_map_uncovered d (sint (block i)); Some (Next d') }) d) Some"

definition release_file_databock_by_provide_inode :: "disk \<Rightarrow> iNode \<Rightarrow> disk option" where
  "release_file_databock_by_provide_inode d aim_inode = do {
     let datablock_amount = to_int (sint (st_size aim_inode) sdiv 4096 + 1);
     d1 \<leftarrow> uncover_range (nat (get_min 12 datablock_amount)) (\<lambda>i. direct_pointer aim_inode ! i) d;
     d2 \<leftarrow> (if datablock_amount > 11
       then do {
         b \<leftarrow> data_block d1 (indirect_pointer aim_inode ! 0);
         uncover_range (nat (get_min 1024 (datablock_amount - 11))) (get_int b) d1
       }
       else Some d1);
     if datablock_amount > 11 + 1024
     then do {
       b \<leftarrow> data_block d2 (indirect_pointer aim_inode ! 1);
       uncover_range (nat (get_min 1024 (datablock_amount - 11 - 1024))) (get_int b) d2
     }
     else Some d2
   }"

section \<open>The code: deleting and renaming\<close>

text \<open>
  \<open>sizeof(path)\<close> is the size of a pointer, 8: \<open>unlink\<close>, \<open>rmdir\<close> and \<open>rename\<close> look for the slash backwards from
  index 7, whatever the length of the path. Reading past the terminating 0 or before the string has
  no defined behaviour.
\<close>

definition char_at :: "byte list \<Rightarrow> nat \<Rightarrow> byte option" where
  "char_at path i =
     (if i < length path then Some (path ! i) else if i = length path then Some 0 else None)"

fun slash_before :: "byte list \<Rightarrow> nat \<Rightarrow> nat option" where
  "slash_before path 0 = do { c \<leftarrow> char_at path 0; if c \<noteq> slash then None else Some 0 }"
| "slash_before path (Suc i) =
     do { c \<leftarrow> char_at path (Suc i); if c \<noteq> slash then slash_before path i else Some (Suc i) }"

text \<open>
  \<open>unlink\<close> copies seven bytes behind the slash into \<open>file_name\<close>, which is only printed; they have to be
  there. The entry is found by inode number. The parent's inode is the one read at the start.
\<close>

definition fs_unlink :: "env \<Rightarrow> disk \<Rightarrow> byte list \<Rightarrow> (int \<times> disk) option" where
  "fs_unlink e d path = do {
     path_length \<leftarrow> slash_before path 7;
     _ \<leftarrow> char_at path (path_length + 7);
     let dir_name = (if path_length = 0 then [slash] else take path_length path);
     file_inode \<leftarrow> understand_the_path d path;
     dir_inode_number \<leftarrow> understand_the_path d dir_name;
     dir_iNode \<leftarrow> just_read_inode_from_disk d dir_inode_number;
     let file_amount = to_int (sint (st_size dir_iNode) sdiv 32);
     d3 \<leftarrow> after_loop (for_loop 0 (nat file_amount)
       (\<lambda>i d. do {
          x \<leftarrow> get_filename_data_from_dir_in_rank_view d (int i) dir_iNode;
          if sint (inode_number x) = file_inode
          then do {
            n \<leftarrow> just_read_inode_from_disk d file_inode;
            d1 \<leftarrow> release_file_databock_by_provide_inode d n;
            d2 \<leftarrow> delete_file_according_to_rank d1 (int i) dir_iNode;
            Some (Break d2)
          }
          else Some (Next d)
        }) d) Some;
     d4 \<leftarrow> make_inode_map_uncovered d3 file_inode;
     let dir_iNode' = dir_iNode\<lparr>st_size := st_size dir_iNode - 32, ctime := time_now e, mtime := time_now e\<rparr>;
     d5 \<leftarrow> repalce_iNode_according_to_disk_number d4 dir_inode_number dir_iNode';
     Some (0, d5)
   }"

text \<open>\<open>rmdir\<close> releases the files of the directory (their inode numbers in the data bitmap).\<close>

definition fs_rmdir :: "env \<Rightarrow> disk \<Rightarrow> byte list \<Rightarrow> (int \<times> disk) option" where
  "fs_rmdir e d path = do {
     dir_iNode_number \<leftarrow> understand_the_path d path;
     dir_inode \<leftarrow> just_read_inode_from_disk d dir_iNode_number;
     old_dir_len \<leftarrow> slash_before path 7;
     let file_amount = to_int (sint (st_size dir_inode) sdiv 32);
     d2 \<leftarrow> after_loop (for_loop 0 (nat file_amount)
       (\<lambda>i d. do {
          file_info \<leftarrow> get_filename_data_from_dir_in_rank_view d (int i) dir_inode;
          n \<leftarrow> just_read_inode_from_disk d (sint (inode_number file_info));
          d1 \<leftarrow> release_file_databock_by_provide_inode d n;
          d2 \<leftarrow> make_data_map_uncovered d1 (sint (inode_number file_info));
          Some (Next d2)
        }) d) Some;
     (_, d3) \<leftarrow> fs_unlink e d2 path;
     Some (0, d3)
   }"

text \<open>
  \<open>rename\<close>: \<open>we_want\<close> is the last entry looked at, whether or not it matched; if the directory is empty it
  is never assigned. The new directory's inode is written first, then the old one's copy from the
  start of the operation.
\<close>

definition fs_rename :: "env \<Rightarrow> disk \<Rightarrow> byte list \<Rightarrow> byte list \<Rightarrow> (int \<times> disk) option" where
  "fs_rename e d oldpath newname = do {
     file_inode_number \<leftarrow> understand_the_path d oldpath;
     old_dir_length \<leftarrow> slash_before oldpath 7;
     new_dir_length \<leftarrow> slash_before newname 7;
     let old_dir = take old_dir_length oldpath;
     let new_dir = take new_dir_length newname;
     old_dir_inode_number \<leftarrow> understand_the_path d old_dir;
     old_dir_inode \<leftarrow> just_read_inode_from_disk d old_dir_inode_number;
     let file_amount = to_int (sint (st_size old_dir_inode) sdiv 32);
     (we_want, d1) \<leftarrow> after_loop (for_loop 0 (nat file_amount)
       (\<lambda>i (w, d). do {
          we_want \<leftarrow> get_filename_data_from_dir_in_rank_view d (int i) old_dir_inode;
          if sint (inode_number we_want) = file_inode_number
          then do {
            d1 \<leftarrow> delete_file_according_to_rank d (int i) old_dir_inode;
            Some (Break (Some we_want, d1))
          }
          else Some (Next (Some we_want, d))
        }) (None, d)) Some;
     x \<leftarrow> we_want;
     new_dir_inode_number \<leftarrow> understand_the_path d1 new_dir;
     new_dir_inode \<leftarrow> just_read_inode_from_disk d1 new_dir_inode_number;
     (new_inode, d2) \<leftarrow> add_file_to_dict e d1 new_dir_inode x;
     d3 \<leftarrow> repalce_iNode_according_to_disk_number d2 new_dir_inode_number new_inode;
     let old_dir_inode' = old_dir_inode\<lparr>st_size := st_size old_dir_inode - 32,
       ctime := time_now e, mtime := time_now e\<rparr>;
     d4 \<leftarrow> repalce_iNode_according_to_disk_number d3 old_dir_inode_number old_dir_inode';
     Some (0, d4)
   }"

end
