(* ===== verification/FsData.thy ===== *)
theory FsData
  imports Paths
begin

text \<open>
  The operations of \<open>fs.c\<close> on file contents and the rest of its interface: \<open>read\<close>, \<open>write\<close>, \<open>truncate\<close>,
  \<open>utime\<close>, \<open>statfs\<close> and the operations that do nothing.
\<close>

section \<open>The code: reading\<close>

text \<open>
  The loop of \<open>fs_read\<close>: \<open>have\<close> bytes are copied already. Each iteration reads the block of the next rank
  and copies to its end or until \<open>len\<close> bytes are there. The result is what is still to come.
\<close>

function read_blocks_from :: "disk \<Rightarrow> iNode \<Rightarrow> int \<Rightarrow> nat \<Rightarrow> nat \<Rightarrow> nat \<Rightarrow> byte list option" where
  "read_blocks_from d n start_disk_rank start_bias have_read_size len =
     (if have_read_size = len then Some []
      else if len < have_read_size \<or> 4096 \<le> start_bias then None
      else do {
        content \<leftarrow> read_the_one_disk_according_to_rank_in_inode d start_disk_rank n;
        tem_read_buffer \<leftarrow> content;
        let k = min (4096 - start_bias) (len - have_read_size);
        rest \<leftarrow> read_blocks_from d n (start_disk_rank + 1) 0 (have_read_size + k) len;
        Some (load_bytes tem_read_buffer start_bias k @ rest)
      })"
  by pat_completeness auto
termination
  by (relation "measure (\<lambda>(d, n, r, b, have_read, len). len - have_read)") (auto simp: min_def)

declare read_blocks_from.simps [simp del]

text \<open>
  The loop test is \<open>have_read_size != (int)size\<close>: a size that is negative as an \<open>int\<close> is never reached. A
  negative offset makes an array index negative. The result is the return value and the bytes stored in
  the caller's buffer.
\<close>

definition fs_read :: "disk \<Rightarrow> byte list \<Rightarrow> nat \<Rightarrow> int \<Rightarrow> (int \<times> byte list) option" where
  "fs_read d path n_bytes offset = do {
     n \<leftarrow> understand_the_path d path;
     now_file_inode \<leftarrow> just_read_inode_from_disk d n;
     let start_disk_rank = to_int (offset sdiv 4096);
     let start_bias = offset smod 4096;
     let isize = to_int (int n_bytes);
     if isize < 0 \<or> start_bias < 0 then None
     else do {
       bytes \<leftarrow> read_blocks_from d now_file_inode start_disk_rank (nat start_bias) 0 (nat isize);
       Some (get_min isize (to_int (sint (st_size now_file_inode))), bytes)
     }
   }"

section \<open>The code: writing\<close>

text \<open>Linking a block to an inode: an unreadable index block is changed in memory only.\<close>

definition mount_block_to_inode_according_to_rank ::
  "disk \<Rightarrow> int \<Rightarrow> int \<Rightarrow> iNode \<Rightarrow> (iNode \<times> disk) option" where
  "mount_block_to_inode_according_to_rank d rank data_black_number now_file_node =
     (if rank < 12
      then do {
        ps \<leftarrow> array_set (direct_pointer now_file_node) rank (word32_of data_black_number);
        Some (now_file_node\<lparr>direct_pointer := ps\<rparr>, d)
      }
      else do {
        let index = rank sdiv (1024 + 12);
        let bias = rank - index * 1024 - 12;
        q \<leftarrow> array_get (indirect_pointer now_file_node) index;
        if 0 \<le> bias \<and> bias < 1024
        then Some (now_file_node,
          case data_block d q of
            None \<Rightarrow> d
          | Some b \<Rightarrow> write_block d (datablock_find_disk_id (sint q)) (put_int b (nat bias) (word32_of data_black_number)))
        else None
      })"

definition take_datablock_for_write :: "disk \<Rightarrow> int \<Rightarrow> iNode \<Rightarrow> (iNode \<times> disk) option" where
  "take_datablock_for_write d rank n = do {
     (tem_number, d1) \<leftarrow> take_datablock d;
     mount_block_to_inode_according_to_rank d1 rank tem_number n
   }"

text \<open>
  The first block: it is read, \<open>k\<close> bytes of the caller's buffer are copied over it, it is written. The
  loop stops at \<open>size - 1\<close> bytes, not at \<open>size\<close>. The bytes of the buffer are printed first.
\<close>

definition write_first_block ::
  "disk \<Rightarrow> int \<Rightarrow> nat \<Rightarrow> iNode \<Rightarrow> byte list \<Rightarrow> nat \<Rightarrow> (nat \<times> disk) option" where
  "write_first_block d rank start_position n buffer n_bytes = do {
     content \<leftarrow> read_the_one_disk_according_to_rank_in_inode d rank n;
     let k = min (4096 - start_position) (n_bytes - 1);
     if length buffer < max 1 n_bytes then None
     else do {
       d' \<leftarrow> (case content of
                None \<Rightarrow> Some d
              | Some first_write_in \<Rightarrow>
                  write_into_disk_acccording_to_rank_in_inode d rank n
                    (store_bytes first_write_in start_position (take k buffer)));
       Some (k, d')
     }
   }"

text \<open>
  The blocks after the first: a zeroed block takes the next bytes while \<open>have_wrote_size <= size\<close>, one byte
  more than the caller has passed; the block is allocated, linked and written.
\<close>

function write_more_blocks ::
  "disk \<Rightarrow> int \<Rightarrow> iNode \<Rightarrow> byte list \<Rightarrow> nat \<Rightarrow> nat \<Rightarrow> (iNode \<times> disk) option" where
  "write_more_blocks d disk_rank n buffer have_wrote_size n_bytes =
     (if n_bytes \<le> have_wrote_size then Some (n, d)
      else do {
        let k = min 4096 (n_bytes + 1 - have_wrote_size);
        if length buffer < have_wrote_size + k then None
        else do {
          let worte = store_bytes (\<lambda>_. 0) 0 (take k (drop have_wrote_size buffer));
          (n1, d1) \<leftarrow> take_datablock_for_write d disk_rank n;
          d2 \<leftarrow> write_into_disk_acccording_to_rank_in_inode d1 disk_rank n1 worte;
          write_more_blocks d2 (disk_rank + 1) n1 buffer (have_wrote_size + k) n_bytes
        }
      })"
  by pat_completeness auto
termination
  by (relation "measure (\<lambda>(d, r, n, b, have_wrote, n_bytes). n_bytes - have_wrote)") auto

declare write_more_blocks.simps [simp del]

text \<open>\<open>check_write\<close> looks the file up again and prints the start of its first block.\<close>

definition check_write :: "disk \<Rightarrow> byte list \<Rightarrow> unit option" where
  "check_write d path = do {
     n \<leftarrow> understand_the_path d path;
     here \<leftarrow> just_read_inode_from_disk d n;
     Some ()
   }"

text \<open>
  \<open>buffer\<close> is the memory behind the caller's pointer, \<open>size\<close> the number of bytes to write. A size that
  makes a counter of type \<open>int\<close> overflow and a negative position in the block have no result.
\<close>

definition fs_write :: "disk \<Rightarrow> byte list \<Rightarrow> byte list \<Rightarrow> nat \<Rightarrow> int \<Rightarrow> (int \<times> disk) option" where
  "fs_write d path buffer n_bytes offset = do {
     iNode_number \<leftarrow> understand_the_path d path;
     new_file_inode \<leftarrow> just_read_inode_from_disk d iNode_number;
     let pre_number_size = to_int (offset sdiv 4096);
     let start_position = offset smod 4096;
     if start_position < 0 \<or> 2 ^ 31 \<le> int n_bytes + 1 \<or> 2 ^ 31 \<le> to_int offset + int n_bytes then None
     else do {
       (n1, d1) \<leftarrow>
         (if start_position = 0 then take_datablock_for_write d pre_number_size new_file_inode
          else Some (new_file_inode, d));
       (have_wrote_size, d2) \<leftarrow> write_first_block d1 pre_number_size (nat start_position) n1 buffer n_bytes;
       (n3, d3) \<leftarrow> write_more_blocks d2 (pre_number_size + 1) n1 buffer have_wrote_size n_bytes;
       let n4 = n3\<lparr>st_size := word64_of (to_int offset + to_int (int n_bytes))\<rparr>;
       d4 \<leftarrow> repalce_iNode_according_to_disk_number d3 iNode_number n4;
       _ \<leftarrow> check_write d4 path;
       Some (int n_bytes, d4)
     }
   }"

section \<open>The code: truncating and the rest\<close>

definition delete_n_rank_block :: "disk \<Rightarrow> int \<Rightarrow> iNode \<Rightarrow> (iNode \<times> disk) option" where
  "delete_n_rank_block d rank now_file_inode = do {
     free_data_block_number \<leftarrow>
       (if rank < 12 then array_get (direct_pointer now_file_inode) rank
        else do {
          let index = rank sdiv (12 + 1024);
          let transfer = rank - 12 - 1024 * index;
          q \<leftarrow> array_get (indirect_pointer now_file_inode) index;
          b \<leftarrow> data_block d q;
          if 0 \<le> transfer \<and> transfer < 1024 then Some (get_int b (nat transfer)) else None
        });
     d' \<leftarrow> make_data_map_uncovered d (sint free_data_block_number);
     Some (now_file_inode, d')
   }"

definition add_new_empty_block_according_to_rank :: "disk \<Rightarrow> int \<Rightarrow> iNode \<Rightarrow> (iNode \<times> disk) option" where
  "add_new_empty_block_according_to_rank d rank n =
     (if rank < 12
      then do {
        (data_block_number, d1) \<leftarrow> take_datablock d;
        ps \<leftarrow> array_set (direct_pointer n) rank (word32_of data_block_number);
        Some (n\<lparr>direct_pointer := ps\<rparr>, d1)
      }
      else do {
        (n1, d1) \<leftarrow> (if rank = 12
          then do { (b, d1) \<leftarrow> take_datablock d;
                    Some (n\<lparr>indirect_pointer := (indirect_pointer n)[0 := word32_of b]\<rparr>, d1) }
          else Some (n, d));
        (n2, d2) \<leftarrow> (if rank = 12 + 1024
          then do { (b, d2) \<leftarrow> take_datablock d1;
                    Some (n1\<lparr>indirect_pointer := (indirect_pointer n1)[1 := word32_of b]\<rparr>, d2) }
          else Some (n1, d1));
        let index = rank sdiv (1024 + 12);
        let bias = rank - index * 1024 - 12;
        q \<leftarrow> array_get (indirect_pointer n2) index;
        let buffer_index = data_block d2 q;
        (data_block_number, d3) \<leftarrow> take_datablock d2;
        if 0 \<le> bias \<and> bias < 1024
        then Some (n2, case buffer_index of
               None \<Rightarrow> d3
             | Some b \<Rightarrow> write_block d3 (datablock_find_disk_id (sint q))
                 (put_int b (nat bias) (word32_of data_block_number)))
        else None
      })"

text \<open>
  Both loops of \<open>truncate\<close> run \<open>i\<close> from \<open>now_block_size + 1\<close> to \<open>pre_block_size\<close>, also when the file grows.
\<close>

definition fs_truncate :: "disk \<Rightarrow> byte list \<Rightarrow> int \<Rightarrow> (int \<times> disk) option" where
  "fs_truncate d path n_bytes = do {
     n \<leftarrow> understand_the_path d path;
     let (index, disk_id) = inode_find_disk_id_and_index_in_disk n;
     buffer_inode \<leftarrow> read_block d disk_id;
     x \<leftarrow> inode_at buffer_inode index;
     let pre_block_size = to_int (sint (st_size x)) sdiv 4096 + 1;
     let now_block_size = to_int n_bytes sdiv 4096 + 1;
     let loop = (\<lambda>change. after_loop (for_loop 0 (nat (pre_block_size - now_block_size))
         (\<lambda>i (x, d). map_option Next (change d (now_block_size + 1 + int i) x)) (x, d)) Some);
     (x', d') \<leftarrow>
       (if pre_block_size = now_block_size then Some (x\<lparr>st_size := word64_of n_bytes\<rparr>, d)
        else if now_block_size > pre_block_size then loop add_new_empty_block_according_to_rank
        else loop delete_n_rank_block);
     buffer_inode' \<leftarrow> set_inode_at buffer_inode index (x'\<lparr>st_size := word64_of n_bytes\<rparr>);
     Some (0, write_block d' disk_id buffer_inode')
   }"

text \<open>\<open>utime\<close> stores the two times it finds in the caller's \<open>struct utimbuf\<close>: \<open>(actime, modtime)\<close>.\<close>

definition fs_utime :: "env \<Rightarrow> disk \<Rightarrow> byte list \<Rightarrow> (int \<times> (64 word \<times> 64 word) \<times> disk) option" where
  "fs_utime e d path = do {
     n \<leftarrow> understand_the_path d path;
     let (index, disk_id) = inode_find_disk_id_and_index_in_disk n;
     buffer_inode \<leftarrow> read_block d disk_id;
     x \<leftarrow> inode_at buffer_inode index;
     let x' = x\<lparr>ctime := time_now e\<rparr>;
     buffer_inode' \<leftarrow> set_inode_at buffer_inode index x';
     Some (0, (atime x', ctime x'), write_block d disk_id buffer_inode')
   }"

text \<open>
  In C \<open>==\<close> and \<open>!=\<close> bind tighter than \<open>&\<close>: the tests are \<open>byte & (mask == 0)\<close> and \<open>byte & (mask != 0)\<close>.
\<close>

definition bool_byte :: "bool \<Rightarrow> byte" where "bool_byte b = (if b then 1 else 0)"

definition get_free_block_size :: "disk \<Rightarrow> int option" where
  "get_free_block_size d = do {
     bufffer_first \<leftarrow> read_block d 2;
     buffer_second \<leftarrow> read_block d 3;
     after_loop (for_loop 0 4096
       (\<lambda>i. for_loop 0 8 (\<lambda>k free_number.
          let f1 = (if bufffer_first i AND bool_byte (bit_map_mask ! k = 0) \<noteq> 0 then free_number + 1 else free_number);
              f2 = (if buffer_second i AND bool_byte (bit_map_mask ! k = 0) \<noteq> 0 then f1 + 1 else f1)
          in Some (Next f2))) 0) Some
   }"

definition get_file_number :: "disk \<Rightarrow> int option" where
  "get_file_number d = do {
     number_buffer \<leftarrow> read_block d 1;
     after_loop (for_loop 0 4096
       (\<lambda>i. for_loop 0 8 (\<lambda>k file_amount.
          Some (Next (if number_buffer i AND bool_byte (bit_map_mask ! k \<noteq> 0) \<noteq> 0
                      then file_amount + 1 else file_amount)))) 0) Some
   }"

record statvfs =
  f_bsize :: int
  f_blocks :: int
  f_namemax :: int
  f_bfree :: int
  f_bavail :: int
  f_files :: int
  f_ffree :: int
  f_favail :: int

definition fs_statfs :: "disk \<Rightarrow> byte list \<Rightarrow> (int \<times> statvfs) option" where
  "fs_statfs d path = do {
     free_blocks \<leftarrow> get_free_block_size d;
     file_number \<leftarrow> get_file_number d;
     Some (0, \<lparr>f_bsize = 4096, f_blocks = 256 * 256, f_namemax = 24, f_bfree = free_blocks,
       f_bavail = free_blocks, f_files = file_number, f_ffree = 4096 - file_number,
       f_favail = 4096 - file_number\<rparr>)
   }"

definition fs_open :: "disk \<Rightarrow> byte list \<Rightarrow> int option" where
  "fs_open d path = do {
     n \<leftarrow> understand_the_path d path;
     file_inode \<leftarrow> just_read_inode_from_disk d n;
     Some 0
   }"

definition fs_release :: "disk \<Rightarrow> byte list \<Rightarrow> int" where "fs_release d path = 0"
definition fs_opendir :: "disk \<Rightarrow> byte list \<Rightarrow> int" where "fs_opendir d path = 0"
definition fs_releasedir :: "disk \<Rightarrow> byte list \<Rightarrow> int" where "fs_releasedir d path = 0"

end
