(* ===== verification/FsInv.thy ===== *)
theory FsInv
  imports FsNames FsData
begin

text \<open>
  The invariant of the whole file system, \<open>dirs_ok\<close>: which inodes are directories and how many
  entries each has, with the data blocks of two directories disjoint. \<open>reaches\<close> is the directory a
  path leads to. The frame lemmas say what keeps them.
\<close>

section \<open>The invariant\<close>

text \<open>\<open>D\<close> maps the inode number of a directory to its number of entries.\<close>

type_synonym dir_map = "nat \<Rightarrow> nat option"

definition dir_block :: "disk \<Rightarrow> dir_map \<Rightarrow> nat \<Rightarrow> bool" where
  "dir_block d D p \<longleftrightarrow> (\<exists>i N k. D i = Some N \<and> k < blocks_of N \<and> p = ptr (inode_of d i) k)"

definition dirs_ok :: "disk \<Rightarrow> dir_map \<Rightarrow> bool" where
  "dirs_ok d D \<longleftrightarrow>
     (\<forall>i N. D i = Some N \<longrightarrow> i < INODES \<and> inode_used d i \<and> dir_ok d (inode_of d i) N)
     \<and> (\<forall>i j N M k l. D i = Some N \<longrightarrow> D j = Some M \<longrightarrow> k < blocks_of N \<longrightarrow> l < blocks_of M
          \<longrightarrow> ptr (inode_of d i) k = ptr (inode_of d j) l \<longrightarrow> i = j)"

lemma dirs_okD:
  assumes "dirs_ok d D" and "D i = Some N"
  shows "i < INODES" "inode_used d i" "dir_ok d (inode_of d i) N"
  using assms by (auto simp: dirs_ok_def)

lemma dirs_ok_disjoint:
  assumes "dirs_ok d D" and "D i = Some N" and "D j = Some M" and "k < blocks_of N"
    and "l < blocks_of M" and "ptr (inode_of d i) k = ptr (inode_of d j) l"
  shows "i = j"
  using assms unfolding dirs_ok_def by blast

lemma dir_block_used:
  assumes "dirs_ok d D" and "dir_block d D p"
  shows "data_used d p" "p < DATA_NUM"
proof -
  from assms(2) obtain i N k where D: "D i = Some N" "k < blocks_of N" "p = ptr (inode_of d i) k"
    by (auto simp: dir_block_def)
  with dirs_okD(3) [OF assms(1) D(1)] have "ptr_ok d (inode_of d i) k" by (simp add: dir_ok_def)
  with D(3) show "data_used d p" "p < DATA_NUM" by (simp_all add: ptr_ok_def)
qed

text \<open>A directory is not changed by what leaves its blocks and its pointers alone.\<close>

lemma dir_ok_mono:
  assumes "dir_ok d n N" and "\<And>k. k < DATA_NUM \<Longrightarrow> data_used d k \<Longrightarrow> data_used d' k"
  shows "dir_ok d' n N"
  using assms by (auto simp: dir_ok_def ptr_ok_def)

lemma dir_entries_frame:
  assumes "\<And>k. k < blocks_of N \<Longrightarrow> d' (data_id (ptr n k)) = d (data_id (ptr n k))"
  shows "dir_entries d' n N = dir_entries d n N"
  using assms by (simp add: dir_entries_def entry_at_def block_lt)

lemma dirs_frame:
  assumes ok: "dirs_ok d D"
    and inodes: "\<And>i N. D i = Some N \<Longrightarrow> inode_of d' i = inode_of d i"
    and blocks: "\<And>p. dir_block d D p \<Longrightarrow> d' (data_id p) = d (data_id p)"
    and data: "\<And>k. k < DATA_NUM \<Longrightarrow> data_used d k \<Longrightarrow> data_used d' k"
    and used: "\<And>i. i < INODES \<Longrightarrow> inode_used d i \<Longrightarrow> inode_used d' i"
  shows "dirs_ok d' D"
    and "D i = Some N \<Longrightarrow> dir_entries d' (inode_of d' i) N = dir_entries d (inode_of d i) N"
proof -
  have each: "i < INODES \<and> inode_used d' i \<and> dir_ok d' (inode_of d' i) N" if "D i = Some N" for i N
    using dirs_okD(1,2) [OF ok that] used [of i] dir_ok_mono [OF dirs_okD(3) [OF ok that], of d'] data
    by (simp add: inodes [OF that])
  have "i = j" if "D i = Some N" "D j = Some M" "k < blocks_of N" "l < blocks_of M"
    "ptr (inode_of d' i) k = ptr (inode_of d' j) l" for i j N M k l
    using dirs_ok_disjoint [OF ok that(1-4)] that(5) by (simp add: inodes [OF that(1)] inodes [OF that(2)])
  with each show "dirs_ok d' D" unfolding dirs_ok_def by blast
  show "dir_entries d' (inode_of d' i) N = dir_entries d (inode_of d i) N" if "D i = Some N"
  proof -
    have "d' (data_id (ptr (inode_of d i) k)) = d (data_id (ptr (inode_of d i) k))"
      if "k < blocks_of N" for k
      using that \<open>D i = Some N\<close> by (intro blocks) (auto simp: dir_block_def)
    then show ?thesis unfolding inodes [OF that] by (rule dir_entries_frame)
  qed
qed

section \<open>Paths to directories\<close>

inductive reaches :: "disk \<Rightarrow> dir_map \<Rightarrow> nat \<Rightarrow> byte list list \<Rightarrow> nat \<Rightarrow> bool" for d D where
  here: "D i = Some N \<Longrightarrow> reaches d D i [] i"
| into: "D i = Some N \<Longrightarrow> N < 12 * 128 \<Longrightarrow> good_name c \<Longrightarrow>
     lookup_name d (inode_of d i) N c = Some e \<Longrightarrow> sint (inode_number e) = int j \<Longrightarrow>
     reaches d D j cs k \<Longrightarrow> reaches d D i (c # cs) k"

inductive_cases reaches_NilE: "reaches d D i [] k"
inductive_cases reaches_ConsE: "reaches d D i (c # cs) k"

lemma reaches_dir: "reaches d D i cs k \<Longrightarrow> (\<exists>N. D i = Some N) \<and> (\<exists>M. D k = Some M)"
  by (induction rule: reaches.induct) auto

lemma reaches_good: "reaches d D i cs k \<Longrightarrow> \<forall>c \<in> set cs. good_name c"
  by (induction rule: reaches.induct) auto

text \<open>What the name \<open>c\<close> denotes in directory \<open>k\<close>: the number the code returns for it.\<close>

definition name_number :: "disk \<Rightarrow> nat \<Rightarrow> nat \<Rightarrow> byte list \<Rightarrow> int" where
  "name_number d k N c =
     (case lookup_name d (inode_of d k) N c of Some e \<Rightarrow> sint (inode_number e) | None \<Rightarrow> - ENOENT)"

lemma reaches_resolves:
  assumes "reaches d D i cs k" and ok: "dirs_ok d D" and "D k = Some N" and "N < 12 * 128"
    and c: "good_name c"
  shows "resolves d i (cs @ [c]) (name_number d k N c)"
  using assms(1,3,4)
proof (induction rule: reaches.induct)
  case (here i)
  note D = dirs_okD [OF ok here(2)]
  show ?case
    using resolves.found [OF D(1,3) here(3) c] resolves.missing [OF D(1,3) here(3) c]
    by (cases "lookup_name d (inode_of d i) N c") (auto simp: name_number_def)
next
  case (into i M c' e j cs k)
  note D = dirs_okD [OF ok into(1)]
  have IH: "resolves d j (cs @ [c]) (name_number d k N c)" by (rule into.IH) fact+
  obtain c'' cs' where "cs @ [c] = c'' # cs'" by (cases cs) auto
  with IH resolves.step [OF D(1,3) into(2,3,4,5)] show ?case by simp
qed

lemma understand_name:
  assumes "reaches d D 4 cs k" and "dirs_ok d D" and "D k = Some N" and "N < 12 * 128" and "good_name c"
  shows "understand_the_path d (path_text (cs @ [c])) = Some (name_number d k N c)"
  by (rule understand_the_path_resolves [OF reaches_resolves [OF assms]])

lemma reaches_snoc:
  "reaches d D i (cs @ [c]) k \<Longrightarrow> \<exists>j N e. reaches d D i cs j \<and> D j = Some N \<and> N < 12 * 128
     \<and> good_name c \<and> lookup_name d (inode_of d j) N c = Some e \<and> sint (inode_number e) = int k"
proof (induction cs arbitrary: i)
  case Nil
  then show ?case
    by (auto elim!: reaches_ConsE reaches_NilE intro: reaches.here)
next
  case (Cons a cs)
  from Cons.prems obtain N e j where s: "D i = Some N" "N < 12 * 128" "good_name a"
    "lookup_name d (inode_of d i) N a = Some e" "sint (inode_number e) = int j" "reaches d D j (cs @ [c]) k"
    by (auto elim!: reaches_ConsE)
  from Cons.IH [OF s(6)] obtain j' N' e' where "reaches d D j cs j'" "D j' = Some N'" "N' < 12 * 128"
    "good_name c" "lookup_name d (inode_of d j') N' c = Some e'" "sint (inode_number e') = int k" by blast
  with s show ?case by (meson reaches.into)
qed

text \<open>The path of a directory, the root included, is understood as its inode number.\<close>

definition dir_text :: "byte list list \<Rightarrow> byte list" where
  "dir_text cs = (if cs = [] then [slash] else path_text cs)"

lemma understand_dir:
  assumes "reaches d D 4 cs k" and "dirs_ok d D"
  shows "understand_the_path d (dir_text cs) = Some (int k)"
proof (cases cs rule: rev_cases)
  case Nil
  with assms(1) show ?thesis by (auto simp: dir_text_def understand_root elim: reaches_NilE)
next
  case (snoc cs' c)
  from reaches_snoc [OF assms(1) [unfolded snoc]] obtain j N e where
    "reaches d D 4 cs' j" "D j = Some N" "N < 12 * 128" "good_name c"
    "lookup_name d (inode_of d j) N c = Some e" "sint (inode_number e) = int k" by blast
  with understand_name [OF this(1) assms(2) this(2,3,4)] snoc show ?thesis
    by (simp add: dir_text_def name_number_def)
qed

text \<open>Paths survive what keeps every name they go through.\<close>

lemma reaches_mono:
  assumes "reaches d D i cs k"
    and "\<And>i N. D i = Some N \<Longrightarrow> N < 12 * 128 \<Longrightarrow> \<exists>M. D' i = Some M \<and> (cs \<noteq> [] \<longrightarrow> M < 12 * 128)
           \<and> (\<forall>c e. lookup_name d (inode_of d i) N c = Some e \<longrightarrow> lookup_name d' (inode_of d' i) M c = Some e)"
    and "\<And>i. D i \<noteq> None \<Longrightarrow> D' i \<noteq> None"
  shows "reaches d' D' i cs k"
  using assms
proof (induction rule: reaches.induct)
  case (here i N)
  then show ?case by (metis not_None_eq reaches.here option.distinct(1))
next
  case (into i N c e j cs k)
  from into.prems(1) [OF into.hyps(1,2)] obtain M where M: "D' i = Some M" "M < 12 * 128"
    "\<forall>c e. lookup_name d (inode_of d i) N c = Some e \<longrightarrow> lookup_name d' (inode_of d' i) M c = Some e"
    by auto
  have "reaches d' D' j cs k"
  proof (rule into.IH)
    fix i N
    assume "D i = Some N" "N < 12 * 128"
    from into.prems(1) [OF this] show "\<exists>M. D' i = Some M \<and> (cs \<noteq> [] \<longrightarrow> M < 12 * 128)
        \<and> (\<forall>c e. lookup_name d (inode_of d i) N c = Some e \<longrightarrow> lookup_name d' (inode_of d' i) M c = Some e)"
      by auto
  qed (rule into.prems(2))
  with M into.hyps show ?case by (intro reaches.into) auto
qed

end
