(* ===== verification/FsCreate.thy ===== *)
theory FsCreate
  imports FsInv
begin

text \<open>
  What \<open>mknod\<close> and \<open>mkdir\<close> do under the invariant: a fresh inode is taken and initialised, the new name
  is appended to the directory, every other path denotes what it did, and the invariant holds with one
  entry (and for \<open>mkdir\<close> one empty directory) more.
\<close>

section \<open>Which writes leave what alone\<close>

lemma inode_block_meta [simp]:
  "inode_block n \<noteq> 0" "inode_block n \<noteq> Suc 0" "inode_block n \<noteq> 2" "inode_block n \<noteq> 3"
  "0 \<noteq> inode_block n" "Suc 0 \<noteq> inode_block n" "2 \<noteq> inode_block n" "3 \<noteq> inode_block n"
  by (simp_all add: inode_block_def)

lemma inode_of_cong: "d' (inode_block n) = d (inode_block n) \<Longrightarrow> inode_of d' n = inode_of d n"
  by (simp add: inode_of_def)

lemma used_set_inode [simp]:
  "inode_used (set_inode d n x) k = inode_used d k"
  "data_used (set_inode d n x) k = data_used d k"
  by (simp_all add: inode_used_def data_used_def)

lemma used_set_map [simp]:
  "data_used (set_bit_in masks d (Suc 0) n) k = data_used d k"
  "m < INODES \<Longrightarrow> inode_of (set_bit_in masks d (Suc 0) n) m = inode_of d m"
  by (simp_all add: data_used_def inode_of_def)

lemma append_frame_inodes:
  assumes "append_frame d d' p"
  shows "m < INODES \<Longrightarrow> inode_of d' m = inode_of d m" and "inode_used d' k = inode_used d k"
proof -
  show "inode_of d' m = inode_of d m" if "m < INODES"
    using assms that by (intro inode_of_cong) (simp add: append_frame_def)
  have "d' (Suc 0) = d (Suc 0)" using assms by (simp add: append_frame_def)
  then show "inode_used d' k = inode_used d k" by (simp add: inode_used_def)
qed

section \<open>The new inode\<close>

definition fresh_inode :: "env \<Rightarrow> 32 word \<Rightarrow> nat \<Rightarrow> iNode \<Rightarrow> iNode" where
  "fresh_inode e m k n = n\<lparr>st_mode := m, st_nlink := 1, st_uid := getuid e, st_gid := getgid e,
     st_size := 0, atime := time_now e, mtime := time_now e, ctime := time_now e,
     inode_id := word32_of (int k)\<rparr>"

definition with_inode :: "env \<Rightarrow> 32 word \<Rightarrow> disk \<Rightarrow> nat \<Rightarrow> disk" where
  "with_inode e m d k = set_inode (set_bit_in bit_map_mask d 1 k) k (fresh_inode e m k (inode_of d k))"

lemma wf_fresh_inode [simp]: "wf_inode (fresh_inode e m k n) = wf_inode n"
  by (simp add: fresh_inode_def wf_inode_def)

lemma apply_inode_eq:
  assumes "find_empty_inode d = Some (int k)" and "k < INODES"
  shows "apply_a_new_inode_and_initial e d = Some (int k, with_inode e REGMODE d k)"
    and "apply_a_new_inode_and_initial_as_dict e d = Some (int k, with_inode e DIRMODE d k)"
proof -
  have k: "k < MAP_BITS" using assms(2) by (simp add: MAP_BITS_def INODES_def)
  let ?d = "set_bit_in bit_map_mask d (Suc 0) k"
  have n: "get_inode (?d (inode_block k)) (k mod 32) = inode_of d k"
    by (simp add: inode_of_def)
  show "apply_a_new_inode_and_initial e d = Some (int k, with_inode e REGMODE d k)"
    using assms n by (simp add: apply_a_new_inode_and_initial_def make_inode_map_covered_eq [OF k]
        find_index_eq inode_at_eq set_inode_at_eq write_block_on with_inode_def set_inode_def
        fresh_inode_def del: of_nat_mod)
  show "apply_a_new_inode_and_initial_as_dict e d = Some (int k, with_inode e DIRMODE d k)"
    using assms n by (simp add: apply_a_new_inode_and_initial_as_dict_def make_inode_map_covered_eq [OF k]
        find_index_eq inode_at_eq set_inode_at_eq write_block_on with_inode_def set_inode_def
        fresh_inode_def del: of_nat_mod)
qed

lemma with_inode_facts:
  assumes "k < INODES"
  shows "m < INODES \<Longrightarrow> inode_of (with_inode e md d k) m =
      (if m = k then fresh_inode e md k (inode_of d k) else inode_of d m)"
    and "inode_used (with_inode e md d k) j = (j = k \<or> inode_used d j)"
    and "data_used (with_inode e md d k) j = data_used d j"
    and "with_inode e md d k (data_id p) = d (data_id p)"
  using assms by (auto simp: with_inode_def inode_of_set_inode)

section \<open>Taking the path apart\<close>

lemma path_text_append: "path_text (cs @ ds) = path_text cs @ path_text ds"
  by (induction cs) auto

lemma split_path_text:
  assumes "good_name c"
  shows "split_path (path_text (cs @ [c])) = Some (dir_text cs, pad28 c)"
proof -
  let ?p = "path_text (cs @ [c])"
  have p: "?p = path_text cs @ slash # c" by (simp add: path_text_append)
  have c: "slash \<notin> set (rev c)" "length c \<le> 28" using assms by (simp_all add: good_name_def)
  then have "takeWhile (\<lambda>x. x \<noteq> slash) (rev ?p) = rev c"
    by (auto simp: p takeWhile_append)
  moreover have "path_text cs = [] \<longleftrightarrow> cs = []" by (cases cs) auto
  moreover have "slash \<in> set ?p" by (simp add: p)
  ultimately show ?thesis
    using c by (auto simp: split_path_def Let_def p dir_text_def pad28_def)
qed

section \<open>Creating a node\<close>

text \<open>What \<open>mknod\<close> and \<open>mkdir\<close> do to the disk: inode \<open>k\<close> made, directory \<open>i\<close> one entry longer.\<close>

definition created :: "env \<Rightarrow> 32 word \<Rightarrow> disk \<Rightarrow> nat \<Rightarrow> nat \<Rightarrow> byte list \<Rightarrow> nat \<Rightarrow> nat \<Rightarrow> disk \<Rightarrow> bool" where
  "created e md d i N c k p d' \<longleftrightarrow>
     inode_of d' k = fresh_inode e md k (inode_of d k)
     \<and> (\<forall>m < INODES. m \<noteq> k \<longrightarrow> m \<noteq> i \<longrightarrow> inode_of d' m = inode_of d m)
     \<and> dir_ok d' (inode_of d' i) (Suc N)
     \<and> dir_entries d' (inode_of d' i) (Suc N) =
         dir_entries d (inode_of d i) N @ [\<lparr>file_name = pad28 c, inode_number = word32_of (int k)\<rparr>]
     \<and> (\<forall>m < INODES. inode_used d' m \<longleftrightarrow> m = k \<or> inode_used d m)
     \<and> (\<forall>m < DATA_NUM. data_used d' m \<longleftrightarrow> m = p \<or> data_used d m)
     \<and> (\<forall>q. q \<noteq> p \<longrightarrow> d' (data_id q) = d (data_id q))
     \<and> (data_used d p \<longrightarrow> (\<exists>l < blocks_of N. p = ptr (inode_of d i) l))
     \<and> (\<forall>l < blocks_of (Suc N). ptr (inode_of d' i) l = p
          \<or> l < blocks_of N \<and> ptr (inode_of d' i) l = ptr (inode_of d i) l)
     \<and> st_mode (inode_of d' i) = st_mode (inode_of d i)"

lemma create_node_spec:
  assumes ok: "dirs_ok d D" and r: "reaches d D 4 cs i" and D: "D i = Some N" and N: "N < 12 * 128"
    and c: "good_name c" and k: "k < INODES" "\<not> inode_used d k"
    and new: "apply_inode e d = Some (int k, with_inode e md d k)"
    and free: "N mod 128 = 0 \<Longrightarrow> \<exists>m < DATA_NUM. \<not> data_used d m"
  shows "\<exists>p d'. create_node apply_inode e d (path_text (cs @ [c])) = Some (0, d')
    \<and> created e md d i N c k p d'"
proof -
  note i = dirs_okD [OF ok D]
  from i(2) k(2) have ik: "i \<noteq> k" by auto
  define d1 where "d1 = with_inode e md d k"
  note facts = with_inode_facts [OF k(1), where e = e and md = md and d = d, folded d1_def]
  define x where "x = \<lparr>file_name = pad28 c, inode_number = word32_of (int k)\<rparr>"
  have x: "wf_entry x" using c by (simp add: x_def wf_entry_def pad28_def good_name_def)
  have father: "inode_of d1 i = inode_of d i" using facts(1) [OF i(1)] ik by simp
  have ok1: "dir_ok d1 (inode_of d i) N" by (rule dir_ok_mono [OF i(3)]) (simp add: facts)
  have free1: "\<exists>m < DATA_NUM. \<not> data_used d1 m" if "N mod 128 = 0" using free [OF that] by (simp add: facts)
  from add_file_to_dict_append [OF ok1 N x free1] obtain n' d2 p where
    add: "add_file_to_dict e d1 (inode_of d i) x = Some (n', d2)"
    and n': "dir_ok d2 n' (Suc N)" "dir_entries d2 n' (Suc N) = dir_entries d1 (inode_of d i) N @ [x]"
      "st_mode n' = st_mode (inode_of d i)"
    and fr: "append_frame d1 d2 p"
    and p: "data_used d1 p \<longrightarrow> (\<exists>l < blocks_of N. p = ptr (inode_of d i) l)" "p < DATA_NUM"
      "\<And>l. l < blocks_of (Suc N) \<Longrightarrow> ptr n' l = p \<or> l < blocks_of N \<and> ptr n' l = ptr (inode_of d i) l"
    by blast
  have wf: "wf_inode n'" using n'(1) by (simp add: dir_ok_def)
  have "st_size n' = word64_of (int (32 * Suc N))" using n'(1) by (simp add: dir_ok_def)
  then have big: "sint (st_size n') = int (32 * Suc N)"
    using N by (simp only:) (rule sint_word64_of, auto)
  have blk: "d2 (inode_block i) = d1 (inode_block i)"
    using fr i(1) by (auto simp: append_frame_def)
  define d' where "d' = set_inode d2 i n'"
  have size: "\<not> sint (st_size n') sdiv 32 > int (128 * DerictPointer)"
    unfolding big using N by (simp only: sdiv_smod_numeral) simp
  have run: "create_node apply_inode e d (path_text (cs @ [c])) = Some (0, d')"
    using i(1) add father size blk
    by (simp add: create_node_def split_path_text [OF c] understand_dir [OF r ok] new d1_def [symmetric]
        find_index_eq inode_at_eq set_inode_at_eq inode_of_def x_def d'_def set_inode_def write_block_on
        Let_def del: of_nat_mod)
  have ents: "dir_entries d' n' (Suc N) = dir_entries d2 n' (Suc N)"
    "dir_entries d1 (inode_of d i) N = dir_entries d (inode_of d i) N"
    using i(1) by (auto intro!: dir_entries_frame simp: d'_def facts)
  have inodes: "inode_of d' m = (if m = i then n' else inode_of d1 m)" if "m < INODES" for m
    using append_frame_inodes(1) [OF fr that] by (simp add: d'_def inode_of_set_inode [OF i(1) that wf])
  have "created e md d i N c k p d'"
    unfolding created_def
  proof (intro conjI allI impI)
    show "inode_of d' k = fresh_inode e md k (inode_of d k)" using inodes [OF k(1)] facts(1) [OF k(1)] ik by simp
    show "inode_of d' m = inode_of d m" if "m < INODES" "m \<noteq> k" "m \<noteq> i" for m
      using inodes [OF that(1)] facts(1) [OF that(1)] that by simp
    show "dir_ok d' (inode_of d' i) (Suc N)"
      unfolding inodes [OF i(1)] by (simp, rule dir_ok_mono [OF n'(1)]) (simp add: d'_def)
    show "dir_entries d' (inode_of d' i) (Suc N) =
        dir_entries d (inode_of d i) N @ [\<lparr>file_name = pad28 c, inode_number = word32_of (int k)\<rparr>]"
      using inodes [OF i(1)] ents n'(2) by (simp add: x_def)
    show "inode_used d' m = (m = k \<or> inode_used d m)" for m
      by (simp add: d'_def append_frame_inodes(2) [OF fr] facts)
    show "data_used d' m = (m = p \<or> data_used d m)" if "m < DATA_NUM" for m
      using fr that by (simp add: d'_def append_frame_def facts DATA_NUM_def MAP_BITS_def)
    show "d' (data_id q) = d (data_id q)" if "q \<noteq> p" for q
      using fr i(1) that by (simp add: d'_def append_frame_def facts)
    show "\<exists>l < blocks_of N. p = ptr (inode_of d i) l" if "data_used d p"
      using p(1) that by (simp add: facts)
    show "ptr (inode_of d' i) l = p \<or> l < blocks_of N \<and> ptr (inode_of d' i) l = ptr (inode_of d i) l"
      if "l < blocks_of (Suc N)" for l
      using p(3) [OF that] inodes [OF i(1)] by simp
    show "st_mode (inode_of d' i) = st_mode (inode_of d i)" using inodes [OF i(1)] n'(3) by simp
  qed
  with run show ?thesis by blast
qed

section \<open>The invariant and the paths afterwards\<close>

lemma created_other:
  assumes ok: "dirs_ok d D" and D: "D i = Some N" and k: "k < INODES" "\<not> inode_used d k"
    and c: "created e md d i N c k p d'"
    and j: "D j = Some M" "j \<noteq> i"
  shows "inode_of d' j = inode_of d j" and "dir_entries d' (inode_of d' j) M = dir_entries d (inode_of d j) M"
    and "l < blocks_of M \<Longrightarrow> ptr (inode_of d j) l \<noteq> p"
proof -
  from dirs_okD [OF ok j(1)] k have j': "j < INODES" "j \<noteq> k" by auto
  then show same: "inode_of d' j = inode_of d j" using c j(2) by (simp add: created_def)
  show np: "ptr (inode_of d j) l \<noteq> p" if "l < blocks_of M" for l
  proof
    assume eq: "ptr (inode_of d j) l = p"
    have "ptr_ok d (inode_of d j) l" using dirs_okD(3) [OF ok j(1)] that by (simp add: dir_ok_def)
    then have "data_used d p" by (simp add: ptr_ok_def eq)
    with c obtain m where m: "m < blocks_of N" "p = ptr (inode_of d i) m" by (auto simp: created_def)
    from dirs_ok_disjoint [OF ok j(1) D that m(1)] eq m(2) j(2) show False by simp
  qed
  have "dir_entries d' (inode_of d j) M = dir_entries d (inode_of d j) M"
    using np c by (intro dir_entries_frame) (simp add: created_def)
  with same show "dir_entries d' (inode_of d' j) M = dir_entries d (inode_of d j) M" by simp
qed

lemma created_dirs_ok:
  assumes ok: "dirs_ok d D" and D: "D i = Some N" and k: "k < INODES" "\<not> inode_used d k"
    and c: "created e md d i N c k p d'"
  shows "dirs_ok d' (D(i \<mapsto> Suc N))"
proof -
  note i = dirs_okD [OF ok D]
  note other = created_other [OF ok D k c]
  let ?D = "D(i \<mapsto> Suc N)"
  have each: "j < INODES \<and> inode_used d' j \<and> dir_ok d' (inode_of d' j) M" if "?D j = Some M" for j M
  proof (cases "j = i")
    case True
    with that i(1,2) c show ?thesis by (simp add: created_def)
  next
    case False
    with that have j: "D j = Some M" by simp
    note jj = dirs_okD [OF ok j]
    have "dir_ok d' (inode_of d j) M"
      using c by (intro dir_ok_mono [OF jj(3)]) (simp add: created_def)
    with jj(1,2) c other(1) [OF j False] show ?thesis by (simp add: created_def)
  qed
  have ptrs: "l < blocks_of N \<and> ptr (inode_of d' i) l = ptr (inode_of d i) l \<or> ptr (inode_of d' i) l = p"
    if "l < blocks_of (Suc N)" for l
    using that c unfolding created_def by blast
  have mixed: False if "D j = Some M" "j \<noteq> i" "l < blocks_of M" "m < blocks_of (Suc N)"
    "ptr (inode_of d' j) l = ptr (inode_of d' i) m" for j M l m
    using ptrs [OF that(4)] other(1) [OF that(1,2)] other(3) [OF that(1,2,3)]
      dirs_ok_disjoint [OF ok that(1) D that(3)] that(2,5) by auto
  have "a = b" if "?D a = Some A" "?D b = Some B" "l < blocks_of A" "m < blocks_of B"
    "ptr (inode_of d' a) l = ptr (inode_of d' b) m" for a b A B l m
  proof (cases "a = i"; cases "b = i")
    assume "a \<noteq> i" "b \<noteq> i"
    with that have ab: "D a = Some A" "D b = Some B" by simp_all
    show ?thesis
      using dirs_ok_disjoint [OF ok ab that(3,4)] that(5) other(1) [OF ab(1) \<open>a \<noteq> i\<close>]
        other(1) [OF ab(2) \<open>b \<noteq> i\<close>] by simp
  next
    assume "a \<noteq> i" "b = i"
    with that mixed [of a A l m] show ?thesis by simp
  next
    assume "a = i" "b \<noteq> i"
    with that mixed [of b B m l] show ?thesis by simp
  qed simp
  with each show ?thesis unfolding dirs_ok_def by blast
qed

lemma dirs_ok_new_dir:
  assumes ok: "dirs_ok d D" and k: "k < INODES" "inode_used d k" "wf_inode (inode_of d k)" "st_size (inode_of d k) = 0"
    and "D k = None"
  shows "dirs_ok d (D(k \<mapsto> 0))"
proof -
  have "dir_ok d (inode_of d k) 0" using k by (simp add: dir_ok_def blocks_of_def word64_of_def)
  then show ?thesis using ok k(1,2) by (auto simp: dirs_ok_def blocks_of_def)
qed

lemma created_mkdir_ok:
  assumes ok: "dirs_ok d D" and D: "D i = Some N" and k: "k < INODES" "\<not> inode_used d k"
    and c: "created e md d i N c k p d'"
  shows "dirs_ok d' (D(i \<mapsto> Suc N, k \<mapsto> 0))"
proof (rule dirs_ok_new_dir [OF created_dirs_ok [OF ok D k c] k(1)])
  show "(D(i \<mapsto> Suc N)) k = None" using dirs_okD [OF ok, of k] k D by (cases "D k") auto
  show "inode_used d' k" "st_size (inode_of d' k) = 0"
    using c k by (auto simp: created_def fresh_inode_def)
qed (rule wf_inode_of)

text \<open>Names: the new one is found, the others are what they were.\<close>

lemma created_lookup:
  assumes ok: "dirs_ok d D" and D: "D i = Some N" and k: "k < INODES" "\<not> inode_used d k"
    and c: "created e md d i N c k p d'"
  shows "lookup_name d' (inode_of d' i) (Suc N) b =
      (case lookup_name d (inode_of d i) N b of Some x \<Rightarrow> Some x
       | None \<Rightarrow> if pad28 b = pad28 c then Some \<lparr>file_name = pad28 c, inode_number = word32_of (int k)\<rparr> else None)"
    and "D j = Some M \<Longrightarrow> j \<noteq> i \<Longrightarrow> lookup_name d' (inode_of d' j) M b = lookup_name d (inode_of d j) M b"
  using c created_other(2) [OF ok D k c]
  by (auto simp: created_def lookup_name_def find_append split: option.split)

lemma created_reaches:
  assumes ok: "dirs_ok d D" and D: "D i = Some N" and N: "Suc N < 12 * 128"
    and k: "k < INODES" "\<not> inode_used d k" and c: "created e md d i N c k p d'"
    and r: "reaches d D a cs j" and D': "D' = D(i \<mapsto> Suc N) \<or> D' = D(i \<mapsto> Suc N, k \<mapsto> 0)"
  shows "reaches d' D' a cs j"
proof (rule reaches_mono [OF r])
  have kD: "D k = None" using dirs_okD [OF ok, of k] k by (cases "D k") auto
  show "\<exists>M'. D' b = Some M' \<and> (cs \<noteq> [] \<longrightarrow> M' < 12 * 128)
      \<and> (\<forall>c e. lookup_name d (inode_of d b) M c = Some e \<longrightarrow> lookup_name d' (inode_of d' b) M' c = Some e)"
    if b: "D b = Some M" and M: "M < 12 * 128" for b M
  proof (cases "b = i")
    case True
    with b D have MN: "M = N" by simp
    from D' D kD have "D' i = Some (Suc N)" by auto
    then show ?thesis
      unfolding True MN using N created_lookup(1) [OF ok D k c] by auto
  next
    case False
    with b M D' kD show ?thesis
      by (intro exI [of _ M]) (auto simp: created_lookup(2) [OF ok D k c b False])
  qed
  show "D' b \<noteq> None" if "D b \<noteq> None" for b using that D' by auto
qed

end
