(* ===== verification/FsIO.thy ===== *)
theory FsIO
  imports FsCreate
begin

text \<open>
  What \<open>fs_read\<close> and \<open>fs_write\<close> do for files within the direct pointers: reading returns the bytes of
  the file's blocks in order; writing at offset 0 puts the caller's bytes into fresh blocks and
  leaves every directory alone.
\<close>

section \<open>The bytes of a file\<close>

definition file_byte :: "disk \<Rightarrow> iNode \<Rightarrow> nat \<Rightarrow> byte" where
  "file_byte d n r = d (data_id (ptr n (r div 4096))) (r mod 4096)"

text \<open>The data blocks that hold the first \<open>L\<close> bytes.\<close>

definition file_ok :: "disk \<Rightarrow> iNode \<Rightarrow> nat \<Rightarrow> bool" where
  "file_ok d n L \<longleftrightarrow> length (direct_pointer n) = 12 \<and> L \<le> 12 * 4096 \<and> (\<forall>k. k * 4096 < L \<longrightarrow> ptr_ok d n k)"

lemma read_one_direct:
  assumes "ptr_ok d n r" and "r < 12" and "length (direct_pointer n) = 12"
  shows "read_the_one_disk_according_to_rank_in_inode d' (int r) n = Some (Some (d' (data_id (ptr n r))))"
  using assms data_block_ptr [OF assms(1), of d']
  by (simp add: read_the_one_disk_according_to_rank_in_inode_def)

lemma load_file_bytes:
  assumes "b + k \<le> 4096"
  shows "load_bytes (d (data_id (ptr n r))) b k = map (file_byte d n) [r * 4096 + b..<r * 4096 + b + k]"
proof (rule nth_equalityI)
  show "load_bytes (d (data_id (ptr n r))) b k ! i = map (file_byte d n) [r * 4096 + b..<r * 4096 + b + k] ! i"
    if "i < length (load_bytes (d (data_id (ptr n r))) b k)" for i
  proof -
    have "(r * 4096 + (b + i)) div 4096 = r" "(r * 4096 + (b + i)) mod 4096 = b + i"
      using that assms by simp_all
    with that show ?thesis by (simp add: file_byte_def add.assoc)
  qed
qed simp

lemma read_blocks_from_eq:
  assumes "file_ok d n (r * 4096 + b + (len - have_read))" and "b < 4096" and "have_read \<le> len"
  shows "read_blocks_from d n (int r) b have_read len =
    Some (map (file_byte d n) [r * 4096 + b..<r * 4096 + b + (len - have_read)])"
  using assms
proof (induction "len - have_read" arbitrary: r b have_read rule: less_induct)
  case less
  show ?case
  proof (cases "have_read = len")
    case True
    then show ?thesis by (simp add: read_blocks_from.simps)
  next
    case False
    define k where "k = min (4096 - b) (len - have_read)"
    have k: "0 < k" "b + k \<le> 4096" "k \<le> len - have_read" using False less.prems by (auto simp: k_def)
    have "r * 4096 < r * 4096 + b + (len - have_read)" using False less.prems(3) by simp
    with less.prems(1) have p: "ptr_ok d n r" "r < 12" "length (direct_pointer n) = 12"
      by (auto simp: file_ok_def)
    note one = read_one_direct [OF p, of d]
    show ?thesis
    proof (cases "k = len - have_read")
      case True
      then have "read_blocks_from d n (int r + 1) 0 (have_read + k) len = Some []"
        using less.prems(3) by (simp add: read_blocks_from.simps)
      with True False less.prems k one load_file_bytes [OF k(2), of d n r] show ?thesis
        by (subst read_blocks_from.simps) (simp add: Let_def k_def [symmetric])
    next
      case more: False
      then have kb: "k = 4096 - b" by (auto simp: k_def)
      have next_len: "Suc r * 4096 + 0 + (len - (have_read + k)) = r * 4096 + b + (len - have_read)"
        using kb k less.prems(2) by auto
      have "read_blocks_from d n (int (Suc r)) 0 (have_read + k) len =
        Some (map (file_byte d n) [Suc r * 4096 + 0..<Suc r * 4096 + 0 + (len - (have_read + k))])"
        using k less.prems next_len by (intro less.hyps) auto
      then have rest: "read_blocks_from d n (int r + 1) 0 (have_read + k) len =
        Some (map (file_byte d n) [r * 4096 + b + k..<r * 4096 + b + (len - have_read)])"
        unfolding next_len using kb less.prems(2) by (simp add: add.commute)
      have "[r * 4096 + b..<r * 4096 + b + (len - have_read)] =
        [r * 4096 + b..<r * 4096 + b + k] @ [r * 4096 + b + k..<r * 4096 + b + (len - have_read)]"
      proof -
        have "r * 4096 + b + (len - have_read) = r * 4096 + b + k + (len - have_read - k)" using k(3) by simp
        then show ?thesis by (metis upt_add_eq_append le_add1)
      qed
      with False less.prems k one rest load_file_bytes [OF k(2), of d n r] show ?thesis
        by (subst read_blocks_from.simps) (simp add: Let_def k_def [symmetric])
    qed
  qed
qed

section \<open>Taking several data blocks\<close>

definition free_count :: "disk \<Rightarrow> nat" where
  "free_count d = card {m. m < DATA_NUM \<and> \<not> data_used d m}"

text \<open>What taking and filling fresh blocks leaves alone.\<close>

definition fresh_frame :: "disk \<Rightarrow> disk \<Rightarrow> bool" where
  "fresh_frame d d' \<longleftrightarrow>
     (\<forall>b. b \<noteq> 2 \<longrightarrow> b \<noteq> 3 \<longrightarrow> (\<forall>q < DATA_NUM. b = data_id q \<longrightarrow> data_used d q) \<longrightarrow> d' b = d b)
     \<and> (\<forall>k < DATA_NUM. data_used d k \<longrightarrow> data_used d' k)"

lemma fresh_frame_refl [simp]: "fresh_frame d d"
  by (simp add: fresh_frame_def)

lemma fresh_frame_trans: "fresh_frame d d' \<Longrightarrow> fresh_frame d' d'' \<Longrightarrow> fresh_frame d d''"
  by (simp add: fresh_frame_def)

lemma fresh_frame_data: "fresh_frame d d' \<Longrightarrow> p < DATA_NUM \<Longrightarrow> data_used d p \<Longrightarrow> d' (data_id p) = d (data_id p)"
  unfolding fresh_frame_def by simp

lemma fresh_frame_inode: "fresh_frame d d' \<Longrightarrow> m < INODES \<Longrightarrow> inode_of d' m = inode_of d m"
  by (intro inode_of_cong) (simp add: fresh_frame_def)

lemma fresh_frame_inode_used: "fresh_frame d d' \<Longrightarrow> inode_used d' m = inode_used d m"
proof -
  assume f: "fresh_frame d d'"
  have "d' (Suc 0) = d (Suc 0)" by (rule conjunct1 [OF f [unfolded fresh_frame_def], rule_format]) auto
  then show ?thesis by (simp add: inode_used_def)
qed

lemma take_fresh:
  assumes "0 < free_count d"
  shows "\<exists>p d'. take_datablock d = Some (int p, d') \<and> p < DATA_NUM \<and> \<not> data_used d p
    \<and> (\<forall>k < DATA_NUM. data_used d' k \<longleftrightarrow> k = p \<or> data_used d k)
    \<and> (\<forall>b. b \<noteq> 2 \<longrightarrow> b \<noteq> 3 \<longrightarrow> d' b = d b) \<and> free_count d' = free_count d - 1"
proof -
  have "{m. m < DATA_NUM \<and> \<not> data_used d m} \<noteq> {}"
    using assms by (metis card.empty free_count_def less_irrefl)
  then obtain m where m: "m < DATA_NUM" "\<not> data_used d m" by blast
  from take_datablock_fresh [OF this] obtain p d' where
    p: "take_datablock d = Some (int p, d')" "p \<le> m" "\<not> data_used d p"
      "\<forall>k < 2 * MAP_BITS. data_used d' k \<longleftrightarrow> k = p \<or> data_used d k"
      "\<forall>b. b \<noteq> 2 \<longrightarrow> b \<noteq> 3 \<longrightarrow> d' b = d b" by blast
  have used: "\<forall>k < DATA_NUM. data_used d' k \<longleftrightarrow> k = p \<or> data_used d k"
    using p(4) by (simp add: DATA_NUM_def MAP_BITS_def)
  have "{m. m < DATA_NUM \<and> \<not> data_used d' m} = {m. m < DATA_NUM \<and> \<not> data_used d m} - {p}"
    using used by auto
  then have "free_count d' = free_count d - 1"
    using m(1) p(2,3) by (simp add: free_count_def)
  with p used m(1) show ?thesis by auto
qed

section \<open>Writing into fresh blocks\<close>

definition set_ptr :: "iNode \<Rightarrow> nat \<Rightarrow> nat \<Rightarrow> iNode" where
  "set_ptr n r p = n\<lparr>direct_pointer := (direct_pointer n)[r := word32_of (int p)]\<rparr>"

lemma ptr_set_ptr:
  assumes "length (direct_pointer n) = 12" and "r < 12" and "p < DATA_NUM"
  shows "ptr (set_ptr n r p) k = (if k = r then p else ptr n k)"
    and "ptr_ok d (set_ptr n r p) k = (if k = r then data_used d p else ptr_ok d n k)"
    and "sint (direct_pointer (set_ptr n r p) ! r) = int p"
  using assms ptr_update [of n r p k]
  by (auto simp: set_ptr_def ptr_ok_def ptr_def DATA_NUM_def)

lemma take_for_write:
  assumes "0 < free_count d" and r: "r < 12" and len: "length (direct_pointer n) = 12"
  shows "\<exists>p d1. take_datablock_for_write d (int r) n = Some (set_ptr n r p, d1)
    \<and> p < DATA_NUM \<and> \<not> data_used d p \<and> data_used d1 p \<and> d1 (data_id p) = d (data_id p)
    \<and> read_the_one_disk_according_to_rank_in_inode d1 (int r) (set_ptr n r p) = Some (Some (d (data_id p)))
    \<and> (\<forall>x. write_into_disk_acccording_to_rank_in_inode d1 (int r) (set_ptr n r p) x = Some (d1(data_id p := x))
         \<and> fresh_frame d (d1(data_id p := x)) \<and> free_count (d1(data_id p := x)) = free_count d - 1
         \<and> data_used (d1(data_id p := x)) p)
    \<and> find_empty_datablock d = Some (int p)"
proof -
  from take_fresh [OF assms(1)] obtain p d1 where p: "take_datablock d = Some (int p, d1)" "p < DATA_NUM"
    "\<not> data_used d p" "\<forall>k < DATA_NUM. data_used d1 k \<longleftrightarrow> k = p \<or> data_used d k"
    "\<forall>b. b \<noteq> 2 \<longrightarrow> b \<noteq> 3 \<longrightarrow> d1 b = d b" "free_count d1 = free_count d - 1" by blast
  note s = ptr_set_ptr [OF len r p(2)]
  have used: "data_used (d1(data_id p := x)) k = data_used d1 k" for x k
    by (simp add: data_used_def)
  have 1: "take_datablock_for_write d (int r) n = Some (set_ptr n r p, d1)"
    using p(1) r len by (simp add: take_datablock_for_write_def mount_block_to_inode_according_to_rank_def set_ptr_def)
  have 2: "read_the_one_disk_according_to_rank_in_inode d1 (int r) (set_ptr n r p) = Some (Some (d (data_id p)))"
    using read_one_direct [of d1 "set_ptr n r p" r d1] r len p s by (simp add: set_ptr_def)
  have 3: "write_into_disk_acccording_to_rank_in_inode d1 (int r) (set_ptr n r p) x = Some (d1(data_id p := x))" for x
    using r len p(2) s(3)
    by (simp add: write_into_disk_acccording_to_rank_in_inode_def write_block_on set_ptr_def)
  have 4: "fresh_frame d (d1(data_id p := x))" for x
    using p(2,3,4,5) by (auto simp: fresh_frame_def used)
  have 5: "find_empty_datablock d = Some (int p)"
    using p(1) by (auto simp: take_datablock_def bind_Some_iff)
  have 6: "free_count (d1(data_id p := x)) = free_count d - 1" for x
    using p(6) by (simp add: free_count_def used)
  from 1 2 3 4 5 6 p show ?thesis by (intro exI [of _ p] exI [of _ d1]) (simp add: used)
qed

text \<open>The loop over the blocks after the first.\<close>

definition wrote :: "disk \<Rightarrow> iNode \<Rightarrow> nat \<Rightarrow> byte list \<Rightarrow> nat \<Rightarrow> disk \<Rightarrow> iNode \<Rightarrow> bool" where
  "wrote d n r bs L d' n' \<longleftrightarrow> fresh_frame d d'
     \<and> n' = n\<lparr>direct_pointer := direct_pointer n'\<rparr> \<and> length (direct_pointer n') = 12
     \<and> (\<forall>k < r. direct_pointer n' ! k = direct_pointer n ! k)
     \<and> (\<forall>k. r \<le> k \<longrightarrow> k * 4096 < r * 4096 + L \<longrightarrow> ptr_ok d' n' k)
     \<and> (\<forall>j < L. file_byte d' n' (r * 4096 + j) = bs ! j)
     \<and> free_count d \<le> free_count d' + (L + 4095) div 4096"

lemma block_round:
  assumes "0 < (L::nat)"
  shows "(L - 4096 + 4095) div 4096 + 1 \<le> (L + 4095) div 4096"
proof (cases "4096 \<le> L")
  case True
  then have "L + 4095 = (L - 4096 + 4095) + 4096" by simp
  then have "(L + 4095) div 4096 = (L - 4096 + 4095) div 4096 + 1" using div_add_self2 [of 4096 "L - 4096 + 4095"] by simp
  then show ?thesis by simp
next
  case False
  then show ?thesis using assms div_le_mono [of 4096 "L + 4095" 4096] by simp
qed

lemma wrote_cons:
  assumes w: "wrote d2 n1 (Suc r) (drop 4096 bs) (L - 4096) d' n'" and f: "fresh_frame d d2"
    and n1: "n1 = set_ptr n r p" and len: "length (direct_pointer n) = 12" and r: "r < 12" and p: "p < DATA_NUM"
    and used: "data_used d2 p" and bytes: "\<And>j. j < 4096 \<Longrightarrow> j < L \<Longrightarrow> d2 (data_id p) j = bs ! j"
    and L: "0 < L" "L \<le> length bs" and fc: "free_count d2 = free_count d - 1"
  shows "wrote d n r bs L d' n'"
proof -
  note s = ptr_set_ptr [OF len r p]
  from w n1 have same: "k < Suc r \<Longrightarrow> direct_pointer n' ! k = direct_pointer (set_ptr n r p) ! k" for k
    by (simp add: wrote_def)
  then have pr: "ptr n' r = p" "sint (direct_pointer n' ! r) = int p" using s(1,3) by (auto simp: ptr_def)
  have fr: "fresh_frame d2 d'" using w by (simp add: wrote_def)
  then have used': "data_used d' p" using used p by (simp add: fresh_frame_def)
  have okr: "ptr_ok d' n' r" using pr used' p by (simp add: ptr_ok_def)
  have blk: "d' (data_id p) = d2 (data_id p)" by (rule fresh_frame_data [OF fr p used])
  show ?thesis
    unfolding wrote_def
  proof (intro conjI allI impI)
    show "fresh_frame d d'" by (rule fresh_frame_trans [OF f fr])
    have "n' = n1\<lparr>direct_pointer := direct_pointer n'\<rparr>" using w by (simp add: wrote_def)
    then show "n' = n\<lparr>direct_pointer := direct_pointer n'\<rparr>"
      unfolding n1 set_ptr_def by (metis iNode.update_convs(10) iNode.surjective)
    have "(L - 4096 + 4095) div 4096 + 1 \<le> (L + 4095) div 4096" by (rule block_round [OF L(1)])
    moreover have "free_count d2 \<le> free_count d' + (L - 4096 + 4095) div 4096" using w by (simp add: wrote_def)
    ultimately show "free_count d \<le> free_count d' + (L + 4095) div 4096" using fc by linarith
    show "length (direct_pointer n') = 12" using w by (simp add: wrote_def)
    show "direct_pointer n' ! k = direct_pointer n ! k" if "k < r" for k
      using same [of k] that by (simp add: set_ptr_def)
    show "ptr_ok d' n' k" if "r \<le> k" "k * 4096 < r * 4096 + L" for k
    proof (cases "k = r")
      case False
      with that have "Suc r \<le> k" "k * 4096 < Suc r * 4096 + (L - 4096)" by auto
      with w show ?thesis by (simp add: wrote_def)
    qed (simp add: okr)
    show "file_byte d' n' (r * 4096 + j) = bs ! j" if "j < L" for j
    proof (cases "j < 4096")
      case True
      then have "(r * 4096 + j) div 4096 = r" "(r * 4096 + j) mod 4096 = j" by simp_all
      then show ?thesis using bytes [OF True that] by (simp add: file_byte_def pr blk)
    next
      case False
      with that have lt: "j - 4096 < L - 4096" and pos: "Suc r * 4096 + (j - 4096) = r * 4096 + j" by simp_all
      from w lt have "file_byte d' n' (Suc r * 4096 + (j - 4096)) = drop 4096 bs ! (j - 4096)"
        unfolding wrote_def by blast
      then show ?thesis unfolding pos using False that L(2) by simp
    qed
  qed
qed

text \<open>One round of the loop of \<open>fs_write\<close>: it takes a block, fills it, and goes on with the next one.\<close>

lemma write_more_step:
  assumes lt: "have_wrote < n_bytes" and buf: "n_bytes < length buffer" and len: "length (direct_pointer n) = 12"
    and r: "r < 12" and fc: "0 < free_count d" and k: "k = min 4096 (n_bytes + 1 - have_wrote)"
  shows "\<exists>p d2. write_more_blocks d (int r) n buffer have_wrote n_bytes =
        write_more_blocks d2 (int (Suc r)) (set_ptr n r p) buffer (have_wrote + k) n_bytes
    \<and> p < DATA_NUM \<and> fresh_frame d d2 \<and> free_count d2 = free_count d - 1 \<and> data_used d2 p
    \<and> (\<forall>j < 4096. j < n_bytes - have_wrote \<longrightarrow> d2 (data_id p) j = drop have_wrote buffer ! j)"
proof -
  from take_for_write [OF fc r len] obtain p d1 where
    take: "take_datablock_for_write d (int r) n = Some (set_ptr n r p, d1)" and p: "p < DATA_NUM"
    and wr: "\<And>x. write_into_disk_acccording_to_rank_in_inode d1 (int r) (set_ptr n r p) x = Some (d1(data_id p := x))"
    and fr: "\<And>x. fresh_frame d (d1(data_id p := x))"
    and cnt: "\<And>x. free_count (d1(data_id p := x)) = free_count d - 1"
    and us: "\<And>x. data_used (d1(data_id p := x)) p" by blast
  define x where "x = store_bytes (\<lambda>_. 0) 0 (take k (drop have_wrote buffer))"
  have k4: "have_wrote + k \<le> length buffer" using lt buf by (auto simp: k)
  have k_eq: "min 4096 (Suc n_bytes - have_wrote) = k" by (simp add: k)
  have run: "write_more_blocks d (int r) n buffer have_wrote n_bytes =
      write_more_blocks (d1(data_id p := x)) (int (Suc r)) (set_ptr n r p) buffer (have_wrote + k) n_bytes"
    using lt k4 by (subst write_more_blocks.simps)
      (simp add: Let_def k_eq take wr x_def [symmetric] add.commute)
  have "(d1(data_id p := x)) (data_id p) j = drop have_wrote buffer ! j" if "j < 4096" "j < n_bytes - have_wrote" for j
  proof -
    have "j < k" using that by (auto simp: k)
    with k4 show ?thesis by (simp add: x_def store_bytes_def)
  qed
  with run p fr cnt us show ?thesis by blast
qed

lemma write_more_wrote:
  assumes "n_bytes < length buffer" and "length (direct_pointer n) = 12" and "have_wrote \<le> n_bytes"
    and "r * 4096 + (n_bytes - have_wrote) \<le> 12 * 4096"
    and "(n_bytes - have_wrote + 4095) div 4096 \<le> free_count d"
  shows "\<exists>n' d'. write_more_blocks d (int r) n buffer have_wrote n_bytes = Some (n', d')
    \<and> wrote d n r (drop have_wrote buffer) (n_bytes - have_wrote) d' n'"
  using assms
proof (induction "n_bytes - have_wrote" arbitrary: d r n have_wrote rule: less_induct)
  case less
  show ?case
  proof (cases "n_bytes = have_wrote")
    case True
    then show ?thesis using less.prems(2) by (auto simp: write_more_blocks.simps wrote_def)
  next
    case False
    with less.prems(3) have lt: "have_wrote < n_bytes" by simp
    define k where "k = min 4096 (n_bytes + 1 - have_wrote)"
    have r: "r < 12" and fc: "0 < free_count d" using lt less.prems(4,5) by auto
    from write_more_step [OF lt less.prems(1,2) r fc k_def] obtain p d2 where
      run: "write_more_blocks d (int r) n buffer have_wrote n_bytes =
        write_more_blocks d2 (int (Suc r)) (set_ptr n r p) buffer (have_wrote + k) n_bytes"
      and p: "p < DATA_NUM" "fresh_frame d d2" "free_count d2 = free_count d - 1" "data_used d2 p"
      and bytes: "\<And>j. j < 4096 \<Longrightarrow> j < n_bytes - have_wrote \<Longrightarrow> d2 (data_id p) j = drop have_wrote buffer ! j"
      by blast
    have len1: "length (direct_pointer (set_ptr n r p)) = 12" using less.prems(2) by (simp add: set_ptr_def)
    have "\<exists>n' d'. write_more_blocks d2 (int (Suc r)) (set_ptr n r p) buffer (have_wrote + k) n_bytes = Some (n', d')
      \<and> wrote d2 (set_ptr n r p) (Suc r) (drop 4096 (drop have_wrote buffer)) (n_bytes - have_wrote - 4096) d' n'"
    proof (cases "have_wrote + k \<le> n_bytes")
      case True
      then have k4: "k = 4096" by (auto simp: k_def)
      have "(n_bytes - (have_wrote + 4096) + 4095) div 4096 \<le> free_count d2"
        using less.prems(5) True k4 by (simp add: p(3))
      then show ?thesis
        using less.hyps [of "have_wrote + k" "set_ptr n r p" "Suc r" d2] True k4 lt less.prems(1,4) len1
        by (simp add: add.commute [of 4096])
    next
      case False
      then have "n_bytes - have_wrote \<le> 4096" "n_bytes < have_wrote + k" by (auto simp: k_def min_def split: if_splits)
      then show ?thesis using len1 by (auto simp: write_more_blocks.simps wrote_def)
    qed
    then obtain n' d' where
      rec: "write_more_blocks d2 (int (Suc r)) (set_ptr n r p) buffer (have_wrote + k) n_bytes = Some (n', d')"
      and w: "wrote d2 (set_ptr n r p) (Suc r) (drop 4096 (drop have_wrote buffer)) (n_bytes - have_wrote - 4096) d' n'"
      by blast
    have "wrote d n r (drop have_wrote buffer) (n_bytes - have_wrote) d' n'"
      using wrote_cons [OF w p(2) refl less.prems(2) r p(1,4) bytes _ _ p(3)] less.prems(1) lt by simp
    with run rec show ?thesis by simp
  qed
qed

section \<open>Paths to files\<close>

text \<open>The path \<open>path\<close> denotes inode \<open>i\<close>.\<close>

definition names :: "disk \<Rightarrow> dir_map \<Rightarrow> byte list \<Rightarrow> nat \<Rightarrow> bool" where
  "names d D path i \<longleftrightarrow> (\<exists>cs j N c. path = path_text (cs @ [c]) \<and> reaches d D 4 cs j \<and> D j = Some N
     \<and> N < 12 * 128 \<and> good_name c \<and> name_number d j N c = int i \<and> i < INODES)"

lemma names_understood:
  "names d D path i \<Longrightarrow> dirs_ok d D \<Longrightarrow> understand_the_path d path = Some (int i) \<and> i < INODES"
  by (auto simp: names_def understand_name)

lemma reaches_frame:
  assumes r: "reaches d D a cs j"
    and lk: "\<And>b M c. D b = Some M \<Longrightarrow> lookup_name d' (inode_of d' b) M c = lookup_name d (inode_of d b) M c"
  shows "reaches d' D a cs j"
proof (rule reaches_mono [OF r])
  show "\<exists>M'. D b = Some M' \<and> (cs \<noteq> [] \<longrightarrow> M' < 12 * 128)
      \<and> (\<forall>c e. lookup_name d (inode_of d b) M c = Some e \<longrightarrow> lookup_name d' (inode_of d' b) M' c = Some e)"
    if "D b = Some M" "M < 12 * 128" for b M
    using that lk by (intro exI [of _ M]) simp
qed

lemma names_frame:
  assumes n: "names d D path i"
    and lk: "\<And>b M c. D b = Some M \<Longrightarrow> lookup_name d' (inode_of d' b) M c = lookup_name d (inode_of d b) M c"
  shows "names d' D path i"
proof -
  from n obtain cs j N c where *: "path = path_text (cs @ [c])" "reaches d D 4 cs j" "D j = Some N"
    "N < 12 * 128" "good_name c" "name_number d j N c = int i" "i < INODES" by (auto simp: names_def)
  have "name_number d' j N c = int i" using *(6) by (simp add: name_number_def lk [OF *(3)])
  with * reaches_frame [OF *(2) lk] show ?thesis unfolding names_def by blast
qed

text \<open>A change of one inode that is no directory and of blocks that no directory has keeps the directories.\<close>

lemma file_change_on:
  assumes ok: "dirs_ok d D" and i: "i < INODES" "D i = None" and wf: "wf_inode n"
    and inodes: "\<And>m. m < INODES \<Longrightarrow> inode_of d3 m = inode_of d m"
    and blocks: "\<And>p. dir_block d D p \<Longrightarrow> d3 (data_id p) = d (data_id p)"
    and data: "\<And>k. k < DATA_NUM \<Longrightarrow> data_used d k \<Longrightarrow> data_used d3 k"
    and used: "\<And>k. inode_used d3 k = inode_used d k"
  shows "dirs_ok (set_inode d3 i n) D"
    and "D b = Some M \<Longrightarrow>
      lookup_name (set_inode d3 i n) (inode_of (set_inode d3 i n) b) M c = lookup_name d (inode_of d b) M c"
    and "names d D path m \<Longrightarrow> names (set_inode d3 i n) D path m"
proof -
  let ?d = "set_inode d3 i n"
  have a: "inode_of ?d b = inode_of d b" if "D b = Some M" for b M
    using that dirs_okD(1) [OF ok that] i
    by (auto simp: inode_of_set_inode [OF i(1) _ wf] inodes)
  have b: "?d (data_id p) = d (data_id p)" if "dir_block d D p" for p
    using dir_block_used [OF ok that] blocks [OF that] i(1) by simp
  have c: "data_used d k \<Longrightarrow> data_used ?d k" if "k < DATA_NUM" for k
    using data [OF that] by simp
  have e: "inode_used d k \<Longrightarrow> inode_used ?d k" for k
    by (simp add: used)
  show "dirs_ok ?d D" by (rule dirs_frame(1) [OF ok]) (use a b c e in blast)+
  show lk: "lookup_name ?d (inode_of ?d b) M c = lookup_name d (inode_of d b) M c" if "D b = Some M" for b M c
  proof -
    have "dir_entries ?d (inode_of ?d b) M = dir_entries d (inode_of d b) M"
      by (rule dirs_frame(2) [OF ok _ _ _ _ that]) (use a b c e in blast)+
    then show ?thesis by (simp add: lookup_name_def)
  qed
  show "names ?d D path m" if "names d D path m"
    by (rule names_frame [OF that lk])
qed

text \<open>Fresh blocks belong to no directory.\<close>

lemma file_change:
  assumes ok: "dirs_ok d D" and f: "fresh_frame d d3" and i: "i < INODES" "D i = None" and wf: "wf_inode n"
  shows "dirs_ok (set_inode d3 i n) D"
    and "D b = Some M \<Longrightarrow>
      lookup_name (set_inode d3 i n) (inode_of (set_inode d3 i n) b) M c = lookup_name d (inode_of d b) M c"
    and "names d D path m \<Longrightarrow> names (set_inode d3 i n) D path m"
proof -
  have "d3 (data_id p) = d (data_id p)" if "dir_block d D p" for p
    using dir_block_used [OF ok that] fresh_frame_data [OF f, of p] by simp
  note on = file_change_on [OF ok i wf fresh_frame_inode [OF f] this _ fresh_frame_inode_used [OF f]]
  have data: "data_used d3 k" if "k < DATA_NUM" "data_used d k" for k using f that by (simp add: fresh_frame_def)
  from on data show "dirs_ok (set_inode d3 i n) D"
    and "D b = Some M \<Longrightarrow>
      lookup_name (set_inode d3 i n) (inode_of (set_inode d3 i n) b) M c = lookup_name d (inode_of d b) M c"
    and "names d D path m \<Longrightarrow> names (set_inode d3 i n) D path m" by blast+
qed

text \<open>Creating a file or a directory keeps every path.\<close>

lemma created_names:
  assumes ok: "dirs_ok d D" and D: "D i = Some N" and N: "Suc N < 12 * 128"
    and k: "k < INODES" "\<not> inode_used d k" and c: "created e md d i N c k p d'"
    and D': "D' = D(i \<mapsto> Suc N) \<or> D' = D(i \<mapsto> Suc N, k \<mapsto> 0)"
    and nm: "names d D path f"
  shows "names d' D' path f"
proof -
  from nm obtain cs j M b where *: "path = path_text (cs @ [b])" "reaches d D 4 cs j" "D j = Some M"
    "M < 12 * 128" "good_name b" "name_number d j M b = int f" "f < INODES" by (auto simp: names_def)
  then obtain x where x: "lookup_name d (inode_of d j) M b = Some x" "sint (inode_number x) = int f"
    by (auto simp: name_number_def split: option.splits)
  have r: "reaches d' D' 4 cs j" by (rule created_reaches [OF ok D N k c *(2) D'])
  have "D k = None" using dirs_okD [OF ok, of k] k by (cases "D k") auto
  then have "\<exists>M'. D' j = Some M' \<and> M' < 12 * 128 \<and> lookup_name d' (inode_of d' j) M' b = Some x"
    using created_lookup(1) [OF ok D k c, where b = b] *(3,4) D N D' x(1)
      created_lookup(2) [OF ok D k c *(3), where b = b] by (cases "j = i") auto
  then obtain M' where "D' j = Some M'" "M' < 12 * 128" "name_number d' j M' b = int f"
    using x(2) by (auto simp: name_number_def)
  with * r show ?thesis unfolding names_def by blast
qed

lemma created_new_name:
  assumes ok: "dirs_ok d D" and r: "reaches d D 4 cs i" and D: "D i = Some N" and N: "Suc N < 12 * 128"
    and k: "k < INODES" "\<not> inode_used d k" and c: "created e md d i N c k p d'"
    and D': "D' = D(i \<mapsto> Suc N) \<or> D' = D(i \<mapsto> Suc N, k \<mapsto> 0)"
    and new: "good_name c" "lookup_name d (inode_of d i) N c = None"
  shows "names d' D' (path_text (cs @ [c])) k"
proof -
  have r': "reaches d' D' 4 cs i" by (rule created_reaches [OF ok D N k c r D'])
  have "D k = None" using dirs_okD [OF ok, of k] k by (cases "D k") auto
  with D D' have "D' i = Some (Suc N)" by auto
  moreover have "name_number d' i (Suc N) c = int k"
    using created_lookup(1) [OF ok D k c, where b = c] new(2) k(1) by (simp add: name_number_def INODES_def)
  ultimately show ?thesis unfolding names_def using r' N new(1) k(1) by blast
qed

section \<open>Writing a file from its start\<close>

lemma file_byte_cong:
  assumes "\<And>k. k * 4096 < L \<Longrightarrow> d' (data_id (ptr n' k)) = d (data_id (ptr n k))" and "j < L"
  shows "file_byte d' n' j = file_byte d n j"
proof -
  have "j div 4096 * 4096 < L" using assms(2) by (meson div_times_less_eq_dividend le_less_trans)
  with assms(1) show ?thesis by (simp add: file_byte_def)
qed

text \<open>
  What the file holds after the first block was stored with \<open>k\<close> bytes and the loop wrote the rest: the bytes of the
  buffer, except that a write of at most one block leaves its last byte as it was.
\<close>

lemma written_file:
  assumes w: "wrote d2 n1 1 (drop k buffer) (n_bytes - k) d3 n3" and k: "k = min 4096 (n_bytes - 1)"
    and len: "0 < n_bytes" "n_bytes < length buffer" "n_bytes \<le> 12 * 4096"
    and p: "p < DATA_NUM" "ptr n1 0 = p" "sint (direct_pointer n1 ! 0) = int p" "data_used d2 p"
    and d2: "d2 (data_id p) = store_bytes b 0 (take k buffer)"
    and n': "n' = n3\<lparr>st_size := word64_of (int n_bytes)\<rparr>"
  shows "file_ok d3 n' n_bytes"
    and "j < n_bytes \<Longrightarrow> file_byte d3 n' j = (if n_bytes \<le> 4096 \<and> j = n_bytes - 1 then b j else buffer ! j)"
proof -
  have ptrn: "ptr n' m = ptr n3 m" "direct_pointer n' = direct_pointer n3" for m by (simp_all add: n' ptr_def)
  have same0: "ptr n3 0 = p" "sint (direct_pointer n3 ! 0) = int p"
    using w p(2,3) by (auto simp: wrote_def ptr_def)
  have used3: "data_used d3 p" "d3 (data_id p) = d2 (data_id p)"
    using w p(1,4) by (auto simp: wrote_def fresh_frame_def)
  have "ptr_ok d3 n' m" if "m * 4096 < n_bytes" for m
  proof (cases "m = 0")
    case False
    with that have "1 \<le> m" "m * 4096 < 1 * 4096 + (n_bytes - k)" by (auto simp: k min_def)
    with w have "ptr_ok d3 n3 m" unfolding wrote_def by blast
    then show ?thesis by (simp add: ptr_ok_def ptrn)
  qed (use same0 used3 p(1) in \<open>simp add: ptr_ok_def ptrn\<close>)
  with w len(3) show "file_ok d3 n' n_bytes" by (simp add: file_ok_def ptrn wrote_def n')
  show "file_byte d3 n' j = (if n_bytes \<le> 4096 \<and> j = n_bytes - 1 then b j else buffer ! j)" if j: "j < n_bytes"
  proof (cases "j < 4096")
    case True
    then have "file_byte d3 n' j = d2 (data_id p) j" using same0 used3(2) by (simp add: file_byte_def ptrn)
    then show ?thesis using True j len(2) by (auto simp: d2 store_bytes_def k min_def)
  next
    case False
    with j have k4: "k = 4096" and lt: "j - 4096 < n_bytes - k" by (auto simp: k)
    with w have "file_byte d3 n3 (1 * 4096 + (j - 4096)) = drop k buffer ! (j - 4096)"
      unfolding wrote_def by blast
    with False j k4 len(2) show ?thesis by (simp add: file_byte_def ptrn)
  qed
qed

text \<open>The blocks that the loop still needs are free after the first one was taken.\<close>

lemma rest_fits:
  assumes "0 < n_bytes" and k: "k = min 4096 (n_bytes - 1)" and free: "free' = free - (1::nat)"
    and fc: "(if n_bytes \<le> 4096 then 2 else (n_bytes + 4095) div 4096) \<le> free"
  shows "(n_bytes - k + 4095) div 4096 \<le> free'"
proof (cases "n_bytes \<le> 4096")
  case True
  then have "n_bytes - k = 1" using assms(1) by (simp add: k)
  with fc True show ?thesis by (simp add: free)
next
  case False
  then have "n_bytes - k + 4095 = n_bytes - 1" "(n_bytes + 4095) div 4096 = Suc ((n_bytes - 1) div 4096)"
    using div_add_self2 [of 4096 "n_bytes - 1"] by (simp_all add: k)
  with fc False have "n_bytes - k + 4095 = n_bytes - 1" "Suc ((n_bytes - 1) div 4096) \<le> free"
    by simp_all
  with free show ?thesis by (simp only:)
qed

lemma fs_write_spec:
  assumes ok: "dirs_ok d D" and nm: "names d D path i" and i: "D i = None"
    and len: "0 < n_bytes" "n_bytes < length buffer" "n_bytes \<le> 12 * 4096"
    and fc: "(if n_bytes \<le> 4096 then 2 else (n_bytes + 4095) div 4096) \<le> free_count d"
  shows "\<exists>p n' d'. fs_write d path buffer n_bytes 0 = Some (int n_bytes, set_inode d' i n')
    \<and> fresh_frame d d' \<and> wf_inode n' \<and> find_empty_datablock d = Some (int p)
    \<and> n' = (inode_of d i)\<lparr>direct_pointer := direct_pointer n', st_size := word64_of (int n_bytes)\<rparr>
    \<and> file_ok d' n' n_bytes
    \<and> (\<forall>j < n_bytes. file_byte d' n' j =
          (if n_bytes \<le> 4096 \<and> j = n_bytes - 1 then d (data_id p) j else buffer ! j))
    \<and> free_count d \<le> free_count d' + (if n_bytes \<le> 4096 then 2 else (n_bytes + 4095) div 4096)"
proof -
  define n0 where "n0 = inode_of d i"
  have I: "i < INODES" and und: "understand_the_path d path = Some (int i)"
    using names_understood [OF nm ok] by auto
  have len0: "length (direct_pointer n0) = 12" using wf_inode_of [of d i] by (simp add: n0_def wf_inode_def)
  define k where "k = min 4096 (n_bytes - 1)"
  have k: "k \<le> 4096" "k \<le> length buffer" "k < n_bytes" using len by (auto simp: k_def)
  have f0: "0 < free_count d" using fc by (auto split: if_splits)
  from take_for_write [OF f0 _ len0, of 0] obtain p d1 where
    take: "take_datablock_for_write d 0 n0 = Some (set_ptr n0 0 p, d1)" and p: "p < DATA_NUM"
    and rd: "read_the_one_disk_according_to_rank_in_inode d1 0 (set_ptr n0 0 p) = Some (Some (d (data_id p)))"
    and wr: "\<And>x. write_into_disk_acccording_to_rank_in_inode d1 0 (set_ptr n0 0 p) x = Some (d1(data_id p := x))"
    and fr: "\<And>x. fresh_frame d (d1(data_id p := x))"
    and cnt: "\<And>x. free_count (d1(data_id p := x)) = free_count d - 1"
    and us: "\<And>x. data_used (d1(data_id p := x)) p" and fd: "find_empty_datablock d = Some (int p)"
    by auto
  define n1 where "n1 = set_ptr n0 0 p"
  define d2 where "d2 = d1(data_id p := store_bytes (d (data_id p)) 0 (take k buffer))"
  have first: "write_first_block d1 0 0 n1 buffer n_bytes = Some (k, d2)"
    using len k rd wr by (simp add: write_first_block_def n1_def d2_def k_def Let_def)
  have len1: "length (direct_pointer n1) = 12" using len0 by (simp add: n1_def set_ptr_def)
  have fc2: "(n_bytes - k + 4095) div 4096 \<le> free_count d2"
    by (rule rest_fits [OF len(1) k_def _ fc]) (simp add: d2_def cnt)
  have "1 * 4096 + (n_bytes - k) \<le> 12 * 4096" using len(3) by (auto simp: k_def min_def)
  from write_more_wrote [OF len(2) len1 less_imp_le [OF k(3)] this fc2] obtain n3 d3 where
    more: "write_more_blocks d2 1 n1 buffer k n_bytes = Some (n3, d3)"
    and w: "wrote d2 n1 1 (drop k buffer) (n_bytes - k) d3 n3" by auto
  define n' where "n' = n3\<lparr>st_size := word64_of (int n_bytes)\<rparr>"
  have n3: "n3 = n0\<lparr>direct_pointer := direct_pointer n3\<rparr>" "length (direct_pointer n3) = 12"
  proof -
    have "n3 = n1\<lparr>direct_pointer := direct_pointer n3\<rparr>" using w by (simp add: wrote_def)
    then show "n3 = n0\<lparr>direct_pointer := direct_pointer n3\<rparr>"
      unfolding n1_def set_ptr_def by (metis iNode.update_convs(10) iNode.surjective)
    show "length (direct_pointer n3) = 12" using w by (simp add: wrote_def)
  qed
  have n': "n' = n0\<lparr>direct_pointer := direct_pointer n', st_size := word64_of (int n_bytes)\<rparr>"
    using arg_cong [OF n3(1), of "\<lambda>n. n\<lparr>st_size := word64_of (int n_bytes)\<rparr>"] by (simp add: n'_def)
  have "wf_inode n0" by (simp add: n0_def)
  then have wf: "wf_inode n'" by (subst n') (simp add: wf_inode_def n'_def n3(2))
  have f3: "fresh_frame d d3"
    using w fr fresh_frame_trans by (auto simp: wrote_def d2_def)
  note change = file_change [OF ok f3 I i wf]
  have chk: "check_write (set_inode d3 i n') path = Some ()"
    using names_understood [OF change(3) [OF nm] change(1)] by (simp add: check_write_def just_read_inode_eq)
  have z: "(0::int) sdiv 4096 = 0" "(0::int) smod 4096 = 0" using sdiv_smod_numeral [of 0] by simp_all
  have run: "fs_write d path buffer n_bytes 0 = Some (int n_bytes, set_inode d3 i n')"
    using len by (simp add: fs_write_def und just_read_inode_eq [OF I] replace_inode_eq [OF I] z
        n0_def [symmetric] take n1_def [symmetric] first more n'_def [symmetric] chk)
  have p1: "ptr n1 0 = p" "sint (direct_pointer n1 ! 0) = int p" "data_used d2 p"
    using ptr_set_ptr [OF len0 _ p, of 0] us by (simp_all add: n1_def ptr_def d2_def)
  have d2p: "d2 (data_id p) = store_bytes (d (data_id p)) 0 (take k buffer)" by (simp add: d2_def)
  note result = written_file [OF w k_def len p p1 d2p n'_def]
  have "free_count d \<le> free_count d3 + (if n_bytes \<le> 4096 then 2 else (n_bytes + 4095) div 4096)"
  proof -
    have "(n_bytes - k + 4095) div 4096 \<le> (if n_bytes \<le> 4096 then 2 else (n_bytes + 4095) div 4096) - 1"
      by (rule rest_fits [OF len(1) k_def refl order_refl])
    moreover have "free_count d2 \<le> free_count d3 + (n_bytes - k + 4095) div 4096" using w by (simp add: wrote_def)
    moreover have "free_count d2 = free_count d - 1" by (simp add: d2_def cnt)
    moreover have "1 \<le> (if n_bytes \<le> 4096 then 2 else (n_bytes + 4095) div 4096)"
      using len(1) block_round [of n_bytes] by simp
    ultimately show ?thesis by linarith
  qed
  with result run f3 wf fd n' show ?thesis unfolding n0_def by blast
qed

section \<open>Reading a file\<close>

lemma fs_read_spec:
  assumes ok: "dirs_ok d D" and nm: "names d D path i"
    and f: "file_ok d (inode_of d i) (off + n_bytes)"
  shows "fs_read d path n_bytes (int off) =
    Some (get_min (int n_bytes) (to_int (sint (st_size (inode_of d i)))),
          map (file_byte d (inode_of d i)) [off..<off + n_bytes])"
proof -
  have I: "i < INODES" and und: "understand_the_path d path = Some (int i)"
    using names_understood [OF nm ok] by auto
  have n: "n_bytes \<le> 49152" "off \<le> 49152" using f by (auto simp: file_ok_def)
  have "file_ok d (inode_of d i) (off div 4096 * 4096 + off mod 4096 + (n_bytes - 0))" using f by simp
  from read_blocks_from_eq [OF this] have
    "read_blocks_from d (inode_of d i) (int (off div 4096)) (off mod 4096) 0 n_bytes =
      Some (map (file_byte d (inode_of d i)) [off..<off + n_bytes])" by simp
  with n show ?thesis
    by (simp add: fs_read_def und just_read_inode_eq [OF I] del: of_nat_div of_nat_mod)
qed

lemma read_after_write:
  assumes ok: "dirs_ok d D" and nm: "names d D path i" and i: "D i = None"
    and len: "0 < n_bytes" "n_bytes < length buffer" "n_bytes \<le> 12 * 4096"
    and fc: "(if n_bytes \<le> 4096 then 2 else (n_bytes + 4095) div 4096) \<le> free_count d"
  shows "\<exists>p d'. fs_write d path buffer n_bytes 0 = Some (int n_bytes, d') \<and> find_empty_datablock d = Some (int p)
    \<and> dirs_ok d' D \<and> names d' D path i \<and> (\<forall>q m. names d D q m \<longrightarrow> names d' D q m)
    \<and> st_size (inode_of d' i) = word64_of (int n_bytes) \<and> file_ok d' (inode_of d' i) n_bytes
    \<and> free_count d \<le> free_count d' + (if n_bytes \<le> 4096 then 2 else (n_bytes + 4095) div 4096)
    \<and> (\<forall>m < INODES. inode_used d' m = inode_used d m)
    \<and> (\<forall>m < INODES. m \<noteq> i \<longrightarrow> inode_of d' m = inode_of d m)
    \<and> fs_read d' path n_bytes 0 = Some (int n_bytes,
        if n_bytes \<le> 4096 then take (n_bytes - 1) buffer @ [d (data_id p) (n_bytes - 1)] else take n_bytes buffer)"
proof -
  from fs_write_spec [OF assms] obtain p n' d3 where
    w: "fs_write d path buffer n_bytes 0 = Some (int n_bytes, set_inode d3 i n')"
    and f3: "fresh_frame d d3" and wf: "wf_inode n'" and fd: "find_empty_datablock d = Some (int p)"
    and n': "n' = (inode_of d i)\<lparr>direct_pointer := direct_pointer n', st_size := word64_of (int n_bytes)\<rparr>"
    and fok: "file_ok d3 n' n_bytes"
    and bytes: "\<forall>j < n_bytes. file_byte d3 n' j =
          (if n_bytes \<le> 4096 \<and> j = n_bytes - 1 then d (data_id p) j else buffer ! j)"
    and cnt: "free_count d \<le> free_count d3 + (if n_bytes \<le> 4096 then 2 else (n_bytes + 4095) div 4096)" by blast
  have I: "i < INODES" using names_understood [OF nm ok] by simp
  note change = file_change [OF ok f3 I i wf]
  define d' where "d' = set_inode d3 i n'"
  have in': "inode_of d' i = n'" by (simp add: d'_def inode_of_set_inode [OF I I wf])
  have others: "inode_of d' m = inode_of d m" if "m < INODES" "m \<noteq> i" for m
    using that by (simp add: d'_def inode_of_set_inode [OF I _ wf] fresh_frame_inode [OF f3])
  have cnt': "free_count d \<le> free_count d' + (if n_bytes \<le> 4096 then 2 else (n_bytes + 4095) div 4096)"
    using cnt by (simp add: d'_def free_count_def I)
  have iu: "inode_used d' m = inode_used d m" for m
    using fresh_frame_inode_used [OF f3] by (simp add: d'_def I)
  have fok': "file_ok d' n' (0 + n_bytes)"
    using fok by (auto simp: file_ok_def ptr_ok_def d'_def)
  with in' have rd: "fs_read d' path n_bytes (int 0) = Some (get_min (int n_bytes) (to_int (sint (st_size n'))),
      map (file_byte d' n') [0..<0 + n_bytes])"
    using fs_read_spec [OF change(1) change(3) [OF nm], of 0 n_bytes] by (simp add: in' d'_def [symmetric])
  have size: "st_size n' = word64_of (int n_bytes)" by (subst n') simp
  then have "to_int (sint (st_size n')) = int n_bytes" using len(3) by simp
  moreover have "map (file_byte d' n') [0..<n_bytes] =
    (if n_bytes \<le> 4096 then take (n_bytes - 1) buffer @ [d (data_id p) (n_bytes - 1)] else take n_bytes buffer)"
  proof (rule nth_equalityI)
    fix j
    assume "j < length (map (file_byte d' n') [0..<n_bytes])"
    then have j: "j < n_bytes" by simp
    have "file_byte d' n' j = file_byte d3 n' j"
      by (rule file_byte_cong [OF _ j]) (simp add: d'_def I)
    with bytes j len(2) show "map (file_byte d' n') [0..<n_bytes] ! j = (if n_bytes \<le> 4096
        then take (n_bytes - 1) buffer @ [d (data_id p) (n_bytes - 1)] else take n_bytes buffer) ! j"
      by (auto simp: nth_append)
  qed (use len in auto)
  ultimately have "fs_read d' path n_bytes 0 = Some (int n_bytes,
      if n_bytes \<le> 4096 then take (n_bytes - 1) buffer @ [d (data_id p) (n_bytes - 1)] else take n_bytes buffer)"
    using rd by (simp add: get_min_def)
  with w fd change(1) change(3) nm in' size others fok' cnt' iu show ?thesis
    unfolding d'_def [symmetric] by (intro exI [of _ p] exI [of _ d']) (auto simp del: One_nat_def)
qed

end
