(* ===== verification/FsDelete.thy ===== *)
theory FsDelete
  imports FsIO "HOL-Library.Multiset"
begin

text \<open>
  What \<open>readdir\<close>, \<open>unlink\<close> and \<open>rename\<close> do. Deleting is right for directories of at most 12 entries whose
  path ends within the first eight bytes; a rename within the root directory loses the file.
\<close>

section \<open>Listing a directory\<close>

text \<open>The name of an entry as a C string; block numbers below 2 ^ 24 end it in the entry.\<close>

definition entry_text :: "DictioryContent \<Rightarrow> byte list" where
  "entry_text e = takeWhile (\<lambda>c. c \<noteq> 0) (encode_entry e)"

lemma c_string_entry:
  assumes "j < 128" and "0 \<in> set (encode_entry (get_entry b j))"
  shows "c_string_at b (32 * j) = Some (entry_text (get_entry b j))"
proof -
  have enc: "encode_entry (get_entry b j) = load_bytes b (32 * j) 32"
    by (simp add: get_entry_def encode_decode_entry)
  have "4096 - 32 * j = 32 + (4064 - 32 * j)" using assms(1) by simp
  then have "load_bytes b (32 * j) (4096 - 32 * j) =
      load_bytes b (32 * j) 32 @ load_bytes b (32 * j + 32) (4064 - 32 * j)"
    using upt_add_eq_append [of "32 * j" "32 * j + 32" "4064 - 32 * j"] assms(1)
    by (simp add: load_bytes_def)
  with assms enc show ?thesis
    by (simp add: c_string_at_def entry_text_def)
qed

lemma fs_readdir_spec:
  assumes ok: "dirs_ok d D" and r: "reaches d D 4 cs i" and D: "D i = Some N" and N: "N < 12 * 128"
    and nul: "\<forall>x \<in> set (dir_entries d (inode_of d i) N). 0 \<in> set (encode_entry x)"
  shows "fs_readdir d (dir_text cs) = Some (0, map entry_text (dir_entries d (inode_of d i) N))"
proof -
  note I = dirs_okD [OF ok D]
  let ?n = "inode_of d i"
  let ?names = "\<lambda>k. map (\<lambda>q. entry_text (entry_at d ?n q)) [0..<k]"
  define inner where "inner = (\<lambda>(file_name_buffer :: buf option) cnt (filled :: byte list list).
    if int (length filled) < int N
    then do { b \<leftarrow> file_name_buffer; name \<leftarrow> c_string_at b (32 * cnt); Some (Next (filled @ [name])) }
    else Some (Break filled :: (byte list list, int \<times> byte list list) flow))"
  have blk: "\<exists>s'. for_loop 0 128 (inner (data_block d (direct_pointer ?n ! k))) (?names (k * 128))
      = Some (Next s') \<and> s' = ?names (k * 128 + min 128 (N - k * 128))" if k: "k * 128 \<le> N" for k
  proof (rule for_loop_until [where P = "\<lambda>j s. s = ?names (k * 128 + j)"])
    fix j t
    assume j: "j < min 128 (N - k * 128)" and t: "t = ?names (k * 128 + j)"
    then have lt: "k * 128 + j < N" and j': "j < 128" by (simp_all add: less_diff_conv add.commute)
    then have p: "ptr_ok d ?n k" using I(3) block_lt [OF lt] by (simp add: dir_ok_def)
    have "entry_at d ?n (k * 128 + j) \<in> set (dir_entries d ?n N)" using lt by (auto simp: dir_entries_def)
    with nul j' have "c_string_at (d (data_id (ptr ?n k))) (32 * j) = Some (entry_text (entry_at d ?n (k * 128 + j)))"
      by (simp add: c_string_entry entry_at_def)
    with lt t show "\<exists>t'. inner (data_block d (direct_pointer ?n ! k)) j t = Some (Next t')
        \<and> t' = ?names (k * 128 + Suc j)"
      by (simp add: inner_def data_block_ptr [OF p])
  next
    fix t
    assume "min 128 (N - k * 128) < 128" "t = ?names (k * 128 + min 128 (N - k * 128))"
    with k show "inner (data_block d (direct_pointer ?n ! k)) (min 128 (N - k * 128)) t = Some (Break t)"
      by (simp add: inner_def min_def split: if_splits)
  qed simp_all
  have outer: "\<exists>s'. for_loop 0 (N div 128 + 1)
      (\<lambda>k filled. do { buffer \<leftarrow> get_fuul_disk_according_to_rank d (int k) ?n; for_loop 0 128 (inner buffer) filled }) []
      = Some (Next s') \<and> s' = ?names (min N ((N div 128 + 1) * 128))"
  proof (rule for_loop_invariant [where P = "\<lambda>k s. s = ?names (min N (k * 128))"])
    fix k t
    assume k: "k < N div 128 + 1" and t: "t = ?names (min N (k * 128))"
    then have kN: "k * 128 \<le> N" and k12: "k < 12" using N by (simp_all add: less_Suc_eq_le less_eq_div_iff_mult_less_eq)
    have "length (direct_pointer ?n) = 12" using wf_inode_of [of d i] by (simp add: wf_inode_def)
    then have "get_fuul_disk_according_to_rank d (int k) ?n = Some (data_block d (direct_pointer ?n ! k))"
      using k12 by (simp add: get_fuul_disk_according_to_rank_def)
    moreover have "min N (k * 128) = k * 128" "k * 128 + min 128 (N - k * 128) = min N (Suc k * 128)"
      using kN by auto
    ultimately show "\<exists>t'. do { buffer \<leftarrow> get_fuul_disk_according_to_rank d (int k) ?n;
        for_loop 0 128 (inner buffer) t } = Some (Next t') \<and> t' = ?names (min N (Suc k * 128))"
      using blk [OF kN] t by simp
  qed simp_all
  have "N < (N div 128 + 1) * 128" by simp
  then have "min N ((N div 128 + 1) * 128) = N" by simp
  with outer show ?thesis
    by (simp add: fs_readdir_def understand_dir [OF r ok] just_read_inode_eq [OF I(1)] dir_count(2) [OF I(3)]
        Let_def inner_def dir_entries_def comp_def nat_add_distrib del: of_nat_div)
qed

section \<open>The invariant of a shrunk directory\<close>

lemma dirs_ok_insert:
  assumes ok: "dirs_ok d D" and j: "D j = None" "j < INODES" "inode_used d j" "dir_ok d (inode_of d j) M"
    and dis: "\<And>b B l m. D b = Some B \<Longrightarrow> l < blocks_of B \<Longrightarrow> m < blocks_of M \<Longrightarrow>
      ptr (inode_of d b) l \<noteq> ptr (inode_of d j) m"
  shows "dirs_ok d (D(j \<mapsto> M))"
  unfolding dirs_ok_def
proof (intro conjI allI impI)
  fix a b A B l m
  assume *: "(D(j \<mapsto> M)) a = Some A" "(D(j \<mapsto> M)) b = Some B" "l < blocks_of A" "m < blocks_of B"
    "ptr (inode_of d a) l = ptr (inode_of d b) m"
  show "a = b"
  proof (cases "a = j"; cases "b = j")
    assume "a \<noteq> j" "b \<noteq> j"
    with * show ?thesis using dirs_ok_disjoint [OF ok, of a A b B l m] by simp
  next
    assume "a \<noteq> j" "b = j"
    with * dis [of a A l m] show ?thesis by simp
  next
    assume "a = j" "b \<noteq> j"
    with * dis [of b B m l] show ?thesis by simp
  qed simp
qed (use j dirs_okD [OF ok] in \<open>auto split: if_splits\<close>)

lemma blocks_of_mono: "M \<le> N \<Longrightarrow> blocks_of M \<le> blocks_of N"
proof -
  have ceil: "blocks_of K = (K + 127) div 128" for K
  proof (cases "K mod 128")
    case 0
    then show ?thesis by (simp add: blocks_of_def div_add1_eq [of K 127])
  next
    case (Suc m)
    then have "m < 128" using mod_less_divisor [of 128 K] by simp
    then have "(K mod 128 + 127) div 128 = 1" using div_add_self2 [of 128 m] by (simp add: Suc)
    then show ?thesis using Suc by (simp add: blocks_of_def div_add1_eq [of K 127])
  qed
  show "M \<le> N \<Longrightarrow> blocks_of M \<le> blocks_of N" by (simp add: ceil div_le_mono)
qed

lemma dirs_shrink:
  assumes ok: "dirs_ok d D" and D: "D j = Some N" "M \<le> N"
    and self: "direct_pointer (inode_of d' j) = direct_pointer (inode_of d j)"
      "st_size (inode_of d' j) = word64_of (int (32 * M))"
    and others: "\<And>m. m < INODES \<Longrightarrow> m \<noteq> j \<Longrightarrow> inode_of d' m = inode_of d m"
    and blocks: "\<And>q. q \<noteq> ptr (inode_of d j) 0 \<Longrightarrow> d' (data_id q) = d (data_id q)" and "0 < N"
    and data: "\<And>k. k < DATA_NUM \<Longrightarrow> data_used d k \<Longrightarrow> data_used d' k"
    and used: "\<And>i. i < INODES \<Longrightarrow> inode_used d i \<Longrightarrow> inode_used d' i"
  shows "dirs_ok d' (D(j \<mapsto> M))"
    and "D b = Some B \<Longrightarrow> b \<noteq> j \<Longrightarrow> dir_entries d' (inode_of d' b) B = dir_entries d (inode_of d b) B"
proof -
  let ?D = "D(j := None)"
  note J = dirs_okD [OF ok D(1)]
  have ok': "dirs_ok d ?D" using ok by (auto simp: dirs_ok_def split: if_splits)
  have z: "0 < blocks_of N" using block_lt [OF \<open>0 < N\<close>] by simp
  have inodes: "inode_of d' b = inode_of d b" if "?D b = Some B" for b B
    using that dirs_okD(1) [OF ok', of b] others [of b] by (simp split: if_splits)
  have same: "d' (data_id p) = d (data_id p)" if "dir_block d ?D p" for p
  proof (rule blocks)
    from that obtain b B l where b: "D b = Some B" "b \<noteq> j" "l < blocks_of B" "p = ptr (inode_of d b) l"
      by (auto simp: dir_block_def split: if_splits)
    with dirs_ok_disjoint [OF ok b(1) D(1) b(3) z] show "p \<noteq> ptr (inode_of d j) 0" by auto
  qed
  have frame: "dirs_ok d' ?D"
    by (rule dirs_frame(1) [OF ok']) (use inodes same data used in blast)+
  show "dir_entries d' (inode_of d' b) B = dir_entries d (inode_of d b) B" if "D b = Some B" "b \<noteq> j"
    by (rule dirs_frame(2) [OF ok']) (use inodes same data used that in auto)
  have ptrs: "ptr (inode_of d' j) k = ptr (inode_of d j) k" for k by (simp add: ptr_def self(1))
  have sub: "k < blocks_of N" if "k < blocks_of M" for k
    using that blocks_of_mono [OF D(2)] by simp
  have "dirs_ok d' (?D(j \<mapsto> M))"
  proof (rule dirs_ok_insert [OF frame _ J(1)])
    show "inode_used d' j" by (rule used [OF J(1,2)])
    show "dir_ok d' (inode_of d' j) M"
      using J(3) D(2) sub data self by (simp add: dir_ok_def ptr_ok_def ptrs)
    show "ptr (inode_of d' b) l \<noteq> ptr (inode_of d' j) m" if "?D b = Some B" "l < blocks_of B" "m < blocks_of M"
      for b B l m
      using that dirs_ok_disjoint [OF ok _ D(1) that(2) sub [OF that(3)]] inodes [OF that(1)]
      by (auto simp: ptrs split: if_splits)
  qed simp
  then show "dirs_ok d' (D(j \<mapsto> M))" by simp
qed

section \<open>Releasing blocks\<close>

text \<open>Releasing only ever sets bits of the data bitmap.\<close>

definition map_frame :: "disk \<Rightarrow> disk \<Rightarrow> bool" where
  "map_frame d d' \<longleftrightarrow> (\<forall>b. b \<noteq> 2 \<longrightarrow> b \<noteq> 3 \<longrightarrow> d' b = d b)
     \<and> (\<forall>k < 2 * MAP_BITS. data_used d k \<longrightarrow> data_used d' k)"

lemma map_frame_trans: "map_frame d d' \<Longrightarrow> map_frame d' d'' \<Longrightarrow> map_frame d d''"
  by (simp add: map_frame_def)

lemma map_frame_facts:
  assumes "map_frame d d'"
  shows "m < INODES \<Longrightarrow> inode_of d' m = inode_of d m" "inode_used d' k = inode_used d k"
    "k < DATA_NUM \<Longrightarrow> data_used d k \<Longrightarrow> data_used d' k" "d' (data_id p) = d (data_id p)"
proof -
  have "d' (Suc 0) = d (Suc 0)" using assms by (simp add: map_frame_def)
  then show "inode_used d' k = inode_used d k" by (simp add: inode_used_def)
  show "inode_of d' m = inode_of d m" if "m < INODES"
    using assms by (intro inode_of_cong) (simp add: map_frame_def)
qed (use assms in \<open>auto simp: map_frame_def DATA_NUM_def MAP_BITS_def\<close>)

text \<open>Block numbers the bitmap has a bit for.\<close>

definition in_map :: "32 word \<Rightarrow> bool" where
  "in_map w \<longleftrightarrow> 0 \<le> sint w \<and> sint w < int (2 * MAP_BITS)"

lemma uncover_map_frame:
  assumes "in_map w"
  shows "\<exists>d'. make_data_map_uncovered d (sint w) = Some d' \<and> map_frame d d'"
proof -
  define n where "n = nat (sint w)"
  have n: "sint w = int n" "n < 2 * MAP_BITS" using assms by (auto simp: n_def in_map_def nat_less_iff)
  have "data_map_block n = 2 \<or> data_map_block n = 3" by (simp add: data_map_block_def)
  then have "map_frame d (set_bit_in uncover_data_block d (data_map_block n) (n mod MAP_BITS))"
    using data_used_uncover [OF n(2), of _ d] by (auto simp: map_frame_def)
  with n show ?thesis by (simp add: make_data_map_uncovered_eq)
qed

lemma uncover_range_frame:
  assumes "\<And>i. i < n \<Longrightarrow> in_map (block i)"
  shows "\<exists>d'. uncover_range n block d = Some d' \<and> map_frame d d'"
proof -
  have "\<exists>d'. for_loop 0 n (\<lambda>i d. do { d' \<leftarrow> make_data_map_uncovered d (sint (block i)); Some (Next d') }) d
      = Some (Next d' :: (disk, disk) flow) \<and> map_frame d d'"
  proof (rule for_loop_invariant [where P = "\<lambda>_. map_frame d"])
    show "map_frame d d" by (simp add: map_frame_def)
    fix i t
    assume "i < n" "map_frame d t"
    with uncover_map_frame [OF assms, of i t] show "\<exists>t'. do { d' \<leftarrow> make_data_map_uncovered t (sint (block i)); Some (Next d') }
        = Some (Next t' :: (disk, disk) flow) \<and> map_frame d t'" by (auto intro: map_frame_trans)
  qed simp
  then show ?thesis by (auto simp: uncover_range_def)
qed

text \<open>A file of fewer than 11 * 4096 bytes whose pointers the bitmap knows.\<close>

definition small_file :: "iNode \<Rightarrow> nat \<Rightarrow> bool" where
  "small_file n s \<longleftrightarrow> st_size n = word64_of (int s) \<and> s < 11 * 4096
     \<and> (\<forall>k \<le> s div 4096. in_map (direct_pointer n ! k))"

lemma release_frame:
  assumes "small_file n s"
  shows "\<exists>d'. release_file_databock_by_provide_inode d n = Some d' \<and> map_frame d d'"
proof -
  have s: "st_size n = word64_of (int s)" "s < 45056" "s div 4096 < 11" using assms by (auto simp: small_file_def)
  have size: "sint (st_size n) = int s" unfolding s(1) by (rule sint_word64_of) (use s(2) in auto)
  have "to_int (int s sdiv 4096 + 1) = int (s div 4096) + 1"
    using s(3) by (subst to_int_id) (simp_all del: of_nat_div)
  then have amount: "to_int (sint (st_size n) sdiv 4096 + 1) = int (s div 4096) + 1" by (simp add: size)
  have range: "nat (get_min 12 (int (s div 4096) + 1)) = Suc (s div 4096)"
    using s(3) by (simp add: get_min_def del: of_nat_div)
  have "\<exists>d'. uncover_range (Suc (s div 4096)) (\<lambda>i. direct_pointer n ! i) d = Some d' \<and> map_frame d d'"
    using assms by (intro uncover_range_frame) (simp add: small_file_def)
  then obtain d' where "uncover_range (Suc (s div 4096)) (\<lambda>i. direct_pointer n ! i) d = Some d'" "map_frame d d'"
    by blast
  with s(3) show ?thesis
    by (auto simp: release_file_databock_by_provide_inode_def amount range Let_def simp del: of_nat_div)
qed

section \<open>Deleting a file\<close>

lemma slash_before_text:
  assumes "path = a @ slash # c" and "slash \<notin> set c" and "length a \<le> i" and "i \<le> length path"
  shows "slash_before path i = Some (length a)"
  using assms(3,4)
proof (induction i)
  case 0
  then show ?case using assms(1) by (simp add: char_at_def)
next
  case (Suc i)
  show ?case
  proof (cases "Suc i = length a")
    case True
    have "path ! length a = slash" "length a < length path" using assms(1) by simp_all
    then show ?thesis unfolding True [symmetric] by (simp add: char_at_def)
  next
    case False
    with Suc have le: "length a \<le> i" "i \<le> length path" by simp_all
    have "\<exists>x. char_at path (Suc i) = Some x \<and> x \<noteq> slash"
    proof (cases "Suc i < length path")
      case True
      then have "path ! Suc i = c ! (i - length a)" "i - length a < length c"
        using assms(1) le(1) by (simp_all add: nth_append Suc_diff_le)
      then have "path ! Suc i \<noteq> slash" using assms(2) by (metis nth_mem)
      with True show ?thesis by (simp add: char_at_def)
    qed (use Suc.prems(2) in \<open>simp add: char_at_def\<close>)
    with Suc.IH [OF le] show ?thesis by auto
  qed
qed

text \<open>The first entry with a given inode number.\<close>

definition first_rank :: "disk \<Rightarrow> iNode \<Rightarrow> nat \<Rightarrow> int \<Rightarrow> nat \<Rightarrow> bool" where
  "first_rank d n N f r \<longleftrightarrow> r < N \<and> sint (inode_number (entry_at d n r)) = f
     \<and> (\<forall>q < r. sint (inode_number (entry_at d n q)) \<noteq> f)"

lemma first_rank_exists:
  assumes "lookup_name d n N c = Some x"
  shows "\<exists>r. first_rank d n N (sint (inode_number x)) r"
proof -
  from assms have "x \<in> set (dir_entries d n N)"
    by (auto simp: lookup_name_def find_Some_iff)
  then obtain q where q: "q < N" "entry_at d n q = x" by (auto simp: dir_entries_def)
  define P where "P = (\<lambda>r. r < N \<and> sint (inode_number (entry_at d n r)) = sint (inode_number x))"
  have "P q" using q by (simp add: P_def)
  then have l: "P (LEAST r. P r)" by (rule LeastI)
  have "\<not> P k" if "k < (LEAST r. P r)" for k using that by (rule not_less_Least)
  with l have "first_rank d n N (sint (inode_number x)) (LEAST r. P r)"
    unfolding first_rank_def P_def by (metis (no_types, lifting) less_trans)
  then show ?thesis by blast
qed

text \<open>
  What is left of the inode bitmap: marking inode \<open>f\<close> free sets the seven other bits of its byte and
  leaves its own bit as it is.
\<close>

definition unlinked :: "env \<Rightarrow> disk \<Rightarrow> dir_map \<Rightarrow> nat \<Rightarrow> nat \<Rightarrow> nat \<Rightarrow> nat \<Rightarrow> disk \<Rightarrow> bool" where
  "unlinked e d D j N f r d' \<longleftrightarrow> dirs_ok d' (D(j \<mapsto> N - 1))
     \<and> dir_entries d' (inode_of d' j) (N - 1) = swap_remove r (dir_entries d (inode_of d j) N)
     \<and> (\<forall>b B. D b = Some B \<longrightarrow> b \<noteq> j \<longrightarrow> dir_entries d' (inode_of d' b) B = dir_entries d (inode_of d b) B)
     \<and> (\<forall>m < INODES. m \<noteq> j \<longrightarrow> inode_of d' m = inode_of d m)
     \<and> (\<forall>m < INODES. inode_used d' m \<longleftrightarrow> m div 8 = f div 8 \<and> m \<noteq> f \<or> inode_used d m)
     \<and> (\<forall>k < DATA_NUM. data_used d k \<longrightarrow> data_used d' k)"

lemma shrink_size:
  assumes "dir_ok d n N" and "0 < N"
  shows "st_size n - 32 = word64_of (int (32 * (N - 1)))"
proof -
  obtain M where "N = Suc M" using assms(2) by (cases N) auto
  with assms(1) show ?thesis by (simp add: dir_ok_def word64_of_def algebra_simps)
qed

text \<open>The search of \<open>fs_unlink\<close> stops at the first entry of the number and deletes it.\<close>

lemma unlink_loop:
  assumes n: "dir_ok d n N" "N \<le> 12" and q: "first_rank d n N (int f) q" and f: "f < INODES"
    and d1: "release_file_databock_by_provide_inode d (inode_of d f) = Some d1"
    and d2: "delete_file_according_to_rank d1 (int q) n = Some d2"
  shows "for_loop 0 N (\<lambda>i t. do {
      x \<leftarrow> get_filename_data_from_dir_in_rank_view t (int i) n;
      if sint (inode_number x) = int f
      then do {
        m \<leftarrow> just_read_inode_from_disk t (int f);
        d1 \<leftarrow> release_file_databock_by_provide_inode t m;
        d2 \<leftarrow> delete_file_according_to_rank d1 (int i) n;
        Some (Break d2)
      }
      else Some (Next t :: (disk, disk) flow) }) d = Some (Next d2)" (is "for_loop 0 N ?body d = _")
proof (rule for_loop_break [where r = q])
  have get: "get_filename_data_from_dir_in_rank_view d (int i) n = Some (entry_at d n i)" if "i < N" for i
    using that n(2) by (intro get_filename_eq [OF n(1)]) auto
  show "?body k d = Some (Next d)" if "k < q" for k
    using that q get [of k] by (simp add: first_rank_def)
  show "?body q d = Some (Break d2)"
    using q get [of q] d1 d2 by (simp add: first_rank_def just_read_inode_eq [OF f])
qed (use q in \<open>simp_all add: first_rank_def\<close>)

text \<open>The disk that \<open>fs_unlink\<close> leaves.\<close>

lemma unlink_effect:
  assumes ok: "dirs_ok d D" and D: "D j = Some N" and q: "q < N" "0 < N" and m1: "map_frame d d1"
    and n: "n = inode_of d j" and n': "n' = n\<lparr>st_size := st_size n - 32, ctime := t, mtime := t\<rparr>"
    and d2: "dir_entries d2 n (N - 1) = swap_remove q (dir_entries d1 n N)"
      "\<And>b. b \<noteq> data_id (ptr n 0) \<Longrightarrow> d2 b = d1 b"
  shows "unlinked e d D j N f q (set_inode (set_bit_in uncover_data_block d2 (Suc 0) f) j n')"
    (is "unlinked _ _ _ _ _ _ _ ?d'")
proof -
  note J = dirs_okD [OF ok D]
  note F1 = map_frame_facts [OF m1]
  have wf: "wf_inode n'" using wf_inode_of [of d j] by (simp add: n n' wf_inode_def)
  have inodes: "inode_of ?d' m = (if m = j then n' else inode_of d m)" if "m < INODES" for m
  proof -
    have "inode_of d2 m = inode_of d m" using F1(1) [OF that] that by (simp add: d2(2) inode_of_def)
    with that show ?thesis by (simp add: inode_of_set_inode [OF J(1) that wf])
  qed
  have used2: "inode_used d2 m = inode_used d m" "data_used d2 m = data_used d1 m" for m
    using F1(2) [of m] by (simp_all add: inode_used_def data_used_def d2(2))
  have used: "inode_used ?d' m \<longleftrightarrow> m div 8 = f div 8 \<and> m \<noteq> f \<or> inode_used d m" for m
    by (simp add: used2)
  have data: "data_used ?d' k" if "k < DATA_NUM" "data_used d k" for k
    using F1(3) [OF that] by (simp add: used2)
  have blk: "?d' (data_id p) = d2 (data_id p)" for p by (simp add: J(1))
  have "ptr n' k = ptr n k" for k by (simp add: n' ptr_def)
  then have "dir_entries ?d' n' (N - 1) = dir_entries d2 n (N - 1)"
    by (simp add: dir_entries_def entry_at_def blk)
  moreover have "dir_entries d1 n N = dir_entries d n N" by (intro dir_entries_frame) (rule F1(4))
  ultimately have ents: "dir_entries ?d' (inode_of ?d' j) (N - 1) = swap_remove q (dir_entries d (inode_of d j) N)"
    using d2(1) inodes [OF J(1)] by (simp add: n)
  have ptr': "direct_pointer (inode_of ?d' j) = direct_pointer (inode_of d j)"
    "st_size (inode_of ?d' j) = word64_of (int (32 * (N - 1)))"
    using inodes [OF J(1)] shrink_size [OF J(3) q(2)] by (simp_all add: n n')
  have others: "inode_of ?d' m = inode_of d m" if "m < INODES" "m \<noteq> j" for m
    using inodes [OF that(1)] that(2) by simp
  have same: "?d' (data_id p) = d (data_id p)" if "p \<noteq> ptr (inode_of d j) 0" for p
    using that F1(4) by (simp add: blk d2(2) n)
  have mono: "inode_used ?d' m" if "inode_used d m" for m using that used by simp
  note shrink = dirs_shrink [OF ok D diff_le_self ptr' others same q(2) data mono]
  show ?thesis unfolding unlinked_def using shrink used ents others data by blast
qed

lemma fs_unlink_spec:
  assumes ok: "dirs_ok d D" and r: "reaches d D 4 cs j" and D: "D j = Some N" and N: "N \<le> 12"
    and c: "good_name c" and lk: "lookup_name d (inode_of d j) N c = Some x"
    and f: "sint (inode_number x) = int f" "f < INODES" and small: "small_file (inode_of d f) s"
    and path: "length (path_text cs) \<le> 7" "6 \<le> length c"
  shows "\<exists>r d'. fs_unlink e d (path_text (cs @ [c])) = Some (0, d')
    \<and> first_rank d (inode_of d j) N (int f) r \<and> unlinked e d D j N f r d'"
proof -
  note J = dirs_okD [OF ok D]
  define n where "n = inode_of d j"
  note J3 = J(3) [folded n_def]
  let ?p = "path_text (cs @ [c])"
  have p: "?p = path_text cs @ slash # c" by (simp add: path_text_append)
  have slash: "slash_before ?p 7 = Some (length (path_text cs))"
    using c path by (intro slash_before_text [OF p]) (auto simp: good_name_def p)
  have char: "\<exists>y. char_at ?p (length (path_text cs) + 7) = Some y"
    using path(2) by (auto simp: char_at_def p)
  have "path_text cs = [] \<longleftrightarrow> cs = []" by (cases cs) simp_all
  then have dir: "(if path_text cs = [] then [slash] else take (length (path_text cs)) ?p) = dir_text cs"
    by (simp add: dir_text_def p)
  have und: "understand_the_path d ?p = Some (int f)"
    using understand_name [OF r ok D _ c] N lk f(1) by (simp add: name_number_def)
  from first_rank_exists [OF lk] obtain q where q: "first_rank d n N (int f) q"
    unfolding f(1) n_def by blast
  then have q': "q < N" "0 < N" by (auto simp: first_rank_def)
  from release_frame [OF small, of d] obtain d1 where
    d1: "release_file_databock_by_provide_inode d (inode_of d f) = Some d1" and m1: "map_frame d d1" by blast
  have "dir_ok d1 n N" by (rule dir_ok_mono [OF J3]) (rule map_frame_facts(3) [OF m1])
  from delete_file_swap [OF this q'(1) N] obtain d2 where
    d2: "delete_file_according_to_rank d1 (int q) n = Some d2"
      "dir_entries d2 n (N - 1) = swap_remove q (dir_entries d1 n N)"
      "\<And>b. b \<noteq> data_id (ptr n 0) \<Longrightarrow> d2 b = d1 b" by blast
  note loop = unlink_loop [OF J3 N q f(2) d1 d2(1)]
  have "f < MAP_BITS" using f(2) by (simp add: MAP_BITS_def INODES_def)
  note d3 = make_inode_map_uncovered_eq [OF this, of d2]
  define n' where "n' = n\<lparr>st_size := st_size n - 32, ctime := time_now e, mtime := time_now e\<rparr>"
  have "fs_unlink e d ?p = Some (0, set_inode (set_bit_in uncover_data_block d2 (Suc 0) f) j n')"
    using char J(1) loop
    by (clarsimp simp: fs_unlink_def slash und dir understand_dir [OF r ok] just_read_inode_eq
        n_def [symmetric] dir_count(2) [OF J3] d3 n'_def [symmetric] replace_inode_eq)
  with unlink_effect [OF ok D q' m1 n_def n'_def d2(2,3)] q show ?thesis unfolding n_def by blast
qed

section \<open>Names after a deletion\<close>

lemma mset_swap_remove:
  assumes "r < length xs"
  shows "mset (swap_remove r xs) = mset xs - {#xs ! r#}"
proof -
  let ?ys = "xs[r := last xs]"
  have ne: "?ys \<noteq> []" "xs \<noteq> []" using assms by auto
  have "last ?ys = last xs" using ne assms by (simp add: last_conv_nth nth_list_update)
  then have "add_mset (last xs) (mset (butlast ?ys)) = mset ?ys"
    using append_butlast_last_id [OF ne(1)]
    by (metis mset_append mset_single_iff_right union_commute add_mset_add_single mset.simps)
  also have "\<dots> = add_mset (last xs) (mset xs - {#xs ! r#})" by (rule mset_update [OF assms])
  finally show ?thesis by (simp add: swap_remove_def)
qed

lemma map_swap_remove: "xs \<noteq> [] \<Longrightarrow> map g (swap_remove r xs) = swap_remove r (map g xs)"
  by (simp add: swap_remove_def map_butlast map_update last_map)

lemma removed_not_in:
  assumes "distinct xs" and "r < length xs"
  shows "xs ! r \<notin> set (swap_remove r xs)"
proof -
  have "count (mset xs) (xs ! r) = 1" using assms by (simp add: distinct_count_atmost_1 count_mset_0_iff)
  then have "count (mset (swap_remove r xs)) (xs ! r) = 0" by (simp add: mset_swap_remove [OF assms(2)])
  then show ?thesis by (metis count_mset_0_iff)
qed

text \<open>With distinct names and distinct numbers the deleted entry is the one of the name, and nothing else goes.\<close>

definition distinct_dir :: "DictioryContent list \<Rightarrow> bool" where
  "distinct_dir es \<longleftrightarrow> distinct (map file_name es) \<and> distinct (map inode_number es)"

lemma find_name_iff:
  assumes "distinct (map file_name es)"
  shows "List.find (\<lambda>x. file_name x = b) es = Some y \<longleftrightarrow> y \<in> set es \<and> file_name y = b"
  using assms by (induction es) (auto simp: rev_image_eqI)

lemma first_rank_entry:
  assumes r: "first_rank d n N (sint (inode_number x)) r" and lk: "lookup_name d n N c = Some x"
    and dis: "distinct_dir (dir_entries d n N)"
  shows "r < N \<and> dir_entries d n N ! r = x"
proof -
  let ?E = "dir_entries d n N"
  from lk obtain q where q: "q < N" "?E ! q = x"
    by (auto simp: lookup_name_def find_Some_iff dir_entries_def)
  have r': "r < N" "sint (inode_number (?E ! r)) = sint (inode_number x)"
    using r by (auto simp: first_rank_def dir_entries_def)
  then have "map inode_number ?E ! r = map inode_number ?E ! q"
    using q by (simp add: dir_entries_def) (simp add: signed_word_eqI)
  with dis r'(1) q(1) have "r = q"
    unfolding distinct_dir_def by (subst (asm) nth_eq_iff_index_eq) (auto simp: dir_entries_def)
  with q r'(1) show ?thesis by simp
qed

lemma lookup_after_removal:
  assumes ents: "dir_entries d' n' (N - 1) = swap_remove r (dir_entries d n N)"
    and r: "r < N" "dir_entries d n N ! r = x" and dis: "distinct_dir (dir_entries d n N)"
  shows "lookup_name d' n' (N - 1) b =
    (if pad28 b = file_name x then None else lookup_name d n N b)"
proof -
  let ?E = "dir_entries d n N"
  have names: "distinct (map file_name ?E)" using dis by (simp add: distinct_dir_def)
  have len: "r < length ?E" using r(1) by (simp add: dir_entries_def)
  have m: "mset (swap_remove r ?E) = mset (remove1 x ?E)" using mset_swap_remove [OF len] r(2) by simp
  have xE: "x \<in> set ?E" using len r(2) by (metis nth_mem)
  have E: "distinct ?E" "inj_on file_name (set ?E)" using names by (simp_all add: distinct_map)
  have "mset (map file_name (swap_remove r ?E)) = mset (map file_name (remove1 x ?E))" by (simp add: m)
  moreover have "distinct (map file_name (remove1 x ?E))"
    using E inj_on_subset [OF E(2) set_remove1_subset] by (simp add: distinct_map distinct_remove1)
  ultimately have dis': "distinct (map file_name (swap_remove r ?E))"
    using mset_eq_imp_distinct_iff by blast
  have mem: "y \<in> set (swap_remove r ?E) \<longleftrightarrow> y \<in> set ?E \<and> y \<noteq> x" for y
    using mset_eq_setD [OF m] E(1) by simp
  have uniq: "y = x" if "y \<in> set ?E" "file_name y = file_name x" for y
    using inj_onD [OF E(2) that(2) that(1) xE] .
  have "lookup_name d' n' (N - 1) b = Some y \<longleftrightarrow>
      (if pad28 b = file_name x then None else lookup_name d n N b) = Some y" for y
    unfolding lookup_name_def ents find_name_iff [OF dis'] mem
    using find_name_iff [OF names, of "pad28 b" y] uniq [of y] by (cases "pad28 b = file_name x") auto
  then show ?thesis by (metis not_None_eq)
qed

text \<open>Paths after the deletion of a file: a step of a path never uses the file's entry.\<close>

lemma unlinked_lookup:
  assumes u: "unlinked e d D j N f r d'" and rk: "first_rank d (inode_of d j) N (int f) r"
    and lk: "lookup_name d (inode_of d j) N c = Some x" "sint (inode_number x) = int f"
    and dis: "distinct_dir (dir_entries d (inode_of d j) N)"
  shows "lookup_name d' (inode_of d' j) (N - 1) b =
      (if pad28 b = pad28 c then None else lookup_name d (inode_of d j) N b)"
    and "D a = Some M \<Longrightarrow> a \<noteq> j \<Longrightarrow> lookup_name d' (inode_of d' a) M b = lookup_name d (inode_of d a) M b"
proof -
  have r: "r < N" "dir_entries d (inode_of d j) N ! r = x"
    using first_rank_entry [OF _ lk(1) dis] rk lk(2) by auto
  have "file_name x = pad28 c" using lk(1) by (auto simp: lookup_name_def find_Some_iff)
  moreover have "dir_entries d' (inode_of d' j) (N - 1) = swap_remove r (dir_entries d (inode_of d j) N)"
    using u by (simp add: unlinked_def)
  ultimately show "lookup_name d' (inode_of d' j) (N - 1) b =
      (if pad28 b = pad28 c then None else lookup_name d (inode_of d j) N b)"
    using lookup_after_removal [OF _ r dis] by simp
  show "D a = Some M \<Longrightarrow> a \<noteq> j \<Longrightarrow> lookup_name d' (inode_of d' a) M b = lookup_name d (inode_of d a) M b"
    using u by (simp add: unlinked_def lookup_name_def)
qed

lemma unlinked_reaches:
  assumes "reaches d D a cs k" and u: "unlinked e d D j N f r d'"
    and rk: "first_rank d (inode_of d j) N (int f) r"
    and lk: "lookup_name d (inode_of d j) N c = Some x" "sint (inode_number x) = int f"
    and dis: "distinct_dir (dir_entries d (inode_of d j) N)" and D: "D j = Some N" "D f = None"
  shows "reaches d' (D(j \<mapsto> N - 1)) a cs k"
  using assms(1)
proof (induction rule: reaches.induct)
  case (here a M)
  then show ?case by (cases "a = j") (auto intro: reaches.here)
next
  case (into a M b y i cs k)
  note lu = unlinked_lookup [OF u rk lk dis]
  have "D i \<noteq> None" using reaches_dir [OF into(6)] by auto
  then have yx: "y \<noteq> x" using into(5) lk(2) D(2) by auto
  have "\<exists>M'. (D(j \<mapsto> N - 1)) a = Some M' \<and> M' < 12 * 128 \<and> lookup_name d' (inode_of d' a) M' b = Some y"
  proof (cases "a = j")
    case True
    with into(1) D(1) have MN: "M = N" by simp
    have "pad28 b \<noteq> pad28 c" using into(4) lk(1) yx True MN by (auto simp: lookup_name_def)
    with lu(1) [of b] into(2,4) True MN show ?thesis by auto
  next
    case False
    with lu(2) [OF into(1) False] into(1,2,4) show ?thesis by auto
  qed
  with into(3,5,7) show ?case by (auto intro: reaches.into)
qed

section \<open>Renaming within the root directory\<close>

lemma add_file_in_place:
  assumes ok: "dir_ok d n N" and N: "0 < N" "N < 128"
  shows "add_file_to_dict e d n x =
    Some (n\<lparr>st_size := st_size n + 32, mtime := time_now e, ctime := time_now e\<rparr>,
          d(data_id (ptr n 0) := put_entry (d (data_id (ptr n 0))) N x))"
proof -
  have okp: "ptr_ok d n 0" using ok block_lt [OF N(1)] by (simp add: dir_ok_def)
  have len: "length (direct_pointer n) = 12" using ok by (simp add: dir_ok_def wf_inode_def)
  have "array_get (direct_pointer n) 0 = Some (direct_pointer n ! 0)" using len by (simp add: array_get_def)
  moreover have "ptr n 0 < DATA_NUM" using okp by (simp add: ptr_ok_def)
  ultimately show ?thesis
    using N add_in_block [of "ptr n 0" N d x]
    by (simp add: add_file_to_dict_def dir_count(2) [OF ok] ptr_ok_eq [OF okp])
qed

text \<open>The search of \<open>fs_rename\<close> remembers the last entry it read and deletes the matching one.\<close>

lemma rename_loop:
  assumes n: "dir_ok d n N" "N \<le> 12" and q: "first_rank d n N v q"
    and d1: "delete_file_according_to_rank d (int q) n = Some d1"
  shows "for_loop 0 N (\<lambda>i (w :: DictioryContent option, t). do {
      we_want \<leftarrow> get_filename_data_from_dir_in_rank_view t (int i) n;
      if sint (inode_number we_want) = v
      then do { d1 \<leftarrow> delete_file_according_to_rank t (int i) n; Some (Break (Some we_want, d1)) }
      else Some (Next (Some we_want, t) :: (DictioryContent option \<times> disk, DictioryContent option \<times> disk) flow)
    }) (None, d) = Some (Next (Some (entry_at d n q), d1))" (is "for_loop 0 N ?body _ = _")
proof (rule for_loop_break_invariant [where P = "\<lambda>_ s. snd s = d" and r = q])
  have get: "get_filename_data_from_dir_in_rank_view d (int i) n = Some (entry_at d n i)" if "i < N" for i
    using that n(2) by (intro get_filename_eq [OF n(1)]) auto
  show "\<exists>t'. ?body k t = Some (Next t') \<and> snd t' = d" if "k < q" "snd t = d" for k t
    using that q get [of k] by (cases t) (simp add: first_rank_def)
  show "?body q t = Some (Break (Some (entry_at d n q), d1))" if "snd t = d" for t
    using that q get [of q] d1 by (cases t) (simp add: first_rank_def)
qed (use q in \<open>simp_all add: first_rank_def\<close>)

text \<open>
  The disk that a rename inside the root leaves: the entry was put back behind the last one, but the inode written
  last counts one entry less.
\<close>

lemma rename_effect:
  assumes ok: "dirs_ok d D" and D: "D 4 = Some N" and q: "q < N" "0 < N" and N: "N \<le> 12"
    and n: "n = inode_of d 4" and n': "wf_inode n'"
    and n'': "n'' = n\<lparr>st_size := st_size n - 32, ctime := t, mtime := t\<rparr>"
    and d1: "dir_entries d1 n (N - 1) = swap_remove q (dir_entries d n N)"
      "\<And>b. b \<noteq> data_id (ptr n 0) \<Longrightarrow> d1 b = d b"
    and d2: "d2 = d1(data_id (ptr n 0) := put_entry (d1 (data_id (ptr n 0))) N (entry_at d n q))"
    and d': "d' = set_inode (set_inode d2 4 n') 4 n''"
  shows "dirs_ok d' (D(4 \<mapsto> N - 1))"
    and "dir_entries d' (inode_of d' 4) (N - 1) = swap_remove q (dir_entries d (inode_of d 4) N)"
    and "\<forall>m < INODES. m \<noteq> 4 \<longrightarrow> inode_of d' m = inode_of d m"
proof -
  note J = dirs_okD [OF ok D]
  have ptrn: "ptr n'' k = ptr n k" for k by (simp add: n'' ptr_def)
  have wf: "wf_inode n''" using wf_inode_of [of d 4] by (simp add: n'' n wf_inode_def)
  have inodes: "inode_of d' m = (if m = 4 then n'' else inode_of d m)" if "m < INODES" for m
  proof -
    have "inode_of d2 m = inode_of d m" using that by (simp add: d2 d1(2) inode_of_def)
    then show ?thesis
      by (simp add: d' inode_of_set_inode [OF J(1) that n'] inode_of_set_inode [OF J(1) that wf])
  qed
  have used: "inode_used d' m = inode_used d m" "data_used d' m = data_used d m" for m
    by (simp_all add: d') (simp_all add: d2 inode_used_def data_used_def d1(2))
  have blk: "d' (data_id p) = d2 (data_id p)" for p by (simp add: d' J(1))
  have wfe: "wf_entry (entry_at d n q)" by (simp add: entry_at_def)
  have "entry_at d' n'' k = entry_at d1 n k" if "k < N - 1" for k
    using that N wfe by (simp add: entry_at_def blk ptrn d2 entry_array.get_put_other)
  then have "dir_entries d' n'' (N - 1) = dir_entries d1 n (N - 1)" by (simp add: dir_entries_def)
  then show "dir_entries d' (inode_of d' 4) (N - 1) = swap_remove q (dir_entries d (inode_of d 4) N)"
    using d1(1) inodes [OF J(1)] by (simp add: n)
  have ptr': "direct_pointer (inode_of d' 4) = direct_pointer (inode_of d 4)"
    "st_size (inode_of d' 4) = word64_of (int (32 * (N - 1)))"
    using inodes [OF J(1)] shrink_size [OF J(3) q(2)] by (simp_all add: n'' n)
  have others: "inode_of d' m = inode_of d m" if "m < INODES" "m \<noteq> 4" for m
    using inodes [OF that(1)] that(2) by simp
  then show "\<forall>m < INODES. m \<noteq> 4 \<longrightarrow> inode_of d' m = inode_of d m" by blast
  have same: "d' (data_id p) = d (data_id p)" if "p \<noteq> ptr (inode_of d 4) 0" for p
    using that by (simp add: blk d2 d1(2) n)
  show "dirs_ok d' (D(4 \<mapsto> N - 1))"
    by (rule dirs_shrink(1) [OF ok D diff_le_self ptr' others same q(2)]) (simp_all add: used)
qed

lemma fs_rename_root_spec:
  assumes ok: "dirs_ok d D" and D: "D 4 = Some N" and N: "N \<le> 12"
    and c: "good_name c" "6 \<le> length c" and c': "good_name c'" "6 \<le> length c'"
    and lk: "lookup_name d (inode_of d 4) N c = Some x"
  shows "\<exists>r d'. fs_rename e d (slash # c) (slash # c') = Some (0, d')
    \<and> first_rank d (inode_of d 4) N (sint (inode_number x)) r \<and> dirs_ok d' (D(4 \<mapsto> N - 1))
    \<and> dir_entries d' (inode_of d' 4) (N - 1) = swap_remove r (dir_entries d (inode_of d 4) N)
    \<and> (\<forall>m < INODES. m \<noteq> 4 \<longrightarrow> inode_of d' m = inode_of d m)"
proof -
  note J = dirs_okD [OF ok D]
  define n where "n = inode_of d 4"
  note J3 = J(3) [folded n_def]
  have slash: "slash_before (slash # a) 7 = Some 0" if "good_name a" "6 \<le> length a" for a
    using slash_before_text [of "slash # a" "[]" a 7] that by (simp add: good_name_def)
  have und: "understand_the_path d (slash # c) = Some (sint (inode_number x))"
    using understand_name [OF reaches.here [of D, OF D] ok D _ c(1)] N lk by (simp add: name_number_def)
  have root: "understand_the_path t [] = Some (int 4)" for t by (simp add: understand_root)
  from first_rank_exists [OF lk] obtain q where q: "first_rank d n N (sint (inode_number x)) q"
    unfolding n_def by blast
  then have q': "q < N" "0 < N" by (auto simp: first_rank_def)
  from delete_file_swap [OF J3 q'(1) N] obtain d1 where
    d1: "delete_file_according_to_rank d (int q) n = Some d1"
      "dir_entries d1 n (N - 1) = swap_remove q (dir_entries d n N)"
      "\<And>b. b \<noteq> data_id (ptr n 0) \<Longrightarrow> d1 b = d b" by blast
  note loop = rename_loop [OF J3 N q d1(1)]
  have n1: "inode_of d1 4 = n" using J(1) by (simp add: n_def d1(3) inode_of_def)
  have ok1: "dir_ok d1 n N" by (rule dir_ok_mono [OF J3]) (simp add: data_used_def d1(3))
  define n' where "n' = n\<lparr>st_size := st_size n + 32, mtime := time_now e, ctime := time_now e\<rparr>"
  define d2 where "d2 = d1(data_id (ptr n 0) := put_entry (d1 (data_id (ptr n 0))) N (entry_at d n q))"
  have add: "add_file_to_dict e d1 n (entry_at d n q) = Some (n', d2)"
    using add_file_in_place [OF ok1 q'(2)] N by (simp add: n'_def d2_def)
  define n'' where "n'' = n\<lparr>st_size := st_size n - 32, ctime := time_now e, mtime := time_now e\<rparr>"
  define d' where "d' = set_inode (set_inode d2 4 n') 4 n''"
  have run: "fs_rename e d (slash # c) (slash # c') = Some (0, d')"
    using J(1) loop replace_inode_eq [OF J(1)] just_read_inode_eq [OF J(1)]
    by (simp add: fs_rename_def und slash [OF c] slash [OF c'] root n_def [symmetric] dir_count(2) [OF J3]
        n1 add n''_def [symmetric] d'_def)
  have "wf_inode n'" using wf_inode_of [of d 4] by (simp add: n'_def n_def wf_inode_def)
  note eff = rename_effect [OF ok D q' N n_def this n''_def d1(2,3) d2_def d'_def]
  with run q show ?thesis unfolding n_def by blast
qed

end
