(* ===== verification/FsMisc.thy ===== *)
theory FsMisc
  imports FsDelete
begin

text \<open>
  What \<open>mkfs\<close>, \<open>truncate\<close>, \<open>utime\<close>, \<open>statfs\<close> and \<open>getattr\<close> do, and \<open>disk_init\<close>.
\<close>

section \<open>A new file system\<close>

lemma give_wf [simp]: "wf_inode (give_the_value_to_inode e n) = wf_inode n"
  by (simp add: give_the_value_to_inode_def wf_inode_def)

text \<open>The bits the buffer of 4069 bytes covers.\<close>

definition CLEARED :: nat where "CLEARED = 32552"

lemma mkfs_spec:
  "\<exists>d'. mkfs e stack3 stack2 d = Some (0, d') \<and> dirs_ok d' [4 \<mapsto> 0]
     \<and> inode_of d' 4 = give_the_value_to_inode e (inode_of d 4)
     \<and> (\<forall>m < INODES. m \<noteq> 4 \<longrightarrow> inode_of d' m = inode_of d m)
     \<and> (\<forall>m < MAP_BITS. inode_used d' m \<longleftrightarrow> m = 4)
     \<and> (\<forall>m < CLEARED. data_used d' m \<longleftrightarrow> m < 4)
     \<and> (\<forall>m < CLEARED. \<not> data_used d' (MAP_BITS + m))
     \<and> (\<forall>b \<ge> 4. b \<noteq> 4 \<longrightarrow> d' b = d b)"
proof -
  define d1 where "d1 = initial_datablock_map stack3 stack2 (initial_inode_map (initial_superblock d))"
  have d1: "d1 (Suc 0) = zero_block" "d1 2 = (\<lambda>i. if i < 4069 then ((\<lambda>_. 0)(0 := 240)) i else stack2 i)"
    "d1 3 = (\<lambda>i. if i < 4069 then 0 else stack3 i)" "\<And>b. 4 \<le> b \<Longrightarrow> d1 b = d b"
    by (simp_all add: d1_def initial_datablock_map_def initial_inode_map_def initial_superblock_def
        write_block_on Let_def)
  define d2 where "d2 = set_bit_in bit_map_mask d1 (Suc 0) 4"
  define n where "n = give_the_value_to_inode e (inode_of d 4)"
  define d' where "d' = set_inode d2 4 n"
  have four: "(4::nat) < INODES" "4 < MAP_BITS" "inode_block 4 = 4"
    by (simp_all add: INODES_def MAP_BITS_def inode_block_def)
  have old: "inode_of d2 m = inode_of d m" if "m < INODES" for m
    using inode_block_range [OF that] by (simp add: d2_def d1(4) inode_of_def)
  have cov: "make_inode_map_covered d1 4 = Some d2"
    using make_inode_map_covered_eq [OF four(2), of d1] by (simp add: d2_def)
  have find: "inode_find_disk_id_and_index_in_disk 4 = (4, 4)"
    using find_index_eq [of 4] by (simp add: inode_block_def)
  have on4: "on_disk 4" by (simp add: on_disk_def BLOCK_NUM_def)
  have at: "inode_at (d2 4) 4 = Some (inode_of d 4)"
    using inode_at_eq [of 4 "d2 4"] old [OF four(1)] by (simp add: inode_of_def four(3))
  have set: "set_inode_at (d2 4) 4 n = Some (put_inode (d2 4) 4 n)"
    using set_inode_at_eq [of 4 "d2 4" n] by simp
  have run: "mkfs e stack3 stack2 d = Some (0, d')"
    by (simp add: mkfs_def d1_def [symmetric] cov find at on4 n_def [symmetric] set write_block_on
        d'_def set_inode_def four(3))
  have wf: "wf_inode n" by (simp add: n_def)
  have inodes: "inode_of d' m = (if m = 4 then n else inode_of d m)" if "m < INODES" for m
    using inode_of_set_inode [OF four(1) that wf] old [OF that] by (simp add: d'_def)
  have iu: "inode_used d' m \<longleftrightarrow> m = 4" for m
    by (simp add: d'_def d2_def) (simp add: inode_used_def d1(1) map_bit_def zero_block_def)
  have du: "data_used d' m = data_used d1 m" for m by (simp add: d'_def d2_def)
  have low: "data_used d' m \<longleftrightarrow> m < 4" if "m < CLEARED" for m
  proof -
    have "m < MAP_BITS" "m div 8 < 4069" using that by (simp_all add: CLEARED_def MAP_BITS_def div_less_iff_less_mult)
    then have "data_used d' m \<longleftrightarrow> m div 8 = 0 \<and> bit (240::byte) (7 - m mod 8)"
      unfolding du by (auto simp: data_used_def map_bit_def d1(2))
    also have "bit (240::byte) (7 - m mod 8) \<longleftrightarrow> m mod 8 < 4"
    proof -
      have "m mod 8 < 8" by simp
      then show ?thesis by (drule_tac lt8_cases) (elim disjE; simp)
    qed
    also have "m div 8 = 0 \<and> m mod 8 < 4 \<longleftrightarrow> m < 4" by auto
    finally show ?thesis .
  qed
  have high: "\<not> data_used d' (MAP_BITS + m)" if "m < CLEARED" for m
  proof -
    have "m < MAP_BITS" "m div 8 < 4069" using that by (simp_all add: CLEARED_def MAP_BITS_def div_less_iff_less_mult)
    then show ?thesis unfolding du by (simp add: data_used_def map_bit_def d1(3))
  qed
  have "dir_ok d' (inode_of d' 4) 0"
    using wf by (simp add: inodes four(1) dir_ok_def blocks_of_def)
      (simp add: n_def give_the_value_to_inode_def word64_of_def)
  then have ok: "dirs_ok d' [4 \<mapsto> 0]"
    by (auto simp: dirs_ok_def four(1) iu blocks_of_def)
  have other: "d' b = d b" if "4 \<le> b" "b \<noteq> 4" for b
    using that by (simp add: d'_def set_inode_def four(3) d2_def d1(4))
  from run ok inodes iu low high other show ?thesis
    by (intro exI [of _ d']) (simp add: n_def four(1))
qed

lemma free_count_ge:
  assumes "\<And>m. a \<le> m \<Longrightarrow> m < b \<Longrightarrow> \<not> data_used d m" and "b \<le> DATA_NUM"
  shows "b - a \<le> free_count d"
proof -
  have "{a..<b} \<subseteq> {m. m < DATA_NUM \<and> \<not> data_used d m}" using assms by auto
  then have "card {a..<b} \<le> free_count d" unfolding free_count_def by (intro card_mono) auto
  then show ?thesis by simp
qed

text \<open>The data blocks that are free after formatting, among those whose bits the two buffers cover.\<close>

lemma mkfs_free_count:
  assumes "\<forall>m < CLEARED. data_used d m \<longleftrightarrow> m < 4" and "\<forall>m < CLEARED. \<not> data_used d (MAP_BITS + m)"
  shows "64288 \<le> free_count d"
proof -
  let ?A = "{4..<CLEARED}" and ?B = "{MAP_BITS..<DATA_NUM}"
  have "\<not> data_used d m" if "m \<in> ?B" for m
  proof -
    from that obtain k where "m = MAP_BITS + k" "k < CLEARED" by (auto simp: le_iff_add MAP_BITS_def DATA_NUM_def CLEARED_def)
    with assms(2) show ?thesis by simp
  qed
  with assms(1) have "?A \<union> ?B \<subseteq> {m. m < DATA_NUM \<and> \<not> data_used d m}" by (auto simp: CLEARED_def DATA_NUM_def)
  then have "card (?A \<union> ?B) \<le> free_count d" unfolding free_count_def by (intro card_mono) auto
  moreover have "card (?A \<union> ?B) = card ?A + card ?B" by (rule card_Un_disjoint) (auto simp: CLEARED_def MAP_BITS_def)
  ultimately show ?thesis by (simp add: CLEARED_def MAP_BITS_def DATA_NUM_def)
qed

section \<open>Attributes\<close>

lemma fs_getattr_spec:
  assumes "names d D path i" and "dirs_ok d D"
  shows "fs_getattr d path = Some (0, pass_value_from_iNode_to_stat (inode_of d i) zero_stat)"
  using names_understood [OF assms] by (auto simp: fs_getattr_def just_read_inode_eq)

lemma fs_getattr_missing:
  "understand_the_path d path = Some (- ENOENT) \<Longrightarrow> fs_getattr d path = Some (- ENOENT, zero_stat)"
  by (simp add: fs_getattr_def)

text \<open>\<open>open\<close>, \<open>truncate\<close>, \<open>utime\<close> and the rest use \<open>-ENOENT\<close> as an inode number: its index in the block is -2.\<close>

lemma just_read_missing: "just_read_inode_from_disk d (- ENOENT) = None"
proof -
  have "(-2 :: int) sdiv 32 = 0" "(-2 :: int) smod 32 = -2"
    by (simp_all add: signed_divide_int_def signed_modulo_int_def)
  then show ?thesis by (auto simp: just_read_inode_from_disk_def inode_find_disk_id_and_index_in_disk_def
        inode_at_def bind_eq_None_conv)
qed

section \<open>Truncating\<close>

lemma one_inode_update:
  assumes "i < INODES"
  shows "read_block d (int (inode_block i)) = Some (d (inode_block i))"
    and "inode_at (d (inode_block i)) (int (i mod 32)) = Some (inode_of d i)"
    and "set_inode_at (d (inode_block i)) (int (i mod 32)) x = Some (put_inode (d (inode_block i)) (i mod 32) x)"
  using assms inode_at_eq [of "i mod 32" "d (inode_block i)"] set_inode_at_eq [of "i mod 32" "d (inode_block i)" x]
  by (simp_all add: inode_of_def del: of_nat_mod)

lemma fs_truncate_grow:
  assumes nm: "names d D path i" and ok: "dirs_ok d D"
    and s: "st_size (inode_of d i) = word64_of (int old)" "old < 2 ^ 31"
    and new: "new < 2 ^ 31" "old div 4096 \<le> new div 4096"
  shows "fs_truncate d path (int new) = Some (0, set_inode d i ((inode_of d i)\<lparr>st_size := word64_of (int new)\<rparr>))"
proof -
  have I: "i < INODES" and und: "understand_the_path d path = Some (int i)"
    using names_understood [OF nm ok] by auto
  have size: "sint (st_size (inode_of d i)) = int old"
    unfolding s(1) by (rule sint_word64_of) (use s(2) in auto)
  have ti: "to_int (int old) = int old" "to_int (int new) = int new" using s(2) new(1) by simp_all
  note one = one_inode_update [OF I]
  show ?thesis
  proof (cases "old div 4096 = new div 4096")
    case True
    then show ?thesis
      by (simp add: fs_truncate_def und find_index_eq size ti one set_inode_def write_block_on I Let_def
          del: of_nat_div of_nat_mod)
  next
    case False
    with new(2) have lt: "int (old div 4096) < int (new div 4096)" by linarith
    then show ?thesis
      by (simp add: fs_truncate_def und find_index_eq size ti one set_inode_def write_block_on I Let_def
          del: of_nat_div of_nat_mod of_nat_less_iff)
  qed
qed

section \<open>Counting free space\<close>

lemma get_free_block_size_eq: "get_free_block_size d = Some 0"
proof -
  have nz: "bit_map_mask ! k \<noteq> 0" if "k < 8" for k
    using lt8_cases [OF that] by (auto simp: bit_map_mask_def)
  have inner: "\<exists>s. for_loop 0 8 (\<lambda>k free_number.
        let f1 = (if d 2 i AND bool_byte (bit_map_mask ! k = 0) \<noteq> 0 then free_number + 1 else free_number);
            f2 = (if d 3 i AND bool_byte (bit_map_mask ! k = 0) \<noteq> 0 then f1 + 1 else f1)
        in Some (Next f2)) t = Some (Next s :: (int, int) flow) \<and> s = t" for i t
    by (rule for_loop_invariant [where P = "\<lambda>_ s. s = t"]) (use nz in \<open>auto simp: bool_byte_def\<close>)
  have "\<exists>s. for_loop 0 4096 (\<lambda>i. for_loop 0 8 (\<lambda>k free_number.
        let f1 = (if d 2 i AND bool_byte (bit_map_mask ! k = 0) \<noteq> 0 then free_number + 1 else free_number);
            f2 = (if d 3 i AND bool_byte (bit_map_mask ! k = 0) \<noteq> 0 then f1 + 1 else f1)
        in Some (Next f2))) 0 = Some (Next s :: (int, int) flow) \<and> s = 0"
    by (rule for_loop_invariant [where P = "\<lambda>_ s. s = 0"]) (use inner in auto)
  then show ?thesis by (auto simp: get_free_block_size_def)
qed

lemma get_file_number_eq:
  "get_file_number d = Some (8 * int (length (filter (\<lambda>i. bit (d 1 i) 0) [0..<4096])))"
proof -
  have nz: "bit_map_mask ! k \<noteq> 0" if "k < 8" for k
    using lt8_cases [OF that] by (auto simp: bit_map_mask_def)
  have one: "b AND 1 \<noteq> 0 \<longleftrightarrow> bit b 0" for b :: byte
    using bit_iff_and_push_bit_not_eq_0 [of b 0] by simp
  have inner: "\<exists>s. for_loop 0 8 (\<lambda>k file_amount. Some (Next
        (if d (Suc 0) i AND bool_byte (bit_map_mask ! k \<noteq> 0) \<noteq> 0 then file_amount + 1 else file_amount))) t
      = Some (Next s :: (int, int) flow) \<and> s = t + (if bit (d (Suc 0) i) 0 then int 8 else 0)" for i t
    by (rule for_loop_invariant [where P = "\<lambda>k s. s = t + (if bit (d (Suc 0) i) 0 then int k else 0)"])
      (use nz one in \<open>auto simp: bool_byte_def\<close>)
  have "\<exists>s. for_loop 0 4096 (\<lambda>i. for_loop 0 8 (\<lambda>k file_amount. Some (Next
        (if d (Suc 0) i AND bool_byte (bit_map_mask ! k \<noteq> 0) \<noteq> 0 then file_amount + 1 else file_amount)))) 0
      = Some (Next s :: (int, int) flow) \<and> s = 8 * int (length (filter (\<lambda>i. bit (d (Suc 0) i) 0) [0..<4096]))"
  proof (rule for_loop_invariant [where P = "\<lambda>j s. s = 8 * int (length (filter (\<lambda>i. bit (d (Suc 0) i) 0) [0..<j]))"])
    fix j t
    assume t: "t = 8 * int (length (filter (\<lambda>i. bit (d (Suc 0) i) 0) [0..<j]))"
    show "\<exists>t'. for_loop 0 8 (\<lambda>k file_amount. Some (Next
        (if d (Suc 0) j AND bool_byte (bit_map_mask ! k \<noteq> 0) \<noteq> 0 then file_amount + 1 else file_amount))) t
      = Some (Next t' :: (int, int) flow) \<and> t' = 8 * int (length (filter (\<lambda>i. bit (d (Suc 0) i) 0) [0..<Suc j]))"
      using inner [of j t] t by (auto simp: algebra_simps)
  qed simp_all
  then show ?thesis by (auto simp: get_file_number_def)
qed

lemma fs_utime_spec:
  assumes nm: "names d D path i" and ok: "dirs_ok d D"
  shows "fs_utime e d path = Some (0, (atime (inode_of d i), time_now e),
    set_inode d i ((inode_of d i)\<lparr>ctime := time_now e\<rparr>))"
proof -
  have I: "i < INODES" and und: "understand_the_path d path = Some (int i)"
    using names_understood [OF nm ok] by auto
  show ?thesis
    by (simp add: fs_utime_def und find_index_eq one_inode_update [OF I] set_inode_def write_block_on I
        del: of_nat_mod)
qed

section \<open>Initialising the device\<close>

lemma disk_init_spec:
  assumes len: "8 \<le> length word" "length word < 248" and "\<And>s. may_open s"
  shows "\<exists>h'. disk_init may_open (Some word) h = Some (0, h') \<and> represents h' (\<lambda>_. zero_block)
    \<and> disk_prefix h' = take (length word - 8) word @ ''vdisk/block''"
proof -
  let ?pre = "take (length word - 8) word @ ''vdisk/block''"
  have "\<exists>h'. for_loop 0 BLOCK_NUM (\<lambda>i g. Some (if may_open (block_name ?pre i)
      then Next (g\<lparr>files := (files g)(block_name ?pre i \<mapsto> zero_block)\<rparr>) else Return (1, g))) (h\<lparr>disk_prefix := ?pre\<rparr>)
      = Some (Next h' :: (host, int \<times> host) flow)
    \<and> (disk_prefix h' = ?pre \<and> (\<forall>n < BLOCK_NUM. files h' (block_name ?pre n) = Some zero_block))"
    by (rule for_loop_invariant [where P = "\<lambda>k g. disk_prefix g = ?pre
        \<and> (\<forall>n < k. files g (block_name ?pre n) = Some zero_block)"])
      (use assms(3) in \<open>auto simp: less_Suc_eq\<close>)
  with len show ?thesis
    by (auto simp: disk_init_def Let_def represents_def)
qed

end
