(* ===== verification/FsWrite.thy ===== *)
theory FsWrite
  imports FsIO
begin

text \<open>
  What \<open>fs_write\<close> does at any offset within the direct blocks. At the start of a block it takes a fresh block; inside a
  block it goes on in the block the file has there, which must then be one of its own.
\<close>

lemma write_one_direct:
  assumes "ptr_ok d n r" and "r < 12" and "length (direct_pointer n) = 12"
  shows "write_into_disk_acccording_to_rank_in_inode d' (int r) n x = Some (d'(data_id (ptr n r) := x))"
proof -
  have "sint (direct_pointer n ! r) = int (ptr n r)" "ptr n r < DATA_NUM" using assms(1) by (auto simp: ptr_ok_def ptr_def)
  with assms(2,3) show ?thesis by (simp add: write_into_disk_acccording_to_rank_in_inode_def write_block_on)
qed

text \<open>The fresh blocks that a write of \<open>n_bytes\<close> at position \<open>s\<close> of a block takes.\<close>

definition blocks_needed :: "nat \<Rightarrow> nat \<Rightarrow> nat" where
  "blocks_needed s n_bytes = (n_bytes - min (4096 - s) (n_bytes - 1) + 4095) div 4096 + (if s = 0 then 1 else 0)"

lemma blocks_needed_start:
  "0 < n_bytes \<Longrightarrow> blocks_needed 0 n_bytes = (if n_bytes \<le> 4096 then 2 else (n_bytes + 4095) div 4096)"
proof -
  assume n: "0 < n_bytes"
  show ?thesis
  proof (cases "n_bytes \<le> 4096")
    case True
    then have "n_bytes - min 4096 (n_bytes - 1) = 1" using n by auto
    with True show ?thesis by (simp add: blocks_needed_def)
  next
    case False
    then have "n_bytes - 4096 + 4095 = n_bytes - 1" "n_bytes + 4095 = n_bytes - 1 + 4096" by auto
    then show ?thesis using False div_add_self2 [of 4096 "n_bytes - 1"] by (simp add: blocks_needed_def)
  qed
qed

text \<open>
  The first block: \<open>p\<close> is fresh at the start of a block and the block of the file otherwise; it is filled with \<open>k\<close> bytes
  from the position on.
\<close>

definition first_done :: "disk \<Rightarrow> iNode \<Rightarrow> nat \<Rightarrow> nat \<Rightarrow> nat \<Rightarrow> disk \<Rightarrow> iNode \<Rightarrow> bool" where
  "first_done d n0 r s p d2 n1 \<longleftrightarrow> p < DATA_NUM \<and> ptr n1 r = p \<and> sint (direct_pointer n1 ! r) = int p \<and> data_used d2 p
     \<and> length (direct_pointer n1) = 12 \<and> n1 = n0\<lparr>direct_pointer := direct_pointer n1\<rparr>
     \<and> (if s = 0 then fresh_frame d d2 \<and> \<not> data_used d p \<and> free_count d2 = free_count d - 1
        else p = ptr n0 r \<and> (\<exists>x. d2 = d(data_id p := x)))"

lemma first_block_at:
  assumes len0: "length (direct_pointer n0) = 12" and r: "r < 12" and s: "s < 4096"
    and len: "0 < n_bytes" "n_bytes < length buffer" and k: "k = min (4096 - s) (n_bytes - 1)"
    and fc: "s = 0 \<Longrightarrow> 0 < free_count d" and own: "s \<noteq> 0 \<Longrightarrow> ptr_ok d n0 r"
  shows "\<exists>p n1 d1 d2 b. (if s = 0 then take_datablock_for_write d (int r) n0 else Some (n0, d)) = Some (n1, d1)
    \<and> write_first_block d1 (int r) s n1 buffer n_bytes = Some (k, d2)
    \<and> first_done d n0 r s p d2 n1 \<and> d2 (data_id p) = store_bytes b s (take k buffer)"
proof (cases "s = 0")
  case True
  from take_for_write [OF fc [OF True] r len0] obtain p d1 where
    take: "take_datablock_for_write d (int r) n0 = Some (set_ptr n0 r p, d1)" and p: "p < DATA_NUM" "\<not> data_used d p"
    and rd: "read_the_one_disk_according_to_rank_in_inode d1 (int r) (set_ptr n0 r p) = Some (Some (d (data_id p)))"
    and wr: "\<And>x. write_into_disk_acccording_to_rank_in_inode d1 (int r) (set_ptr n0 r p) x = Some (d1(data_id p := x))"
    and fr: "\<And>x. fresh_frame d (d1(data_id p := x))"
    and cnt: "\<And>x. free_count (d1(data_id p := x)) = free_count d - 1"
    and us: "\<And>x. data_used (d1(data_id p := x)) p" by blast
  define d2 where "d2 = d1(data_id p := store_bytes (d (data_id p)) s (take k buffer))"
  have "write_first_block d1 (int r) s (set_ptr n0 r p) buffer n_bytes = Some (k, d2)"
    using len rd wr by (simp add: write_first_block_def d2_def k Let_def)
  moreover have "first_done d n0 r s p d2 (set_ptr n0 r p)"
    using ptr_set_ptr [OF len0 r p(1)] len0 True p fr cnt us by (simp add: first_done_def d2_def set_ptr_def)
  ultimately show ?thesis using True take by (auto simp: d2_def)
next
  case False
  note ok = own [OF False]
  define d2 where "d2 = d(data_id (ptr n0 r) := store_bytes (d (data_id (ptr n0 r))) s (take k buffer))"
  have "write_first_block d (int r) s n0 buffer n_bytes = Some (k, d2)"
    using len read_one_direct [OF ok r len0, of d] write_one_direct [OF ok r len0, of d]
    by (simp add: write_first_block_def d2_def k Let_def)
  moreover have "data_used d2 q = data_used d q" for q by (simp add: d2_def data_used_def)
  then have "first_done d n0 r s (ptr n0 r) d2 n0"
    using ok len0 False by (auto simp: first_done_def ptr_ok_def ptr_def d2_def)
  ultimately show ?thesis using False by (auto simp: d2_def)
qed

text \<open>What the first block leaves alone: inodes, the bits of the maps that are set, and every other block in use.\<close>

lemma first_done_frame:
  assumes f: "first_done d n0 r s p d2 n1"
  shows "m < INODES \<Longrightarrow> inode_of d2 m = inode_of d m" and "inode_used d2 k = inode_used d k"
    and "q < DATA_NUM \<Longrightarrow> data_used d q \<Longrightarrow> data_used d2 q"
    and "q < DATA_NUM \<Longrightarrow> data_used d q \<Longrightarrow> (s \<noteq> 0 \<Longrightarrow> q \<noteq> ptr n0 r) \<Longrightarrow> d2 (data_id q) = d (data_id q)"
    and "free_count d = free_count d2 + (if s = 0 then 1 else 0) \<or> s = 0 \<and> free_count d = 0"
proof -
  have "fresh_frame d d2 \<and> free_count d2 = free_count d - 1 \<or> s \<noteq> 0 \<and> p = ptr n0 r \<and> (\<exists>x. d2 = d(data_id p := x))"
    using f by (auto simp: first_done_def split: if_splits)
  then consider "s = 0" "fresh_frame d d2" "free_count d2 = free_count d - 1"
    | x where "s \<noteq> 0" "p = ptr n0 r" "d2 = d(data_id p := x)"
    using f by (auto simp: first_done_def split: if_splits)
  note cases = this
  show "inode_of d2 m = inode_of d m" if "m < INODES"
    using cases by cases (use that fresh_frame_inode [of d d2 m] in \<open>simp_all add: inode_of_def\<close>)
  show "inode_used d2 k = inode_used d k"
    using cases by cases (use fresh_frame_inode_used [of d d2 k] in \<open>simp_all add: inode_used_def data_id_def\<close>)
  show "data_used d2 q" if "q < DATA_NUM" "data_used d q"
    using cases by cases (use that in \<open>simp_all add: fresh_frame_def data_used_def\<close>)
  show "d2 (data_id q) = d (data_id q)" if "q < DATA_NUM" "data_used d q" "s \<noteq> 0 \<Longrightarrow> q \<noteq> ptr n0 r"
    using cases by cases (use that in \<open>simp_all add: fresh_frame_data\<close>)
  show "free_count d = free_count d2 + (if s = 0 then 1 else 0) \<or> s = 0 \<and> free_count d = 0"
    using cases
  proof cases
    case 1
    then show ?thesis by (cases "free_count d = 0") simp_all
  next
    case 2
    then have "data_used d2 q = data_used d q" for q by (simp add: data_used_def)
    then show ?thesis using 2(1) by (simp add: free_count_def)
  qed
qed

section \<open>A write at any offset\<close>

text \<open>
  What a write at offset \<open>off\<close> leaves: the size, the bytes of the buffer from the offset on (but the last one of a write that
  ends in its first block), and everything else of the file system.
\<close>

definition written_at ::
  "disk \<Rightarrow> dir_map \<Rightarrow> nat \<Rightarrow> nat \<Rightarrow> byte list \<Rightarrow> nat \<Rightarrow> disk \<Rightarrow> bool" where
  "written_at d D i off buffer n_bytes d' \<longleftrightarrow> dirs_ok d' D \<and> (\<forall>q m. names d D q m \<longrightarrow> names d' D q m)
     \<and> st_size (inode_of d' i) = word64_of (int (off + n_bytes))
     \<and> (\<forall>j < n_bytes. off mod 4096 + n_bytes \<le> 4096 \<and> j = n_bytes - 1
          \<or> file_byte d' (inode_of d' i) (off + j) = buffer ! j)
     \<and> (\<forall>m < INODES. m \<noteq> i \<longrightarrow> inode_of d' m = inode_of d m) \<and> (\<forall>m < INODES. inode_used d' m = inode_used d m)
     \<and> (\<forall>q < DATA_NUM. data_used d q \<longrightarrow> (off mod 4096 \<noteq> 0 \<longrightarrow> q \<noteq> ptr (inode_of d i) (off div 4096))
          \<longrightarrow> d' (data_id q) = d (data_id q))
     \<and> free_count d \<le> free_count d' + blocks_needed (off mod 4096) n_bytes"

text \<open>The bytes behind the first block come from the loop.\<close>

lemma written_bytes:
  assumes w: "wrote d2 n1 (Suc r) (drop k buffer) (n_bytes - k) d3 n3" and k: "k = min (4096 - s) (n_bytes - 1)"
    and s: "s < 4096" and len: "0 < n_bytes" "n_bytes < length buffer" and f: "first_done d n0 r s p d2 n1"
    and d2: "d2 (data_id p) = store_bytes b s (take k buffer)" and j: "j < n_bytes" "\<not> (s + n_bytes \<le> 4096 \<and> j = n_bytes - 1)"
  shows "file_byte d3 n3 (r * 4096 + s + j) = buffer ! j"
proof (cases "s + j < 4096")
  case True
  have p: "p < DATA_NUM" "ptr n1 r = p" "data_used d2 p" using f by (simp_all add: first_done_def)
  have "ptr n3 r = p" using w p(2) by (simp add: wrote_def ptr_def)
  moreover have "d3 (data_id p) = d2 (data_id p)" by (rule fresh_frame_data [OF _ p(1,3)]) (use w in \<open>simp add: wrote_def\<close>)
  moreover have "r * 4096 + s + j = s + j + r * 4096" by simp
  then have "(r * 4096 + s + j) div 4096 = r" "(r * 4096 + s + j) mod 4096 = s + j" using True by (simp_all only: div_mult_self1 mod_mult_self1) simp_all
  moreover have "j < k" using True j s by (auto simp: k)
  ultimately show ?thesis using len by (simp add: file_byte_def d2 store_bytes_def k)
next
  case False
  then have k4: "k = 4096 - s" using j by (auto simp: k)
  then have lt: "j - k < n_bytes - k" and pos: "Suc r * 4096 + (j - k) = r * 4096 + s + j" using False j(1) s by auto
  from w lt have "file_byte d3 n3 (Suc r * 4096 + (j - k)) = drop k buffer ! (j - k)" unfolding wrote_def by blast
  then show ?thesis unfolding pos using False j(1) len k4 by simp
qed

lemma write_at:
  assumes ok: "dirs_ok d D" and nm: "names d D path i" and i: "D i = None"
    and len: "0 < n_bytes" "n_bytes < length buffer" and off: "off < 11 * 4096" "off + n_bytes \<le> 12 * 4096"
    and fc: "blocks_needed (off mod 4096) n_bytes \<le> free_count d"
    and own: "off mod 4096 \<noteq> 0 \<Longrightarrow> ptr_ok d (inode_of d i) (off div 4096)
      \<and> \<not> dir_block d D (ptr (inode_of d i) (off div 4096))"
  shows "\<exists>d'. fs_write d path buffer n_bytes (int off) = Some (int n_bytes, d') \<and> written_at d D i off buffer n_bytes d'"
proof -
  define n0 where "n0 = inode_of d i"
  define r where "r = off div 4096"
  define s where "s = off mod 4096"
  have rs: "off = r * 4096 + s" "s < 4096" "r < 11" "r < 12" using off by (auto simp: r_def s_def)
  have I: "i < INODES" and und: "understand_the_path d path = Some (int i)"
    using names_understood [OF nm ok] by auto
  have len0: "length (direct_pointer n0) = 12" using wf_inode_of [of d i] by (simp add: n0_def wf_inode_def)
  define k where "k = min (4096 - s) (n_bytes - 1)"
  have k: "k < n_bytes" using len by (auto simp: k_def)
  have f0: "s = 0 \<Longrightarrow> 0 < free_count d" using fc by (simp add: blocks_needed_def s_def)
  have o0: "s \<noteq> 0 \<Longrightarrow> ptr_ok d n0 r" using own by (simp add: s_def n0_def r_def)
  from first_block_at [OF len0 rs(4,2) len k_def f0 o0] obtain p n1 d1 d2 b where
    take: "(if s = 0 then take_datablock_for_write d (int r) n0 else Some (n0, d)) = Some (n1, d1)"
    and first: "write_first_block d1 (int r) s n1 buffer n_bytes = Some (k, d2)"
    and fd: "first_done d n0 r s p d2 n1" and d2: "d2 (data_id p) = store_bytes b s (take k buffer)"
    by blast
  have p: "p < DATA_NUM" "ptr n1 r = p" "data_used d2 p" "length (direct_pointer n1) = 12" "n1 = n0\<lparr>direct_pointer := direct_pointer n1\<rparr>"
    using fd by (simp_all add: first_done_def)
  note frame = first_done_frame [OF fd]
  have "(n_bytes - k + 4095) div 4096 + (if s = 0 then 1 else 0) \<le> free_count d"
    using fc by (simp add: blocks_needed_def k_def s_def [symmetric])
  then have fc2: "(n_bytes - k + 4095) div 4096 \<le> free_count d2" "free_count d \<le> free_count d2 + (if s = 0 then 1 else 0)"
    using frame(5) by (auto split: if_splits)
  have "Suc r * 4096 + (n_bytes - k) \<le> 12 * 4096" using off rs len by (auto simp: k_def min_def)
  from write_more_wrote [OF len(2) p(4) less_imp_le [OF k] this fc2(1)] obtain n3 d3 where
    more: "write_more_blocks d2 (int (Suc r)) n1 buffer k n_bytes = Some (n3, d3)"
    and w: "wrote d2 n1 (Suc r) (drop k buffer) (n_bytes - k) d3 n3" by auto
  define n' where "n' = n3\<lparr>st_size := word64_of (int off + int n_bytes)\<rparr>"
  have n3: "n3 = n0\<lparr>direct_pointer := direct_pointer n3\<rparr>" "length (direct_pointer n3) = 12" "fresh_frame d2 d3"
  proof -
    have "n3 = n1\<lparr>direct_pointer := direct_pointer n3\<rparr>" using w by (simp add: wrote_def)
    then show "n3 = n0\<lparr>direct_pointer := direct_pointer n3\<rparr>"
      using p(5) by (metis iNode.update_convs(10) iNode.surjective)
    show "length (direct_pointer n3) = 12" "fresh_frame d2 d3" using w by (simp_all add: wrote_def)
  qed
  have "wf_inode n0" by (simp add: n0_def)
  then have wf: "wf_inode n'" unfolding n'_def by (subst n3(1)) (simp add: wf_inode_def n3(2))
  have inodes: "inode_of d3 m = inode_of d m" if "m < INODES" for m
    using fresh_frame_inode [OF n3(3) that] frame(1) [OF that] by simp
  have used: "inode_used d3 m = inode_used d m" for m
    using fresh_frame_inode_used [OF n3(3)] frame(2) by simp
  have data: "data_used d3 q" if "q < DATA_NUM" "data_used d q" for q
    using frame(3) [OF that] n3(3) that(1) by (simp add: fresh_frame_def)
  have keep: "d3 (data_id q) = d (data_id q)" if "q < DATA_NUM" "data_used d q" "s \<noteq> 0 \<Longrightarrow> q \<noteq> ptr n0 r" for q
    using fresh_frame_data [OF n3(3) that(1) frame(3) [OF that(1,2)]] frame(4) [OF that] by simp
  have blocks: "d3 (data_id q) = d (data_id q)" if "dir_block d D q" for q
    using keep [OF dir_block_used(2,1) [OF ok that]] own that by (auto simp: n0_def r_def s_def)
  have dirs': "dirs_ok (set_inode d3 i n') D"
    by (rule file_change_on(1) [OF ok I i wf]) (simp_all add: inodes blocks data used)
  have names': "names (set_inode d3 i n') D q m" if "names d D q m" for q m
    by (rule file_change_on(3) [OF ok I i wf _ _ _ _ that]) (simp_all add: inodes blocks data used)
  define d' where "d' = set_inode d3 i n'"
  have chk: "check_write d' path = Some ()"
    using names_understood [OF names' [OF nm] dirs'] by (simp add: check_write_def just_read_inode_eq d'_def)
  have z: "int off sdiv 4096 = int r" "int off smod 4096 = int s" by (simp_all add: r_def s_def)
  have more': "write_more_blocks d2 (int r + 1) n1 buffer k n_bytes = Some (n3, d3)" using more by (simp add: add.commute)
  have ints: "to_int (int off) = int off" "to_int (int r) = int r" "to_int (int n_bytes) = int n_bytes"
    "\<not> 2 ^ 31 \<le> int n_bytes + 1" "\<not> 2 ^ 31 \<le> int off + int n_bytes" using off rs(3) by simp_all
  have run: "fs_write d path buffer n_bytes (int off) = Some (int n_bytes, d')"
    unfolding fs_write_def z
    by (simp add: und just_read_inode_eq [OF I] replace_inode_eq [OF I] Let_def ints n0_def [symmetric] take first more'
        n'_def [symmetric] chk [unfolded d'_def] d'_def del: power_numeral)
  have in': "inode_of d' i = n'" by (simp add: d'_def inode_of_set_inode [OF I I wf])
  have others: "inode_of d' m = inode_of d m" if "m < INODES" "m \<noteq> i" for m
    using that by (simp add: d'_def inode_of_set_inode [OF I _ wf] inodes)
  have cnt: "free_count d \<le> free_count d' + blocks_needed s n_bytes"
    using w fc2(2) by (simp add: wrote_def d'_def free_count_def I blocks_needed_def k_def)
  have bytes: "file_byte d' n' (off + j) = buffer ! j" if "j < n_bytes" "\<not> (s + n_bytes \<le> 4096 \<and> j = n_bytes - 1)" for j
    using written_bytes [OF w k_def rs(2) len fd d2 that] by (simp add: file_byte_def d'_def n'_def ptr_def I rs(1))
  have "written_at d D i off buffer n_bytes d'"
    unfolding written_at_def in' s_def [symmetric] r_def [symmetric] n0_def [symmetric]
    using dirs' names' others cnt bytes keep I used by (auto simp: d'_def n'_def)
  with run show ?thesis by blast
qed

end
