(* ===== verification/FsProps.thy ===== *)
theory FsProps
  imports FsMisc FsWrite
begin

text \<open>
  The properties of the file system \<open>fs.c\<close> as a whole, over the facts of the component theories, with
  a small file system on which each is applied.
\<close>

section \<open>A small file system\<close>

definition sample_env :: env where
  "sample_env = \<lparr>getuid = 0, getgid = 0, time_now = 7\<rparr>"

definition blank_disk :: disk where "blank_disk = (\<lambda>_. zero_block)"

text \<open>After \<open>mkfs\<close>, and after \<open>mknod\<close> of \<open>/abcdef\<close>.\<close>

definition fresh_disk :: disk where
  "fresh_disk = snd (the (mkfs sample_env zero_block zero_block blank_disk))"

definition sample_name :: "byte list" where "sample_name = [97, 98, 99, 100, 101, 102]"

definition file_disk :: disk where
  "file_disk = snd (the (fs_mknod sample_env fresh_disk (path_text [sample_name])))"

lemma sample_name_good [simp]: "good_name sample_name" "length sample_name = 6"
  by (simp_all add: sample_name_def good_name_def)

text \<open>Inode 4 is the only directory and has \<open>N\<close> entries.\<close>

definition root_map :: "nat \<Rightarrow> dir_map" where "root_map N = [4 \<mapsto> N]"

lemma root_map_simps [simp]:
  "root_map N 4 = Some N" "(root_map N)(4 \<mapsto> M) = root_map M" "i \<noteq> 4 \<Longrightarrow> root_map N i = None"
  by (simp_all add: root_map_def)

lemma fresh_disk_facts:
  "mkfs sample_env zero_block zero_block blank_disk = Some (0, fresh_disk)"
  "dirs_ok fresh_disk (root_map 0)"
  "m < MAP_BITS \<Longrightarrow> inode_used fresh_disk m \<longleftrightarrow> m = 4"
  "m < CLEARED \<Longrightarrow> data_used fresh_disk m \<longleftrightarrow> m < 4"
  "m < INODES \<Longrightarrow> m \<noteq> 4 \<Longrightarrow> inode_of fresh_disk m = inode_of blank_disk m"
  using mkfs_spec [of sample_env zero_block zero_block blank_disk]
  by (auto simp: fresh_disk_def root_map_def)

lemma fresh_root: "reaches fresh_disk (root_map 0) 4 [] 4"
  by (rule reaches.here) simp

lemma fresh_lookup: "lookup_name fresh_disk n 0 c = None"
  by (simp add: lookup_name_def dir_entries_def)

lemma fresh_inode_0: "find_empty_inode fresh_disk = Some 0"
proof -
  have "(0::nat) < MAP_BITS" by (simp add: MAP_BITS_def)
  moreover have "\<not> inode_used fresh_disk 0" using fresh_disk_facts(3) [of 0] by (simp add: MAP_BITS_def)
  ultimately show ?thesis using inode_alloc.find_free_least [of 0 fresh_disk] by simp
qed

lemma fresh_free_data: "\<exists>m < DATA_NUM. \<not> data_used fresh_disk m"
  using fresh_disk_facts(4) [of 4] by (intro exI [of _ 4]) (simp add: CLEARED_def DATA_NUM_def)

lemma file_disk_created:
  "\<exists>p. fs_mknod sample_env fresh_disk (path_text [sample_name]) = Some (0, file_disk)
     \<and> created sample_env REGMODE fresh_disk 4 0 sample_name 0 p file_disk"
proof -
  have k: "0 < INODES" "\<not> inode_used fresh_disk 0"
    using fresh_disk_facts(3) [of 0] by (simp_all add: INODES_def MAP_BITS_def)
  have new: "apply_a_new_inode_and_initial sample_env fresh_disk = Some (int 0, with_inode sample_env REGMODE fresh_disk 0)"
    using apply_inode_eq(1) [of fresh_disk 0 sample_env] fresh_inode_0 k(1) by simp
  have "\<exists>p d'. create_node apply_a_new_inode_and_initial sample_env fresh_disk (path_text ([] @ [sample_name]))
      = Some (0, d') \<and> created sample_env REGMODE fresh_disk 4 0 sample_name 0 p d'"
    by (rule create_node_spec [where D = "root_map 0" and N = 0 and d = fresh_disk])
      (use fresh_disk_facts(2) fresh_root k new fresh_free_data in simp_all)
  then show ?thesis by (auto simp: file_disk_def fs_mknod_def)
qed

lemma file_disk_facts:
  "dirs_ok file_disk (root_map 1)" "names file_disk (root_map 1) (path_text [sample_name]) 0"
  "reaches file_disk (root_map 1) 4 [] 4"
  "dir_entries file_disk (inode_of file_disk 4) 1 = [\<lparr>file_name = pad28 sample_name, inode_number = 0\<rparr>]"
  "inode_of file_disk 0 = fresh_inode sample_env REGMODE 0 (inode_of blank_disk 0)"
  "30000 \<le> free_count file_disk"
  "lookup_name file_disk (inode_of file_disk 4) 1 sample_name =
     Some \<lparr>file_name = pad28 sample_name, inode_number = 0\<rparr>"
proof -
  have k: "0 < INODES" "\<not> inode_used fresh_disk 0"
    using fresh_disk_facts(3) [of 0] by (simp_all add: INODES_def MAP_BITS_def)
  from file_disk_created obtain p where c: "created sample_env REGMODE fresh_disk 4 0 sample_name 0 p file_disk" by blast
  have D: "root_map 0 4 = Some 0" by simp
  note ok = fresh_disk_facts(2)
  show "dirs_ok file_disk (root_map 1)" using created_dirs_ok [OF ok D k c] by simp
  show "names file_disk (root_map 1) (path_text [sample_name]) 0"
    using created_new_name [OF ok fresh_root D _ k c, of "root_map 1"] by (simp add: fresh_lookup)
  show "reaches file_disk (root_map 1) 4 [] 4" by (rule reaches.here) simp
  show ents: "dir_entries file_disk (inode_of file_disk 4) 1 = [\<lparr>file_name = pad28 sample_name, inode_number = 0\<rparr>]"
    using c by (simp add: created_def dir_entries_def word32_of_def)
  then show "lookup_name file_disk (inode_of file_disk 4) 1 sample_name =
     Some \<lparr>file_name = pad28 sample_name, inode_number = 0\<rparr>"
    by (simp add: lookup_name_def)
  show "inode_of file_disk 0 = fresh_inode sample_env REGMODE 0 (inode_of blank_disk 0)"
    using c fresh_disk_facts(5) [of 0] k(1) by (simp add: created_def)
  have sub: "{m. m < DATA_NUM \<and> \<not> data_used fresh_disk m} - {p} \<subseteq> {m. m < DATA_NUM \<and> \<not> data_used file_disk m}"
    using c by (auto simp: created_def)
  have "CLEARED - 4 \<le> free_count fresh_disk"
    by (rule free_count_ge) (use fresh_disk_facts(4) in \<open>auto simp: CLEARED_def DATA_NUM_def\<close>)
  moreover have "free_count fresh_disk - 1 \<le> free_count file_disk"
  proof -
    let ?F = "{m. m < DATA_NUM \<and> \<not> data_used fresh_disk m}"
    have "card ?F - card {p} \<le> card (?F - {p})" by (rule diff_card_le_card_Diff) simp
    also have "\<dots> \<le> card {m. m < DATA_NUM \<and> \<not> data_used file_disk m}" by (rule card_mono [OF _ sub]) simp
    finally show ?thesis by (simp add: free_count_def)
  qed
  ultimately show "30000 \<le> free_count file_disk" by (simp add: CLEARED_def)
qed

lemma fresh_next:
  "reaches fresh_disk (root_map 0) 4 [] 4" "\<not> inode_used fresh_disk 0" "(0::nat) < INODES"
  "(4::nat) < DATA_NUM" "\<not> data_used fresh_disk 4"
  using fresh_disk_facts(3) [of 0] fresh_disk_facts(4) [of 4] fresh_root
  by (simp_all add: INODES_def MAP_BITS_def DATA_NUM_def CLEARED_def)

section \<open>Creating\<close>

lemma free_inode:
  assumes "m < INODES" and "\<not> inode_used d m"
  shows "\<exists>k. find_empty_inode d = Some (int k) \<and> k \<le> m \<and> k < INODES \<and> \<not> inode_used d k"
  using inode_alloc.find_free_fresh [of m d] assms by (force simp: INODES_def MAP_BITS_def)

lemma mknod_created:
  assumes "dirs_ok d D" and "reaches d D 4 cs i" and "D i = Some N" and "N < 12 * 128" and "good_name c"
    and "m < INODES" and "\<not> inode_used d m" and "l < DATA_NUM" and "\<not> data_used d l"
  shows "\<exists>k p d'. fs_mknod e d (path_text (cs @ [c])) = Some (0, d') \<and> k < INODES \<and> \<not> inode_used d k
    \<and> find_empty_inode d = Some (int k) \<and> created e REGMODE d i N c k p d'"
    and "\<exists>k p d'. fs_mkdir e d (path_text (cs @ [c])) = Some (0, d') \<and> k < INODES \<and> \<not> inode_used d k
    \<and> find_empty_inode d = Some (int k) \<and> created e DIRMODE d i N c k p d'"
proof -
  from free_inode [OF assms(6,7)] obtain k where
    k: "find_empty_inode d = Some (int k)" "k < INODES" "\<not> inode_used d k" by blast
  have free: "\<exists>m < DATA_NUM. \<not> data_used d m" using assms(8,9) by blast
  note spec = create_node_spec [OF assms(1-5) k(2,3) _ free, where e = e]
  show "\<exists>k p d'. fs_mknod e d (path_text (cs @ [c])) = Some (0, d') \<and> k < INODES \<and> \<not> inode_used d k
    \<and> find_empty_inode d = Some (int k) \<and> created e REGMODE d i N c k p d'"
    using spec [where apply_inode = apply_a_new_inode_and_initial and md = REGMODE, OF apply_inode_eq(1) [OF k(1,2), of e]] k unfolding fs_mknod_def by blast
  show "\<exists>k p d'. fs_mkdir e d (path_text (cs @ [c])) = Some (0, d') \<and> k < INODES \<and> \<not> inode_used d k
    \<and> find_empty_inode d = Some (int k) \<and> created e DIRMODE d i N c k p d'"
    using spec [where apply_inode = apply_a_new_inode_and_initial_as_dict and md = DIRMODE, OF apply_inode_eq(2) [OF k(1,2), of e]] k unfolding fs_mkdir_def by blast
qed

text \<open>
  C1: after \<open>fs_mknod\<close> of a new name in a reachable directory with room, with a free inode and a free data
  block, the call returns 0 and \<open>fs_getattr\<close> of the path reports a regular file of mode 0644 with
  one link, the caller's ids, size 0 and the current time.
\<close>
theorem mknod_then_getattr:
  assumes "dirs_ok d D" and "reaches d D 4 cs i" and "D i = Some N" and "Suc N < 12 * 128" and "good_name c"
    and "lookup_name d (inode_of d i) N c = None"
    and "m < INODES" and "\<not> inode_used d m" and "l < DATA_NUM" and "\<not> data_used d l"
  shows "\<exists>d'. fs_mknod e d (path_text (cs @ [c])) = Some (0, d')
    \<and> fs_getattr d' (path_text (cs @ [c])) = Some (0, \<lparr>attr_mode = REGMODE, attr_nlink = 1,
        attr_uid = getuid e, attr_gid = getgid e, attr_size = 0, attr_atime = time_now e,
        attr_ctime = time_now e, attr_mtime = time_now e\<rparr>)"
proof -
  from mknod_created(1) [OF assms(1-3) Suc_lessD [OF assms(4)] assms(5,7-10)] obtain k p d' where
    run: "fs_mknod e d (path_text (cs @ [c])) = Some (0, d')" and k: "k < INODES" "\<not> inode_used d k"
    and c: "created e REGMODE d i N c k p d'" by blast
  have "names d' (D(i \<mapsto> Suc N)) (path_text (cs @ [c])) k"
    by (rule created_new_name [OF assms(1-4) k c _ assms(5,6)]) simp
  from fs_getattr_spec [OF this created_dirs_ok [OF assms(1,3) k c]] c run show ?thesis
    by (simp add: created_def pass_value_from_iNode_to_stat_def zero_stat_def fresh_inode_def)
qed

theorem mknod_then_getattr_witness:
  "\<exists>d'. fs_mknod sample_env fresh_disk (path_text ([] @ [sample_name])) = Some (0, d')
    \<and> fs_getattr d' (path_text ([] @ [sample_name])) = Some (0, \<lparr>attr_mode = REGMODE, attr_nlink = 1,
        attr_uid = 0, attr_gid = 0, attr_size = 0, attr_atime = 7, attr_ctime = 7, attr_mtime = 7\<rparr>)"
  using mknod_then_getattr [OF fresh_disk_facts(2) fresh_root root_map_simps(1) _ sample_name_good(1)
      fresh_lookup fresh_next(3,2,4,5), of sample_env]
  by (auto simp: sample_env_def)

text \<open>
  C2: creating a file keeps the invariant, with one entry more in its directory, and every path that
  denoted an allocated inode other than that directory still denotes it, with the same attributes.
\<close>
theorem mknod_keeps_paths:
  assumes "dirs_ok d D" and "reaches d D 4 cs i" and "D i = Some N" and "Suc N < 12 * 128" and "good_name c"
    and "m < INODES" and "\<not> inode_used d m" and "l < DATA_NUM" and "\<not> data_used d l"
  shows "\<exists>d'. fs_mknod e d (path_text (cs @ [c])) = Some (0, d') \<and> dirs_ok d' (D(i \<mapsto> Suc N))
    \<and> (\<forall>path f. names d D path f \<longrightarrow> f \<noteq> i \<longrightarrow> inode_used d f \<longrightarrow>
          understand_the_path d' path = Some (int f) \<and> fs_getattr d' path = fs_getattr d path)"
proof -
  from mknod_created(1) [OF assms(1-3) Suc_lessD [OF assms(4)] assms(5-9)] obtain k p d' where
    run: "fs_mknod e d (path_text (cs @ [c])) = Some (0, d')" and k: "k < INODES" "\<not> inode_used d k"
    and c: "created e REGMODE d i N c k p d'" by blast
  have ok': "dirs_ok d' (D(i \<mapsto> Suc N))" by (rule created_dirs_ok [OF assms(1,3) k c])
  have "understand_the_path d' path = Some (int f) \<and> fs_getattr d' path = fs_getattr d path"
    if n: "names d D path f" and f: "f \<noteq> i" "inode_used d f" for path f
  proof -
    have n': "names d' (D(i \<mapsto> Suc N)) path f"
      by (rule created_names [OF assms(1,3,4) k c _ n]) simp
    have "f \<noteq> k" "f < INODES" using f(2) k(2) names_understood [OF n assms(1)] by auto
    then have "inode_of d' f = inode_of d f" using c f(1) by (simp add: created_def)
    then show ?thesis
      using names_understood [OF n' ok'] fs_getattr_spec [OF n' ok'] fs_getattr_spec [OF n assms(1)] by simp
  qed
  with run ok' show ?thesis by blast
qed

theorem mknod_keeps_paths_witness:
  "\<exists>d'. fs_mknod sample_env fresh_disk (path_text ([] @ [sample_name])) = Some (0, d')
    \<and> dirs_ok d' (root_map 1)"
  using mknod_keeps_paths [OF fresh_disk_facts(2) fresh_root root_map_simps(1) _ sample_name_good(1)
      fresh_next(3,2,4,5), of sample_env]
  by auto

text \<open>
  C3: \<open>fs_mkdir\<close> of a new name makes an empty directory that \<open>fs_readdir\<close> lists as empty, keeps the
  invariant with the new directory in it, and keeps every path.
\<close>
theorem mkdir_makes_empty_directory:
  assumes "dirs_ok d D" and "reaches d D 4 cs i" and "D i = Some N" and "Suc N < 12 * 128" and "good_name c"
    and "lookup_name d (inode_of d i) N c = None"
    and "m < INODES" and "\<not> inode_used d m" and "l < DATA_NUM" and "\<not> data_used d l"
  shows "\<exists>k d'. fs_mkdir e d (path_text (cs @ [c])) = Some (0, d') \<and> dirs_ok d' (D(i \<mapsto> Suc N, k \<mapsto> 0))
    \<and> st_mode (inode_of d' k) = DIRMODE \<and> fs_readdir d' (path_text (cs @ [c])) = Some (0, [])
    \<and> (\<forall>path f. names d D path f \<longrightarrow> names d' (D(i \<mapsto> Suc N, k \<mapsto> 0)) path f)"
proof -
  from mknod_created(2) [OF assms(1-3) Suc_lessD [OF assms(4)] assms(5,7-10)] obtain k p d' where
    run: "fs_mkdir e d (path_text (cs @ [c])) = Some (0, d')" and k: "k < INODES" "\<not> inode_used d k"
    and c: "created e DIRMODE d i N c k p d'" by blast
  let ?D = "D(i \<mapsto> Suc N, k \<mapsto> 0)"
  have ok': "dirs_ok d' ?D" by (rule created_mkdir_ok [OF assms(1,3) k c])
  have ik: "i \<noteq> k" using dirs_okD(2) [OF assms(1,3)] k(2) by auto
  have r': "reaches d' ?D 4 cs i" by (rule created_reaches [OF assms(1,3,4) k c assms(2)]) simp
  have "lookup_name d' (inode_of d' i) (Suc N) c = Some \<lparr>file_name = pad28 c, inode_number = word32_of (int k)\<rparr>"
    using created_lookup(1) [OF assms(1,3) k c, where b = c] assms(6) by simp
  then have "name_number d' i (Suc N) c = int k" using k(1) by (simp add: name_number_def INODES_def)
  then have und: "understand_the_path d' (path_text (cs @ [c])) = Some (int k)"
    using understand_name [OF r' ok' _ assms(4,5)] ik by simp
  have ok0: "dir_ok d' (inode_of d' k) 0" using dirs_okD(3) [OF ok', of k 0] by simp
  have len: "length (direct_pointer (inode_of d' k)) = 12" using wf_inode_of [of d' k] by (simp add: wf_inode_def)
  have "get_fuul_disk_according_to_rank d' 0 (inode_of d' k) = Some (data_block d' (direct_pointer (inode_of d' k) ! 0))"
    using len by (simp add: get_fuul_disk_according_to_rank_def array_get_def)
  then have "fs_readdir d' (path_text (cs @ [c])) = Some (0, [])"
    using dir_count(2) [OF ok0] by (simp add: fs_readdir_def und just_read_inode_eq [OF k(1)] for_loop_step Let_def)
  moreover have "names d' ?D path f" if "names d D path f" for path f
    by (rule created_names [OF assms(1,3,4) k c _ that]) simp
  moreover have "st_mode (inode_of d' k) = DIRMODE" using c by (simp add: created_def fresh_inode_def)
  ultimately show ?thesis using run ok' by blast
qed

theorem mkdir_makes_empty_directory_witness:
  "\<exists>k d'. fs_mkdir sample_env fresh_disk (path_text ([] @ [sample_name])) = Some (0, d')
    \<and> st_mode (inode_of d' k) = DIRMODE \<and> fs_readdir d' (path_text ([] @ [sample_name])) = Some (0, [])"
  using mkdir_makes_empty_directory [OF fresh_disk_facts(2) fresh_root root_map_simps(1) _ sample_name_good(1)
      fresh_lookup fresh_next(3,2,4,5), of sample_env]
  by auto

section \<open>Formatting and paths\<close>

text \<open>
  C6: \<open>mkfs\<close> on any device, whatever lies on the stack behind its buffers, succeeds and establishes the
  invariant: an empty root directory at inode 4, the only inode in use, for which \<open>fs_getattr\<close> reports a directory
  of mode 0755 with one link, the caller's ids, size 0 and the current time. Of the bits of each of the two blocks of
  the data map that its buffers of 4069 bytes cover exactly the first four of the first block are set, and the other
  inodes keep their bytes.
\<close>
theorem mkfs_establishes_invariant:
  "\<exists>d'. mkfs e stack3 stack2 d = Some (0, d') \<and> dirs_ok d' [4 \<mapsto> 0]
     \<and> fs_getattr d' [slash] = Some (0, \<lparr>attr_mode = 0x41ED, attr_nlink = 1,
          attr_uid = getuid e, attr_gid = getgid e, attr_size = 0, attr_atime = time_now e,
          attr_ctime = time_now e, attr_mtime = time_now e\<rparr>)
     \<and> {m. m < MAP_BITS \<and> inode_used d' m} = {4}
     \<and> {m. m < 8 * 4069 \<and> data_used d' m} = {0, 1, 2, 3}
     \<and> {m. m < 8 * 4069 \<and> data_used d' (MAP_BITS + m)} = {}
     \<and> (\<forall>m < INODES. m = 4 \<or> inode_of d' m = inode_of d m)"
proof -
  from mkfs_spec [of e stack3 stack2 d] obtain d' where
    run: "mkfs e stack3 stack2 d = Some (0, d')" and ok: "dirs_ok d' [4 \<mapsto> 0]"
    and root: "inode_of d' 4 = give_the_value_to_inode e (inode_of d 4)"
    and maps: "\<And>m. m < MAP_BITS \<Longrightarrow> inode_used d' m \<longleftrightarrow> m = 4" "\<And>m. m < CLEARED \<Longrightarrow> data_used d' m \<longleftrightarrow> m < 4"
      "\<And>m. m < CLEARED \<Longrightarrow> \<not> data_used d' (MAP_BITS + m)"
    and same: "\<forall>m < INODES. m \<noteq> 4 \<longrightarrow> inode_of d' m = inode_of d m"
    by blast
  have "fs_getattr d' [slash] = Some (0, pass_value_from_iNode_to_stat (inode_of d' 4) zero_stat)"
    using just_read_inode_eq [of 4 d'] by (simp add: fs_getattr_def understand_root INODES_def)
  moreover have "pass_value_from_iNode_to_stat (inode_of d' 4) zero_stat = \<lparr>attr_mode = 0x41ED, attr_nlink = 1,
      attr_uid = getuid e, attr_gid = getgid e, attr_size = 0, attr_atime = time_now e,
      attr_ctime = time_now e, attr_mtime = time_now e\<rparr>"
    unfolding root by (simp add: pass_value_from_iNode_to_stat_def give_the_value_to_inode_def zero_stat_def DIRMODE_def)
  moreover have "{m. m < MAP_BITS \<and> inode_used d' m} = {4}"
    using maps(1) by (auto simp: MAP_BITS_def)
  moreover have "{m. m < 8 * 4069 \<and> data_used d' m} = {0, 1, 2, 3}" "{m. m < 8 * 4069 \<and> data_used d' (MAP_BITS + m)} = {}"
    using maps(2,3) by (auto simp: CLEARED_def)
  ultimately show ?thesis using run ok same by auto
qed

lemma mkfs_establishes_invariant_witness:
  "(\<exists>a. fs_getattr fresh_disk [slash] = Some (0, a) \<and> attr_mode a = 0x41ED) \<and> data_used fresh_disk 3 \<and> \<not> data_used fresh_disk 4
    \<and> inode_used fresh_disk 4 \<and> \<not> inode_used fresh_disk 5 \<and> inode_of fresh_disk 5 = inode_of blank_disk 5"
proof -
  from mkfs_establishes_invariant [of sample_env zero_block zero_block blank_disk] fresh_disk_facts(1)
  have f: "\<exists>a. fs_getattr fresh_disk [slash] = Some (0, a) \<and> attr_mode a = 0x41ED"
    "{m. m < MAP_BITS \<and> inode_used fresh_disk m} = {4}" "{m. m < 8 * 4069 \<and> data_used fresh_disk m} = {0, 1, 2, 3}"
    "\<forall>m < INODES. m = 4 \<or> inode_of fresh_disk m = inode_of blank_disk m" by auto
  have "4 \<in> {m. m < MAP_BITS \<and> inode_used fresh_disk m}" "5 \<notin> {m. m < MAP_BITS \<and> inode_used fresh_disk m}"
    unfolding f(2) by simp_all
  moreover have "3 \<in> {m. m < 8 * 4069 \<and> data_used fresh_disk m}" "4 \<notin> {m. m < 8 * 4069 \<and> data_used fresh_disk m}"
    unfolding f(3) by simp_all
  moreover have "inode_of fresh_disk 5 = inode_of blank_disk 5" using spec [OF f(4), of 5] by (simp add: INODES_def)
  ultimately show ?thesis using f(1) by (simp add: MAP_BITS_def)
qed

text \<open>
  C7: \<open>understand_the_path\<close> implements path resolution: if the names \<open>cs\<close>, followed from the root as the
  relation \<open>resolves\<close> says, give \<open>r\<close> (an inode number, or \<open>-ENOENT\<close> for a last name that is not there),
  then the text of the path is understood as \<open>r\<close>.
\<close>
theorem path_resolution_correct:
  assumes "resolves d 4 cs r"
  shows "understand_the_path d (path_text cs) = Some r"
  by (rule understand_the_path_resolves [OF assms])

theorem path_resolution_correct_witness:
  "understand_the_path file_disk (path_text ([] @ [sample_name])) = Some 0"
proof -
  have "name_number file_disk 4 1 sample_name = 0"
    by (simp add: name_number_def file_disk_facts(7) [unfolded One_nat_def])
  then show ?thesis
    using path_resolution_correct [OF reaches_resolves [OF file_disk_facts(3,1) root_map_simps(1) _ sample_name_good(1)]]
    by simp
qed

text \<open>
  after \<open>fs_getattr\<close> of a missing last name has reported \<open>-ENOENT\<close>, the operations that do not test for
  it (\<open>open\<close>, \<open>truncate\<close>, \<open>utime\<close>, \<open>read\<close>, \<open>readdir\<close>) take -2 as an inode number and have no defined result.
\<close>
theorem missing_name_undefined:
  assumes "understand_the_path d path = Some (- ENOENT)"
  shows "fs_getattr d path = Some (- ENOENT, zero_stat) \<and> fs_open d path = None
    \<and> fs_read d path n off = None \<and> fs_readdir d path = None \<and> fs_write d path buffer n off = None
    \<and> fs_truncate d path off = None \<and> fs_utime e d path = None"
proof -
  have x: "just_read_inode_from_disk d (-2) = None" using just_read_missing [of d] by simp
  have neg: "inode_find_disk_id_and_index_in_disk (-2) = (-2, 4)"
    by (simp add: inode_find_disk_id_and_index_in_disk_def signed_divide_int_def signed_modulo_int_def)
  have "fs_getattr d path = Some (- ENOENT, zero_stat)" using assms by (rule fs_getattr_missing)
  moreover have "fs_open d path = None" "fs_read d path n off = None" "fs_readdir d path = None"
    "fs_write d path buffer n off = None"
    using assms x by (simp_all add: fs_open_def fs_read_def fs_readdir_def fs_write_def)
  moreover have "fs_truncate d path off = None" "fs_utime e d path = None"
    using assms neg by (simp_all add: fs_truncate_def fs_utime_def inode_at_def bind_eq_None_conv)
  ultimately show ?thesis by blast
qed

theorem missing_name_undefined_witness:
  "fs_getattr fresh_disk (path_text ([] @ [sample_name])) = Some (- 2, zero_stat)
    \<and> fs_open fresh_disk (path_text ([] @ [sample_name])) = None"
proof -
  have "understand_the_path fresh_disk (path_text ([] @ [sample_name])) = Some (- ENOENT)"
    using understand_name [OF fresh_root fresh_disk_facts(2) root_map_simps(1) _ sample_name_good(1)]
    by (simp add: name_number_def fresh_lookup)
  from missing_name_undefined [OF this] show ?thesis by simp
qed

section \<open>Reading and writing\<close>

text \<open>
  C8: writing \<open>n\<close> bytes, more than one block and at most twelve, at the start of a file and reading them back
  gives exactly those bytes; \<open>fs_write\<close> returns \<open>n\<close> and the size becomes \<open>n\<close>.
\<close>
theorem write_read_roundtrip:
  assumes "dirs_ok d D" and "names d D path i" and "D i = None"
    and "4096 < n" and "n < length buffer" and "n \<le> 12 * 4096" and "(n + 4095) div 4096 \<le> free_count d"
  shows "\<exists>d'. fs_write d path buffer n 0 = Some (int n, d')
    \<and> fs_read d' path n 0 = Some (int n, take n buffer)
    \<and> st_size (inode_of d' i) = word64_of (int n)"
  using read_after_write [OF assms(1-3) _ assms(5,6)] assms(4,7) by auto

theorem write_read_roundtrip_witness:
  "\<exists>d'. fs_write file_disk (path_text [sample_name]) (replicate 5001 65) 5000 0 = Some (5000, d')
    \<and> fs_read d' (path_text [sample_name]) 5000 0 = Some (5000, replicate 5000 65)"
  using write_read_roundtrip [OF file_disk_facts(1,2) root_map_simps(3), of 5000 "replicate 5001 65"]
    file_disk_facts(6) by (auto simp: take_replicate)

text \<open>
  C10: a write of at most one block at the start of a file reports success and sets the size, but the last byte
  goes to a second block: reading the file back gives the caller's bytes up to the last one and then
  whatever the fresh block held at that position.
\<close>
theorem short_write_loses_last_byte:
  assumes "dirs_ok d D" and "names d D path i" and "D i = None"
    and "0 < n" and "n \<le> 4096" and "n < length buffer" and "2 \<le> free_count d"
  shows "\<exists>p d'. fs_write d path buffer n 0 = Some (int n, d') \<and> find_empty_datablock d = Some (int p)
    \<and> fs_read d' path n 0 = Some (int n, take (n - 1) buffer @ [d (data_id p) (n - 1)])"
  using read_after_write [OF assms(1-4,6)] assms(5,7) by auto

theorem short_write_loses_last_byte_witness:
  "\<exists>p d'. fs_write file_disk (path_text [sample_name]) [72, 105, 10, 0] 3 0 = Some (3, d')
    \<and> find_empty_datablock file_disk = Some (int p)
    \<and> fs_read d' (path_text [sample_name]) 3 0 = Some (3, [72, 105] @ [file_disk (data_id p) 2])"
  using short_write_loses_last_byte [OF file_disk_facts(1,2) root_map_simps(3), of 3 "[72, 105, 10, 0]"]
    file_disk_facts(6) by (auto simp: numeral_3_eq_3 numeral_2_eq_2)

text \<open>
  C12: a write within the twelve direct blocks, at any offset in the first eleven, stores the bytes (but the last one of a
  write that ends in its first block), sets the size to their end, and leaves the rest alone: the directory invariant
  holds afterwards, every path denotes what it did, every other inode and every other block in use are unchanged. Inside a
  block it needs that the file has a block of its own there, which is no directory's; it needs as many free blocks as it takes.
\<close>
theorem write_keeps_file_system:
  assumes "dirs_ok d D" and "names d D path i" and "D i = None"
    and "0 < n" and "n < length buffer" and "off < 11 * 4096" and "off + n \<le> 12 * 4096"
    and "blocks_needed (off mod 4096) n \<le> free_count d"
    and "off mod 4096 \<noteq> 0 \<Longrightarrow> ptr_ok d (inode_of d i) (off div 4096) \<and> \<not> dir_block d D (ptr (inode_of d i) (off div 4096))"
  shows "\<exists>d'. fs_write d path buffer n (int off) = Some (int n, d') \<and> dirs_ok d' D
    \<and> (\<forall>q m. names d D q m \<longrightarrow> understand_the_path d' q = Some (int m))
    \<and> st_size (inode_of d' i) = word64_of (int (off + n))
    \<and> (\<forall>j < n. off mod 4096 + n \<le> 4096 \<and> j = n - 1 \<or> file_byte d' (inode_of d' i) (off + j) = buffer ! j)
    \<and> (\<forall>m < INODES. m \<noteq> i \<longrightarrow> inode_of d' m = inode_of d m)
    \<and> (\<forall>q < DATA_NUM. data_used d q \<longrightarrow> (off mod 4096 \<noteq> 0 \<longrightarrow> q \<noteq> ptr (inode_of d i) (off div 4096))
        \<longrightarrow> d' (data_id q) = d (data_id q))"
proof -
  from write_at [OF assms] obtain d' where d': "fs_write d path buffer n (int off) = Some (int n, d')"
    "written_at d D i off buffer n d'" by blast
  then have "dirs_ok d' D" "\<forall>q m. names d D q m \<longrightarrow> names d' D q m" by (simp_all add: written_at_def)
  then have "understand_the_path d' q = Some (int m)" if "names d D q m" for q m
    using that names_understood by blast
  with d' show ?thesis unfolding written_at_def by blast
qed

theorem write_keeps_file_system_witness:
  "\<exists>d'. fs_write file_disk (path_text [sample_name]) [72, 105, 10, 0] 3 (int 8192) = Some (3, d')
    \<and> dirs_ok d' (root_map 1) \<and> file_byte d' (inode_of d' 0) 8193 = 105"
proof -
  have "blocks_needed (8192 mod 4096) 3 \<le> free_count file_disk" using file_disk_facts(6) by (simp add: blocks_needed_def)
  from write_keeps_file_system [OF file_disk_facts(1,2) root_map_simps(3) _ _ _ _ this, of "[72, 105, 10, 0]"]
  obtain d' where d': "fs_write file_disk (path_text [sample_name]) [72, 105, 10, 0] 3 (int 8192) = Some (3, d')" "dirs_ok d' (root_map 1)"
    "\<forall>j < 3. 8192 mod 4096 + (3::nat) \<le> 4096 \<and> j = 3 - 1 \<or> file_byte d' (inode_of d' 0) (8192 + j) = [72, 105, 10, 0] ! j"
    by auto
  from d'(3) [rule_format, of 1] have "file_byte d' (inode_of d' 0) 8193 = 105" by simp
  with d' show ?thesis by blast
qed

text \<open>
  C27: \<open>fs_read\<close> at any offset of a file that has all its blocks up to the end of the read, which lies within the twelve
  direct ones, stores exactly the bytes of these blocks in order, and returns the smaller of the requested length and the
  file's size (not of what is left behind the offset).
\<close>
theorem read_returns_file_bytes:
  assumes "dirs_ok d D" and "names d D path i" and "file_ok d (inode_of d i) (off + n)"
  shows "fs_read d path n (int off) =
    Some (get_min (int n) (to_int (sint (st_size (inode_of d i)))),
          map (\<lambda>r. d (data_id (ptr (inode_of d i) (r div 4096))) (r mod 4096)) [off..<off + n])"
  using fs_read_spec [OF assms] by (simp add: file_byte_def [abs_def])

theorem read_returns_file_bytes_witness:
  "\<exists>d'. fs_read d' (path_text [sample_name]) 2 (int 1) = Some (2,
      map (\<lambda>r. d' (data_id (ptr (inode_of d' 0) (r div 4096))) (r mod 4096)) [1..<1 + 2])"
proof -
  from read_after_write [OF file_disk_facts(1,2) root_map_simps(3), of 3 "[72, 105, 10, 0]"] file_disk_facts(6)
  obtain d' where d': "dirs_ok d' (root_map 1)" "names d' (root_map 1) (path_text [sample_name]) 0"
    "st_size (inode_of d' 0) = word64_of (int 3)" "file_ok d' (inode_of d' 0) 3" by auto
  have "file_ok d' (inode_of d' 0) (1 + 2)" using d'(4) by (simp add: numeral_3_eq_3)
  from read_returns_file_bytes [OF d'(1,2) this] d'(3) show ?thesis by (auto simp: get_min_def)
qed

section \<open>Deleting, renaming, listing\<close>

lemma load_zeros: "load_bytes zero_block off n = replicate n 0"
  by (simp add: load_bytes_def zero_block_def map_replicate_const)

lemma le_word_zeros: "le_word (replicate n 0) = 0"
  by (induction n) simp_all

lemma bytes_words_first: "0 < n \<Longrightarrow> bytes_words n bs ! 0 = le_word (take 4 bs)"
  by (cases n) auto

lemma blank_file: "small_file (inode_of file_disk 0) 0"
proof -
  have "direct_pointer (inode_of blank_disk 0) ! 0 = 0"
    by (simp add: inode_of_def get_inode_def decode_inode_def blank_disk_def load_zeros bytes_words_first
        le_word_zeros)
  then show ?thesis
    by (simp add: small_file_def file_disk_facts(5) fresh_inode_def word64_of_def in_map_def MAP_BITS_def)
qed

lemma file_disk_distinct: "distinct_dir (dir_entries file_disk (inode_of file_disk 4) 1)"
  by (simp only: file_disk_facts(4)) (simp add: distinct_dir_def)

text \<open>
  C9: \<open>fs_unlink\<close> of a name of at least six characters (shorter ones have no defined run, as the code looks for the slash
  within the size of a pointer), that of a small file in a directory of at most 12 entries with different names and inodes
  whose path has at most seven bytes: it returns 0, the directory loses exactly that entry, the invariant holds, the
  name is no longer found and every other name of the directory is found as before.
\<close>
theorem unlink_removes_name:
  assumes "dirs_ok d D" and "reaches d D 4 cs j" and "D j = Some N" and "N \<le> 12" and "good_name c"
    and "lookup_name d (inode_of d j) N c = Some x" and "sint (inode_number x) = int f" and "f < INODES"
    and "small_file (inode_of d f) s" and "D f = None" and "distinct_dir (dir_entries d (inode_of d j) N)"
    and "length (path_text cs) \<le> 7" and "6 \<le> length c"
  shows "\<exists>d'. fs_unlink e d (path_text (cs @ [c])) = Some (0, d') \<and> dirs_ok d' (D(j \<mapsto> N - 1))
    \<and> fs_getattr d' (path_text (cs @ [c])) = Some (- ENOENT, zero_stat)
    \<and> (\<forall>b. good_name b \<longrightarrow> pad28 b \<noteq> pad28 c \<longrightarrow>
          understand_the_path d' (path_text (cs @ [b])) = understand_the_path d (path_text (cs @ [b])))"
proof -
  from fs_unlink_spec [OF assms(1-9,12,13)] obtain r d' where
    run: "fs_unlink e d (path_text (cs @ [c])) = Some (0, d')"
    and rk: "first_rank d (inode_of d j) N (int f) r" and u: "unlinked e d D j N f r d'" by blast
  note lu = unlinked_lookup [OF u rk assms(6,7,11)]
  have ok': "dirs_ok d' (D(j \<mapsto> N - 1))" using u by (simp add: unlinked_def)
  have r': "reaches d' (D(j \<mapsto> N - 1)) 4 cs j"
    by (rule unlinked_reaches [OF assms(2) u rk assms(6,7,11,3,10)])
  have und: "understand_the_path d' (path_text (cs @ [b])) = Some (name_number d' j (N - 1) b)"
    "understand_the_path d (path_text (cs @ [b])) = Some (name_number d j N b)" if "good_name b" for b
    using understand_name [OF r' ok' _ _ that] understand_name [OF assms(2,1,3) _ that] assms(4) by auto
  have "understand_the_path d' (path_text (cs @ [c])) = Some (- ENOENT)"
    using und(1) [OF assms(5)] lu(1) by (simp add: name_number_def)
  then have "fs_getattr d' (path_text (cs @ [c])) = Some (- ENOENT, zero_stat)"
    by (rule fs_getattr_missing)
  moreover have "understand_the_path d' (path_text (cs @ [b])) = understand_the_path d (path_text (cs @ [b]))"
    if "good_name b" "pad28 b \<noteq> pad28 c" for b
    using und [OF that(1)] lu(1) [of b] that(2) by (simp add: name_number_def)
  ultimately show ?thesis using run ok' by blast
qed

theorem unlink_removes_name_witness:
  "\<exists>d'. fs_unlink sample_env file_disk (path_text ([] @ [sample_name])) = Some (0, d')
    \<and> fs_getattr d' (path_text ([] @ [sample_name])) = Some (- 2, zero_stat)"
  using unlink_removes_name [OF file_disk_facts(1,3) root_map_simps(1) _ sample_name_good(1) file_disk_facts(7)
      _ _ blank_file _ file_disk_distinct, of sample_env]
  by (auto simp: INODES_def)

text \<open>
  \<open>fs_unlink\<close> never frees the inode: afterwards the bit of the deleted file's inode is what it was, the
  other seven inodes of its byte of the bitmap are marked as used, and no data block becomes free.
\<close>
theorem unlink_frees_nothing:
  assumes "dirs_ok d D" and "reaches d D 4 cs j" and "D j = Some N" and "N \<le> 12" and "good_name c"
    and "lookup_name d (inode_of d j) N c = Some x" and "sint (inode_number x) = int f" and "f < INODES"
    and "small_file (inode_of d f) s" and "length (path_text cs) \<le> 7" and "6 \<le> length c"
  shows "\<exists>d'. fs_unlink e d (path_text (cs @ [c])) = Some (0, d')
    \<and> (\<forall>m < INODES. inode_used d' m \<longleftrightarrow> m div 8 = f div 8 \<and> m \<noteq> f \<or> inode_used d m)
    \<and> (\<forall>k < DATA_NUM. data_used d k \<longrightarrow> data_used d' k)"
proof -
  from fs_unlink_spec [OF assms, of e] obtain r d' where
    "fs_unlink e d (path_text (cs @ [c])) = Some (0, d')" "unlinked e d D j N f r d'" by blast
  then show ?thesis unfolding unlinked_def by blast
qed

theorem unlink_frees_nothing_witness:
  "\<exists>d'. fs_unlink sample_env file_disk (path_text ([] @ [sample_name])) = Some (0, d')
    \<and> inode_used d' 1 \<and> inode_used d' 2"
proof -
  from unlink_frees_nothing [OF file_disk_facts(1,3) root_map_simps(1) _ sample_name_good(1) file_disk_facts(7)
      _ _ blank_file, of sample_env]
  obtain d' where d': "fs_unlink sample_env file_disk (path_text ([] @ [sample_name])) = Some (0, d')"
    "\<And>m. m < INODES \<Longrightarrow> inode_used d' m \<longleftrightarrow> m div 8 = 0 div 8 \<and> m \<noteq> 0 \<or> inode_used file_disk m"
    by (auto simp: INODES_def)
  from d'(2) [of 1] d'(2) [of 2] have "inode_used d' 1" "inode_used d' 2" by (simp_all add: INODES_def)
  with d'(1) show ?thesis by blast
qed

text \<open>
  C11: \<open>fs_rename\<close> within a root directory of at most 12 entries with different names and inodes, of a name of at least six
  characters to another of at least six characters that the directory does not have, returns 0 and loses the file: the new entry is appended, then the
  old copy of the root's inode is written back over it. Neither the old nor the new name is found.
\<close>
theorem rename_in_root_loses_file:
  assumes "dirs_ok d D" and "D 4 = Some N" and "N \<le> 12" and "good_name c" and "6 \<le> length c"
    and "good_name c'" and "6 \<le> length c'" and "lookup_name d (inode_of d 4) N c = Some x"
    and "lookup_name d (inode_of d 4) N c' = None" and "distinct_dir (dir_entries d (inode_of d 4) N)"
  shows "\<exists>d'. fs_rename e d (slash # c) (slash # c') = Some (0, d') \<and> dirs_ok d' (D(4 \<mapsto> N - 1))
    \<and> fs_getattr d' (slash # c) = Some (- ENOENT, zero_stat)
    \<and> fs_getattr d' (slash # c') = Some (- ENOENT, zero_stat)"
proof -
  from fs_rename_root_spec [OF assms(1-8)] obtain r d' where
    run: "fs_rename e d (slash # c) (slash # c') = Some (0, d')"
    and rk: "first_rank d (inode_of d 4) N (sint (inode_number x)) r" and ok': "dirs_ok d' (D(4 \<mapsto> N - 1))"
    and ents: "dir_entries d' (inode_of d' 4) (N - 1) = swap_remove r (dir_entries d (inode_of d 4) N)"
    by blast
  have r: "r < N" "dir_entries d (inode_of d 4) N ! r = x" using first_rank_entry [OF rk assms(8,10)] by auto
  have "file_name x = pad28 c" using assms(8) by (auto simp: lookup_name_def find_Some_iff)
  with lookup_after_removal [OF ents r assms(10)] assms(9)
  have none: "lookup_name d' (inode_of d' 4) (N - 1) b = None" if "b = c \<or> b = c'" for b using that by auto
  have "understand_the_path d' (slash # b) = Some (- ENOENT)" if "b = c \<or> b = c'" for b
    using understand_name [OF reaches.here [of "D(4 \<mapsto> N - 1)" 4 "N - 1" d'] ok', of "N - 1" b] that assms(3,4,6) none [OF that]
    by (auto simp: name_number_def)
  with run ok' show ?thesis by (auto intro: fs_getattr_missing)
qed

theorem rename_in_root_loses_file_witness:
  "\<exists>d'. fs_rename sample_env file_disk (slash # sample_name) (slash # [120, 121, 122, 120, 121, 122]) = Some (0, d')
    \<and> fs_getattr d' (slash # sample_name) = Some (- 2, zero_stat)"
proof -
  have "lookup_name file_disk (inode_of file_disk 4) 1 [120, 121, 122, 120, 121, 122] = None"
    unfolding lookup_name_def file_disk_facts(4) by (simp add: pad28_def sample_name_def)
  from rename_in_root_loses_file [OF file_disk_facts(1) root_map_simps(1) _ sample_name_good(1) _ _ _
      file_disk_facts(7) this file_disk_distinct, of sample_env]
  show ?thesis by (auto simp: good_name_def)
qed

lemma readdir_file_names:
  assumes "dirs_ok d D" and "reaches d D 4 cs i" and "D i = Some N" and "N < 12 * 128"
    and "\<forall>x \<in> set (dir_entries d (inode_of d i) N). 0 \<in> set (file_name x)"
  shows "fs_readdir d (dir_text cs) =
    Some (0, map (\<lambda>x. takeWhile (\<lambda>b. b \<noteq> 0) (file_name x)) (dir_entries d (inode_of d i) N))"
proof -
  have "\<forall>x \<in> set (dir_entries d (inode_of d i) N). 0 \<in> set (encode_entry x)"
    using assms(5) by (auto simp: encode_entry_def)
  from fs_readdir_spec [OF assms(1-4) this] assms(5) show ?thesis
    by (auto simp: entry_text_def encode_entry_def takeWhile_append1)
qed

text \<open>
  \<open>fs_readdir\<close> of a reachable directory returns 0 and hands the name of every entry to \<open>filler\<close>, once each
  and in order, for directories of fewer than 12 * 128 entries.
\<close>
theorem readdir_lists_entries:
  assumes "dirs_ok d D" and "reaches d D 4 cs i" and "D i = Some N" and "N < 12 * 128"
    and "\<forall>x \<in> set (dir_entries d (inode_of d i) N). 0 \<in> set (file_name x)"
  shows "fs_readdir d (dir_text cs) =
    Some (0, map (\<lambda>x. takeWhile (\<lambda>b. b \<noteq> 0) (file_name x)) (dir_entries d (inode_of d i) N))"
  by (rule readdir_file_names [OF assms])

theorem readdir_lists_entries_witness:
  "fs_readdir file_disk (dir_text []) = Some (0, [sample_name])"
  using readdir_lists_entries [OF file_disk_facts(1,3) root_map_simps(1)]
  unfolding file_disk_facts(4) by (simp add: pad28_def sample_name_def)

section \<open>Directories as lists\<close>

lemma file_root_ok: "dir_ok file_disk (inode_of file_disk 4) 1"
  using dirs_okD(3) [OF file_disk_facts(1) root_map_simps(1)] .

text \<open>
  \<open>find_file_in_dict\<close>, which compares 28 bytes of the name with the entries block by block, is the search of
  the list of entries for the first one of that name: its inode number, or \<open>-ENOENT\<close>.
\<close>
theorem find_file_is_list_search:
  assumes "dir_ok d n N" and "N < 12 * 128" and "28 \<le> length son"
  shows "find_file_in_dict d n son =
    Some (case List.find (\<lambda>x. file_name x = take 28 son) (dir_entries d n N) of
            Some x \<Rightarrow> sint (inode_number x) | None \<Rightarrow> - ENOENT)"
  by (rule find_file_in_dict_eq [OF assms])

theorem find_file_is_list_search_witness:
  "find_file_in_dict file_disk (inode_of file_disk 4) (pad28 sample_name) = Some 0"
  using find_file_is_list_search [OF file_root_ok, of "pad28 sample_name"]
  unfolding file_disk_facts(4) by (simp add: pad28_def)

text \<open>
  A directory of 12 * 128 entries or more is not searched past the direct blocks: for a name that is not
  among the first 12 * 128 entries the search runs off the end of a function without a \<open>return\<close>, and the
  two functions for the indirect blocks are never reached.
\<close>
theorem large_directory_undefined:
  assumes "12 * 128 \<le> N" and "st_size n = word64_of (int (32 * N))" and "N < 2 ^ 25" and "28 \<le> length son"
    and "\<And>k. k < 12 \<Longrightarrow> ptr_ok d n k"
    and "\<And>r. r < 12 * 128 \<Longrightarrow> file_name (entry_at d n r) \<noteq> take 28 son"
  shows "find_file_in_dict d n son = None"
proof -
  have "sint (st_size n) = int (32 * N)"
    unfolding assms(2) by (rule sint_word64_of) (use assms(3) in auto)
  moreover have "to_int (int (32 * N)) = int (32 * N)" using assms(3) by (intro to_int_id) auto
  ultimately have "to_int (sint (st_size n)) sdiv 32 = int N" using sdiv_smod_numeral(1) [of "32 * N"] by simp
  with find_file_in_dict_large [OF assms(1,4,5,6)] show ?thesis by (simp add: find_file_in_dict_def)
qed

text \<open>A directory inode whose twelve blocks are block 4 of the data area, with empty names.\<close>

definition large_inode :: iNode where
  "large_inode = (inode_of fresh_disk 4)\<lparr>st_size := word64_of (int (32 * 1536)),
     direct_pointer := replicate 12 0\<rparr>"

definition large_disk :: disk where
  "large_disk = fresh_disk(data_id 0 := zero_block)"

theorem large_directory_undefined_witness:
  "find_file_in_dict large_disk large_inode (pad28 sample_name) = None"
proof (rule large_directory_undefined [of 1536])
  show "ptr_ok large_disk large_inode k" if "k < 12" for k
    using that fresh_disk_facts(4) [of 0]
    by (simp add: ptr_ok_def ptr_def large_inode_def DATA_NUM_def large_disk_def data_used_def CLEARED_def)
  show "file_name (entry_at large_disk large_inode r) \<noteq> take 28 (pad28 sample_name)" if "r < 12 * 128" for r
  proof -
    have "r div 128 < 12" using that by simp
    then have "entry_at large_disk large_inode r = get_entry zero_block (r mod 128)"
      by (simp add: entry_at_def ptr_def large_inode_def large_disk_def)
    then have "file_name (entry_at large_disk large_inode r) ! 0 = 0"
      by (simp add: get_entry_def decode_entry_def load_zeros)
    moreover have "take 28 (pad28 sample_name) ! 0 = 97" by (simp add: pad28_def sample_name_def)
    ultimately show ?thesis by auto
  qed
qed (simp_all add: large_inode_def pad28_def)

text \<open>
  \<open>add_file_to_dict\<close> appends: the entries afterwards are the entries before and the new one, the invariant of
  a directory holds with one entry more, and nothing but the data bitmap and one block changes; a new
  block is taken exactly when the last one is full, and it was free.
\<close>
theorem add_file_appends:
  assumes "dir_ok d n N" and "N < 12 * 128" and "wf_entry x" and "l < DATA_NUM" and "\<not> data_used d l"
  shows "\<exists>n' d' p. add_file_to_dict e d n x = Some (n', d') \<and> dir_ok d' n' (Suc N)
    \<and> dir_entries d' n' (Suc N) = dir_entries d n N @ [x]
    \<and> (\<forall>b. b \<noteq> 2 \<longrightarrow> b \<noteq> 3 \<longrightarrow> b \<noteq> data_id p \<longrightarrow> d' b = d b)
    \<and> (data_used d p \<longrightarrow> (\<exists>k < blocks_of N. p = ptr n k))"
proof -
  have "\<exists>m < DATA_NUM. \<not> data_used d m" using assms(4,5) by blast
  from add_file_to_dict_append [OF assms(1-3) this, of e] show ?thesis
    unfolding append_frame_def by blast
qed

theorem add_file_appends_witness:
  "\<exists>n' d'. add_file_to_dict sample_env fresh_disk (inode_of fresh_disk 4)
      \<lparr>file_name = pad28 sample_name, inode_number = 9\<rparr> = Some (n', d')
    \<and> dir_entries d' n' 1 = [\<lparr>file_name = pad28 sample_name, inode_number = 9\<rparr>]"
proof -
  have "dir_ok fresh_disk (inode_of fresh_disk 4) 0"
    by (rule dirs_okD(3) [OF fresh_disk_facts(2) root_map_simps(1)])
  from add_file_appends [OF this _ _ fresh_next(4,5),
      of "\<lparr>file_name = pad28 sample_name, inode_number = 9\<rparr>" sample_env]
  show ?thesis by (auto simp: wf_entry_def pad28_def dir_entries_def)
qed

section \<open>Allocation\<close>

text \<open>
  Taking a data block (\<open>find_empty_datablock\<close>, then \<open>make_data_map_covered\<close>) gives a block that was free,
  marks it and no other, and takes the least free number; a second one never gives the same block.
\<close>
theorem datablock_allocation_fresh:
  assumes "n < 2 * MAP_BITS" and "\<not> data_used d n" and "n' < 2 * MAP_BITS" and "\<not> data_used d n'" and "n \<noteq> n'"
  shows "\<exists>k d' k' d''. find_empty_datablock d = Some (int k) \<and> make_data_map_covered d (int k) = Some d'
    \<and> k = (LEAST m. \<not> data_used d m) \<and> (\<forall>j < 2 * MAP_BITS. data_used d' j \<longleftrightarrow> j = k \<or> data_used d j)
    \<and> find_empty_datablock d' = Some (int k') \<and> make_data_map_covered d' (int k') = Some d''
    \<and> k' \<noteq> k \<and> \<not> data_used d k'"
proof -
  define k where "k = (LEAST m. \<not> data_used d m)"
  have k: "\<not> data_used d k" "k \<le> n" "\<And>j. j < k \<Longrightarrow> data_used d j"
    unfolding k_def by (rule LeastI [where P = "\<lambda>m. \<not> data_used d m", OF assms(2)],
      rule Least_le [where P = "\<lambda>m. \<not> data_used d m", OF assms(2)], blast dest: not_less_Least)
  have kc: "k < 2 * MAP_BITS" using k(2) assms(1) by simp
  from data_alloc.cover_used [OF kc, of d] obtain d' where
    d': "make_data_map_covered d (int k) = Some d'" "\<And>j. j < 2 * MAP_BITS \<Longrightarrow> data_used d' j \<longleftrightarrow> j = k \<or> data_used d j"
    by blast
  have "\<exists>z < 2 * MAP_BITS. \<not> data_used d' z"
    using d'(2) [OF assms(1)] d'(2) [OF assms(3)] assms by (cases "n = k") auto
  then obtain z where z: "z < 2 * MAP_BITS" "\<not> data_used d' z" by blast
  from data_alloc.allocate [OF z] obtain k' d'' where
    k': "find_empty_datablock d' = Some (int k')" "make_data_map_covered d' (int k') = Some d''" "k' \<le> z"
      "\<not> data_used d' k'" by blast
  have "k' \<noteq> k \<and> \<not> data_used d k'" using k'(3,4) z(1) d'(2) [of k'] by auto
  with data_alloc.find_free_least [OF kc k(1,3)] d' k' show ?thesis
    unfolding k_def [symmetric] by blast
qed

theorem datablock_allocation_fresh_witness:
  "\<exists>k d' k'. find_empty_datablock fresh_disk = Some (int k) \<and> make_data_map_covered fresh_disk (int k) = Some d'
    \<and> find_empty_datablock d' = Some (int k') \<and> k' \<noteq> k"
  using datablock_allocation_fresh [of 4 fresh_disk 5] fresh_disk_facts(4) [of 4] fresh_disk_facts(4) [of 5]
  by (auto simp: CLEARED_def MAP_BITS_def)

text \<open>
  \<open>make_data_map_uncovered\<close>, meant to free a block, clears no bit: it leaves the block's own bit as it is and
  marks the seven other blocks of the same byte of the bitmap as used.
\<close>
theorem uncover_marks_neighbours:
  assumes "n < 2 * MAP_BITS"
  shows "\<exists>d'. make_data_map_uncovered d (int n) = Some d'
    \<and> (\<forall>k < 2 * MAP_BITS. data_used d' k \<longleftrightarrow> data_used d k \<or> k div 8 = n div 8 \<and> k \<noteq> n)"
  using make_data_map_uncovered_eq [OF assms] data_used_uncover [OF assms] by auto

theorem uncover_marks_neighbours_witness:
  "\<exists>d'. make_data_map_uncovered fresh_disk (int 2) = Some d' \<and> data_used d' 2 \<and> data_used d' 7"
proof -
  have "(2::nat) < 2 * MAP_BITS" by (simp add: MAP_BITS_def)
  from uncover_marks_neighbours [OF this, of fresh_disk] obtain d' where
    d': "make_data_map_uncovered fresh_disk (int 2) = Some d'"
      "\<And>k. k < 2 * MAP_BITS \<Longrightarrow> data_used d' k \<longleftrightarrow> data_used fresh_disk k \<or> k div 8 = 2 div 8 \<and> k \<noteq> 2" by blast
  from d'(2) [of 2] d'(2) [of 7] fresh_disk_facts(4) [of 2] have "data_used d' 2" "data_used d' 7"
    by (simp_all add: MAP_BITS_def CLEARED_def)
  with d'(1) show ?thesis by blast
qed

section \<open>The device and the records on it\<close>

text \<open>
  C39: the device of \<open>disk.c\<close> implements an array of 65536 blocks over host files named in decimal: after
  \<open>disk_write\<close> of a block, \<open>disk_read\<close> of any block gives that content or the old one; a block number out of
  range makes both return 1 and change nothing.
\<close>
theorem disk_write_then_read:
  assumes "represents h d" and "\<And>s. may_open s"
  shows "\<exists>h'. disk_write may_open h b x = Some (if 0 \<le> b \<and> b < 65536 then 0 else 1, h')
    \<and> represents h' (write_block d b x)
    \<and> (\<forall>b' buffer. disk_read h' b' buffer =
          Some (if \<not> (0 \<le> b' \<and> b' < 65536) then (1, buffer) else (0, if b' = b then x else d (nat b'))))"
proof -
  from disk_write_refines [OF assms(1), of may_open b x] assms(2) obtain h' where
    h': "disk_write may_open h b x = Some (if on_disk b then 0 else 1, h')" "represents h' (write_block d b x)"
    by auto
  have "disk_read h' b' buffer =
      Some (if \<not> (0 \<le> b' \<and> b' < 65536) then (1, buffer) else (0, if b' = b then x else d (nat b')))" for b' buffer
    using disk_read_refines [OF h'(2), of b' buffer]
    by (auto simp: read_block_def write_block_def BLOCK_NUM_def nat_eq_iff)
  with h' show ?thesis by (auto simp: on_disk_def BLOCK_NUM_def)
qed

text \<open>
  \<open>disk_init\<close>, when the path in the file \<open>fuse~\<close> fits its buffer and the host lets every block file be created,
  returns 0 and leaves a device of zeroed blocks under the prefix made of that path.
\<close>
theorem disk_init_zeroes_device:
  assumes "8 \<le> length word" and "length word < 248" and "\<And>s. may_open s"
  shows "\<exists>h'. disk_init may_open (Some word) h = Some (0, h') \<and> represents h' (\<lambda>_ _. 0)
    \<and> disk_prefix h' = take (length word - 8) word @ ''vdisk/block''"
  using disk_init_spec [OF assms] by (simp add: zero_block_def [abs_def])

theorem disk_init_zeroes_device_witness:
  "\<exists>h'. disk_init (\<lambda>_. True) (Some ''/a/Makefile'') \<lparr>disk_prefix = [], files = \<lambda>_. None\<rparr> = Some (0, h')
    \<and> disk_prefix h' = ''/a/vdisk/block''"
  using disk_init_zeroes_device [of "''/a/Makefile''" "\<lambda>_. True" "\<lparr>disk_prefix = [], files = \<lambda>_. None\<rparr>"]
  by auto

theorem disk_write_then_read_witness:
  "\<exists>h h'. represents h blank_disk \<and> disk_write (\<lambda>_. True) h 5 (\<lambda>_. 1) = Some (0, h')
    \<and> disk_read h' 5 zero_block = Some (0, \<lambda>_. 1)"
proof -
  define h where "h = \<lparr>disk_prefix = [], files = \<lambda>_. Some zero_block\<rparr>"
  have "represents h blank_disk" by (simp add: represents_def h_def blank_disk_def)
  from disk_write_then_read [OF this, of "\<lambda>_. True" 5 "\<lambda>_. 1"] this show ?thesis by auto
qed

text \<open>
  The inode table: an inode written with \<open>repalce_iNode_according_to_disk_number\<close> is read back by
  \<open>just_read_inode_from_disk\<close>, through the 128 bytes of its little-endian encoding, every other inode is
  unchanged, and so is every block outside the table.
\<close>
theorem inode_table_get_put:
  assumes "n < 32768" and "wf_inode x"
  shows "\<exists>d'. repalce_iNode_according_to_disk_number d (int n) x = Some d'
    \<and> (\<forall>m < 32768. just_read_inode_from_disk d' (int m) =
          (if m = n then Some x else just_read_inode_from_disk d (int m)))
    \<and> (\<forall>b. b < 4 \<or> 1028 \<le> b \<longrightarrow> d' b = d b)"
proof -
  have n: "n < INODES" using assms(1) by (simp add: INODES_def)
  have "just_read_inode_from_disk (set_inode d n x) (int m) =
      (if m = n then Some x else just_read_inode_from_disk d (int m))" if "m < 32768" for m
  proof -
    have "m < INODES" using that by (simp add: INODES_def)
    then show ?thesis by (simp add: just_read_inode_eq inode_of_set_inode [OF n _ assms(2)])
  qed
  moreover have "set_inode d n x b = d b" if "b < 4 \<or> 1028 \<le> b" for b
    using that inode_block_range [OF n] by (intro set_inode_other_block) auto
  ultimately show ?thesis using replace_inode_eq [OF n] by blast
qed

theorem inode_table_get_put_witness:
  "\<exists>d'. repalce_iNode_according_to_disk_number blank_disk (int 33) (inode_of fresh_disk 4) = Some d'
    \<and> just_read_inode_from_disk d' (int 33) = Some (inode_of fresh_disk 4)"
proof -
  from inode_table_get_put [of 33 "inode_of fresh_disk 4" blank_disk] obtain d' where
    "repalce_iNode_according_to_disk_number blank_disk (int 33) (inode_of fresh_disk 4) = Some d'"
    "\<And>m. m < 32768 \<Longrightarrow> just_read_inode_from_disk d' (int m) =
      (if m = 33 then Some (inode_of fresh_disk 4) else just_read_inode_from_disk blank_disk (int m))" by auto
  from this(1) this(2) [of 33] show ?thesis by simp
qed

section \<open>Truncating and counting\<close>

text \<open>
  \<open>fs_truncate\<close> to a size that needs as many blocks or more sets the size of the inode and does nothing else:
  it allocates no block, although the code has a loop that is meant to.
\<close>
theorem truncate_grow_only_sets_size:
  assumes "names d D path i" and "dirs_ok d D" and "st_size (inode_of d i) = word64_of (int old)"
    and "old < 2 ^ 31" and "new < 2 ^ 31" and "old div 4096 \<le> new div 4096"
  shows "\<exists>d'. fs_truncate d path (int new) = Some (0, d')
    \<and> inode_of d' i = (inode_of d i)\<lparr>st_size := word64_of (int new)\<rparr>
    \<and> (\<forall>m < INODES. m \<noteq> i \<longrightarrow> inode_of d' m = inode_of d m)
    \<and> (\<forall>b. b \<noteq> inode_block i \<longrightarrow> d' b = d b)"
proof -
  have I: "i < INODES" using names_understood [OF assms(1,2)] by simp
  have wf: "wf_inode ((inode_of d i)\<lparr>st_size := word64_of (int new)\<rparr>)"
    using wf_inode_of [of d i] by (simp add: wf_inode_def)
  from fs_truncate_grow [OF assms] inode_of_set_inode [OF I _ wf] I show ?thesis by auto
qed

theorem truncate_grow_only_sets_size_witness:
  "\<exists>d'. fs_truncate file_disk (path_text [sample_name]) (int 9000) = Some (0, d')
    \<and> st_size (inode_of d' 0) = word64_of (int 9000)"
  using truncate_grow_only_sets_size [OF file_disk_facts(2,1), of 0 9000] file_disk_facts(5)
  by (auto simp: fresh_inode_def word64_of_def)

text \<open>
  \<open>fs_statfs\<close> reports no free block on every device, and as the number of files eight times the number of odd
  bytes of the inode bitmap: \<open>==\<close> and \<open>!=\<close> bind tighter than \<open>&\<close>.
\<close>
theorem statfs_miscounts:
  "\<exists>s. fs_statfs d path = Some (0, s) \<and> f_blocks s = 65536 \<and> f_bfree s = 0 \<and> f_bavail s = 0
    \<and> f_files s = 8 * int (length (filter (\<lambda>i. bit (d 1 i) 0) [0..<4096]))
    \<and> f_ffree s = 4096 - f_files s"
  by (simp add: fs_statfs_def get_free_block_size_eq get_file_number_eq)

text \<open>
  \<open>delete_file_according_to_rank\<close> in a directory of at most 12 entries overwrites the entry of the rank with the
  last one: with the count one less, exactly the deleted entry is gone. In a directory of 13 entries or
  more it never has a result, as the last entry cannot be read.
\<close>
theorem delete_rank_swaps_last:
  assumes "dir_ok d n N" and "i < N"
  shows "if N \<le> 12
    then \<exists>d'. delete_file_according_to_rank d (int i) n = Some d'
      \<and> mset (dir_entries d' n (N - 1)) = mset (dir_entries d n N) - {#dir_entries d n N ! i#}
    else delete_file_according_to_rank d (int i) n = None"
proof (cases "N \<le> 12")
  case True
  from delete_file_swap [OF assms True] obtain d' where
    "delete_file_according_to_rank d (int i) n = Some d'"
    "dir_entries d' n (N - 1) = swap_remove i (dir_entries d n N)" by blast
  moreover have "i < length (dir_entries d n N)" using assms(2) by (simp add: dir_entries_def)
  ultimately show ?thesis using mset_swap_remove [of i "dir_entries d n N"] True by simp
next
  case False
  then have "get_filename_data_from_dir_in_rank_view d (int N - 1) n = None"
    using get_filename_large [of "N - 1" d n] by (simp add: of_nat_diff)
  with False assms(2) show ?thesis
    by (simp add: delete_file_according_to_rank_def dir_count(2) [OF assms(1)])
qed

theorem delete_rank_swaps_last_witness:
  "\<exists>d'. delete_file_according_to_rank file_disk (int 0) (inode_of file_disk 4) = Some d'
    \<and> mset (dir_entries d' (inode_of file_disk 4) (1 - 1)) =
      mset (dir_entries file_disk (inode_of file_disk 4) 1) - {#dir_entries file_disk (inode_of file_disk 4) 1 ! 0#}"
  using delete_rank_swaps_last [OF file_root_ok, of 0] by simp

end
