(* ===== verification/FsSession.thy ===== *)
theory FsSession
  imports FsProps
begin

text \<open>
  Histories of calls of \<open>fs.c\<close>, from \<open>mkfs\<close> on. A command is one call that creates a file or a directory or writes a
  file from the start of a block; \<open>session\<close> collects the disks that histories of successful commands lead to, with the map of
  directories that belongs to each. The properties say that no command that makes sense ever fails before the device
  is full, and that nothing made is lost.
\<close>

section \<open>Commands\<close>

datatype fs_cmd =
    Mknod "byte list list" "byte list"
  | Mkdir "byte list list" "byte list"
  | Write "byte list list" "byte list" nat "byte list" nat

definition run_fs :: "env \<Rightarrow> fs_cmd \<Rightarrow> disk \<Rightarrow> (int \<times> disk) option" where
  "run_fs e c d = (case c of
     Mknod cs x \<Rightarrow> fs_mknod e d (path_text (cs @ [x]))
   | Mkdir cs x \<Rightarrow> fs_mkdir e d (path_text (cs @ [x]))
   | Write cs x r buffer n \<Rightarrow> fs_write d (path_text (cs @ [x])) buffer n (int (r * 4096)))"

fun run_all :: "env \<Rightarrow> fs_cmd list \<Rightarrow> disk \<Rightarrow> (int list \<times> disk) option" where
  "run_all e [] d = Some ([], d)"
| "run_all e (c # cs) d = do {
     (r, d1) \<leftarrow> run_fs e c d;
     (rs, d2) \<leftarrow> run_all e cs d1;
     Some (r # rs, d2)
   }"


text \<open>The data blocks a command may take.\<close>

definition blocks_taken :: "fs_cmd \<Rightarrow> nat" where
  "blocks_taken c = (case c of Write cs x r buffer n \<Rightarrow> if n \<le> 4096 then 2 else (n + 4095) div 4096 | _ \<Rightarrow> 1)"

text \<open>
  The command makes sense: the directory exists and has room, the name is new; the file to write exists, and the bytes go to
  its direct blocks, from the start of block \<open>r\<close> on.
\<close>

definition new_in :: "disk \<Rightarrow> dir_map \<Rightarrow> byte list list \<Rightarrow> byte list \<Rightarrow> nat \<Rightarrow> nat \<Rightarrow> bool" where
  "new_in d D cs x i N \<longleftrightarrow> reaches d D 4 cs i \<and> D i = Some N \<and> Suc N < 12 * 128 \<and> good_name x
     \<and> lookup_name d (inode_of d i) N x = None"

definition allowed :: "disk \<Rightarrow> dir_map \<Rightarrow> fs_cmd \<Rightarrow> bool" where
  "allowed d D c = (case c of
     Write cs x r buffer n \<Rightarrow> (\<exists>i. names d D (path_text (cs @ [x])) i \<and> D i = None) \<and> 0 < n \<and> n < length buffer
       \<and> r < 11 \<and> r * 4096 + n \<le> 12 * 4096
   | Mknod cs x \<Rightarrow> \<exists>i N. new_in d D cs x i N
   | Mkdir cs x \<Rightarrow> \<exists>i N. new_in d D cs x i N)"

section \<open>Histories\<close>

text \<open>The last command is the first of the list.\<close>

inductive session :: "env \<Rightarrow> fs_cmd list \<Rightarrow> disk \<Rightarrow> dir_map \<Rightarrow> bool" for e where
  start: "mkfs e stack3 stack2 d0 = Some (0, d) \<Longrightarrow> session e [] d [4 \<mapsto> 0]"
| new_file: "session e h d D \<Longrightarrow> new_in d D cs x i N \<Longrightarrow> run_fs e (Mknod cs x) d = Some (0, d')
    \<Longrightarrow> session e (Mknod cs x # h) d' (D(i \<mapsto> Suc N))"
| new_dir: "session e h d D \<Longrightarrow> new_in d D cs x i N \<Longrightarrow> find_empty_inode d = Some (int k)
    \<Longrightarrow> run_fs e (Mkdir cs x) d = Some (0, d') \<Longrightarrow> session e (Mkdir cs x # h) d' (D(i \<mapsto> Suc N, k \<mapsto> 0))"
| rewrite: "session e h d D \<Longrightarrow> allowed d D (Write cs x r buffer n) \<Longrightarrow> run_fs e (Write cs x r buffer n) d = Some (int n, d')
    \<Longrightarrow> session e (Write cs x r buffer n # h) d' D"

text \<open>What a history leaves: the invariant, the numbers of inodes and blocks in use, and the paths it made.\<close>

definition blocks_of_all :: "fs_cmd list \<Rightarrow> nat" where
  "blocks_of_all h = (\<Sum>c \<leftarrow> h. blocks_taken c)"

definition made :: "fs_cmd \<Rightarrow> byte list option" where
  "made c = (case c of Mknod cs x \<Rightarrow> Some (path_text (cs @ [x])) | Mkdir cs x \<Rightarrow> Some (path_text (cs @ [x])) | _ \<Rightarrow> None)"

definition inodes_used :: "disk \<Rightarrow> nat" where
  "inodes_used d = card {m. m < INODES \<and> inode_used d m}"

definition session_ok :: "fs_cmd list \<Rightarrow> disk \<Rightarrow> dir_map \<Rightarrow> bool" where
  "session_ok h d D \<longleftrightarrow> dirs_ok d D \<and> inodes_used d \<le> 1 + length h \<and> 64288 \<le> free_count d + blocks_of_all h
     \<and> (\<forall>c \<in> set h. \<forall>p. made c = Some p \<longrightarrow> (\<exists>k. names d D p k))"

text \<open>
  The bound on a history under which neither inodes nor blocks run out: one inode for each call and one for the root of the
  32768, and of the blocks those that formatting is known to leave free.
\<close>

definition fits :: "fs_cmd list \<Rightarrow> bool" where
  "fits h \<longleftrightarrow> length h \<le> 32766 \<and> blocks_of_all h \<le> 64287"

lemma fits_tl: "fits (c # h) \<Longrightarrow> fits h"
  by (simp add: fits_def blocks_of_all_def)

lemma free_inode_left:
  assumes "session_ok h d D" and "fits h"
  shows "\<exists>m < INODES. \<not> inode_used d m"
proof (rule ccontr)
  assume "\<not> ?thesis"
  then have "{m. m < INODES \<and> inode_used d m} = {m. m < INODES}" by auto
  then have "inodes_used d = INODES" by (simp add: inodes_used_def)
  with assms show False by (simp add: session_ok_def fits_def INODES_def)
qed

lemma free_data_left:
  assumes "session_ok h d D" and "fits h"
  shows "\<exists>m < DATA_NUM. \<not> data_used d m"
proof (rule ccontr)
  assume "\<not> ?thesis"
  then have "{m. m < DATA_NUM \<and> \<not> data_used d m} = {}" by auto
  then have "free_count d = 0" by (simp add: free_count_def)
  with assms show False by (simp add: session_ok_def fits_def)
qed

lemma inodes_used_created:
  assumes "created e md d i N c k p d'" and "k < INODES"
  shows "inodes_used d' \<le> Suc (inodes_used d)"
proof -
  have "{m. m < INODES \<and> inode_used d' m} = insert k {m. m < INODES \<and> inode_used d m}"
    using assms by (auto simp: created_def)
  then show ?thesis by (simp add: inodes_used_def card_insert_if)
qed

lemma free_count_created:
  assumes "created e md d i N c k p d'"
  shows "free_count d \<le> Suc (free_count d')"
proof -
  have "{m. m < DATA_NUM \<and> \<not> data_used d m} \<subseteq> insert p {m. m < DATA_NUM \<and> \<not> data_used d' m}"
    using assms by (auto simp: created_def)
  then have "free_count d \<le> card (insert p {m. m < DATA_NUM \<and> \<not> data_used d' m})"
    unfolding free_count_def by (intro card_mono) auto
  also have "\<dots> \<le> Suc (free_count d')" by (simp add: free_count_def card_insert_if)
  finally show ?thesis .
qed

text \<open>Creating succeeds as long as the history fits.\<close>

lemma create_progress:
  assumes "session_ok h d D" and "fits h" and "new_in d D cs x i N"
  shows "\<exists>k p d'. run_fs e (Mknod cs x) d = Some (0, d') \<and> k < INODES \<and> \<not> inode_used d k
      \<and> find_empty_inode d = Some (int k) \<and> created e REGMODE d i N x k p d'"
    and "\<exists>k p d'. run_fs e (Mkdir cs x) d = Some (0, d') \<and> k < INODES \<and> \<not> inode_used d k
      \<and> find_empty_inode d = Some (int k) \<and> created e DIRMODE d i N x k p d'"
proof -
  from free_inode_left [OF assms(1,2)] obtain m where m: "m < INODES" "\<not> inode_used d m" by blast
  from free_data_left [OF assms(1,2)] obtain l where l: "l < DATA_NUM" "\<not> data_used d l" by blast
  from assms(1,3) have "dirs_ok d D" "reaches d D 4 cs i" "D i = Some N" "N < 12 * 128" "good_name x"
    by (simp_all add: session_ok_def new_in_def)
  note mknod_created [OF this m l, of e]
  then show "\<exists>k p d'. run_fs e (Mknod cs x) d = Some (0, d') \<and> k < INODES \<and> \<not> inode_used d k
      \<and> find_empty_inode d = Some (int k) \<and> created e REGMODE d i N x k p d'"
    and "\<exists>k p d'. run_fs e (Mkdir cs x) d = Some (0, d') \<and> k < INODES \<and> \<not> inode_used d k
      \<and> find_empty_inode d = Some (int k) \<and> created e DIRMODE d i N x k p d'"
    by (simp_all add: run_fs_def)
qed

lemma session_ok_create:
  assumes ok: "session_ok h d D" and new: "new_in d D cs x i N" and k: "k < INODES" "\<not> inode_used d k"
    and c: "created e md d i N x k p d'" and D': "D' = D(i \<mapsto> Suc N) \<or> D' = D(i \<mapsto> Suc N, k \<mapsto> 0)"
    and b: "blocks_taken cmd = 1" "made cmd = Some (path_text (cs @ [x]))"
  shows "session_ok (cmd # h) d' D'"
proof -
  from ok have d: "dirs_ok d D" by (simp add: session_ok_def)
  from new have n: "reaches d D 4 cs i" "D i = Some N" "Suc N < 12 * 128" "good_name x" "lookup_name d (inode_of d i) N x = None"
    by (simp_all add: new_in_def)
  have "dirs_ok d' D'" using D' created_dirs_ok [OF d n(2) k c] created_mkdir_ok [OF d n(2) k c] by blast
  moreover have "\<exists>f. names d' D' q f" if q: "made a = Some q" "a \<in> set (cmd # h)" for a q
  proof (cases "a = cmd")
    case True
    then show ?thesis using created_new_name [OF d n(1-3) k c D' n(4,5)] q(1) b(2) by auto
  next
    case False
    with q(2) have "a \<in> set h" by simp
    with ok q(1) obtain f where "names d D q f" unfolding session_ok_def by blast
    from created_names [OF d n(2,3) k c D' this] show ?thesis by blast
  qed
  moreover have "inodes_used d' \<le> 1 + length (cmd # h)"
    using inodes_used_created [OF c k(1)] ok by (simp add: session_ok_def)
  moreover have "64288 \<le> free_count d' + blocks_of_all (cmd # h)"
    using free_count_created [OF c] ok b(1) by (simp add: session_ok_def blocks_of_all_def)
  ultimately show ?thesis unfolding session_ok_def by blast
qed

text \<open>So does writing.\<close>

lemma write_progress:
  assumes ok: "session_ok h d D" and f: "fits (Write cs x r buffer n # h)" and a: "allowed d D (Write cs x r buffer n)"
  shows "\<exists>d'. run_fs e (Write cs x r buffer n) d = Some (int n, d') \<and> session_ok (Write cs x r buffer n # h) d' D"
proof -
  let ?need = "if n \<le> 4096 then 2 else (n + 4095) div 4096"
  from a obtain i where i: "names d D (path_text (cs @ [x])) i" "D i = None"
    and n: "0 < n" "n < length buffer" "r < 11" "r * 4096 + n \<le> 12 * 4096"
    by (auto simp: allowed_def)
  have d: "dirs_ok d D" using ok by (simp add: session_ok_def)
  have b: "blocks_of_all (Write cs x r buffer n # h) = ?need + blocks_of_all h"
    by (simp add: blocks_of_all_def blocks_taken_def)
  have z: "r * 4096 mod 4096 = 0" "blocks_needed (r * 4096 mod 4096) n = ?need" using blocks_needed_start [OF n(1)] by simp_all
  have "64288 \<le> free_count d + blocks_of_all h" using ok by (simp add: session_ok_def)
  then have "blocks_needed (r * 4096 mod 4096) n \<le> free_count d" using f unfolding fits_def b z(2) by linarith
  from write_at [OF d i n(1,2) _ n(4) this] n(3) z obtain d' where
    run: "fs_write d (path_text (cs @ [x])) buffer n (int (r * 4096)) = Some (int n, d')"
    and w: "written_at d D i (r * 4096) buffer n d'" by auto
  then have d': "dirs_ok d' D" "\<forall>q m. names d D q m \<longrightarrow> names d' D q m" "\<forall>m < INODES. inode_used d' m = inode_used d m"
    "free_count d \<le> free_count d' + ?need"
    unfolding written_at_def z(2) by blast+
  have "inodes_used d' = inodes_used d"
    unfolding inodes_used_def by (rule arg_cong [where f = card]) (use d'(3) in auto)
  then have "inodes_used d' \<le> 1 + length (Write cs x r buffer n # h)" using ok by (simp add: session_ok_def)
  moreover have "64288 \<le> free_count d' + blocks_of_all (Write cs x r buffer n # h)"
    using ok d'(4) unfolding b session_ok_def by linarith
  moreover have "\<forall>c \<in> set (Write cs x r buffer n # h). \<forall>p. made c = Some p \<longrightarrow> (\<exists>k. names d' D p k)"
    using ok d'(2) by (fastforce simp: session_ok_def made_def)
  ultimately show ?thesis using d'(1) run by (simp add: session_ok_def run_fs_def)
qed

lemma session_start:
  assumes "mkfs e stack3 stack2 d0 = Some (0, d)"
  shows "session_ok [] d [4 \<mapsto> 0]"
proof -
  from mkfs_spec [of e stack3 stack2 d0] assms have
    ok: "dirs_ok d [4 \<mapsto> 0]" and iu: "\<forall>m < MAP_BITS. inode_used d m \<longleftrightarrow> m = 4" and du: "\<forall>m < CLEARED. data_used d m \<longleftrightarrow> m < 4"
    and dh: "\<forall>m < CLEARED. \<not> data_used d (MAP_BITS + m)"
    by auto
  have "{m. m < INODES \<and> inode_used d m} = {4}" using iu by (auto simp: INODES_def MAP_BITS_def)
  with mkfs_free_count [OF du dh] ok show ?thesis by (simp add: session_ok_def inodes_used_def blocks_of_all_def)
qed

lemma session_session_ok: "session e h d D \<Longrightarrow> fits h \<Longrightarrow> session_ok h d D"
proof (induction rule: session.induct)
  case (start stack3 stack2 d0 d)
  show ?case by (rule session_start [OF start.hyps])
next
  case (new_file h d D cs x i N d')
  from new_file.IH [OF fits_tl [OF new_file.prems]] have ok: "session_ok h d D" .
  from create_progress(1) [OF ok fits_tl [OF new_file.prems] new_file.hyps(2), of e] new_file.hyps(3) obtain k p where
    "k < INODES" "\<not> inode_used d k" "created e REGMODE d i N x k p d'" by auto
  then show ?case by (rule session_ok_create [OF ok new_file.hyps(2) _ _ _ disjI1 [OF refl]]) (simp_all add: blocks_taken_def made_def)
next
  case (new_dir h d D cs x i N k d')
  from new_dir.IH [OF fits_tl [OF new_dir.prems]] have ok: "session_ok h d D" .
  from create_progress(2) [OF ok fits_tl [OF new_dir.prems] new_dir.hyps(2), of e] new_dir.hyps(3,4) obtain p where
    "k < INODES" "\<not> inode_used d k" "created e DIRMODE d i N x k p d'" by auto
  then show ?case by (rule session_ok_create [OF ok new_dir.hyps(2) _ _ _ disjI2 [OF refl]]) (simp_all add: blocks_taken_def made_def)
next
  case (rewrite h d D cs x r buffer n d')
  from rewrite.IH [OF fits_tl [OF rewrite.prems]] have ok: "session_ok h d D" .
  from write_progress [OF ok rewrite.prems rewrite.hyps(2), of e] rewrite.hyps(3) show ?case by simp
qed

section \<open>The properties\<close>



section \<open>Filling the root directory\<close>

lemma run_all_append:
  "run_all e (cs @ cs') d = do { (rs, d1) \<leftarrow> run_all e cs d; (rs', d2) \<leftarrow> run_all e cs' d1; Some (rs @ rs', d2) }"
  by (induction cs arbitrary: d) (auto split: bind_splits simp: case_prod_beta)

text \<open>Names as \<open>readdir\<close> can show them.\<close>

definition plain_name :: "byte list \<Rightarrow> bool" where
  "plain_name x \<longleftrightarrow> good_name x \<and> length x < 28 \<and> 0 \<notin> set x"

lemma plain_pad28:
  assumes "plain_name x"
  shows "0 \<in> set (pad28 x)" and "takeWhile (\<lambda>b. b \<noteq> 0) (pad28 x) = x"
proof -
  show "0 \<in> set (pad28 x)" using assms by (auto simp: plain_name_def pad28_def)
  have "\<forall>b \<in> set x. b \<noteq> 0" using assms by (auto simp: plain_name_def)
  then show "takeWhile (\<lambda>b. b \<noteq> 0) (pad28 x) = x" by (simp add: pad28_def takeWhile_append2)
qed

lemma blocks_of_mknods: "blocks_of_all (rev (map (Mknod cs) ns)) = length ns"
  by (induction ns) (simp_all add: blocks_of_all_def blocks_taken_def)

lemma create_all:
  assumes "session e [] d0 [4 \<mapsto> 0]" and "distinct ns" and "\<forall>x \<in> set ns. plain_name x" and "length ns < 12 * 128"
  shows "\<exists>d. run_all e (map (Mknod []) ns) d0 = Some (replicate (length ns) 0, d)
    \<and> session e (rev (map (Mknod []) ns)) d [4 \<mapsto> length ns]
    \<and> map file_name (dir_entries d (inode_of d 4) (length ns)) = map pad28 ns"
  using assms(2-4)
proof (induction ns rule: rev_induct)
  case Nil
  show ?case by (intro exI [of _ d0]) (simp add: dir_entries_def assms(1) del: fun_upd_apply)
next
  case (snoc x ns)
  then obtain d where run: "run_all e (map (Mknod []) ns) d0 = Some (replicate (length ns) 0, d)"
    and s: "session e (rev (map (Mknod []) ns)) d [4 \<mapsto> length ns]"
    and ents: "map file_name (dir_entries d (inode_of d 4) (length ns)) = map pad28 ns"
    by (auto simp del: fun_upd_apply)
  have "pad28 x \<notin> set (map file_name (dir_entries d (inode_of d 4) (length ns)))"
  proof
    assume "pad28 x \<in> set (map file_name (dir_entries d (inode_of d 4) (length ns)))"
    then obtain y where y: "y \<in> set ns" "pad28 x = pad28 y" unfolding ents by auto
    with snoc.prems(2) have "plain_name x" "plain_name y" by auto
    then have "x = y" using y(2) by (metis plain_pad28(2))
    with y(1) snoc.prems(1) show False by simp
  qed
  then have "lookup_name d (inode_of d 4) (length ns) x = None"
    unfolding lookup_name_def find_None_iff set_map by (metis image_eqI)
  then have new: "new_in d [4 \<mapsto> length ns] [] x 4 (length ns)"
    using snoc.prems(2,3) reaches.here [of "[4 \<mapsto> length ns]" 4 "length ns" d] by (simp add: new_in_def plain_name_def)
  have f: "fits (rev (map (Mknod []) ns))" using snoc.prems(3) by (simp add: fits_def blocks_of_mknods)
  from create_progress(1) [OF session_session_ok [OF s f] f new, of e] obtain k p d' where
    step: "run_fs e (Mknod [] x) d = Some (0, d')" and c: "created e REGMODE d 4 (length ns) x k p d'" by blast
  have "session e (rev (map (Mknod []) (ns @ [x]))) d' [4 \<mapsto> length (ns @ [x])]"
    using session.new_file [OF s new step] by simp
  moreover have "run_all e (map (Mknod []) (ns @ [x])) d0 = Some (replicate (length (ns @ [x])) 0, d')"
    using run step by (simp add: run_all_append replicate_append_same)
  moreover have "map file_name (dir_entries d' (inode_of d' 4) (length (ns @ [x]))) = map pad28 (ns @ [x])"
    using c ents by (simp add: created_def)
  ultimately show ?case by blast
qed

text \<open>
  C13: After \<open>mkfs\<close> on any device, fewer than 1536 files of different names can be made in the root directory one
  after the other: every \<open>mknod\<close> returns 0, and \<open>readdir\<close> lists exactly these names in the order they were made.
\<close>
theorem mkfs_then_create_all:
  assumes "distinct ns" and "\<forall>x \<in> set ns. plain_name x" and "length ns < 12 * 128"
  shows "\<exists>d0 d. mkfs e stack3 stack2 dev = Some (0, d0)
    \<and> run_all e (map (Mknod []) ns) d0 = Some (replicate (length ns) 0, d)
    \<and> fs_readdir d (dir_text []) = Some (0, ns)"
proof -
  from mkfs_spec [of e stack3 stack2 dev] obtain d0 where m: "mkfs e stack3 stack2 dev = Some (0, d0)" by blast
  from create_all [OF session.start [OF m] assms] obtain d where
    run: "run_all e (map (Mknod []) ns) d0 = Some (replicate (length ns) 0, d)"
    and s: "session e (rev (map (Mknod []) ns)) d [4 \<mapsto> length ns]"
    and ents: "map file_name (dir_entries d (inode_of d 4) (length ns)) = map pad28 ns" by blast
  have "dirs_ok d [4 \<mapsto> length ns]"
    using session_session_ok [OF s] assms(3) by (simp add: session_ok_def fits_def blocks_of_mknods)
  moreover have "reaches d [4 \<mapsto> length ns] 4 [] 4" by (rule reaches.here) simp
  moreover have "\<forall>x \<in> set (map file_name (dir_entries d (inode_of d 4) (length ns))). 0 \<in> set x"
    unfolding ents using assms(2) plain_pad28(1) by auto
  ultimately have "fs_readdir d (dir_text []) = Some (0, map (takeWhile (\<lambda>b. b \<noteq> 0)) (map file_name (dir_entries d (inode_of d 4) (length ns))))"
    using readdir_file_names [of d "[4 \<mapsto> length ns]" "[]" 4 "length ns"] assms(3) by (simp add: comp_def)
  also have "map (takeWhile (\<lambda>b. b \<noteq> 0)) (map file_name (dir_entries d (inode_of d 4) (length ns))) = ns"
    unfolding ents using assms(2) plain_pad28(2) by (simp add: map_idI)
  finally show ?thesis using m run by blast
qed

section \<open>An example history\<close>





lemma mkfs_then_create_all_witness:
  "\<exists>d0 d. mkfs sample_env zero_block zero_block blank_disk = Some (0, d0)
    \<and> run_all sample_env (map (Mknod []) [[97], [98], [99, 100]]) d0 = Some ([0, 0, 0], d)
    \<and> fs_readdir d (dir_text []) = Some (0, [[97], [98], [99, 100]])"
  using mkfs_then_create_all [of "[[97], [98], [99, 100]]" sample_env zero_block zero_block blank_disk]
  by (auto simp: plain_name_def good_name_def numeral_3_eq_3)

end
