(* ===== verification/VfsState.thy ===== *)
theory VfsState
  imports Layout
begin

text \<open>
  The shell file system of \<open>5-vfs/vfs.c\<close>: one array \<open>fdisk\<close> of 1 MB with a byte \<open>'$'\<close>, a table of one flag
  byte per block of 1024 bytes, a table of 800 file control blocks (\<open>FCB\<close>) of 128 bytes, and the data blocks.
  This theory has the data and the primitives; everything is read from and written to the bytes of
  \<open>fdisk\<close>, as the pointers of the code do.
\<close>

section \<open>File control blocks\<close>

text \<open>
  \<open>data_time\<close> are the 56 bytes of \<open>struct tm\<close>; \<open>fcb_pad\<close> and \<open>fcb_tail\<close> are the bytes of padding. The fields
  \<open>id\<close>, \<open>size\<close>, \<open>record\<close> and \<open>length\<close> are \<open>fcb_id\<close>, \<open>fcb_size\<close>, \<open>fcb_record\<close> and \<open>fcb_length\<close> here.
\<close>

record FCB =
  fcb_id :: "32 word"
  filename :: "byte list"
  isdir :: byte
  fcb_pad :: "byte list"
  data_time :: "byte list"
  firstblock :: "32 word"
  fcb_size :: "32 word"
  fcb_record :: "32 word list"
  fcb_length :: "32 word"
  fcb_tail :: "byte list"

definition wf_fcb :: "FCB \<Rightarrow> bool" where
  "wf_fcb f \<longleftrightarrow> length (filename f) = 8 \<and> length (fcb_pad f) = 3 \<and> length (data_time f) = 56
     \<and> length (fcb_record f) = 10 \<and> length (fcb_tail f) = 4"

definition encode_fcb :: "FCB \<Rightarrow> byte list" where
  "encode_fcb f = le_bytes 4 (fcb_id f) @ filename f @ [isdir f] @ fcb_pad f @ data_time f
     @ le_bytes 4 (firstblock f) @ le_bytes 4 (fcb_size f) @ words_bytes (fcb_record f)
     @ le_bytes 4 (fcb_length f) @ fcb_tail f"

definition decode_fcb :: "byte list \<Rightarrow> FCB" where
  "decode_fcb bs = \<lparr>
     fcb_id = le_word (take 4 bs),
     filename = take 8 (drop 4 bs),
     isdir = bs ! 12,
     fcb_pad = take 3 (drop 13 bs),
     data_time = take 56 (drop 16 bs),
     firstblock = le_word (take 4 (drop 72 bs)),
     fcb_size = le_word (take 4 (drop 76 bs)),
     fcb_record = bytes_words 10 (drop 80 bs),
     fcb_length = le_word (take 4 (drop 120 bs)),
     fcb_tail = take 4 (drop 124 bs)\<rparr>"

lemma length_encode_fcb [simp]: "wf_fcb f \<Longrightarrow> length (encode_fcb f) = 128"
  by (simp add: encode_fcb_def wf_fcb_def)

lemma wf_decode_fcb [simp]: "length bs = 128 \<Longrightarrow> wf_fcb (decode_fcb bs)"
  by (simp add: decode_fcb_def wf_fcb_def)

lemma decode_encode_fcb [simp]: "wf_fcb f \<Longrightarrow> decode_fcb (encode_fcb f) = f"
  by (simp add: decode_fcb_def encode_fcb_def wf_fcb_def nth_append)

section \<open>The disk array\<close>

definition DISK_SIZE :: nat where "DISK_SIZE = 1048576"
definition MAXFILENUM :: nat where "MAXFILENUM = 800"

text \<open>
  A pointer \<open>fcb + i\<close> is its index \<open>i\<close>, which may be negative: \<open>fcb + (-1)\<close> lies in the flag table. The whole
  structure has to lie within \<open>fdisk\<close>.
\<close>

definition fcb_valid :: "int \<Rightarrow> bool" where
  "fcb_valid i \<longleftrightarrow> 0 \<le> 2048 + 128 * i \<and> 2048 + 128 * i + 128 \<le> int DISK_SIZE"

definition fcb_off :: "int \<Rightarrow> nat" where "fcb_off i = nat (2048 + 128 * i)"

definition get_fcb :: "buf \<Rightarrow> int \<Rightarrow> FCB" where
  "get_fcb d i = decode_fcb (load_bytes d (fcb_off i) 128)"

definition put_fcb :: "buf \<Rightarrow> int \<Rightarrow> FCB \<Rightarrow> buf" where
  "put_fcb d i f = store_bytes d (fcb_off i) (encode_fcb f)"

definition fcb_at :: "buf \<Rightarrow> int \<Rightarrow> FCB option" where
  "fcb_at d i = (if fcb_valid i then Some (get_fcb d i) else None)"

definition set_fcb :: "buf \<Rightarrow> int \<Rightarrow> FCB \<Rightarrow> buf option" where
  "set_fcb d i f = (if fcb_valid i then Some (put_fcb d i f) else None)"

lemma wf_get_fcb [simp]: "wf_fcb (get_fcb d i)"
  by (simp add: get_fcb_def)

lemma fcb_off_apart:
  assumes "fcb_valid i" and "fcb_valid j" and "i \<noteq> j"
  shows "fcb_off i + 128 \<le> fcb_off j \<or> fcb_off j + 128 \<le> fcb_off i"
  using assms by (auto simp: fcb_valid_def fcb_off_def)

interpretation fcb_array: array_store get_fcb put_fcb fcb_valid wf_fcb
proof unfold_locales
  fix i j v and m :: buf
  assume v: "fcb_valid i" "wf_fcb v"
  then show "get_fcb (put_fcb m i v) i = v"
    by (simp add: get_fcb_def put_fcb_def load_store_same)
  assume "fcb_valid j" "i \<noteq> j"
  with v fcb_off_apart [of i j] show "get_fcb (put_fcb m i v) j = get_fcb m j"
    by (simp add: get_fcb_def put_fcb_def load_store_disjoint)
qed

section \<open>Strings\<close>

text \<open>A word read by \<open>scanf("%s")\<close> into an array of 20 bytes.\<close>

definition word_ok :: "byte list \<Rightarrow> bool" where
  "word_ok w \<longleftrightarrow> w \<noteq> [] \<and> length w < 20 \<and> 0 \<notin> set w"

text \<open>
  \<open>strcmp\<close> of the file name of an FCB and a word: it stops at the first difference, so it reads at most as
  many bytes as the word has, and one more.
\<close>

definition strcmp_eq :: "buf \<Rightarrow> int \<Rightarrow> byte list \<Rightarrow> bool option" where
  "strcmp_eq d i w =
     (if fcb_valid i then Some (load_bytes d (fcb_off i + 4) (length w + 1) = w @ [0]) else None)"

text \<open>\<open>strcpy\<close> of a string that fits the eight bytes of \<open>filename\<close>.\<close>

definition strcpy_name :: "byte list \<Rightarrow> byte list \<Rightarrow> byte list" where
  "strcpy_name old w = w @ [0] @ drop (length w + 1) old"

lemma length_strcpy_name [simp]: "length w < 8 \<Longrightarrow> length old = 8 \<Longrightarrow> length (strcpy_name old w) = 8"
  by (simp add: strcpy_name_def)

section \<open>The state\<close>

text \<open>
  \<open>cur_dir\<close> is the index of the FCB of the current directory (\<open>root\<close> is always FCB 0). \<open>opened\<close> is the open
  table with its \<open>opennum\<close> entries in use. The host file \<open>VirtualDisk.txt\<close> has \<open>file_len\<close> bytes, those of
  \<open>file_bytes\<close>; \<open>fp_open\<close> says whether the global \<open>fp\<close> is an open stream. The host lets the file be opened.
\<close>

record OPENTABLE =
  open_name :: "byte list"
  open_time :: "byte list"
  open_size :: "32 word"

record vfs =
  fdisk :: buf
  cur_dir :: int
  opened :: "OPENTABLE list"
  opennum :: nat
  file_exists :: bool
  file_len :: nat
  file_bytes :: buf
  fp_open :: bool

text \<open>\<open>fopen(..., "wb+")\<close> empties the file; \<open>fwrite\<close> of \<open>n\<close> blocks from the start.\<close>

definition open_trunc :: "vfs \<Rightarrow> vfs" where
  "open_trunc s = s\<lparr>file_exists := True, file_len := 0, fp_open := True\<rparr>"

definition fwrite_blocks :: "nat \<Rightarrow> vfs \<Rightarrow> vfs" where
  "fwrite_blocks n s = s\<lparr>file_len := 1024 * n, file_bytes := fdisk s\<rparr>"

definition close_fp :: "vfs \<Rightarrow> vfs" where
  "close_fp s = s\<lparr>fp_open := False\<rparr>"

abbreviation (input) END_OF_TABLE :: "32 word" where "END_OF_TABLE \<equiv> - 1"
abbreviation (input) FREE :: byte where "FREE \<equiv> 48"
abbreviation (input) USED :: byte where "USED \<equiv> 49"

text \<open>The first FCB from \<open>start\<close> on whose id is -1, or 800.\<close>

definition find_fcb :: "buf \<Rightarrow> nat \<Rightarrow> nat" where
  "find_fcb d start =
     (case List.find (\<lambda>i. fcb_id (get_fcb d (int i)) = - 1) [start..<MAXFILENUM] of
        Some i \<Rightarrow> i | None \<Rightarrow> MAXFILENUM)"

section \<open>Formatting and loading\<close>

definition clear_fcb :: "byte list \<Rightarrow> FCB \<Rightarrow> FCB" where
  "clear_fcb tm f = f\<lparr>fcb_id := - 1, filename := strcpy_name (filename f) [], isdir := 0, data_time := tm,
     firstblock := 0, fcb_size := 0, fcb_length := 0, fcb_record := replicate 10 (- 1)\<rparr>"

definition dir_fcb :: "byte list \<Rightarrow> nat \<Rightarrow> byte list \<Rightarrow> 32 word list \<Rightarrow> FCB \<Rightarrow> FCB" where
  "dir_fcb tm i name rs f = f\<lparr>fcb_id := of_nat i, filename := strcpy_name (filename f) name, isdir := 1,
     data_time := tm, firstblock := 0, fcb_size := 0, fcb_length := of_nat (length rs),
     fcb_record := rs @ drop (length rs) (fcb_record f)\<rparr>"

definition change_fcb :: "(FCB \<Rightarrow> FCB) \<Rightarrow> nat \<Rightarrow> buf \<Rightarrow> buf" where
  "change_fcb g i d = put_fcb d (int i) (g (get_fcb d (int i)))"

text \<open>\<open>mFormat\<close> leaves \<open>fp\<close> open. \<open>tm\<close> is the result of \<open>localtime\<close>.\<close>

definition blank_bytes :: buf where
  "blank_bytes = (\<lambda>i. if i = 0 then 36
      else if 1024 \<le> i \<and> i < 1024 + 102 then USED
      else if 1024 + 102 \<le> i \<and> i < 2048 then FREE else 95)"

definition mFormat :: "byte list \<Rightarrow> vfs \<Rightarrow> vfs" where
  "mFormat tm s =
     (let d1 = fold (change_fcb (clear_fcb tm)) [0..<MAXFILENUM] blank_bytes;
          d2 = change_fcb (dir_fcb tm 0 [92] [1, 2]) 0 d1;
          d3 = change_fcb (dir_fcb tm 1 [46] [0]) 1 d2;
          d4 = change_fcb (dir_fcb tm 2 [46, 46] [0]) 2 d3
      in fwrite_blocks 1024 ((open_trunc s)\<lparr>fdisk := d4, cur_dir := 0\<rparr>))"

definition InitSystem :: "byte list \<Rightarrow> vfs \<Rightarrow> vfs" where "InitSystem = mFormat"

text \<open>A file shorter than the disk leaves the rest of the allocated memory as it is: \<open>junk\<close>.\<close>

definition LoadSys :: "byte list \<Rightarrow> buf \<Rightarrow> vfs \<Rightarrow> vfs" where
  "LoadSys tm junk s =
     (let s0 = s\<lparr>opennum := 0\<rparr>
      in if \<not> file_exists s then InitSystem tm s0
         else let d = (\<lambda>i. if i < file_len s then file_bytes s i else junk i);
                  s1 = s0\<lparr>fdisk := d, cur_dir := 0, fp_open := False\<rparr>
              in if d 0 \<noteq> 36 then mFormat tm s1 else s1)"

definition FreeFCB :: "FCB \<Rightarrow> FCB" where
  "FreeFCB f = f\<lparr>fcb_id := - 1, filename := strcpy_name (filename f) [], firstblock := 0, fcb_size := 0,
     fcb_length := 0, fcb_record := replicate 10 (- 1)\<rparr>"

end
