(* ===== verification/VfsOps.thy ===== *)
theory VfsOps
  imports VfsState
begin

text \<open>
  The commands of \<open>vfs.c\<close>. Each takes the words \<open>scanf\<close> reads, the current time where it is stored, and the
  state, and gives the return code and the new state; a step without defined behaviour in C
  (a word too long for its array, an index out of an array, an uninitialised pointer) is \<^term>\<open>None\<close>.
\<close>

section \<open>Helpers\<close>

text \<open>Changing a field of an FCB in place.\<close>

definition update_fcb :: "int \<Rightarrow> (FCB \<Rightarrow> FCB option) \<Rightarrow> buf \<Rightarrow> buf option" where
  "update_fcb i g d = do { f \<leftarrow> fcb_at d i; f' \<leftarrow> g f; set_fcb d i f' }"

text \<open>\<open>cur->record[cur->length] = i\<close>, and one entry more.\<close>

definition add_record :: "byte list \<Rightarrow> nat \<Rightarrow> FCB \<Rightarrow> FCB option" where
  "add_record tm i f = do {
     rs \<leftarrow> array_set (fcb_record f) (sint (fcb_length f)) (of_nat i);
     Some (f\<lparr>fcb_record := rs, fcb_length := fcb_length f + 1, data_time := tm\<rparr>)
   }"

text \<open>
  The loop of \<open>mOpen\<close>, \<open>mRead\<close>, \<open>mWrite\<close> and \<open>mCp\<close> over the records of the current directory; its state is
  \<open>temp\<close>, not set before the first record that is not -1. The result is the FCB of a file of that name,
  or \<open>Some None\<close> if there is none (or a directory has the name); if every record is -1, \<open>temp\<close> is read
  without having been set.
\<close>

definition find_file :: "buf \<Rightarrow> 32 word list \<Rightarrow> byte list \<Rightarrow> int option option" where
  "find_file d rs name = after_loop
     (for_loop 0 10 (\<lambda>i temp.
        if rs ! i = - 1 then Some (Next temp)
        else do {
          eq \<leftarrow> strcmp_eq d (sint (rs ! i)) name;
          Some (if eq then Return (if isdir (get_fcb d (sint (rs ! i))) = 1 then None else Some (sint (rs ! i)))
                else Next (Some (sint (rs ! i))))
        }) (None :: int option))
     (\<lambda>temp. if temp = None then None else Some None)"

text \<open>
  The loop of \<open>mWrite\<close> and \<open>mCp\<close> that takes \<open>n\<close> free blocks: each is marked as used at once. Its state is the
  disk and the numbers found.
\<close>

definition take_blocks :: "nat \<Rightarrow> buf \<Rightarrow> (buf \<times> nat list) option" where
  "take_blocks n d = after_loop
     (for_loop 0 1024 (\<lambda>i (d, found).
        Some (if d (1024 + i) = FREE
              then (let found' = found @ [i]; d' = d(1024 + i := USED)
                    in if length found' = n then Break (d', found') else Next (d', found'))
              else Next (d, found))) (d, []))
     Some"

text \<open>\<open>block[10]\<close> after the loop: the numbers found over the initial values.\<close>

definition block_array :: "int list \<Rightarrow> nat list \<Rightarrow> int list" where
  "block_array ini found = map int found @ drop (length found) ini"

definition disk_char :: "buf \<Rightarrow> int \<Rightarrow> byte option" where
  "disk_char d a = (if 0 \<le> a \<and> a < int DISK_SIZE then Some (d (nat a)) else None)"

definition set_disk_char :: "buf \<Rightarrow> int \<Rightarrow> byte \<Rightarrow> buf option" where
  "set_disk_char d a c = (if 0 \<le> a \<and> a < int DISK_SIZE then Some (d(nat a := c)) else None)"

text \<open>Storing \<open>n\<close> bytes of \<open>content\<close> at the start of block \<open>k\<close>, one by one.\<close>

definition copy_to_block :: "int \<Rightarrow> (nat \<Rightarrow> byte) \<Rightarrow> nat \<Rightarrow> buf \<Rightarrow> buf option" where
  "copy_to_block k content n d = after_loop
     (for_loop 0 n (\<lambda>j d. map_option Next (set_disk_char d (1024 * k + int j) (content j))) d) Some"

section \<open>Directories\<close>

text \<open>
  The steps of \<open>mMkdir\<close> on single FCBs: the fields of a directory, its empty records, the FCBs of \<open>"."\<close> and
  \<open>".."\<close> with the one record \<open>r\<close>, and the records of these two.
\<close>

definition name_dir :: "byte list \<Rightarrow> nat \<Rightarrow> byte list \<Rightarrow> 32 word \<Rightarrow> FCB \<Rightarrow> FCB" where
  "name_dir tm i name len f = f\<lparr>fcb_id := of_nat i, filename := strcpy_name (filename f) name, isdir := 1,
     data_time := tm, firstblock := 0, fcb_size := 0, fcb_length := len\<rparr>"

definition clear_records :: "FCB \<Rightarrow> FCB" where
  "clear_records f = f\<lparr>fcb_record := take 2 (fcb_record f) @ replicate 8 (- 1)\<rparr>"

definition dot_fcb :: "byte list \<Rightarrow> nat \<Rightarrow> byte list \<Rightarrow> 32 word \<Rightarrow> FCB \<Rightarrow> FCB" where
  "dot_fcb tm i name r f = (name_dir tm i name 1 f)\<lparr>fcb_record := r # replicate 9 (- 1)\<rparr>"

definition set_dots :: "nat \<Rightarrow> nat \<Rightarrow> FCB \<Rightarrow> FCB" where
  "set_dots a b f = f\<lparr>fcb_record := (fcb_record f)[0 := of_nat a, 1 := of_nat b]\<rparr>"

text \<open>
  \<open>mMkdir\<close>. The test for a conflict looks at FCB number \<open>cur->length\<close> of the table, \<open>cur->length\<close> times. The host
  file is emptied first, also when the command then fails.
\<close>

definition mMkdir :: "byte list \<Rightarrow> byte list \<Rightarrow> vfs \<Rightarrow> (int \<times> vfs) option" where
  "mMkdir tm dirname s0 = (let s = open_trunc s0; d = fdisk s in
     if \<not> word_ok dirname then None else do {
       cur \<leftarrow> fcb_at d (cur_dir s);
       let len = sint (fcb_length cur);
       if len = 10 then Some (100, s)
       else do {
         conflict \<leftarrow> (if 0 < len then strcmp_eq d len dirname else Some False);
         if conflict then Some (101, s)
         else if 7 < length dirname then None
         else do {
           let i = find_fcb d 0;
           d1 \<leftarrow> update_fcb (int i) (\<lambda>f. Some (name_dir tm i dirname 2 f)) d;
           let a = find_fcb d1 i;
           d2 \<leftarrow> update_fcb (int i) (\<lambda>f. Some (clear_records f)) d1;
           d3 \<leftarrow> update_fcb (int a) (\<lambda>f. Some (dot_fcb tm a [46] (of_nat i) f)) d2;
           let b = find_fcb d3 a;
           d4 \<leftarrow> update_fcb (int b) (\<lambda>f. Some (dot_fcb tm b [46, 46] (fcb_id (get_fcb d3 (cur_dir s))) f)) d3;
           d5 \<leftarrow> update_fcb (int i) (\<lambda>f. Some (set_dots a b f)) d4;
           d6 \<leftarrow> update_fcb (cur_dir s) (add_record tm i) d5;
           Some (1, close_fp (fwrite_blocks 1024 (s\<lparr>fdisk := d6\<rparr>)))
         }
       }
     })"

text \<open>What \<open>mLs\<close> prints for each record: its FCB number, name, whether it is a directory, size and time.\<close>

definition mLs :: "vfs \<Rightarrow> (int \<times> byte list \<times> bool \<times> 32 word \<times> byte list) list option" where
  "mLs s = do {
     cur \<leftarrow> fcb_at (fdisk s) (cur_dir s);
     after_loop (for_loop 0 10 (\<lambda>i out.
       let pos = sint (fcb_record cur ! i)
       in if pos \<ge> 0
          then do {
            temp \<leftarrow> fcb_at (fdisk s) pos;
            Some (Next (out @ [(pos, takeWhile (\<lambda>c. c \<noteq> 0) (drop 4 (encode_fcb temp)), isdir temp \<noteq> 0,
              fcb_size temp, data_time temp)]))
          }
          else Some (Next out)) []) Some
   }"

text \<open>
  \<open>mCd\<close>. A record of -1 is looked at like any other, as the FCB before the table. For \<open>".."\<close> the code prints
  \<open>cur->record[i]\<close> with \<open>i\<close> not set: there is no defined run, and what would come behind it is not modelled.
\<close>

definition mCd :: "byte list \<Rightarrow> vfs \<Rightarrow> (int \<times> vfs) option" where
  "mCd dir s =
     (if \<not> word_ok dir then None
      else if dir = [92] then Some (1, s\<lparr>cur_dir := 0\<rparr>)
      else if dir = [46] then Some (1, s)
      else if dir = [46, 46] then None
      else do {
        cur \<leftarrow> fcb_at (fdisk s) (cur_dir s);
        after_loop
          (for_loop 2 10 (\<lambda>i _. do {
             eq \<leftarrow> strcmp_eq (fdisk s) (sint (fcb_record cur ! i)) dir;
             Some (if eq then Return
                     (if isdir (get_fcb (fdisk s) (sint (fcb_record cur ! i))) = 0 then (104, s)
                      else (1, s\<lparr>cur_dir := sint (fcb_record cur ! i)\<rparr>))
                   else Next ())
           }) ())
          (\<lambda>_. Some (104, s))
      })"

section \<open>Files\<close>

text \<open>\<open>mMkfile\<close> writes the first 20 blocks of the disk to the emptied host file. It does not touch \<open>record\<close>.\<close>

definition mMkfile :: "byte list \<Rightarrow> byte list \<Rightarrow> vfs \<Rightarrow> (int \<times> vfs) option" where
  "mMkfile tm name s0 = (let s = open_trunc s0; d = fdisk s in
     if \<not> word_ok name then None else do {
       cur \<leftarrow> fcb_at d (cur_dir s);
       if sint (fcb_length cur) = 10 then Some (103, s)
       else do {
         let i = find_fcb d 0;
         if i = MAXFILENUM then Some (99, s)
         else if 7 < length name then None
         else do {
           d1 \<leftarrow> update_fcb (int i) (\<lambda>f. Some (f\<lparr>fcb_id := of_nat i,
             filename := strcpy_name (filename f) name, isdir := 0, data_time := tm, firstblock := 0,
             fcb_size := 0, fcb_length := 0\<rparr>)) d;
           d2 \<leftarrow> update_fcb (cur_dir s) (add_record tm i) d1;
           Some (1, close_fp (fwrite_blocks 20 (s\<lparr>fdisk := d2\<rparr>)))
         }
       }
     })"

definition mOpen :: "byte list \<Rightarrow> byte list \<Rightarrow> vfs \<Rightarrow> (int \<times> vfs) option" where
  "mOpen tm name s =
     (if \<not> word_ok name then None else do {
        cur \<leftarrow> fcb_at (fdisk s) (cur_dir s);
        found \<leftarrow> find_file (fdisk s) (fcb_record cur) name;
        case found of
          None \<Rightarrow> Some (111, s)
        | Some temp \<Rightarrow>
            if opennum s = 5 then Some (113, s)
            else if \<exists>e \<in> set (take (opennum s) (opened s)). open_name e = name then Some (112, s)
            else if length (opened s) \<le> opennum s then None
            else do {
              f \<leftarrow> fcb_at (fdisk s) temp;
              Some (1, s\<lparr>opened := (opened s)[opennum s :=
                  \<lparr>open_name = name, open_time = tm, open_size = fcb_size f\<rparr>],
                opennum := opennum s + 1,
                fdisk := put_fcb (fdisk s) temp (f\<lparr>data_time := tm\<rparr>)\<rparr>)
            }
      })"

text \<open>The entries behind the closed one move down by one.\<close>

definition mClose :: "byte list \<Rightarrow> vfs \<Rightarrow> (int \<times> vfs) option" where
  "mClose name s =
     (if \<not> word_ok name then None
      else case List.find (\<lambda>i. open_name (opened s ! i) = name) [0..<opennum s] of
             None \<Rightarrow> Some (115, s)
           | Some i \<Rightarrow> Some (1, s\<lparr>
               opened := fold (\<lambda>k os. os[k := os ! (k + 1)]) [i..<opennum s - 1] (opened s),
               opennum := opennum s - 1\<rparr>))"

text \<open>
  \<open>mRead\<close> also gives what it prints. \<open>block[10]\<close> holds the first \<open>length\<close> records of the file; only those may
  be read.
\<close>

definition read_chars :: "buf \<Rightarrow> 32 word list \<Rightarrow> int \<Rightarrow> nat \<Rightarrow> byte list option" where
  "read_chars d rs blocknum n = after_loop
     (for_loop 0 n (\<lambda>sizeread out.
        let readingblock = sizeread div 1024
        in if int readingblock < blocknum \<and> readingblock < 10
           then map_option (\<lambda>c. Next (out @ [c]))
                  (disk_char d (1024 * sint (rs ! readingblock) + int (sizeread mod 1024)))
           else None) []) Some"

definition mRead :: "byte list \<Rightarrow> vfs \<Rightarrow> (int \<times> byte list \<times> vfs) option" where
  "mRead name s =
     (if \<not> word_ok name then None else do {
        cur \<leftarrow> fcb_at (fdisk s) (cur_dir s);
        found \<leftarrow> find_file (fdisk s) (fcb_record cur) name;
        case found of
          None \<Rightarrow> Some (108, [], s)
        | Some temp \<Rightarrow> do {
            f \<leftarrow> fcb_at (fdisk s) temp;
            if 10 < sint (fcb_length f) then None
            else do {
              out \<leftarrow> read_chars (fdisk s) (fcb_record f) (sint (fcb_length f)) (unat (fcb_size f));
              Some (1, out, s)
            }
          }
      })"

text \<open>
  \<open>mWrite\<close>: \<open>text\<close> are the characters before \<open>'#'\<close>. They fill \<open>blockcontent[10][1024]\<close>; \<open>count\<close> is the number of
  characters in the last block. The loop that stores them stops when \<open>writenum\<close>, which counts from the
  first block, equals \<open>count\<close>, and \<open>count\<close> becomes the size of the file.
\<close>

definition blockcontent :: "byte list \<Rightarrow> nat \<Rightarrow> nat \<Rightarrow> byte" where
  "blockcontent text i j = (if i * 1024 + j < length text then text ! (i * 1024 + j) else 0)"

definition write_blocks :: "int list \<Rightarrow> (nat \<Rightarrow> nat \<Rightarrow> byte) \<Rightarrow> nat \<Rightarrow> nat \<Rightarrow> buf \<Rightarrow> buf option" where
  "write_blocks block content blocknum count d =
     (if 0 < count
      then copy_to_block (block ! 0) (content 0) count d
      else after_loop (for_loop 0 blocknum
             (\<lambda>i d. map_option Next (copy_to_block (block ! i) (content i) 1024 d)) d) Some)"

definition mWrite :: "byte list \<Rightarrow> byte list \<Rightarrow> byte list \<Rightarrow> vfs \<Rightarrow> (int \<times> vfs) option" where
  "mWrite tm name text0 s0 = (let s = open_trunc s0; d = fdisk s in
     if \<not> word_ok name then None else do {
       cur \<leftarrow> fcb_at d (cur_dir s);
       found \<leftarrow> find_file d (fcb_record cur) name;
       case found of
         None \<Rightarrow> Some (110, s)
       | Some temp \<Rightarrow>
           if 10 * 1024 \<le> length text0 then None
           else do {
             let count = length text0 mod 1024;
             let blocknum = length text0 div 1024 + 1;
             (d1, found) \<leftarrow> take_blocks blocknum d;
             let block = block_array (- 1 # replicate 9 0) found;
             d2 \<leftarrow> write_blocks block (blockcontent text0) blocknum count d1;
             d3 \<leftarrow> update_fcb temp (\<lambda>f. Some (f\<lparr>fcb_size := of_nat count, data_time := tm,
               fcb_record := map word_of_int (take blocknum block) @ replicate (10 - blocknum) (- 1),
               fcb_length := of_nat blocknum\<rparr>)) d2;
             Some (1, close_fp (fwrite_blocks 1024 (s\<lparr>fdisk := d3\<rparr>)))
           }
     })"

text \<open>
  \<open>mCp\<close>. \<open>overflag = 1\<close> in the condition is an assignment: the copying stops after the first block. When the
  source has size 0 the bytes written are the uninitialised \<open>junk\<close> of \<open>blockcontent\<close>. The result of the
  second \<open>fopen\<close> is dropped and \<open>fp\<close> is used as the command before left it: it has to be open.
\<close>

definition name_taken :: "buf \<Rightarrow> 32 word list \<Rightarrow> byte list \<Rightarrow> bool option" where
  "name_taken d rs name = after_loop
     (for_loop 0 10 (\<lambda>i s.
        if rs ! i = - 1 then Some (Next s)
        else map_option (\<lambda>eq. if eq then Return True else Next s) (strcmp_eq d (sint (rs ! i)) name)) ())
     (\<lambda>_. Some False)"

definition mCp :: "byte list \<Rightarrow> buf \<Rightarrow> byte list \<Rightarrow> byte list \<Rightarrow> vfs \<Rightarrow> (int \<times> vfs) option" where
  "mCp tm junk srcfile dstfile s = (let d = fdisk s in
     if \<not> word_ok srcfile \<or> \<not> word_ok dstfile then None else do {
       cur \<leftarrow> fcb_at d (cur_dir s);
       found \<leftarrow> find_file d (fcb_record cur) srcfile;
       case found of
         None \<Rightarrow> Some (116, s)
       | Some tempsrc \<Rightarrow> do {
           taken \<leftarrow> name_taken d (fcb_record cur) dstfile;
           if taken then Some (117, s)
           else do {
             let i = find_fcb d 0;
             if i = MAXFILENUM then Some (99, s)
             else if 7 < length dstfile then None
             else do {
               src \<leftarrow> fcb_at d tempsrc;
               let blocknum = sint (fcb_length src);
               (d0, found) \<leftarrow> (if blocknum = 0 then Some (d, []) else take_blocks (nat blocknum) d);
               let block = block_array (replicate 10 0) found;
               d1 \<leftarrow> update_fcb (int i) (\<lambda>f. Some (f\<lparr>fcb_id := of_nat i,
                 filename := strcpy_name (filename f) dstfile, isdir := 0, data_time := tm, firstblock := 0,
                 fcb_size := fcb_size src, fcb_length := fcb_length src\<rparr>)) d0;
               d2 \<leftarrow> update_fcb (cur_dir s) (add_record tm i) d1;
               if blocknum = 0 then Some (1, s\<lparr>fdisk := d2\<rparr>)
               else if blocknum < 0 \<or> 10 < blocknum \<or> 10 < length found then None
               else do {
                 d3 \<leftarrow> update_fcb (int i) (\<lambda>f. Some (f\<lparr>fcb_record :=
                   map word_of_int (take (nat blocknum) block) @ drop (nat blocknum) (fcb_record f)\<rparr>)) d2;
                 let count = sint (fcb_size src);
                 copied \<leftarrow> read_chars d3 (fcb_record (get_fcb d3 tempsrc)) 10 (nat count);
                 let content = (\<lambda>j. if j < length copied then copied ! j else junk j);
                 d4 \<leftarrow> copy_to_block (block ! 0) content (if count \<le> 0 then 1024 else min (nat count) 1024) d3;
                 if fp_open s then Some (1, close_fp (fwrite_blocks 1024 ((open_trunc s)\<lparr>fdisk := d4\<rparr>)))
                 else None
               }
             }
           }
         }
     })"

text \<open>\<open>mRm\<close> leaves a hole of -1 in the records of the directory and lowers its count.\<close>

definition drop_record :: "nat \<Rightarrow> FCB \<Rightarrow> FCB option" where
  "drop_record i f = Some (f\<lparr>fcb_length := fcb_length f - 1, fcb_record := (fcb_record f)[i := - 1]\<rparr>)"

definition free_flags :: "32 word list \<Rightarrow> buf \<Rightarrow> buf option" where
  "free_flags rs d = after_loop
     (for_loop 0 10 (\<lambda>j d.
        if rs ! j = - 1 then Some (Next d)
        else map_option Next (set_disk_char d (1024 + sint (rs ! j)) FREE)) d) Some"

definition rm_dir :: "int \<Rightarrow> nat \<Rightarrow> int \<Rightarrow> buf \<Rightarrow> buf option" where
  "rm_dir cur i temp d = do {
     d1 \<leftarrow> update_fcb (sint (fcb_record (get_fcb d temp) ! 0)) (\<lambda>g. Some (FreeFCB g)) d;
     d2 \<leftarrow> update_fcb (sint (fcb_record (get_fcb d1 temp) ! 1)) (\<lambda>g. Some (FreeFCB g)) d1;
     d3 \<leftarrow> update_fcb temp (\<lambda>g. Some (FreeFCB g)) d2;
     update_fcb cur (drop_record i) d3
   }"

definition rm_file :: "int \<Rightarrow> nat \<Rightarrow> int \<Rightarrow> buf \<Rightarrow> buf option" where
  "rm_file cur i temp d = do {
     d1 \<leftarrow> free_flags (fcb_record (get_fcb d temp)) d;
     d2 \<leftarrow> update_fcb temp (\<lambda>g. Some (FreeFCB g)) d1;
     update_fcb cur (drop_record i) d2
   }"

definition rm_entry :: "nat \<Rightarrow> int \<Rightarrow> vfs \<Rightarrow> (int \<times> vfs) option" where
  "rm_entry i temp s = (let f = get_fcb (fdisk s) temp in
     if isdir f = 1 \<and> 2 < sint (fcb_length f) then Some (106, s)
     else map_option (\<lambda>d. (1, close_fp (fwrite_blocks 1024 (s\<lparr>fdisk := d\<rparr>))))
       (if isdir f = 1 \<and> sint (fcb_length f) = 2 then rm_dir (cur_dir s) i temp (fdisk s)
        else rm_file (cur_dir s) i temp (fdisk s)))"

definition mRm :: "byte list \<Rightarrow> vfs \<Rightarrow> (int \<times> vfs) option" where
  "mRm name s0 = (let s = open_trunc s0 in
     if \<not> word_ok name then None else do {
       cur \<leftarrow> fcb_at (fdisk s) (cur_dir s);
       after_loop (for_loop 0 10 (\<lambda>i _. do {
         eq \<leftarrow> strcmp_eq (fdisk s) (sint (fcb_record cur ! i)) name;
         if eq then map_option Return (rm_entry i (sint (fcb_record cur ! i)) s) else Some (Next ())
       }) ()) (\<lambda>_. Some (104, s))
     })"

section \<open>The shell\<close>

definition commands :: "string list" where
  "commands = ['''', ''format'', ''mkdir'', ''ls'', ''cd'', ''mkfile'', ''open'', ''close'', ''read'',
     ''write'', ''cp'', ''rm'', ''exit'', ''backup'']"

definition GetCommandType :: "string \<Rightarrow> nat" where
  "GetCommandType command =
     (case List.find (\<lambda>i. commands ! i = command) [0..<14] of Some i \<Rightarrow> i | None \<Rightarrow> 0)"

text \<open>The message of an error code; codes without one print nothing.\<close>

definition ErrorConfig :: "int \<Rightarrow> string option" where
  "ErrorConfig errorcode =
     (if errorcode = 100 then Some ''Error: the dir is full now, cannot create dir in it!''
      else if errorcode = 101 then Some ''Error: dir exists''
      else if errorcode = 102 then Some ''Error: dir name is invalid''
      else if errorcode = 104 then Some ''Error: please enter the right path!''
      else if errorcode = 105 then Some ''Error: please enter the right filename!''
      else if errorcode = 106 then Some ''Error: cannot delete a directory with items!''
      else if errorcode = 108 then Some ''Error: cannot read, file is not found!''
      else if errorcode = 109 then Some ''Error: cannot read, file is empty!''
      else if errorcode = 110 then Some ''Error: cannot write, file is not found!''
      else if errorcode = 111 then Some ''Error: cannot open file, file not found!''
      else if errorcode = 112 then Some ''Error: cannot open file, file is opened!''
      else if errorcode = 115 then Some ''Error: cannot close file, file is not opened!''
      else None)"

text \<open>
  One round of the loop in \<open>main\<close>. The words and the text are what the command reads; the result is the
  message and the new state, and \<open>None\<close> as state after \<open>exit\<close>. The command is read into an array of 10
  characters. \<open>backup\<close> calls the host's \<open>cp\<close>.
\<close>

definition main_step ::
  "byte list \<Rightarrow> buf \<Rightarrow> string \<Rightarrow> byte list \<Rightarrow> byte list \<Rightarrow> vfs \<Rightarrow> (string option \<times> vfs option) option" where
  "main_step tm junk command w1 w2 s =
     (let run = map_option (\<lambda>(e, s'). (ErrorConfig e, Some s'));
          t = GetCommandType command
      in if 10 \<le> length command then None
         else if t = 1 then Some (None, Some (mFormat tm s))
         else if t = 2 then run (mMkdir tm w1 s)
         else if t = 3 then map_option (\<lambda>_. (None, Some s)) (mLs s)
         else if t = 4 then run (mCd w1 s)
         else if t = 5 then run (mMkfile tm w1 s)
         else if t = 6 then run (mOpen tm w1 s)
         else if t = 7 then run (mClose w1 s)
         else if t = 8 then run (map_option (\<lambda>(e, _, s'). (e, s')) (mRead w1 s))
         else if t = 9 then run (mWrite tm w1 w2 s)
         else if t = 10 then run (mCp tm junk w1 w2 s)
         else if t = 11 then run (mRm w1 s)
         else if t = 12 then Some (None, None)
         else if t = 13 then Some (None, Some s)
         else Some (Some ''order not found'', Some s))"

text \<open>The shell on a finite input: the messages, and the last state.\<close>

fun main_loop ::
  "byte list \<Rightarrow> buf \<Rightarrow> (string \<times> byte list \<times> byte list) list \<Rightarrow> vfs \<Rightarrow> (string option list \<times> vfs) option" where
  "main_loop tm junk [] s = Some ([], s)"
| "main_loop tm junk ((command, w1, w2) # input) s = do {
     (message, next) \<leftarrow> main_step tm junk command w1 w2 s;
     case next of
       None \<Rightarrow> Some ([message], s)
     | Some s' \<Rightarrow> map_option (\<lambda>(ms, t). (message # ms, t)) (main_loop tm junk input s')
   }"

definition vfs_main ::
  "byte list \<Rightarrow> buf \<Rightarrow> (string \<times> byte list \<times> byte list) list \<Rightarrow> vfs \<Rightarrow> (string option list \<times> vfs) option" where
  "vfs_main tm junk input s = main_loop tm junk input (LoadSys tm junk s)"

end
