(* ===== verification/VfsFacts.thy ===== *)
theory VfsFacts
  imports VfsOps
begin

text \<open>
  Facts about the primitives of \<open>vfs.c\<close>: the table of FCBs and the flags as arrays, names, the search of a
  directory, the blocks taken for a file, and the invariant \<open>vfs_ok\<close> of the file system.
\<close>

section \<open>The table\<close>

lemma fcb_valid_int [simp]: "i < MAXFILENUM \<Longrightarrow> fcb_valid (int i)"
  by (simp add: fcb_valid_def MAXFILENUM_def DISK_SIZE_def)

lemma fcb_off_int: "fcb_off (int i) = 2048 + 128 * i"
  by (simp add: fcb_off_def nat_add_distrib nat_mult_distrib)

lemma get_put_fcb [array_laws]:
  "i < MAXFILENUM \<Longrightarrow> j < MAXFILENUM \<Longrightarrow> wf_fcb f \<Longrightarrow>
   get_fcb (put_fcb d (int i) f) (int j) = (if i = j then f else get_fcb d (int j))"
  by (simp add: fcb_array.get_put)

text \<open>The bytes in front of the table and behind it: the flags and the blocks of the files.\<close>

definition table_byte :: "nat \<Rightarrow> bool" where
  "table_byte a \<longleftrightarrow> 2048 \<le> a \<and> a < 104448"

lemma put_fcb_outside [array_laws]:
  "i < MAXFILENUM \<Longrightarrow> wf_fcb f \<Longrightarrow> \<not> table_byte a \<Longrightarrow> put_fcb d (int i) f a = d a"
  by (auto simp: put_fcb_def fcb_off_int table_byte_def MAXFILENUM_def store_bytes_def)

lemma get_fcb_cong:
  assumes "i < MAXFILENUM" and "\<And>a. table_byte a \<Longrightarrow> d a = d' a"
  shows "get_fcb d (int i) = get_fcb d' (int i)"
proof -
  have "load_bytes d (2048 + 128 * i) 128 = load_bytes d' (2048 + 128 * i) 128"
    unfolding load_bytes_def
    by (rule map_cong) (use assms in \<open>auto simp: table_byte_def MAXFILENUM_def\<close>)
  then show ?thesis by (simp add: get_fcb_def fcb_off_int)
qed

lemma update_fcb_int [simp]:
  "i < MAXFILENUM \<Longrightarrow> update_fcb (int i) g d = map_option (put_fcb d (int i)) (g (get_fcb d (int i)))"
  by (cases "g (get_fcb d (int i))") (simp_all add: update_fcb_def fcb_at_def set_fcb_def)

lemma fcb_at_int [simp]: "i < MAXFILENUM \<Longrightarrow> fcb_at d (int i) = Some (get_fcb d (int i))"
  by (simp add: fcb_at_def)

declare sint_of_nat_small [simp]

lemma sint_record [simp]: "i < MAXFILENUM \<Longrightarrow> sint (of_nat i :: 32 word) = int i"
  by (rule sint_of_nat_small) (simp add: MAXFILENUM_def)

lemma of_nat_not_END [simp]:
  assumes "i < 1024"
  shows "(of_nat i :: 32 word) \<noteq> - 1"
proof
  assume "(of_nat i :: 32 word) = - 1"
  then have "sint (of_nat i :: 32 word) = sint (- 1 :: 32 word)" by simp
  with assms show False by simp
qed

lemma of_nat_record_not_END [simp]: "i < MAXFILENUM \<Longrightarrow> (of_nat i :: 32 word) \<noteq> - 1"
  by (rule of_nat_not_END) (simp add: MAXFILENUM_def)

lemma find_fcb_free:
  assumes "find_fcb d n = i" and "i < MAXFILENUM"
  shows "fcb_id (get_fcb d (int i)) = - 1" and "n \<le> i"
    and "\<And>j. n \<le> j \<Longrightarrow> j < i \<Longrightarrow> fcb_id (get_fcb d (int j)) \<noteq> - 1"
proof -
  from assms have "List.find (\<lambda>i. fcb_id (get_fcb d (int i)) = - 1) [n..<MAXFILENUM] = Some i"
    by (auto simp: find_fcb_def split: option.splits)
  from find_upt_Some [OF this] show "fcb_id (get_fcb d (int i)) = - 1" "n \<le> i"
    "\<And>j. n \<le> j \<Longrightarrow> j < i \<Longrightarrow> fcb_id (get_fcb d (int j)) \<noteq> - 1" by auto
qed

lemma find_fcb_least:
  assumes "n \<le> i" and "i < MAXFILENUM" and "fcb_id (get_fcb d (int i)) = - 1"
    and "\<And>j. n \<le> j \<Longrightarrow> j < i \<Longrightarrow> fcb_id (get_fcb d (int j)) \<noteq> - 1"
  shows "find_fcb d n = i"
  using find_upt_least [of n i MAXFILENUM "\<lambda>i. fcb_id (get_fcb d (int i)) = - 1"] assms
  by (simp add: find_fcb_def)

section \<open>Names\<close>

definition fname :: "FCB \<Rightarrow> byte list" where
  "fname f = takeWhile (\<lambda>c. c \<noteq> 0) (filename f)"

definition named :: "FCB \<Rightarrow> bool" where
  "named f \<longleftrightarrow> 0 \<in> set (filename f)"

text \<open>A name the commands can store: a word of at most seven characters.\<close>

definition short_name :: "byte list \<Rightarrow> bool" where
  "short_name w \<longleftrightarrow> w \<noteq> [] \<and> length w \<le> 7 \<and> 0 \<notin> set w"

lemma short_name_word [simp]: "short_name w \<Longrightarrow> word_ok w"
  by (simp add: short_name_def word_ok_def)

lemma prefix_zero:
  fixes w xs :: "byte list"
  assumes "0 \<in> set xs" and "0 \<notin> set w"
  shows "take (length w + 1) xs = w @ [0] \<longleftrightarrow> takeWhile (\<lambda>c. c \<noteq> 0) xs = w"
  using assms
proof (induction w arbitrary: xs)
  case Nil
  then show ?case by (cases xs) auto
next
  case (Cons x w)
  then show ?case by (cases xs) auto
qed

lemma filename_load: "filename (get_fcb d i) = load_bytes d (fcb_off i + 4) 8"
  by (rule nth_equalityI) (auto simp: get_fcb_def decode_fcb_def add.assoc)

lemma strcmp_named:
  assumes "fcb_valid i" and "named (get_fcb d i)" and "0 \<notin> set w"
  shows "strcmp_eq d i w = Some (fname (get_fcb d i) = w)"
proof -
  let ?x = "load_bytes d (fcb_off i + 4) (length w + 9)"
  have split: "?x = filename (get_fcb d i) @ load_bytes d (fcb_off i + 12) (length w + 1)"
    by (rule nth_equalityI) (auto simp: filename_load nth_append add.assoc add.left_commute)
  have z: "0 \<in> set (filename (get_fcb d i))" using assms(2) by (simp add: named_def)
  have "takeWhile (\<lambda>c. c \<noteq> 0) ?x = takeWhile (\<lambda>c. c \<noteq> 0) (filename (get_fcb d i))"
    unfolding split using z takeWhile_append1 [of 0 _ "\<lambda>c. c \<noteq> 0"] by simp
  moreover have "0 \<in> set ?x" unfolding split using z by simp
  moreover have "load_bytes d (fcb_off i + 4) (length w + 1) = take (length w + 1) ?x"
    by (rule nth_equalityI) auto
  ultimately show ?thesis
    using prefix_zero [of ?x w] assms by (simp add: strcmp_eq_def fname_def)
qed

lemma takeWhile_zero: "0 \<notin> set w \<Longrightarrow> takeWhile (\<lambda>c. c \<noteq> 0) (w @ 0 # rest) = (w :: byte list)"
  by (induction w) auto

lemma fname_strcpy [simp]:
  "0 \<notin> set w \<Longrightarrow> takeWhile (\<lambda>c. c \<noteq> 0) (strcpy_name old w) = w"
  "0 \<in> set (strcpy_name old w)"
  by (auto simp: strcpy_name_def takeWhile_zero)

section \<open>Searching a directory\<close>

text \<open>The records of a directory whose entries are \<open>is\<close>.\<close>

definition records :: "nat list \<Rightarrow> 32 word list" where
  "records ids = map of_nat ids @ replicate (10 - length ids) (- 1)"

lemma length_records [simp]: "length ids \<le> 10 \<Longrightarrow> length (records ids) = 10"
  by (simp add: records_def)

lemma nth_records: "j < length ids \<Longrightarrow> records ids ! j = of_nat (ids ! j)"
  by (simp add: records_def nth_append)

lemma nth_records_END: "length ids \<le> j \<Longrightarrow> j < 10 \<Longrightarrow> records ids ! j = - 1"
  by (simp add: records_def nth_append)

text \<open>The first entry of a name.\<close>

definition entry_of :: "buf \<Rightarrow> nat list \<Rightarrow> byte list \<Rightarrow> nat option" where
  "entry_of d ids name = List.find (\<lambda>i. fname (get_fcb d (int i)) = name) ids"

definition entries_ok :: "buf \<Rightarrow> nat list \<Rightarrow> bool" where
  "entries_ok d ids \<longleftrightarrow> length ids \<le> 10 \<and> (\<forall>i \<in> set ids. i < MAXFILENUM \<and> named (get_fcb d (int i)))"

lemma entry_of_Some:
  "entry_of d ids name = Some i \<Longrightarrow> i \<in> set ids \<and> fname (get_fcb d (int i)) = name"
  by (auto simp: entry_of_def find_Some_iff)

lemma find_drop_step:
  "j < length xs \<Longrightarrow> List.find P (drop j xs) = (if P (xs ! j) then Some (xs ! j) else List.find P (drop (Suc j) xs))"
  by (subst Cons_nth_drop_Suc [symmetric]) auto

lemma find_file_entries:
  assumes ok: "entries_ok d ids" and ne: "ids \<noteq> []" and w: "0 \<notin> set name"
  shows "find_file d (records ids) name = Some (case entry_of d ids name of None \<Rightarrow> None
     | Some i \<Rightarrow> if isdir (get_fcb d (int i)) = 1 then None else Some (int i))"
proof -
  let ?r = "\<lambda>i. if isdir (get_fcb d (int i)) = 1 then None else Some (int i)"
  let ?body = "\<lambda>i temp. if records ids ! i = - 1 then Some (Next temp)
        else do {
          eq \<leftarrow> strcmp_eq d (sint (records ids ! i)) name;
          Some (if eq then Return (if isdir (get_fcb d (sint (records ids ! i))) = 1 then None else Some (sint (records ids ! i)))
                else Next (Some (sint (records ids ! i))))
        }"
  have len: "length ids \<le> 10" using ok by (simp add: entries_ok_def)
  have body: "?body j temp = Some (if fname (get_fcb d (int (ids ! j))) = name then Return (?r (ids ! j)) else Next (Some (int (ids ! j))))"
    if "j < length ids" for j temp
  proof -
    have "ids ! j < MAXFILENUM" "named (get_fcb d (int (ids ! j)))"
      using ok that by (auto simp: entries_ok_def)
    then show ?thesis using that w by (simp add: nth_records strcmp_named)
  qed
  have loop: "for_loop j 10 ?body temp = Some (case List.find (\<lambda>i. fname (get_fcb d (int i)) = name) (drop j ids) of
      Some i \<Rightarrow> Return (?r i) | None \<Rightarrow> Next (if j < length ids then Some (int (last ids)) else temp))"
    if "j \<le> 10" for j temp
    using that
  proof (induction "10 - j" arbitrary: j temp)
    case 0
    then show ?case using len by simp
  next
    case (Suc k)
    then have j: "j < 10" "Suc j \<le> 10" "k = 10 - Suc j" by auto
    note IH = Suc.hyps(1) [OF j(3) j(2)]
    show ?case
    proof (cases "j < length ids")
      case True
      have lst: "Suc j = length ids \<Longrightarrow> ids ! j = last ids" using ne by (metis diff_Suc_1 last_conv_nth)
      show ?thesis
        using True j(1) body [OF True] lst by (simp add: for_loop_step find_drop_step IH split: option.split)
    next
      case False
      then show ?thesis using j(1) IH by (simp add: for_loop_step nth_records_END)
    qed
  qed
  have "drop 0 ids = ids" "0 < length ids" using ne by simp_all
  then show ?thesis
    unfolding find_file_def using loop [of 0 None] by (simp add: entry_of_def split: option.split)
qed

section \<open>The invariant\<close>

text \<open>
  \<open>D\<close> maps the FCB number of every directory to its entries: the FCB of \<open>"."\<close>, that of \<open>".."\<close>, and its children.
  The first byte is the mark \<open>'$'\<close>. A file has at most ten blocks behind the table, all marked as used, and they hold its size. The first
  record of \<open>".."\<close> is the number of the parent.
\<close>

type_synonym vfs_tree = "nat \<Rightarrow> nat list option"

definition live :: "buf \<Rightarrow> nat \<Rightarrow> bool" where
  "live d i \<longleftrightarrow> i < MAXFILENUM \<and> fcb_id (get_fcb d (int i)) \<noteq> - 1"

definition file_fcb :: "buf \<Rightarrow> FCB \<Rightarrow> bool" where
  "file_fcb d f \<longleftrightarrow> isdir f = 0 \<and> (\<exists>bs. length bs \<le> 10 \<and> fcb_length f = of_nat (length bs)
     \<and> fcb_record f = records bs \<and> unat (fcb_size f) \<le> 1024 * length bs
     \<and> (\<forall>b \<in> set bs. 102 \<le> b \<and> b < 1024 \<and> d (1024 + b) \<noteq> FREE))"

definition dir_head :: "buf \<Rightarrow> nat \<Rightarrow> nat list \<Rightarrow> bool" where
  "dir_head d k ids \<longleftrightarrow> k < MAXFILENUM \<and> (let f = get_fcb d (int k) in
     isdir f = 1 \<and> fcb_id f = of_nat k \<and> 2 \<le> length ids \<and> length ids \<le> 10
     \<and> fcb_length f = of_nat (length ids) \<and> fcb_record f = records ids)"

definition parent_of :: "buf \<Rightarrow> nat list \<Rightarrow> 32 word" where
  "parent_of d ids = fcb_record (get_fcb d (int (ids ! 1))) ! 0"

definition child_ok :: "vfs_tree \<Rightarrow> buf \<Rightarrow> nat \<Rightarrow> nat \<Rightarrow> bool" where
  "child_ok D d k i \<longleftrightarrow> (case D i of Some ids \<Rightarrow> parent_of d ids = of_nat k | None \<Rightarrow> file_fcb d (get_fcb d (int i)))"

definition dots_ok :: "vfs_tree \<Rightarrow> buf \<Rightarrow> nat list \<Rightarrow> bool" where
  "dots_ok D d ids \<longleftrightarrow> (\<forall>j < 2. let f = get_fcb d (int (ids ! j)) in
       isdir f = 1 \<and> fname f = (if j = 0 then [46] else [46, 46]) \<and> ids ! j \<notin> dom D)
     \<and> (\<exists>p \<in> dom D. parent_of d ids = of_nat p)"

definition members_ok :: "vfs_tree \<Rightarrow> buf \<Rightarrow> nat \<Rightarrow> nat list \<Rightarrow> bool" where
  "members_ok D d k ids \<longleftrightarrow> 2 \<le> length ids \<and> (\<forall>i \<in> set ids. live d i \<and> named (get_fcb d (int i)))
     \<and> dots_ok D d ids \<and> (\<forall>i \<in> set (drop 2 ids). child_ok D d k i)"

definition table_ok :: "vfs_tree \<Rightarrow> buf \<Rightarrow> bool" where
  "table_ok D d \<longleftrightarrow> (\<forall>k ids. D k = Some ids \<longrightarrow> dir_head d k ids \<and> members_ok D d k ids)
     \<and> (\<forall>i < MAXFILENUM. fcb_id (get_fcb d (int i)) = - 1 \<longrightarrow> fcb_record (get_fcb d (int i)) = records [])
     \<and> (\<forall>b < 102. d (1024 + b) \<noteq> FREE) \<and> d 0 = 36"

definition vfs_ok :: "vfs_tree \<Rightarrow> vfs \<Rightarrow> bool" where
  "vfs_ok D s \<longleftrightarrow> table_ok D (fdisk s) \<and> 0 \<in> dom D \<and> (\<exists>k \<in> dom D. cur_dir s = int k)"

lemma table_okD:
  assumes "table_ok D d"
  shows "D k = Some ids \<Longrightarrow> dir_head d k ids"
    and "D k = Some ids \<Longrightarrow> members_ok D d k ids"
    and "i < MAXFILENUM \<Longrightarrow> fcb_id (get_fcb d (int i)) = - 1 \<Longrightarrow> fcb_record (get_fcb d (int i)) = records []"
    and "b < 102 \<Longrightarrow> d (1024 + b) \<noteq> FREE"
    and "d 0 = 36"
  using assms by (auto simp: table_ok_def)

lemma dir_entries_ok:
  assumes "table_ok D d" and "D k = Some ids"
  shows "entries_ok d ids" and "ids \<noteq> []" and "k < MAXFILENUM" and "live d k" and "i \<in> set ids \<Longrightarrow> live d i"
    and "2 \<le> length ids" and "length ids \<le> 10"
proof -
  from table_okD(1,2) [OF assms(1) assms(2)] have h: "dir_head d k ids" and m: "members_ok D d k ids" by auto
  from h show "2 \<le> length ids" "length ids \<le> 10" "k < MAXFILENUM" by (auto simp: dir_head_def Let_def)
  from h m show "entries_ok d ids" by (auto simp: dir_head_def members_ok_def entries_ok_def live_def Let_def)
  from h show "ids \<noteq> []" "live d k" by (auto simp: dir_head_def live_def Let_def)
  from m show "i \<in> set ids \<Longrightarrow> live d i" by (auto simp: members_ok_def)
qed

section \<open>Changes that keep it\<close>

text \<open>
  What a command may do to the FCBs in use: their number, name and kind stay, the FCBs of \<open>"."\<close> and \<open>".."\<close> keep
  their records, files stay files, directories stay directories with the same \<open>".."\<close>.
\<close>

definition same_head :: "FCB \<Rightarrow> FCB \<Rightarrow> bool" where
  "same_head f f' \<longleftrightarrow> fcb_id f' = fcb_id f \<and> filename f' = filename f \<and> isdir f' = isdir f"

definition extends :: "vfs_tree \<Rightarrow> buf \<Rightarrow> vfs_tree \<Rightarrow> buf \<Rightarrow> bool" where
  "extends D d D' d' \<longleftrightarrow> (\<forall>j. live d j \<longrightarrow>
     same_head (get_fcb d (int j)) (get_fcb d' (int j))
     \<and> (j \<notin> dom D \<longrightarrow> j \<notin> dom D'
          \<and> (isdir (get_fcb d (int j)) = 1 \<longrightarrow> fcb_record (get_fcb d' (int j)) = fcb_record (get_fcb d (int j)))
          \<and> (file_fcb d (get_fcb d (int j)) \<longrightarrow> file_fcb d' (get_fcb d' (int j)))))
     \<and> (\<forall>j ids. D j = Some ids \<longrightarrow> (\<exists>ids'. D' j = Some ids' \<and> ids' ! 1 = ids ! 1))"

lemma extends_live: "extends D d D' d' \<Longrightarrow> live d j \<Longrightarrow> live d' j"
  by (auto simp: extends_def live_def same_head_def)

lemma extends_parent:
  assumes "extends D d D' d'" and "table_ok D d" and "D k = Some ids" and "D' k = Some ids'" and "ids' ! 1 = ids ! 1"
  shows "parent_of d' ids' = parent_of d ids"
proof -
  from table_okD(2) [OF assms(2,3)] have m: "members_ok D d k ids" .
  then have dot: "\<forall>j < 2. isdir (get_fcb d (int (ids ! j))) = 1 \<and> ids ! j \<notin> dom D"
    by (simp add: members_ok_def dots_ok_def Let_def)
  from m have "live d (ids ! 1)" by (simp add: members_ok_def)
  with dot assms(1) have "fcb_record (get_fcb d' (int (ids ! 1))) = fcb_record (get_fcb d (int (ids ! 1)))"
    unfolding extends_def by (metis one_less_numeral_iff semiring_norm(76))
  with assms(5) show ?thesis by (simp add: parent_of_def)
qed

lemma extends_child:
  assumes ex: "extends D d D' d'" and ok: "table_ok D d" and c: "child_ok D d k i" and l: "live d i"
  shows "child_ok D' d' k i"
proof (cases "D i")
  case None
  then have "i \<notin> dom D" by auto
  with ex l c None show ?thesis
    unfolding extends_def child_ok_def by (auto simp: domIff)
next
  case (Some ids)
  with ex obtain ids' where "D' i = Some ids'" "ids' ! 1 = ids ! 1" unfolding extends_def by blast
  with extends_parent [OF ex ok Some this] c Some show ?thesis by (simp add: child_ok_def)
qed

lemma extends_members:
  assumes ex: "extends D d D' d'" and ok: "table_ok D d" and k: "D k = Some ids"
  shows "members_ok D' d' k ids"
proof -
  from table_okD(2) [OF ok k] have m: "members_ok D d k ids" .
  then have len: "2 \<le> length ids" and mem: "\<forall>i \<in> set ids. live d i \<and> named (get_fcb d (int i))"
    and dot: "\<forall>j < 2. let f = get_fcb d (int (ids ! j)) in isdir f = 1 \<and> fname f = (if j = 0 then [46] else [46, 46]) \<and> ids ! j \<notin> dom D"
    and par: "\<exists>p \<in> dom D. parent_of d ids = of_nat p"
    and ch: "\<forall>i \<in> set (drop 2 ids). child_ok D d k i"
    by (auto simp: members_ok_def dots_ok_def)
  have head: "live d' i" "named (get_fcb d' (int i))" "fname (get_fcb d' (int i)) = fname (get_fcb d (int i))"
    "isdir (get_fcb d' (int i)) = isdir (get_fcb d (int i))" if "i \<in> set ids" for i
    using that mem ex extends_live [OF ex] by (auto simp: extends_def same_head_def named_def fname_def)
  have dot': "let f = get_fcb d' (int (ids ! j)) in isdir f = 1 \<and> fname f = (if j = 0 then [46] else [46, 46]) \<and> ids ! j \<notin> dom D'"
    if "j < 2" for j
  proof -
    from that len have "ids ! j \<in> set ids" by simp
    moreover have "ids ! j \<notin> dom D'"
      using ex mem \<open>ids ! j \<in> set ids\<close> dot that unfolding extends_def Let_def by blast
    ultimately show ?thesis using head [of "ids ! j"] dot that by (simp add: Let_def)
  qed
  obtain ids' where k': "D' k = Some ids'" "ids' ! 1 = ids ! 1" using ex k unfolding extends_def by blast
  have "parent_of d' ids = parent_of d ids"
    using extends_parent [OF ex ok k k'] k'(2) by (simp add: parent_of_def)
  moreover have "dom D \<subseteq> dom D'" using ex unfolding extends_def by blast
  ultimately have par': "\<exists>p \<in> dom D'. parent_of d' ids = of_nat p" using par by (metis subsetD)
  have "child_ok D' d' k i" if "i \<in> set (drop 2 ids)" for i
    using extends_child [OF ex ok, of k i] ch mem that in_set_dropD [OF that] by blast
  then show ?thesis using len head dot' par' by (simp add: members_ok_def dots_ok_def)
qed

lemma members_append:
  assumes "members_ok D d k ids" and "live d i" and "named (get_fcb d (int i))" and "child_ok D d k i"
  shows "members_ok D d k (ids @ [i])"
proof -
  have len: "2 \<le> length ids" using assms(1) by (simp add: members_ok_def)
  then have "(ids @ [i]) ! 1 = ids ! 1" "\<And>j. j < 2 \<Longrightarrow> (ids @ [i]) ! j = ids ! j"
    by (auto simp: nth_append)
  with assms len show ?thesis by (auto simp: members_ok_def dots_ok_def parent_of_def Let_def)
qed

section \<open>New entries\<close>

text \<open>The file that \<open>mMkfile\<close> makes of a free FCB, and the directory with one entry more.\<close>

definition new_file :: "byte list \<Rightarrow> nat \<Rightarrow> byte list \<Rightarrow> FCB \<Rightarrow> FCB" where
  "new_file tm i name f = f\<lparr>fcb_id := of_nat i, filename := strcpy_name (filename f) name, isdir := 0,
     data_time := tm, firstblock := 0, fcb_size := 0, fcb_length := 0\<rparr>"

definition grown :: "byte list \<Rightarrow> nat list \<Rightarrow> nat \<Rightarrow> FCB \<Rightarrow> FCB" where
  "grown tm ids i f = f\<lparr>fcb_record := records (ids @ [i]), fcb_length := of_nat (length ids + 1), data_time := tm\<rparr>"

lemma records_update: "length ids < 10 \<Longrightarrow> (records ids)[length ids := of_nat i] = records (ids @ [i])"
  by (rule nth_equalityI) (auto simp: records_def nth_append nth_list_update)

lemma add_record_grown:
  assumes "dir_head d k ids" and "length ids < 10"
  shows "add_record tm i (get_fcb d (int k)) = Some (grown tm ids i (get_fcb d (int k)))"
  using assms
  by (simp add: add_record_def dir_head_def Let_def array_set_def records_update grown_def add.commute)

lemma wf_new [simp]:
  "wf_fcb f \<Longrightarrow> length tm = 56 \<Longrightarrow> length name \<le> 7 \<Longrightarrow> wf_fcb (new_file tm i name f)"
  "wf_fcb f \<Longrightarrow> length tm = 56 \<Longrightarrow> length ids < 10 \<Longrightarrow> wf_fcb (grown tm ids i f)"
  by (simp_all add: wf_fcb_def new_file_def grown_def)

lemma grown_simps [simp]:
  "fcb_id (grown tm ids i f) = fcb_id f" "filename (grown tm ids i f) = filename f"
  "isdir (grown tm ids i f) = isdir f" "fcb_size (grown tm ids i f) = fcb_size f"
  by (simp_all add: grown_def)

lemma grown_head: "dir_head d k ids \<Longrightarrow> length ids < 10 \<Longrightarrow> get_fcb d' (int k) = grown tm ids i (get_fcb d (int k))
  \<Longrightarrow> dir_head d' k (ids @ [i])"
  by (auto simp: dir_head_def grown_def Let_def)

text \<open>
  A step that fills FCBs that were free, \<open>N\<close>, and adds the entry \<open>i\<close> to the directory \<open>k\<close>. The FCBs in use are
  otherwise unchanged.
\<close>

lemma new_entry_extends:
  assumes ok: "table_ok D d" and k: "D k = Some ids"
    and D': "D' k = Some (ids @ [i])" "\<And>j. live d j \<Longrightarrow> j \<noteq> k \<Longrightarrow> D' j = D j"
    and cur: "get_fcb d' (int k) = grown tm ids i (get_fcb d (int k))"
    and same: "\<And>j. live d j \<Longrightarrow> j \<noteq> k \<Longrightarrow> get_fcb d' (int j) = get_fcb d (int j)"
    and flags: "\<And>b. b < 1024 \<Longrightarrow> d' (1024 + b) = d (1024 + b)"
  shows "extends D d D' d'"
proof -
  have dom_live: "live d j" if "D j = Some js" for j js
    using table_okD(1) [OF ok that] by (auto simp: dir_head_def live_def Let_def)
  have two: "2 \<le> length ids" using table_okD(1) [OF ok k] by (auto simp: dir_head_def Let_def)
  have "same_head (get_fcb d (int j)) (get_fcb d' (int j))
     \<and> (j \<notin> dom D \<longrightarrow> j \<notin> dom D'
          \<and> (isdir (get_fcb d (int j)) = 1 \<longrightarrow> fcb_record (get_fcb d' (int j)) = fcb_record (get_fcb d (int j)))
          \<and> (file_fcb d (get_fcb d (int j)) \<longrightarrow> file_fcb d' (get_fcb d' (int j))))" if j: "live d j" for j
  proof (cases "j = k")
    case True
    with cur k show ?thesis by (auto simp: same_head_def)
  next
    case False
    with j same D'(2) show ?thesis by (auto simp: same_head_def domIff file_fcb_def flags)
  qed
  moreover have "\<exists>ids'. D' j = Some ids' \<and> ids' ! 1 = js ! 1" if "D j = Some js" for j js
    using D' dom_live [OF that] that k two by (cases "j = k") (auto simp: nth_append)
  ultimately show ?thesis unfolding extends_def by blast
qed

lemma extends_dirs:
  assumes ok: "table_ok D d" and ex: "extends D d D' d'"
    and j: "D j = Some js" and same: "get_fcb d' (int j) = get_fcb d (int j)"
  shows "dir_head d' j js" and "members_ok D' d' j js"
proof -
  show "dir_head d' j js" using table_okD(1) [OF ok j] same by (simp add: dir_head_def)
  show "members_ok D' d' j js" by (rule extends_members [OF ex ok j])
qed

section \<open>mMkfile\<close>

text \<open>The two stores of \<open>mMkfile\<close>: the new control block and the entry in the current directory.\<close>

lemma mkfile_stores:
  assumes tab: "table_ok D d" and k: "D k = Some ids" and room: "length ids < 10"
    and i: "find_fcb d 0 = i" "i < MAXFILENUM" and name: "short_name name" and tm: "length tm = 56"
    and d1_def: "d1 = put_fcb d (int i) (new_file tm i name (get_fcb d (int i)))"
    and d2_def: "d2 = put_fcb d1 (int k) (grown tm ids i (get_fcb d1 (int k)))"
  shows "table_ok (D(k \<mapsto> ids @ [i])) d2" (is "table_ok ?D d2")
    and "get_fcb d1 (int k) = get_fcb d (int k)"
    and "get_fcb d2 (int i) = new_file tm i name (get_fcb d (int i))"
    and "get_fcb d2 (int k) = grown tm ids i (get_fcb d (int k))"
    and "\<And>j. j < MAXFILENUM \<Longrightarrow> j \<noteq> i \<Longrightarrow> j \<noteq> k \<Longrightarrow> get_fcb d2 (int j) = get_fcb d (int j)"
    and "\<And>a. \<not> table_byte a \<Longrightarrow> d2 a = d a"
proof -
  note dir = dir_entries_ok [OF tab k]
  have head: "dir_head d k ids" using table_okD(1) [OF tab k] .
  have free: "fcb_id (get_fcb d (int i)) = - 1" using find_fcb_free(1) [OF i] .
  then have nl: "\<not> live d i" by (simp add: live_def)
  have ik: "i \<noteq> k" "k \<noteq> i" using nl dir(4) by auto
  have w: "length name \<le> 7" "0 \<notin> set name" using name by (auto simp: short_name_def)
  show kd1: "get_fcb d1 (int k) = get_fcb d (int k)"
    using i(2) dir(3) ik w tm by (simp add: d1_def get_put_fcb)
  have g: "get_fcb d2 (int j) = (if j = k then grown tm ids i (get_fcb d (int k))
      else if j = i then new_file tm i name (get_fcb d (int i)) else get_fcb d (int j))" if "j < MAXFILENUM" for j
    using that i(2) dir(3) ik w tm room by (simp add: d2_def d1_def get_put_fcb)
  show out: "\<not> table_byte a \<Longrightarrow> d2 a = d a" for a
    using i(2) dir(3) w tm room by (simp add: d2_def d1_def put_fcb_outside)
  have flags: "d2 (1024 + b) = d (1024 + b)" if "b < 1024" for b
    by (rule out) (use that in \<open>simp add: table_byte_def\<close>)
  have same: "get_fcb d2 (int j) = get_fcb d (int j)" if "live d j" "j \<noteq> k" for j
    using that nl g [of j] by (auto simp: live_def)
  show curd: "get_fcb d2 (int k) = grown tm ids i (get_fcb d (int k))" using g dir(3) by simp
  show "get_fcb d2 (int j) = get_fcb d (int j)" if "j < MAXFILENUM" "j \<noteq> i" "j \<noteq> k" for j
    using g [OF that(1)] that(2,3) by simp
  have ex: "extends D d ?D d2"
    by (rule new_entry_extends [OF tab k _ _ curd same flags]) (use nl in auto)
  have Di: "D i = None" using nl dir_entries_ok(4) [OF tab] by (cases "D i") auto
  show inew: "get_fcb d2 (int i) = new_file tm i name (get_fcb d (int i))" using g [OF i(2)] ik by simp
  have rec: "fcb_record (get_fcb d (int i)) = records []" by (rule table_okD(3) [OF tab i(2) free])
  have live_i: "live d2 i" using i(2) inew by (simp add: live_def new_file_def)
  have child: "child_ok ?D d2 k i"
    using Di ik inew rec by (auto simp: child_ok_def file_fcb_def new_file_def intro!: exI [of _ "[]"])
  have mem: "members_ok ?D d2 k (ids @ [i])"
    by (rule members_append [OF extends_members [OF ex tab k] live_i _ child])
      (use inew w in \<open>simp add: named_def new_file_def\<close>)
  show "table_ok ?D d2"
    unfolding table_ok_def
  proof (intro conjI allI impI)
    fix j js assume j: "?D j = Some js"
    have old: "dir_head d2 j js \<and> members_ok ?D d2 j js" if "j \<noteq> k"
      using extends_dirs [OF tab ex _ same [OF dir_entries_ok(4) [OF tab] that]] j that by auto
    show "dir_head d2 j js" using j grown_head [OF head room curd] old by (cases "j = k") auto
    show "members_ok ?D d2 j js" using j mem old by (cases "j = k") auto
  next
    fix j assume j: "j < MAXFILENUM" "fcb_id (get_fcb d2 (int j)) = - 1"
    have "j \<noteq> i" using j(2) inew i(2) by (auto simp: new_file_def)
    moreover have "j \<noteq> k" using j(2) curd head dir(3) by (auto simp: dir_head_def Let_def)
    ultimately show "fcb_record (get_fcb d2 (int j)) = records []" using j g [OF j(1)] table_okD(3) [OF tab j(1)] by simp
  next
    fix b :: nat assume b: "b < 102"
    then show "d2 (1024 + b) \<noteq> FREE" using flags [of b] table_okD(4) [OF tab b] by simp
  next
    show "d2 0 = 36" using out [of 0] table_okD(5) [OF tab] by (simp add: table_byte_def)
  qed
qed

lemma mMkfile_spec:
  assumes ok: "vfs_ok D s" and cur: "cur_dir s = int k" and k: "D k = Some ids" and room: "length ids < 10"
    and i: "find_fcb (fdisk s) 0 = i" "i < MAXFILENUM" and name: "short_name name" and tm: "length tm = 56"
  shows "\<exists>s'. mMkfile tm name s = Some (1, s') \<and> vfs_ok (D(k \<mapsto> ids @ [i])) s' \<and> cur_dir s' = cur_dir s
    \<and> get_fcb (fdisk s') (int i) = new_file tm i name (get_fcb (fdisk s) (int i))
    \<and> (\<forall>j < MAXFILENUM. j \<noteq> i \<longrightarrow> j \<noteq> k \<longrightarrow> get_fcb (fdisk s') (int j) = get_fcb (fdisk s) (int j))
    \<and> same_head (get_fcb (fdisk s) (int k)) (get_fcb (fdisk s') (int k))
    \<and> (\<forall>a. \<not> table_byte a \<longrightarrow> fdisk s' a = fdisk s a)
    \<and> opened s' = opened s \<and> opennum s' = opennum s
    \<and> file_exists s' \<and> file_len s' = 20480 \<and> file_bytes s' = fdisk s'"
proof -
  let ?d = "fdisk s"
  define d1 where "d1 = put_fcb ?d (int i) (new_file tm i name (get_fcb ?d (int i)))"
  define d2 where "d2 = put_fcb d1 (int k) (grown tm ids i (get_fcb d1 (int k)))"
  from ok have tab: "table_ok D ?d" by (simp add: vfs_ok_def)
  note stores = mkfile_stores [OF tab k room i name tm d1_def d2_def]
  have head: "dir_head ?d k ids" using table_okD(1) [OF tab k] .
  have d1_head: "dir_head d1 k ids" using head stores(2) by (simp add: dir_head_def)
  have lenk: "sint (fcb_length (get_fcb ?d (int k))) = int (length ids)"
    using head room by (simp add: dir_head_def Let_def)
  let ?s = "close_fp (fwrite_blocks 20 ((open_trunc s)\<lparr>fdisk := d2\<rparr>))"
  have run: "mMkfile tm name s = Some (1, ?s)"
    using name i cur room dir_entries_ok(3) [OF tab k] lenk
    by (simp add: mMkfile_def short_name_def Let_def open_trunc_def new_file_def [symmetric] d1_def [symmetric]
        add_record_grown [OF d1_head room] d2_def [symmetric])
  show ?thesis
  proof (intro exI [of _ ?s] conjI allI impI)
    show "vfs_ok (D(k \<mapsto> ids @ [i])) ?s"
      using ok stores(1) by (auto simp: vfs_ok_def close_fp_def fwrite_blocks_def open_trunc_def)
  qed (use run stores(3-6) in \<open>auto simp: close_fp_def fwrite_blocks_def open_trunc_def same_head_def\<close>)
qed

end
