(* ===== verification/VfsIO.thy ===== *)
theory VfsIO
  imports VfsFacts
begin

text \<open>Reading and writing the contents of files of \<open>vfs.c\<close>.\<close>

section \<open>Blocks\<close>

text \<open>The blocks marked as free among the first \<open>n\<close>, and marking blocks as used.\<close>

definition free_among :: "buf \<Rightarrow> nat \<Rightarrow> nat \<Rightarrow> nat list" where
  "free_among d i n = filter (\<lambda>b. d (1024 + b) = FREE) [i..<n]"

definition BLOCKS :: nat where "BLOCKS = 1024"

definition free_list :: "buf \<Rightarrow> nat list" where
  "free_list d = free_among d 0 BLOCKS"

definition mark_used :: "nat list \<Rightarrow> buf \<Rightarrow> buf" where
  "mark_used bs d = (\<lambda>a. if \<exists>b \<in> set bs. a = 1024 + b then USED else d a)"

lemma free_among_step:
  "i < n \<Longrightarrow> free_among d i n = (if d (1024 + i) = FREE then i # free_among d (Suc i) n else free_among d (Suc i) n)"
  by (simp add: free_among_def upt_conv_Cons)

lemma free_among_mark: "free_among (d(1024 + i := c)) (Suc i) n = free_among d (Suc i) n"
  by (auto simp: free_among_def intro!: filter_cong)

lemma mark_used_Cons: "mark_used (b # bs) d = mark_used bs (d(1024 + b := USED))"
  by (auto simp: mark_used_def)

lemma mark_used_Nil [simp]: "mark_used [] d = d"
  by (simp add: mark_used_def)

lemma take_loop:
  assumes "length found < n" and "n \<le> length found + length (free_among d i m)"
  shows "for_loop i m (\<lambda>i (d, found).
        Some (if d (1024 + i) = FREE
              then (let found' = found @ [i]; d' = d(1024 + i := USED)
                    in if length found' = n then Break (d', found') else Next (d', found'))
              else Next (d, found))) (d, found)
     = Some (Next (let bs = take (n - length found) (free_among d i m) in (mark_used bs d, found @ bs)))"
  using assms
proof (induction "m - i" arbitrary: i d found)
  case 0
  then show ?case by (simp add: free_among_def)
next
  case (Suc k)
  then have i: "i < m" "k = m - Suc i" by auto
  show ?case
  proof (cases "d (1024 + i) = FREE")
    case False
    with Suc.prems Suc.hyps(1) [OF i(2), of found d] i(1) show ?thesis
      by (simp add: for_loop_step free_among_step)
  next
    case True
    show ?thesis
    proof (cases "Suc (length found) = n")
      case True
      then have "n - length found = Suc 0" by simp
      with True \<open>d (1024 + i) = FREE\<close> i(1) show ?thesis
        by (simp add: for_loop_step free_among_step mark_used_Cons Let_def)
    next
      case False
      with Suc.prems have l: "length (found @ [i]) < n" "n - length found = Suc (n - length (found @ [i]))" by simp_all
      have "n \<le> length (found @ [i]) + length (free_among (d(1024 + i := USED)) (Suc i) m)"
        using Suc.prems(2) True i(1) by (simp add: free_among_step free_among_mark del: fun_upd_apply)
      from Suc.hyps(1) [OF i(2) l(1) this] True False i(1) l(2) show ?thesis
        by (simp add: for_loop_step free_among_step mark_used_Cons free_among_mark Let_def del: fun_upd_apply)
    qed
  qed
qed

lemma take_blocks_free:
  assumes "0 < n" and "n \<le> length (free_list d)"
  shows "take_blocks n d = Some (mark_used (take n (free_list d)) d, take n (free_list d))"
  using assms unfolding take_blocks_def free_list_def BLOCKS_def
  by (subst take_loop) (simp_all add: Let_def)

text \<open>The blocks found are in range, were free, and differ.\<close>

lemma free_list_props:
  "b \<in> set (free_list d) \<Longrightarrow> b < 1024" "b \<in> set (free_list d) \<Longrightarrow> d (1024 + b) = FREE" "distinct (free_list d)"
  by (auto simp: free_list_def free_among_def BLOCKS_def)

lemma free_list_behind:
  assumes "table_ok D d" and "b \<in> set (free_list d)"
  shows "102 \<le> b"
  using assms free_list_props(2) [OF assms(2)] table_okD(4) [OF assms(1), of b] by (metis not_less)

section \<open>Copying\<close>

lemma copy_to_block_eq:
  assumes "1024 * k + n \<le> DISK_SIZE"
  shows "copy_to_block (int k) content n d =
    Some (\<lambda>a. if 1024 * k \<le> a \<and> a < 1024 * k + n then content (a - 1024 * k) else d a)"
proof -
  let ?P = "\<lambda>j t. t = (\<lambda>a. if 1024 * k \<le> a \<and> a < 1024 * k + j then content (a - 1024 * k) else d a)"
  let ?body = "\<lambda>j d. map_option Next (set_disk_char d (1024 * int k + int j) (content j)) :: (buf, buf) flow option"
  have step: "\<exists>t'. ?body j t = Some (Next t') \<and> ?P (Suc j) t'" if "j < n" "?P j t" for j t
  proof -
    have "nat (1024 * int k + int j) = 1024 * k + j" by (simp add: nat_add_distrib nat_mult_distrib)
    moreover have "1024 * int k + int j < int DISK_SIZE" using that(1) assms by linarith
    ultimately have "set_disk_char t (1024 * int k + int j) (content j) = Some (t(1024 * k + j := content j))"
      by (simp add: set_disk_char_def)
    moreover have "t(1024 * k + j := content j) =
        (\<lambda>a. if 1024 * k \<le> a \<and> a < 1024 * k + Suc j then content (a - 1024 * k) else d a)"
      using that(2) by (auto simp: fun_eq_iff)
    ultimately show ?thesis by simp
  qed
  have "?P 0 d" by (rule ext) auto
  then have "\<exists>t. for_loop 0 n ?body d = Some (Next t) \<and> ?P n t"
    by (rule for_loop_invariant [where P = ?P]) (use step in blast)+
  then show ?thesis by (auto simp: copy_to_block_def)
qed

definition in_block :: "nat \<Rightarrow> nat \<Rightarrow> bool" where
  "in_block b a \<longleftrightarrow> 1024 * b \<le> a \<and> a < 1024 * b + 1024"

lemma write_blocks_spec:
  assumes bs: "\<And>b. b \<in> set bs \<Longrightarrow> b < 1024" and n: "length bs \<le> 10" "0 < length bs" and count: "count < 1024"
  shows "\<exists>d'. write_blocks (block_array ini bs) content (length bs) count d = Some d'
    \<and> (\<forall>a. (\<forall>b \<in> set bs. \<not> in_block b a) \<longrightarrow> d' a = d a)
    \<and> (\<forall>j < count. d' (1024 * (bs ! 0) + j) = content 0 j)"
proof -
  have blk: "block_array ini bs ! i = int (bs ! i)" if "i < length bs" for i
    using that by (simp add: block_array_def nth_append)
  have size: "1024 * (bs ! i) + m \<le> DISK_SIZE" if "i < length bs" "m \<le> 1024" for i m
    using bs [of "bs ! i"] that by (simp add: DISK_SIZE_def)
  show ?thesis
  proof (cases "0 < count")
    case True
    have m: "count \<le> 1024" using count by simp
    from True n(2) blk [OF n(2)] copy_to_block_eq [OF size [OF n(2) m], of "content 0" d] count nth_mem [OF n(2)]
    show ?thesis by (auto simp: write_blocks_def in_block_def)
  next
    case False
    let ?P = "\<lambda>(i :: nat) t. \<forall>a. (\<forall>b \<in> set bs. \<not> in_block b a) \<longrightarrow> t a = d a"
    let ?body = "\<lambda>i d. map_option Next (copy_to_block (block_array ini bs ! i) (content i) 1024 d) :: (buf, buf) flow option"
    have step: "\<exists>t'. ?body j t = Some (Next t') \<and> ?P (Suc j) t'" if "j < length bs" "?P j t" for j t
      using that blk [OF that(1)] copy_to_block_eq [OF size [OF that(1) order.refl], of "content j" t] nth_mem [OF that(1)]
      by (auto simp: in_block_def)
    have "\<exists>t. for_loop 0 (length bs) ?body d = Some (Next t) \<and> ?P (length bs) t"
      by (rule for_loop_invariant [where P = ?P]) (use step in auto)
    with False show ?thesis by (auto simp: write_blocks_def)
  qed
qed

section \<open>Reading\<close>

text \<open>The contents of a file.\<close>

definition file_text :: "buf \<Rightarrow> FCB \<Rightarrow> byte list" where
  "file_text d f = map (\<lambda>m. d (1024 * unat (fcb_record f ! (m div 1024)) + m mod 1024)) [0..<unat (fcb_size f)]"

lemma read_chars_eq:
  assumes "int n \<le> 1024 * blocknum" and "n \<le> 10240"
    and rs: "\<And>m. m < n \<Longrightarrow> rs ! (m div 1024) = (of_nat (bs (m div 1024)) :: 32 word) \<and> bs (m div 1024) < 1024"
  shows "read_chars d rs blocknum n = Some (map (\<lambda>m. d (1024 * unat (rs ! (m div 1024)) + m mod 1024)) [0..<n])"
proof -
  let ?g = "\<lambda>m. d (1024 * unat (rs ! (m div 1024)) + m mod 1024)"
  let ?body = "\<lambda>sizeread out.
        let readingblock = sizeread div 1024
        in if int readingblock < blocknum \<and> readingblock < 10
           then map_option (\<lambda>c. Next (out @ [c]))
                  (disk_char d (1024 * sint (rs ! readingblock) + int (sizeread mod 1024)))
           else None :: (byte list, byte list) flow option"
  have step: "\<exists>t'. ?body m t = Some (Next t') \<and> t' = map ?g [0..<Suc m]" if m: "m < n" and t: "t = map ?g [0..<m]" for m t
  proof -
    have rd: "int (m div 1024) < blocknum" "m div 1024 < 10" using assms(1,2) m by linarith+
    have b: "rs ! (m div 1024) = of_nat (bs (m div 1024))" "bs (m div 1024) < 1024" using rs [OF m] by auto
    then have s: "sint (rs ! (m div 1024)) = int (bs (m div 1024))" "unat (rs ! (m div 1024)) = bs (m div 1024)"
      by (simp_all add: unat_of_nat)
    have "1024 * int (bs (m div 1024)) + int (m mod 1024) < int DISK_SIZE"
      using b(2) by (simp add: DISK_SIZE_def)
    moreover have "nat (1024 * int (bs (m div 1024)) + int (m mod 1024)) = 1024 * bs (m div 1024) + m mod 1024"
      by (simp add: nat_add_distrib nat_mult_distrib)
    ultimately have "disk_char d (1024 * sint (rs ! (m div 1024)) + int (m mod 1024)) = Some (?g m)"
      unfolding disk_char_def s by simp
    with rd t show ?thesis by (simp add: Let_def)
  qed
  have "\<exists>t. for_loop 0 n ?body [] = Some (Next t) \<and> t = map ?g [0..<n]"
    by (rule for_loop_invariant [where P = "\<lambda>m t. t = map ?g [0..<m]"]) (use step in auto)
  then show ?thesis by (auto simp: read_chars_def)
qed

lemma read_file:
  assumes "file_fcb d f"
  shows "read_chars d (fcb_record f) (sint (fcb_length f)) (unat (fcb_size f)) = Some (file_text d f)"
    and "sint (fcb_length f) \<le> 10"
proof -
  from assms obtain bs where bs: "length bs \<le> 10" "fcb_length f = of_nat (length bs)" "fcb_record f = records bs"
    "unat (fcb_size f) \<le> 1024 * length bs" "\<And>b. b \<in> set bs \<Longrightarrow> b < 1024"
    by (auto simp: file_fcb_def)
  have len: "sint (fcb_length f) = int (length bs)" using bs(1,2) by simp
  then show "sint (fcb_length f) \<le> 10" using bs(1) by simp
  show "read_chars d (fcb_record f) (sint (fcb_length f)) (unat (fcb_size f)) = Some (file_text d f)"
    unfolding len file_text_def
  proof (rule read_chars_eq [where bs = "\<lambda>i. bs ! i"])
    show "int (unat (fcb_size f)) \<le> 1024 * int (length bs)" using bs(4) by linarith
    show "unat (fcb_size f) \<le> 10240" using bs(1,4) by linarith
    fix m assume "m < unat (fcb_size f)"
    then have "m div 1024 < length bs" using bs(4) by linarith
    then show "fcb_record f ! (m div 1024) = of_nat (bs ! (m div 1024)) \<and> bs ! (m div 1024) < 1024"
      using bs(3,5) by (simp add: nth_records)
  qed
qed

lemma entry_is_file:
  assumes "table_ok D d" and "D k = Some ids" and "i \<in> set ids" and "isdir (get_fcb d (int i)) \<noteq> 1"
  shows "file_fcb d (get_fcb d (int i))" and "D i = None"
proof -
  from table_okD(2) [OF assms(1,2)] have m: "members_ok D d k ids" .
  from assms(3) obtain j where j: "j < length ids" "ids ! j = i" by (auto simp: in_set_conv_nth)
  have "\<not> j < 2" using m j assms(4) by (auto simp: members_ok_def dots_ok_def Let_def)
  then obtain q where "j = q + 2" by (metis add.commute le_Suc_ex not_less)
  with j have "i \<in> set (drop 2 ids)" by (auto simp: in_set_conv_nth add.commute intro!: exI [of _ q])
  then have c: "child_ok D d k i" using m by (simp add: members_ok_def)
  show D: "D i = None"
  proof (rule ccontr)
    assume "D i \<noteq> None"
    then obtain js where "D i = Some js" by auto
    with table_okD(1) [OF assms(1) this] assms(4) show False by (simp add: dir_head_def Let_def)
  qed
  with c show "file_fcb d (get_fcb d (int i))" by (simp add: child_ok_def)
qed

definition file_named :: "buf \<Rightarrow> nat list \<Rightarrow> byte list \<Rightarrow> nat option" where
  "file_named d ids name = (case entry_of d ids name of None \<Rightarrow> None
     | Some i \<Rightarrow> if isdir (get_fcb d (int i)) = 1 then None else Some i)"

lemma file_namedD:
  "file_named d ids name = Some i \<Longrightarrow> i \<in> set ids \<and> fname (get_fcb d (int i)) = name \<and> isdir (get_fcb d (int i)) \<noteq> 1"
  by (auto simp: file_named_def dest!: entry_of_Some split: option.splits if_splits)

lemma find_file_named:
  assumes tab: "table_ok D d" and k: "D k = Some ids" and w: "word_ok name"
  shows "find_file d (fcb_record (get_fcb d (int k))) name = Some (map_option int (file_named d ids name))"
proof -
  have "fcb_record (get_fcb d (int k)) = records ids"
    using table_okD(1) [OF tab k] by (simp add: dir_head_def Let_def)
  then show ?thesis
    using find_file_entries [OF dir_entries_ok(1,2) [OF tab k], of name] w
    by (simp add: word_ok_def file_named_def split: option.split)
qed

lemma mRead_spec:
  assumes ok: "vfs_ok D s" and cur: "cur_dir s = int k" and k: "D k = Some ids" and w: "word_ok name"
  shows "mRead name s = Some (case file_named (fdisk s) ids name of None \<Rightarrow> (108, [], s)
    | Some i \<Rightarrow> (1, file_text (fdisk s) (get_fcb (fdisk s) (int i)), s))"
proof -
  from ok have tab: "table_ok D (fdisk s)" by (simp add: vfs_ok_def)
  note dir = dir_entries_ok [OF tab k]
  show ?thesis
  proof (cases "file_named (fdisk s) ids name")
    case None
    then show ?thesis using find_file_named [OF tab k w] cur w dir(3) by (simp add: mRead_def)
  next
    case (Some i)
    from file_namedD [OF this] have i: "i \<in> set ids" "isdir (get_fcb (fdisk s) (int i)) \<noteq> 1" by auto
    then have "i < MAXFILENUM" using dir(5) [OF i(1)] by (simp add: live_def)
    with read_file [OF entry_is_file(1) [OF tab k i]] Some find_file_named [OF tab k w] cur w dir(3)
    show ?thesis by (simp add: mRead_def)
  qed
qed

section \<open>mWrite\<close>

text \<open>The FCB after writing \<open>count\<close> characters modulo 1024 into the blocks \<open>bs\<close>.\<close>

definition written_fcb :: "byte list \<Rightarrow> nat \<Rightarrow> nat list \<Rightarrow> FCB \<Rightarrow> FCB" where
  "written_fcb tm count bs f = f\<lparr>fcb_size := of_nat count, data_time := tm, fcb_record := records bs,
     fcb_length := of_nat (length bs)\<rparr>"

lemma written_fcb_simps [simp]:
  "fcb_id (written_fcb tm count bs f) = fcb_id f" "filename (written_fcb tm count bs f) = filename f"
  "isdir (written_fcb tm count bs f) = isdir f" "fcb_record (written_fcb tm count bs f) = records bs"
  "count < 1024 \<Longrightarrow> unat (fcb_size (written_fcb tm count bs f)) = count"
  "fcb_length (written_fcb tm count bs f) = of_nat (length bs)"
  by (simp_all add: written_fcb_def unat_of_nat)

lemma wf_written [simp]: "wf_fcb f \<Longrightarrow> length tm = 56 \<Longrightarrow> length bs \<le> 10 \<Longrightarrow> wf_fcb (written_fcb tm count bs f)"
  by (simp add: wf_fcb_def written_fcb_def)

text \<open>The new blocks lie behind the table and do not hold the contents of any other file.\<close>

definition only_new :: "buf \<Rightarrow> nat list \<Rightarrow> buf \<Rightarrow> bool" where
  "only_new d bs d' \<longleftrightarrow> (\<forall>a. (\<forall>b \<in> set bs. \<not> in_block b a) \<longrightarrow> d' a = mark_used bs d a)"

lemma only_new_table:
  assumes "only_new d bs d'" and "\<And>b. b \<in> set bs \<Longrightarrow> 102 \<le> b \<and> b < 1024"
  shows "j < MAXFILENUM \<Longrightarrow> get_fcb d' (int j) = get_fcb d (int j)"
    and "b < 1024 \<Longrightarrow> d' (1024 + b) = (if b \<in> set bs then USED else d (1024 + b))"
proof -
  have tbl: "d' a = mark_used bs d a" if "a < 104448" for a
  proof -
    have "\<not> in_block c a" if "c \<in> set bs" for c
    proof -
      have "104448 \<le> 1024 * c" using assms(2) [OF that] by simp
      with \<open>a < 104448\<close> show ?thesis by (simp add: in_block_def)
    qed
    with assms(1) show ?thesis by (simp add: only_new_def)
  qed
  show "b < 1024 \<Longrightarrow> d' (1024 + b) = (if b \<in> set bs then USED else d (1024 + b))"
    using tbl [of "1024 + b"] by (auto simp: mark_used_def)
  show "j < MAXFILENUM \<Longrightarrow> get_fcb d' (int j) = get_fcb d (int j)"
  proof (rule get_fcb_cong)
    fix a assume "table_byte a"
    then have "2048 \<le> a" "a < 104448" by (auto simp: table_byte_def)
    with tbl [of a] assms(2) show "d' a = d a" by (fastforce simp: mark_used_def)
  qed
qed

lemma file_text_kept:
  assumes "only_new d bs d'" and bs: "\<And>b. b \<in> set bs \<Longrightarrow> b < 1024 \<and> d (1024 + b) = FREE" and f: "file_fcb d f"
    and out: "\<And>a. \<not> table_byte a \<Longrightarrow> d'' a = d' a"
  shows "file_text d'' f = file_text d f"
  unfolding file_text_def
proof (rule map_cong [OF refl])
  fix m assume "m \<in> set [0..<unat (fcb_size f)]"
  then have m: "m < unat (fcb_size f)" by simp
  from f obtain cs where cs: "fcb_record f = records cs" "unat (fcb_size f) \<le> 1024 * length cs"
    "\<And>b. b \<in> set cs \<Longrightarrow> 102 \<le> b \<and> b < 1024 \<and> d (1024 + b) \<noteq> FREE" by (auto simp: file_fcb_def)
  let ?q = "m div 1024" and ?r = "m mod 1024"
  have q: "?q < length cs" using m cs(2) by linarith
  let ?b = "cs ! ?q"
  have b: "102 \<le> ?b" "?b < 1024" "d (1024 + ?b) \<noteq> FREE" using cs(3) [OF nth_mem [OF q]] by auto
  have u: "unat (fcb_record f ! ?q) = ?b" using q b(2) by (simp add: cs(1) nth_records unat_of_nat)
  have big: "104448 \<le> 1024 * ?b + ?r" using b(1) by simp
  have r: "?r < 1024" by simp
  have "\<not> in_block c (1024 * ?b + ?r)" if "c \<in> set bs" for c
  proof
    assume "in_block c (1024 * ?b + ?r)"
    then have "c = ?b" using r unfolding in_block_def by linarith
    with bs [OF that] b(3) show False by simp
  qed
  then have "d' (1024 * ?b + ?r) = mark_used bs d (1024 * ?b + ?r)" using assms(1) by (simp add: only_new_def)
  also have "\<dots> = d (1024 * ?b + ?r)"
  proof -
    have "1024 * ?b + ?r \<noteq> 1024 + c" if "c \<in> set bs" for c using bs [OF that] big by linarith
    then show ?thesis by (auto simp: mark_used_def)
  qed
  finally show "d'' (1024 * unat (fcb_record f ! ?q) + ?r) = d (1024 * unat (fcb_record f ! ?q) + ?r)"
    using out [of "1024 * ?b + ?r"] big u by (simp add: table_byte_def)
qed

text \<open>The table after the FCB of the file \<open>i\<close> is written back.\<close>

text \<open>A control block with the new blocks in its record is one of a file, when the blocks are used.\<close>

lemma written_file_fcb:
  assumes "isdir f = 0" and len: "length bs \<le> 10" "0 < length bs" and count: "count < 1024"
    and bs: "\<And>b. b \<in> set bs \<Longrightarrow> 102 \<le> b \<and> b < 1024 \<and> d (1024 + b) \<noteq> FREE"
  shows "file_fcb d (written_fcb tm count bs f)"
proof -
  have "1024 * 1 \<le> 1024 * length bs" using len(2) by (intro mult_le_mono2) linarith
  with count have "count \<le> 1024 * length bs" by linarith
  then show ?thesis
    unfolding file_fcb_def using assms(1) len(1) count bs by (intro conjI exI [of _ bs]) simp_all
qed

lemma written_table_ok:
  assumes tab: "table_ok D d" and i: "live d i" "D i = None" "file_fcb d (get_fcb d (int i))"
    and new: "only_new d bs d2" and bs: "\<And>b. b \<in> set bs \<Longrightarrow> 102 \<le> b \<and> b < 1024"
    and len: "length bs \<le> 10" "0 < length bs" and count: "count < 1024" and tm: "length tm = 56"
    and d3: "d3 = put_fcb d2 (int i) (written_fcb tm count bs (get_fcb d2 (int i)))"
  shows "table_ok D d3" and "get_fcb d3 (int i) = written_fcb tm count bs (get_fcb d (int i))"
    and "j < MAXFILENUM \<Longrightarrow> j \<noteq> i \<Longrightarrow> get_fcb d3 (int j) = get_fcb d (int j)"
    and "\<not> table_byte a \<Longrightarrow> d3 a = d2 a"
proof -
  have lt: "i < MAXFILENUM" using i(1) by (simp add: live_def)
  have tbl: "j < MAXFILENUM \<Longrightarrow> get_fcb d2 (int j) = get_fcb d (int j)"
    "b < 1024 \<Longrightarrow> d2 (1024 + b) = (if b \<in> set bs then USED else d (1024 + b))" for j b
    using only_new_table(1) [of d bs d2 j] only_new_table(2) [of d bs d2 b] new bs by auto
  have g: "get_fcb d3 (int j) = (if i = j then written_fcb tm count bs (get_fcb d (int i)) else get_fcb d (int j))"
    if "j < MAXFILENUM" for j
    using that lt len tm by (simp add: d3 get_put_fcb tbl)
  show gi: "get_fcb d3 (int i) = written_fcb tm count bs (get_fcb d (int i))" using g [OF lt] by simp
  show out: "\<not> table_byte a \<Longrightarrow> d3 a = d2 a" for a using lt len tm by (simp add: d3 put_fcb_outside)
  show gj: "j < MAXFILENUM \<Longrightarrow> j \<noteq> i \<Longrightarrow> get_fcb d3 (int j) = get_fcb d (int j)" for j using g by simp
  have flag: "d3 (1024 + b) = (if b \<in> set bs then USED else d (1024 + b))" if "b < 1024" for b
    using tbl(2) [OF that] out [of "1024 + b"] that by (simp add: table_byte_def)
  have flag_used: "d3 (1024 + b) \<noteq> FREE" if "b < 1024" "b \<in> set bs \<or> d (1024 + b) \<noteq> FREE" for b
    using flag [OF that(1)] that(2) by auto
  have fi: "file_fcb d3 (get_fcb d3 (int i))"
    unfolding gi by (rule written_file_fcb) (use i(3) len count bs flag_used in \<open>auto simp: file_fcb_def\<close>)
  have keep: "file_fcb d3 f" if "file_fcb d f" for f
    using that flag_used unfolding file_fcb_def by (metis (no_types, lifting))
  have ex: "extends D d D d3"
    unfolding extends_def
  proof (intro conjI allI impI)
    fix j assume j: "live d j"
    then have jl: "j < MAXFILENUM" by (simp add: live_def)
    show "same_head (get_fcb d (int j)) (get_fcb d3 (int j))" using g [OF jl] by (simp add: same_head_def)
    assume "isdir (get_fcb d (int j)) = 1"
    then show "fcb_record (get_fcb d3 (int j)) = fcb_record (get_fcb d (int j))"
      using g [OF jl] i(3) by (auto simp: file_fcb_def)
  next
    fix j assume "live d j" "file_fcb d (get_fcb d (int j))"
    then show "file_fcb d3 (get_fcb d3 (int j))" using g [of j] fi keep by (auto simp: live_def)
  qed auto
  show "table_ok D d3"
    unfolding table_ok_def
  proof (intro conjI allI impI)
    fix j js assume j: "D j = Some js"
    then have "j \<noteq> i" using i(2) by auto
    with extends_dirs [OF tab ex j gj] dir_entries_ok(3) [OF tab j]
    show "dir_head d3 j js" "members_ok D d3 j js" by auto
  next
    fix j assume j: "j < MAXFILENUM" "fcb_id (get_fcb d3 (int j)) = - 1"
    have "j \<noteq> i" using j gi i(1) by (auto simp: live_def)
    with j gj table_okD(3) [OF tab j(1)] show "fcb_record (get_fcb d3 (int j)) = records []" by simp
  next
    fix b :: nat assume "b < 102"
    then show "d3 (1024 + b) \<noteq> FREE" using flag_used [of b] table_okD(4) [OF tab] by simp
  next
    have "d2 0 = mark_used bs d 0" using new bs unfolding only_new_def in_block_def by fastforce
    then show "d3 0 = 36" using out [of 0] table_okD(5) [OF tab] by (simp add: table_byte_def mark_used_def)
  qed
qed

text \<open>The text of the written control block: the first \<open>count\<close> bytes of its first block.\<close>

lemma written_text:
  assumes f: "get_fcb d (int i) = written_fcb tm count bs f" and c: "count < 1024" "count \<le> length text"
    and bs: "0 < length bs" "length bs \<le> 10" "bs ! 0 < 1024"
    and data: "\<And>j. j < count \<Longrightarrow> d (1024 * (bs ! 0) + j) = blockcontent text 0 j"
  shows "file_text d (get_fcb d (int i)) = take count text"
proof (rule nth_equalityI)
  have size: "unat (fcb_size (written_fcb tm count bs f)) = count" using c by (simp add: written_fcb_def unat_of_nat)
  then show "length (file_text d (get_fcb d (int i))) = length (take count text)" using c by (simp add: file_text_def f)
  fix m assume "m < length (file_text d (get_fcb d (int i)))"
  then have m: "m < count" "m < 1024" "m < length text" using c by (simp_all add: file_text_def f size)
  have "unat (records bs ! 0) = bs ! 0" using bs by (simp add: nth_records unat_of_nat)
  then show "file_text d (get_fcb d (int i)) ! m = take count text ! m"
    using m data [OF m(1)] by (simp add: file_text_def size f blockcontent_def)
qed

lemma mWrite_spec:
  assumes ok: "vfs_ok D s" and cur: "cur_dir s = int k" and k: "D k = Some ids" and w: "word_ok name"
    and i: "file_named (fdisk s) ids name = Some i" and len: "length text < 10240"
    and free: "length text div 1024 + 1 \<le> length (free_list (fdisk s))" and tm: "length tm = 56"
  shows "\<exists>s'. mWrite tm name text s = Some (1, s') \<and> vfs_ok D s' \<and> cur_dir s' = cur_dir s
    \<and> file_text (fdisk s') (get_fcb (fdisk s') (int i)) = take (length text mod 1024) text
    \<and> (\<forall>j < MAXFILENUM. j \<noteq> i \<longrightarrow> get_fcb (fdisk s') (int j) = get_fcb (fdisk s) (int j))
    \<and> same_head (get_fcb (fdisk s) (int i)) (get_fcb (fdisk s') (int i))
    \<and> (\<forall>f. file_fcb (fdisk s) f \<longrightarrow> file_text (fdisk s') f = file_text (fdisk s) f)
    \<and> (\<forall>b < 1024. fdisk s' (1024 + b) =
          (if b \<in> set (take (length text div 1024 + 1) (free_list (fdisk s))) then USED else fdisk s (1024 + b)))
    \<and> opened s' = opened s \<and> opennum s' = opennum s
    \<and> file_exists s' \<and> file_len s' = 1024 * 1024 \<and> file_bytes s' = fdisk s'"
proof -
  let ?d = "fdisk s" and ?n = "length text div 1024 + 1" and ?count = "length text mod 1024"
  from ok have tab: "table_ok D ?d" by (simp add: vfs_ok_def)
  note dir = dir_entries_ok [OF tab k]
  from file_namedD [OF i] have ii: "i \<in> set ids" "isdir (get_fcb ?d (int i)) \<noteq> 1" by auto
  note fl = entry_is_file [OF tab k ii] and il = dir(5) [OF ii(1)]
  have lt: "i < MAXFILENUM" using il by (simp add: live_def)
  define bs where "bs = take ?n (free_list ?d)"
  have bs_len: "length bs = ?n" "length bs \<le> 10" "0 < length bs" using free len by (auto simp: bs_def)
  have bs: "102 \<le> b" "b < 1024" "?d (1024 + b) = FREE" if "b \<in> set bs" for b
  proof -
    have "b \<in> set (free_list ?d)" using that unfolding bs_def by (rule in_set_takeD)
    then show "102 \<le> b" "b < 1024" "?d (1024 + b) = FREE"
      using free_list_behind [OF tab] free_list_props(1,2) by blast+
  qed
  have take: "take_blocks (length bs) ?d = Some (mark_used bs ?d, bs)"
    using take_blocks_free [of ?n ?d] free unfolding bs_len(1) by (simp add: bs_def)
  have c: "?count < 1024" by simp
  from write_blocks_spec [of bs ?count "- 1 # replicate 9 0" "blockcontent text" "mark_used bs ?d", OF bs(2) bs_len(2,3) c]
  obtain d2 where wr: "write_blocks (block_array (- 1 # replicate 9 0) bs) (blockcontent text) (length bs) ?count (mark_used bs ?d) = Some d2"
    and new: "only_new ?d bs d2"
    and data: "\<And>j. j < ?count \<Longrightarrow> d2 (1024 * (bs ! 0) + j) = blockcontent text 0 j"
    unfolding only_new_def by blast
  define d3 where "d3 = put_fcb d2 (int i) (written_fcb tm ?count bs (get_fcb d2 (int i)))"
  have bs': "102 \<le> b \<and> b < 1024" if "b \<in> set bs" for b using bs that by simp
  note ok3 = written_table_ok [OF tab il fl(2,1) new bs' bs_len(2,3) c tm d3_def]
  have rec: "map word_of_int (take (length bs) (block_array (- 1 # replicate 9 0) bs)) @ replicate (10 - length bs) (- 1) = records bs"
    by (simp add: block_array_def records_def)
  let ?s = "close_fp (fwrite_blocks 1024 ((open_trunc s)\<lparr>fdisk := d3\<rparr>))"
  have fold: "put_fcb d2 (int i) ((get_fcb d2 (int i))\<lparr>fcb_size := of_nat ?count, data_time := tm,
      fcb_record := records bs, fcb_length := of_nat (length bs)\<rparr>) = d3"
    by (simp add: d3_def written_fcb_def)
  have wordname: "word_ok name" by (rule w)
  have run: "mWrite tm name text s = Some (1, ?s)"
    using wordname cur dir(3) find_file_named [OF tab k w] i len lt
    by (simp add: mWrite_def Let_def open_trunc_def take bs_len(1) [simplified, symmetric] wr rec fold
        del: length_0_conv)
  have "d3 (1024 * (bs ! 0) + m) = blockcontent text 0 m" if "m < ?count" for m
  proof -
    have "bs ! 0 \<in> set bs" using bs_len(3) by simp
    then have "\<not> table_byte (1024 * (bs ! 0) + m)" using bs(1) [of "bs ! 0"] by (simp add: table_byte_def)
    then show ?thesis using ok3(4) data [OF that] by simp
  qed
  then have text3: "file_text d3 (get_fcb d3 (int i)) = take ?count text"
    by (intro written_text [OF ok3(2) c _ bs_len(3,2)]) (use bs(2) [of "bs ! 0"] bs_len(3) in simp_all)
  show ?thesis
  proof (intro exI [of _ ?s] conjI allI impI)
    show "vfs_ok D ?s" using ok ok3(1) by (auto simp: vfs_ok_def close_fp_def fwrite_blocks_def open_trunc_def)
    fix f assume "file_fcb ?d f"
    from file_text_kept [OF new _ this ok3(4)] bs show "file_text (fdisk ?s) f = file_text ?d f"
      by (simp add: close_fp_def fwrite_blocks_def open_trunc_def)
  next
    fix b :: nat assume b: "b < 1024"
    then have "\<not> table_byte (1024 + b)" by (simp add: table_byte_def)
    then have "d3 (1024 + b) = d2 (1024 + b)" using ok3(4) by simp
    with only_new_table(2) [OF new bs' b]
    show "fdisk ?s (1024 + b) = (if b \<in> set (take ?n (free_list ?d)) then USED else ?d (1024 + b))"
      by (simp add: close_fp_def fwrite_blocks_def open_trunc_def bs_def)
  qed (use run text3 ok3(2,3) in \<open>auto simp: close_fp_def fwrite_blocks_def open_trunc_def same_head_def\<close>)
qed

end
