(* ===== verification/VfsDirs.thy ===== *)
theory VfsDirs
  imports VfsFacts
begin

text \<open>Directories of \<open>vfs.c\<close>: what \<open>mMkdir\<close> makes, and where \<open>mCd\<close> goes.\<close>

section \<open>mMkdir\<close>

definition new_dir :: "byte list \<Rightarrow> nat \<Rightarrow> byte list \<Rightarrow> nat list \<Rightarrow> FCB \<Rightarrow> FCB" where
  "new_dir tm i name ids f = f\<lparr>fcb_id := of_nat i, filename := strcpy_name (filename f) name, isdir := 1,
     data_time := tm, firstblock := 0, fcb_size := 0, fcb_length := of_nat (length ids), fcb_record := records ids\<rparr>"

lemma wf_new_dir [simp]:
  "wf_fcb f \<Longrightarrow> length tm = 56 \<Longrightarrow> length name \<le> 7 \<Longrightarrow> length ids \<le> 10 \<Longrightarrow> wf_fcb (new_dir tm i name ids f)"
  by (simp add: wf_fcb_def new_dir_def)

lemma new_dir_simps [simp]:
  "fcb_id (new_dir tm i name ids f) = of_nat i" "isdir (new_dir tm i name ids f) = 1"
  "fcb_record (new_dir tm i name ids f) = records ids" "fcb_length (new_dir tm i name ids f) = of_nat (length ids)"
  "0 \<notin> set name \<Longrightarrow> fname (new_dir tm i name ids f) = name" "0 \<notin> set name \<Longrightarrow> named (new_dir tm i name ids f)"
  by (simp_all add: new_dir_def fname_def named_def)

lemma records_1: "records [i] = of_nat i # replicate 9 (- 1)"
  by (simp add: records_def)

lemma records_2: "records [a, b] = of_nat a # of_nat b # replicate 8 (- 1)"
  by (simp add: records_def)

lemma two_records:
  assumes "length rs = 10"
  shows "(take 2 rs @ replicate 8 (- 1))[0 := x, 1 := y] = x # y # replicate 8 (- 1 :: 32 word)"
proof -
  from assms obtain u v ws where "rs = u # v # ws" by (auto simp: numeral_eq_Suc length_Suc_conv)
  then show ?thesis by (simp add: numeral_2_eq_2)
qed

text \<open>The FCBs after \<open>mMkdir\<close>.\<close>

definition mkdir_fcbs :: "byte list \<Rightarrow> buf \<Rightarrow> nat \<Rightarrow> nat list \<Rightarrow> byte list \<Rightarrow> nat \<Rightarrow> nat \<Rightarrow> nat \<Rightarrow> nat \<Rightarrow> FCB" where
  "mkdir_fcbs tm d k ids name i a b j = (let f = get_fcb d (int j) in
     if j = k then grown tm ids i f
     else if j = i then new_dir tm i name [a, b] f
     else if j = a then new_dir tm a [46] [i] f
     else if j = b then new_dir tm b [46, 46] [k] f
     else f)"

lemma find_fcb_next:
  assumes "find_fcb d (Suc i) = a" and "a < MAXFILENUM"
    and "fcb_id (get_fcb d' (int i)) \<noteq> - 1"
    and "\<And>j. i < j \<Longrightarrow> j \<le> a \<Longrightarrow> get_fcb d' (int j) = get_fcb d (int j)"
  shows "find_fcb d' i = a"
proof (rule find_fcb_least)
  note f = find_fcb_free [OF assms(1,2)]
  show "i \<le> a" "a < MAXFILENUM" using f(2) assms(2) by auto
  show "fcb_id (get_fcb d' (int a)) = - 1" using f(1,2) assms(4) [of a] by simp
  fix j assume j: "i \<le> j" "j < a"
  show "fcb_id (get_fcb d' (int j)) \<noteq> - 1"
  proof (cases "j = i")
    case True
    with assms(3) show ?thesis by simp
  next
    case False
    with j f(3) [of j] assms(4) [of j] show ?thesis by simp
  qed
qed

lemma find_fcb_bound: "find_fcb d (Suc a) < MAXFILENUM \<Longrightarrow> a < MAXFILENUM"
  by (cases "a < MAXFILENUM") (simp_all add: find_fcb_def)

lemma wf_mkdir_parts:
  assumes "short_name name" and "length tm = 56" and "wf_fcb f"
  shows "wf_fcb (name_dir tm i name len f)" and "wf_fcb (clear_records f)"
    and "wf_fcb (dot_fcb tm j [46] r f)" and "wf_fcb (dot_fcb tm j [46, 46] r f)" and "wf_fcb (set_dots x y f)"
  using assms by (simp_all add: short_name_def name_dir_def clear_records_def dot_fcb_def set_dots_def wf_fcb_def)

text \<open>The six stores of \<open>mMkdir\<close>, one after the other, and what they leave in each control block.\<close>

lemma mkdir_stores:
  assumes lt: "i < MAXFILENUM" "a < MAXFILENUM" "b < MAXFILENUM" "k < MAXFILENUM"
    and ne: "i \<noteq> a" "a \<noteq> i" "i \<noteq> b" "b \<noteq> i" "a \<noteq> b" "b \<noteq> a" "i \<noteq> k" "k \<noteq> i" "a \<noteq> k" "k \<noteq> a" "b \<noteq> k" "k \<noteq> b"
    and room: "length ids < 10" and name: "short_name name" and tm: "length tm = 56"
    and idk: "fcb_id (get_fcb d (int k)) = of_nat k"
    and d1_def: "d1 = put_fcb d (int i) (name_dir tm i name 2 (get_fcb d (int i)))"
    and d2_def: "d2 = put_fcb d1 (int i) (clear_records (get_fcb d1 (int i)))"
    and d3_def: "d3 = put_fcb d2 (int a) (dot_fcb tm a [46] (of_nat i) (get_fcb d2 (int a)))"
    and d4_def: "d4 = put_fcb d3 (int b) (dot_fcb tm b [46, 46] (fcb_id (get_fcb d3 (int k))) (get_fcb d3 (int b)))"
    and d5_def: "d5 = put_fcb d4 (int i) (set_dots a b (get_fcb d4 (int i)))"
    and d6_def: "d6 = put_fcb d5 (int k) (grown tm ids i (get_fcb d5 (int k)))"
  shows "j < MAXFILENUM \<Longrightarrow> get_fcb d1 (int j) =
      (if i = j then name_dir tm i name 2 (get_fcb d (int i)) else get_fcb d (int j))"
    and "j < MAXFILENUM \<Longrightarrow> get_fcb d3 (int j) =
      (if a = j then dot_fcb tm a [46] (of_nat i) (get_fcb d (int a))
       else if i = j then clear_records (name_dir tm i name 2 (get_fcb d (int i))) else get_fcb d (int j))"
    and "get_fcb d5 (int k) = get_fcb d (int k)"
    and "j < MAXFILENUM \<Longrightarrow> get_fcb d6 (int j) = mkdir_fcbs tm d k ids name i a b j"
    and "\<not> table_byte n \<Longrightarrow> d6 n = d n"
proof -
  have wf': "length (filename (get_fcb d j)) = 8" "length (fcb_record (get_fcb d j)) = 10" for d j
    using wf_get_fcb [of d j] by (auto simp: wf_fcb_def)
  note [simp] = wf_mkdir_parts [OF name tm]
  have e1: "get_fcb d1 (int j) = (if i = j then name_dir tm i name 2 (get_fcb d (int i)) else get_fcb d (int j))" if "j < MAXFILENUM" for j
    using that lt by (simp add: d1_def get_put_fcb)
  have e2: "get_fcb d2 (int j) = (if i = j then clear_records (name_dir tm i name 2 (get_fcb d (int i))) else get_fcb d (int j))" if "j < MAXFILENUM" for j
    using that lt by (simp add: d2_def get_put_fcb e1)
  have e3: "get_fcb d3 (int j) = (if a = j then dot_fcb tm a [46] (of_nat i) (get_fcb d (int a)) else if i = j then clear_records (name_dir tm i name 2 (get_fcb d (int i)))
      else get_fcb d (int j))" if "j < MAXFILENUM" for j
    using that lt ne by (simp add: d3_def get_put_fcb e2)
  have s6: "get_fcb d6 (int j) = (if k = j then grown tm ids i (get_fcb d5 (int k)) else get_fcb d5 (int j))"
    if "j < MAXFILENUM" for j
    using that lt room tm by (simp add: d6_def get_put_fcb)
  have s5: "get_fcb d5 (int j) = (if i = j then set_dots a b (get_fcb d4 (int i)) else get_fcb d4 (int j))" if "j < MAXFILENUM" for j
    using that lt by (simp add: d5_def get_put_fcb)
  have s4: "get_fcb d4 (int j) = (if b = j then dot_fcb tm b [46, 46] (of_nat k) (get_fcb d (int b)) else get_fcb d3 (int j))" if "j < MAXFILENUM" for j
    using that lt ne by (simp add: d4_def get_put_fcb e3 idk)
  have gi: "set_dots a b (clear_records (name_dir tm i name 2 f)) = new_dir tm i name [a, b] f" if "length (fcb_record f) = 10" for f
    using two_records [OF that, of "of_nat a" "of_nat b"] by (simp add: name_dir_def clear_records_def set_dots_def new_dir_def records_2)
  have ga: "dot_fcb tm a [46] (of_nat i) f = new_dir tm a [46] [i] f" for f by (simp add: dot_fcb_def name_dir_def new_dir_def records_1)
  have gb: "dot_fcb tm b [46, 46] (of_nat k) f = new_dir tm b [46, 46] [k] f" for f by (simp add: dot_fcb_def name_dir_def new_dir_def records_1)
  have at_k: "get_fcb d5 (int k) = get_fcb d (int k)"
    unfolding s5 [OF lt(4)] s4 [OF lt(4)] e3 [OF lt(4)] using ne by simp
  have at_i: "get_fcb d6 (int i) = new_dir tm i name [a, b] (get_fcb d (int i))"
    unfolding s6 [OF lt(1)] s5 [OF lt(1)] s4 [OF lt(1)] e3 [OF lt(1)] using ne gi [OF wf'(2)] by simp
  have at_a: "get_fcb d6 (int a) = new_dir tm a [46] [i] (get_fcb d (int a))"
    unfolding s6 [OF lt(2)] s5 [OF lt(2)] s4 [OF lt(2)] e3 [OF lt(2)] using ne ga by simp
  have at_b: "get_fcb d6 (int b) = new_dir tm b [46, 46] [k] (get_fcb d (int b))"
    unfolding s6 [OF lt(3)] s5 [OF lt(3)] s4 [OF lt(3)] using ne gb by simp
  have e6: "get_fcb d6 (int j) = mkdir_fcbs tm d k ids name i a b j" if j: "j < MAXFILENUM" for j
  proof -
    consider "j = k" | "j = i" | "j = a" | "j = b" | "j \<notin> {k, i, a, b}" by blast
    then show ?thesis
    proof cases
      case 1
      then show ?thesis using s6 [OF lt(4)] at_k by (simp add: mkdir_fcbs_def)
    next
      case 5
      then show ?thesis using s6 [OF j] s5 [OF j] s4 [OF j] e3 [OF j] by (auto simp: mkdir_fcbs_def)
    qed (use ne at_i at_a at_b in \<open>simp_all add: mkdir_fcbs_def\<close>)
  qed
  have out: "d6 n = d n" if "\<not> table_byte n" for n
    using that lt room tm by (simp add: d6_def d5_def d4_def d3_def d2_def d1_def put_fcb_outside)
  show "j < MAXFILENUM \<Longrightarrow> get_fcb d1 (int j) =
      (if i = j then name_dir tm i name 2 (get_fcb d (int i)) else get_fcb d (int j))" by (rule e1)
  show "j < MAXFILENUM \<Longrightarrow> get_fcb d3 (int j) =
      (if a = j then dot_fcb tm a [46] (of_nat i) (get_fcb d (int a))
       else if i = j then clear_records (name_dir tm i name 2 (get_fcb d (int i))) else get_fcb d (int j))"
    by (rule e3)
  show "get_fcb d5 (int k) = get_fcb d (int k)" by (rule at_k)
  show "j < MAXFILENUM \<Longrightarrow> get_fcb d6 (int j) = mkdir_fcbs tm d k ids name i a b j" by (rule e6)
  show "\<not> table_byte n \<Longrightarrow> d6 n = d n" by (rule out)
qed

lemma mMkdir_run:
  assumes head: "dir_head (fdisk s) k ids" and cur: "cur_dir s = int k" and room: "length ids < 10"
    and i: "find_fcb (fdisk s) 0 = i" and a: "find_fcb (fdisk s) (Suc i) = a"
    and b: "find_fcb (fdisk s) (Suc a) = b" "b < MAXFILENUM"
    and name: "short_name name" and tm: "length tm = 56"
    and conflict: "strcmp_eq (fdisk s) (int (length ids)) name = Some False"
  shows "\<exists>d'. mMkdir tm name s = Some (1, close_fp (fwrite_blocks 1024 ((open_trunc s)\<lparr>fdisk := d'\<rparr>)))
    \<and> (\<forall>j < MAXFILENUM. get_fcb d' (int j) = mkdir_fcbs tm (fdisk s) k ids name i a b j)
    \<and> (\<forall>n. \<not> table_byte n \<longrightarrow> d' n = fdisk s n)"
proof -
  let ?d = "fdisk s"
  have a_lt: "a < MAXFILENUM" by (rule find_fcb_bound [of ?d]) (use b in simp)
  have i_lt: "i < MAXFILENUM" by (rule find_fcb_bound [of ?d]) (use a a_lt in simp)
  note fi = find_fcb_free [OF i i_lt] and fa = find_fcb_free [OF a a_lt] and fb = find_fcb_free [OF b]
  have k: "k < MAXFILENUM" "fcb_id (get_fcb ?d (int k)) \<noteq> - 1"
    using head by (auto simp: dir_head_def Let_def)
  have ne: "i \<noteq> a" "a \<noteq> i" "i \<noteq> b" "b \<noteq> i" "a \<noteq> b" "b \<noteq> a" "i \<noteq> k" "k \<noteq> i" "a \<noteq> k" "k \<noteq> a" "b \<noteq> k" "k \<noteq> b"
    using fa(1,2) fb(1,2) fi(1) k(2) by auto
  define d1 where "d1 = put_fcb ?d (int i) (name_dir tm i name 2 (get_fcb ?d (int i)))"
  define d2 where "d2 = put_fcb d1 (int i) (clear_records (get_fcb d1 (int i)))"
  define d3 where "d3 = put_fcb d2 (int a) (dot_fcb tm a [46] (of_nat i) (get_fcb d2 (int a)))"
  define d4 where "d4 = put_fcb d3 (int b) (dot_fcb tm b [46, 46] (fcb_id (get_fcb d3 (int k))) (get_fcb d3 (int b)))"
  define d5 where "d5 = put_fcb d4 (int i) (set_dots a b (get_fcb d4 (int i)))"
  define d6 where "d6 = put_fcb d5 (int k) (grown tm ids i (get_fcb d5 (int k)))"
  note lt = i_lt a_lt b(2) k(1)
  have idk: "fcb_id (get_fcb ?d (int k)) = of_nat k" using head by (simp add: dir_head_def Let_def)
  note stores = mkdir_stores [OF lt ne room name tm idk d1_def d2_def d3_def d4_def d5_def d6_def]
  have find_a: "find_fcb d1 i = a"
    by (rule find_fcb_next [OF a a_lt]) (use stores(1) i_lt a_lt in \<open>auto simp: name_dir_def\<close>)
  have find_b: "find_fcb d3 a = b"
    by (rule find_fcb_next [OF b]) (use stores(2) a_lt fa(2) b(2) in \<open>auto simp: dot_fcb_def name_dir_def\<close>)
  have head5: "dir_head d5 k ids" using head stores(3) by (simp add: dir_head_def)
  have lenk: "sint (fcb_length (get_fcb ?d (int k))) = int (length ids)" "ids \<noteq> []"
    using head room by (auto simp: dir_head_def Let_def)
  have run: "mMkdir tm name s = Some (1, close_fp (fwrite_blocks 1024 ((open_trunc s)\<lparr>fdisk := d6\<rparr>)))"
    using name i cur lt room lenk conflict
    by (simp add: mMkdir_def short_name_def Let_def open_trunc_def d1_def [symmetric] find_a d2_def [symmetric]
        d3_def [symmetric] find_b d4_def [symmetric] d5_def [symmetric] add_record_grown [OF head5 room] d6_def [symmetric] del: One_nat_def)
  show ?thesis using run stores(4,5) by blast
qed

text \<open>The new directory is an entry of the old one, and has only \<open>"."\<close> and \<open>".."\<close>.\<close>

lemma mkdir_table_ok:
  assumes tab: "table_ok D d" and k: "D k = Some ids" and room: "length ids < 10"
    and free: "\<And>j. j \<in> {i, a, b} \<Longrightarrow> j < MAXFILENUM \<and> \<not> live d j"
    and ne: "i \<noteq> a" "i \<noteq> b" "a \<noteq> b" and w: "0 \<notin> set name"
    and g: "\<And>j. j < MAXFILENUM \<Longrightarrow> get_fcb d' (int j) = mkdir_fcbs tm d k ids name i a b j"
    and out: "\<And>n. \<not> table_byte n \<Longrightarrow> d' n = d n"
  shows "table_ok (D(k \<mapsto> ids @ [i], i \<mapsto> [a, b])) d'"
proof -
  let ?D = "D(k \<mapsto> ids @ [i], i \<mapsto> [a, b])"
  note dir = dir_entries_ok [OF tab k]
  have head: "dir_head d k ids" using table_okD(1) [OF tab k] .
  have lt: "i < MAXFILENUM" "a < MAXFILENUM" "b < MAXFILENUM" and nl: "\<not> live d i" "\<not> live d a" "\<not> live d b"
    using free by auto
  have nk: "k \<noteq> i" "k \<noteq> a" "k \<noteq> b" using nl dir(4) by auto
  have out_D: "D i = None" "D a = None" "D b = None"
    using nl dir_entries_ok(4) [OF tab] by (metis not_None_eq)+
  have flags: "d' (1024 + n) = d (1024 + n)" if "n < 1024" for n
    by (rule out) (use that in \<open>simp add: table_byte_def\<close>)
  have same: "get_fcb d' (int j) = get_fcb d (int j)" if "live d j" "j \<noteq> k" for j
    using that nl g [of j] by (auto simp: live_def mkdir_fcbs_def Let_def)
  have gk: "get_fcb d' (int k) = grown tm ids i (get_fcb d (int k))"
    and gi: "get_fcb d' (int i) = new_dir tm i name [a, b] (get_fcb d (int i))"
    and ga: "get_fcb d' (int a) = new_dir tm a [46] [i] (get_fcb d (int a))"
    and gb: "get_fcb d' (int b) = new_dir tm b [46, 46] [k] (get_fcb d (int b))"
    using g dir(3) lt nk ne by (simp_all add: mkdir_fcbs_def Let_def)
  have new_live: "live d' i" "live d' a" "live d' b" using gi ga gb lt by (simp_all add: live_def)
  have ex: "extends D d ?D d'"
    by (rule new_entry_extends [OF tab k _ _ gk same flags]) (use nl nk in auto)
  have par: "parent_of d' [a, b] = of_nat k" using gb by (simp add: parent_of_def records_def)
  have child: "child_ok ?D d' k i" using par by (simp add: child_ok_def)
  have mem_k: "members_ok ?D d' k (ids @ [i])"
    by (rule members_append [OF extends_members [OF ex tab k] new_live(1) _ child]) (use gi w in simp)
  have two: "j < 2 \<longleftrightarrow> j = 0 \<or> j = 1" for j :: nat by auto
  have dots: "dots_ok ?D d' [a, b]"
    using ga gb ne nk out_D par by (auto simp: dots_ok_def two Let_def)
  have mem_i: "members_ok ?D d' i [a, b]"
    using dots new_live ga gb by (simp add: members_ok_def)
  have head_i: "dir_head d' i [a, b]" using gi lt by (simp add: dir_head_def)
  show ?thesis
    unfolding table_ok_def
  proof (intro conjI allI impI)
    fix j js assume j: "?D j = Some js"
    have old: "dir_head d' j js \<and> members_ok ?D d' j js" if "j \<noteq> k" "j \<noteq> i"
      using extends_dirs [OF tab ex _ same [OF dir_entries_ok(4) [OF tab] that(1)]] j that by auto
    show "dir_head d' j js" using j grown_head [OF head room gk] head_i old nk by (cases "j = i"; cases "j = k") auto
    show "members_ok ?D d' j js" using j mem_k mem_i old nk by (cases "j = i"; cases "j = k") auto
  next
    fix j assume j: "j < MAXFILENUM" "fcb_id (get_fcb d' (int j)) = - 1"
    then have "\<not> live d' j" by (simp add: live_def)
    then have "j \<noteq> i" "j \<noteq> a" "j \<noteq> b" "j \<noteq> k" using new_live extends_live [OF ex dir(4)] by auto
    then show "fcb_record (get_fcb d' (int j)) = records []"
      using j g [OF j(1)] table_okD(3) [OF tab j(1)] by (simp add: mkdir_fcbs_def Let_def)
  next
    fix n :: nat assume "n < 102"
    then show "d' (1024 + n) \<noteq> FREE" using flags [of n] table_okD(4) [OF tab] by simp
  next
    show "d' 0 = 36" using out [of 0] table_okD(5) [OF tab] by (simp add: table_byte_def)
  qed
qed

lemma mMkdir_spec:
  assumes ok: "vfs_ok D s" and cur: "cur_dir s = int k" and k: "D k = Some ids" and room: "length ids < 10"
    and i: "find_fcb (fdisk s) 0 = i" and a: "find_fcb (fdisk s) (Suc i) = a"
    and b: "find_fcb (fdisk s) (Suc a) = b" "b < MAXFILENUM"
    and name: "short_name name" and tm: "length tm = 56"
    and conflict: "strcmp_eq (fdisk s) (int (length ids)) name = Some False"
  shows "\<exists>s'. mMkdir tm name s = Some (1, s') \<and> vfs_ok (D(k \<mapsto> ids @ [i], i \<mapsto> [a, b])) s'
    \<and> cur_dir s' = cur_dir s \<and> fname (get_fcb (fdisk s') (int i)) = name
    \<and> (\<forall>j < MAXFILENUM. j \<notin> {i, a, b, k} \<longrightarrow> get_fcb (fdisk s') (int j) = get_fcb (fdisk s) (int j))
    \<and> same_head (get_fcb (fdisk s) (int k)) (get_fcb (fdisk s') (int k))
    \<and> (\<forall>n. \<not> table_byte n \<longrightarrow> fdisk s' n = fdisk s n)
    \<and> opened s' = opened s \<and> opennum s' = opennum s \<and> file_exists s' \<and> file_len s' = 1024 * 1024 \<and> file_bytes s' = fdisk s'"
proof -
  let ?d = "fdisk s" and ?D = "D(k \<mapsto> ids @ [i], i \<mapsto> [a, b])"
  from ok have tab: "table_ok D ?d" by (simp add: vfs_ok_def)
  note dir = dir_entries_ok [OF tab k]
  have fb: "fcb_id (get_fcb ?d (int b)) = - 1" "Suc a \<le> b" using find_fcb_free [OF b] by auto
  then have a_lt: "a < MAXFILENUM" using b by simp
  have fa: "fcb_id (get_fcb ?d (int a)) = - 1" "Suc i \<le> a" using find_fcb_free [OF a a_lt] by auto
  then have i_lt: "i < MAXFILENUM" using a_lt by simp
  have fi: "fcb_id (get_fcb ?d (int i)) = - 1" using find_fcb_free [OF i i_lt] by auto
  from mMkdir_run [OF table_okD(1) [OF tab k] cur room i a b name tm conflict] obtain d' where
    run: "mMkdir tm name s = Some (1, close_fp (fwrite_blocks 1024 ((open_trunc s)\<lparr>fdisk := d'\<rparr>)))"
    and g: "\<And>j. j < MAXFILENUM \<Longrightarrow> get_fcb d' (int j) = mkdir_fcbs tm ?d k ids name i a b j"
    and out: "\<And>n. \<not> table_byte n \<Longrightarrow> d' n = ?d n" by blast
  have w: "0 \<notin> set name" using name by (simp add: short_name_def)
  have tab': "table_ok ?D d'"
    by (rule mkdir_table_ok [OF tab k room _ _ _ _ w g out])
      (use fi fa fb i_lt a_lt b in \<open>auto simp: live_def\<close>)
  have nl: "\<not> live ?d i" "\<not> live ?d a" "\<not> live ?d b" using fi fa fb by (auto simp: live_def)
  have same: "get_fcb d' (int j) = get_fcb ?d (int j)" if "j < MAXFILENUM" "j \<notin> {i, a, b, k}" for j
    using that g [of j] by (auto simp: mkdir_fcbs_def Let_def)
  have ki: "k \<noteq> i" using nl dir(4) by auto
  have gi: "fname (get_fcb d' (int i)) = name" using g [OF i_lt] ki w by (simp add: mkdir_fcbs_def Let_def)
  have gk: "get_fcb d' (int k) = grown tm ids i (get_fcb ?d (int k))"
    using g [OF dir(3)] by (simp add: mkdir_fcbs_def Let_def)
  let ?s = "close_fp (fwrite_blocks 1024 ((open_trunc s)\<lparr>fdisk := d'\<rparr>))"
  show ?thesis
  proof (intro exI [of _ ?s] conjI allI impI)
    show "vfs_ok ?D ?s" using ok tab' by (auto simp: vfs_ok_def close_fp_def fwrite_blocks_def open_trunc_def)
  qed (use run gi same gk out in \<open>auto simp: close_fp_def fwrite_blocks_def open_trunc_def same_head_def\<close>)
qed

section \<open>mCd\<close>

text \<open>Going into a child directory.\<close>

lemma mCd_child:
  assumes ok: "vfs_ok D s" and cur: "cur_dir s = int k" and k: "D k = Some ids"
    and j: "entry_of (fdisk s) (drop 2 ids) name = Some i" and i: "i \<in> dom D"
    and name: "word_ok name" "name \<notin> {[92], [46], [46, 46]}"
  shows "mCd name s = Some (1, s\<lparr>cur_dir := int i\<rparr>)"
proof -
  let ?d = "fdisk s"
  from ok have tab: "table_ok D ?d" by (simp add: vfs_ok_def)
  note dir = dir_entries_ok [OF tab k]
  have z: "0 \<notin> set name" using name by (simp add: word_ok_def)
  have rec: "fcb_record (get_fcb ?d (int k)) = records ids" using table_okD(1) [OF tab k] by (simp add: dir_head_def Let_def)
  from j obtain m where m: "m < length (drop 2 ids)" "i = drop 2 ids ! m" "fname (get_fcb ?d (int i)) = name"
    "\<And>n. n < m \<Longrightarrow> fname (get_fcb ?d (int (drop 2 ids ! n))) \<noteq> name"
    unfolding entry_of_def find_Some_iff by auto
  let ?m = "m + 2"
  have ml: "?m < length ids" "ids ! ?m = i" using m(1,2) by (auto simp: add.commute)
  have mem: "ids ! n < MAXFILENUM" "named (get_fcb ?d (int (ids ! n)))" if "n < length ids" for n
    using dir(1) that by (auto simp: entries_ok_def)
  have cmp: "strcmp_eq ?d (sint (records ids ! n)) name = Some (fname (get_fcb ?d (int (ids ! n))) = name)"
    "sint (records ids ! n) = int (ids ! n)"
    if "n < length ids" for n
    using that mem [OF that] z by (simp_all add: nth_records strcmp_named)
  have before: "fname (get_fcb ?d (int (ids ! n))) \<noteq> name" if "2 \<le> n" "n < ?m" for n
  proof -
    obtain q where "n = q + 2" using \<open>2 \<le> n\<close> by (metis add.commute le_Suc_ex)
    with m(4) [of q] that m(1) show ?thesis by (simp add: add.commute)
  qed
  from i obtain js where js: "D i = Some js" by auto
  have isd: "isdir (get_fcb ?d (int i)) = 1" using table_okD(1) [OF tab js] by (simp add: dir_head_def Let_def)
  let ?body = "\<lambda>i _. do {
             eq \<leftarrow> strcmp_eq ?d (sint (records ids ! i)) name;
             Some (if eq then Return
                     (if isdir (get_fcb ?d (sint (records ids ! i))) = 0 then (104 :: int, s)
                      else (1, s\<lparr>cur_dir := sint (records ids ! i)\<rparr>))
                   else Next ())
           }"
  have loop: "for_loop 2 10 ?body () = Some (Return (1, s\<lparr>cur_dir := int i\<rparr>))"
  proof (rule for_loop_return [where r = ?m])
    show "?body ?m () = Some (Return (1, s\<lparr>cur_dir := int i\<rparr>))" using cmp [OF ml(1)] ml(2) m(3) isd by simp
  qed (use ml dir(7) cmp before in simp_all)
  show ?thesis using name cur rec dir(3) loop by (simp add: mCd_def cong: if_cong)
qed

end
