(* ===== verification/VfsFormat.thy ===== *)
theory VfsFormat
  imports VfsIO VfsDirs
begin

text \<open>What \<open>mFormat\<close> establishes, and what \<open>LoadSys\<close> finds after a command has written the host file.\<close>

section \<open>Formatting\<close>

lemma change_fcb_get:
  assumes "i < MAXFILENUM" and "j < MAXFILENUM" and "\<And>f. wf_fcb f \<Longrightarrow> wf_fcb (g f)"
  shows "get_fcb (change_fcb g i d) (int j) = (if i = j then g (get_fcb d (int i)) else get_fcb d (int j))"
  using assms by (simp add: change_fcb_def get_put_fcb)

lemma change_fcb_outside:
  assumes "i < MAXFILENUM" and "\<not> table_byte a" and "\<And>f. wf_fcb f \<Longrightarrow> wf_fcb (g f)"
  shows "change_fcb g i d a = d a"
  using assms by (simp add: change_fcb_def put_fcb_outside)

lemma change_all_get:
  assumes "n \<le> MAXFILENUM" and "j < MAXFILENUM" and "\<And>f. wf_fcb f \<Longrightarrow> wf_fcb (g f)"
  shows "get_fcb (fold (change_fcb g) [0..<n] d) (int j)
           = (if j < n then g (get_fcb d (int j)) else get_fcb d (int j))"
  using assms
proof (induction n)
  case (Suc n)
  with change_fcb_get [of n j g] show ?case by auto
qed simp

lemma change_all_outside:
  assumes "n \<le> MAXFILENUM" and "\<not> table_byte a" and "\<And>f. wf_fcb f \<Longrightarrow> wf_fcb (g f)"
  shows "fold (change_fcb g) [0..<n] d a = d a"
  using assms
proof (induction n)
  case (Suc n)
  with change_fcb_outside [of n a g] show ?case by simp
qed simp

lemma wf_clear [simp]: "wf_fcb f \<Longrightarrow> length tm = 56 \<Longrightarrow> wf_fcb (clear_fcb tm f)"
  by (simp add: wf_fcb_def clear_fcb_def)

lemma wf_dir_fcb [simp]:
  "wf_fcb f \<Longrightarrow> length tm = 56 \<Longrightarrow> length name \<le> 7 \<Longrightarrow> length rs \<le> 10 \<Longrightarrow> wf_fcb (dir_fcb tm i name rs f)"
  by (simp add: wf_fcb_def dir_fcb_def)

lemma clear_fcb_simps [simp]:
  "fcb_id (clear_fcb tm f) = - 1" "fcb_record (clear_fcb tm f) = records []"
  "fname (clear_fcb tm f) = []" "named (clear_fcb tm f)"
  by (simp_all add: clear_fcb_def records_def fname_def named_def)

lemma dir_fcb_simps [simp]:
  "fcb_id (dir_fcb tm i name rs f) = of_nat i" "isdir (dir_fcb tm i name rs f) = 1"
  "fcb_length (dir_fcb tm i name rs f) = of_nat (length rs)"
  "0 \<notin> set name \<Longrightarrow> fname (dir_fcb tm i name rs f) = name" "0 \<notin> set name \<Longrightarrow> named (dir_fcb tm i name rs f)"
  by (simp_all add: dir_fcb_def fname_def named_def)

lemma dir_fcb_record [simp]:
  "fcb_record (dir_fcb tm i name [x] (clear_fcb tm f)) = x # replicate 9 (- 1)"
  "fcb_record (dir_fcb tm i name [x, y] (clear_fcb tm f)) = x # y # replicate 8 (- 1)"
  by (simp_all add: dir_fcb_def clear_fcb_def)

lemma mFormat_fcbs:
  assumes tm: "length tm = 56"
  shows "j < MAXFILENUM \<Longrightarrow> \<exists>f. get_fcb (fdisk (mFormat tm s)) (int j) =
      (if j = 0 then dir_fcb tm 0 [92] [1, 2] (clear_fcb tm f) else if j = 1 then dir_fcb tm 1 [46] [0] (clear_fcb tm f)
       else if j = 2 then dir_fcb tm 2 [46, 46] [0] (clear_fcb tm f) else clear_fcb tm f)"
    and "\<not> table_byte a \<Longrightarrow> fdisk (mFormat tm s) a = blank_bytes a"
proof -
  let ?d1 = "fold (change_fcb (clear_fcb tm)) [0..<MAXFILENUM] blank_bytes"
  have c: "wf_fcb f \<Longrightarrow> wf_fcb (clear_fcb tm f)"
    "wf_fcb f \<Longrightarrow> wf_fcb (dir_fcb tm 0 [92] [1, 2] f)" "wf_fcb f \<Longrightarrow> wf_fcb (dir_fcb tm 1 [46] [0] f)"
    "wf_fcb f \<Longrightarrow> wf_fcb (dir_fcb tm 2 [46, 46] [0] f)" for f
    using tm by simp_all
  have lt: "0 < MAXFILENUM" "1 < MAXFILENUM" "2 < MAXFILENUM" by (simp_all add: MAXFILENUM_def)
  have all: "j < MAXFILENUM \<Longrightarrow> get_fcb ?d1 (int j) = clear_fcb tm (get_fcb blank_bytes (int j))"
    "\<not> table_byte a \<Longrightarrow> ?d1 a = blank_bytes a" for j a
    using change_all_get [of MAXFILENUM j "clear_fcb tm"] change_all_outside [of MAXFILENUM a "clear_fcb tm"] c(1) by simp_all
  have sub: "j < MAXFILENUM \<Longrightarrow> get_fcb (change_fcb (dir_fcb tm i name rs) i d) (int j)
      = (if i = j then dir_fcb tm i name rs (get_fcb d (int i)) else get_fcb d (int j))"
    "\<not> table_byte a \<Longrightarrow> change_fcb (dir_fcb tm i name rs) i d a = d a"
    if "i < MAXFILENUM" "length name \<le> 7" "length rs \<le> 10" for i name rs d j a
    using change_fcb_get [of i j "dir_fcb tm i name rs"] change_fcb_outside [of i a "dir_fcb tm i name rs"] that tm
    by simp_all
  have disk: "fdisk (mFormat tm s) = change_fcb (dir_fcb tm 2 [46, 46] [0]) 2 (change_fcb (dir_fcb tm 1 [46] [0]) 1
      (change_fcb (dir_fcb tm 0 [92] [1, 2]) 0 ?d1))"
    by (simp add: mFormat_def Let_def fwrite_blocks_def open_trunc_def)
  show "\<not> table_byte a \<Longrightarrow> fdisk (mFormat tm s) a = blank_bytes a"
    unfolding disk using lt by (simp add: sub(2) all(2))
  assume j: "j < MAXFILENUM"
  show "\<exists>f. get_fcb (fdisk (mFormat tm s)) (int j) =
      (if j = 0 then dir_fcb tm 0 [92] [1, 2] (clear_fcb tm f) else if j = 1 then dir_fcb tm 1 [46] [0] (clear_fcb tm f)
       else if j = 2 then dir_fcb tm 2 [46, 46] [0] (clear_fcb tm f) else clear_fcb tm f)"
    unfolding disk
  proof (rule exI [of _ "get_fcb blank_bytes (int j)"], cases "j = 0")
    case True
    then have n: "2 \<noteq> j" "1 \<noteq> j" by simp_all
    have "get_fcb (change_fcb (dir_fcb tm 2 [46, 46] [0]) 2 (change_fcb (dir_fcb tm 1 [46] [0]) 1
      (change_fcb (dir_fcb tm 0 [92] [1, 2]) 0 ?d1))) (int j) = get_fcb (change_fcb (dir_fcb tm 0 [92] [1, 2]) 0 ?d1) (int j)"
      using n lt j by (simp add: sub(1))
    also have "\<dots> = dir_fcb tm 0 [92] [1, 2] (get_fcb ?d1 (int j))"
      using sub(1) [of 0 "[92]" "[1, 2]" j ?d1] lt j True by simp
    finally show "get_fcb (change_fcb (dir_fcb tm 2 [46, 46] [0]) 2 (change_fcb (dir_fcb tm 1 [46] [0]) 1
      (change_fcb (dir_fcb tm 0 [92] [1, 2]) 0 ?d1))) (int j) =
      (if j = 0 then dir_fcb tm 0 [92] [1, 2] (clear_fcb tm (get_fcb blank_bytes (int j)))
       else if j = 1 then dir_fcb tm 1 [46] [0] (clear_fcb tm (get_fcb blank_bytes (int j)))
       else if j = 2 then dir_fcb tm 2 [46, 46] [0] (clear_fcb tm (get_fcb blank_bytes (int j)))
       else clear_fcb tm (get_fcb blank_bytes (int j)))" using all(1) [OF j] True by simp
  qed (use lt j in \<open>simp add: sub(1) all(1) del: of_nat_numeral of_nat_0 of_nat_1 of_nat_Suc One_nat_def\<close>)
qed

lemma blank_flags: "b < 1024 \<Longrightarrow> blank_bytes (1024 + b) = (if b < 102 then USED else FREE)"
  by (simp add: blank_bytes_def)

lemma free_list_behind_table:
  assumes "\<And>b. b < 1024 \<Longrightarrow> d (1024 + b) = (if b < 102 then USED else FREE)"
  shows "free_list d = [102..<BLOCKS]"
proof -
  have "free_list d = filter (\<lambda>b. 102 \<le> b) [0..<BLOCKS]"
    unfolding free_list_def free_among_def by (rule filter_cong) (use assms in \<open>auto simp: BLOCKS_def\<close>)
  also have "[0..<BLOCKS] = [0..<102] @ [102..<BLOCKS]"
    using upt_add_eq_append [of 0 102 "BLOCKS - 102"] unfolding BLOCKS_def by (simp del: upt_rec_numeral)
  also have "filter (\<lambda>b. 102 \<le> b) ([0..<102] @ [102..<BLOCKS]) = [102..<BLOCKS]"
  proof -
    have "filter (\<lambda>b. 102 \<le> b) [0..<102] = []" unfolding filter_empty_conv by (simp del: upt_rec_numeral)
    moreover have "filter (\<lambda>b. 102 \<le> b) [102..<BLOCKS] = [102..<BLOCKS]"
      unfolding filter_id_conv by (simp del: upt_rec_numeral)
    ultimately show ?thesis unfolding filter_append by simp
  qed
  finally show ?thesis .
qed

lemma mFormat_spec:
  assumes tm: "length tm = 56"
  shows "vfs_ok [0 \<mapsto> [1, 2]] (mFormat tm s)" and "cur_dir (mFormat tm s) = 0"
    and "\<And>j. 3 \<le> j \<Longrightarrow> j < MAXFILENUM \<Longrightarrow> fcb_id (get_fcb (fdisk (mFormat tm s)) (int j)) = - 1
           \<and> named (get_fcb (fdisk (mFormat tm s)) (int j)) \<and> fname (get_fcb (fdisk (mFormat tm s)) (int j)) = []"
    and "\<And>j. j < 3 \<Longrightarrow> live (fdisk (mFormat tm s)) j"
    and "free_list (fdisk (mFormat tm s)) = [102..<BLOCKS]"
proof -
  let ?d = "fdisk (mFormat tm s)" and ?D = "[0 \<mapsto> [1, 2]] :: vfs_tree"
  note fcbs = mFormat_fcbs(1) [OF tm] and out = mFormat_fcbs(2) [OF tm]
  have lt: "0 < MAXFILENUM" "1 < MAXFILENUM" "2 < MAXFILENUM" by (simp_all add: MAXFILENUM_def)
  from fcbs [OF lt(1), of s] obtain f0 where f0: "get_fcb ?d 0 = dir_fcb tm 0 [92] [1, 2] (clear_fcb tm f0)" by auto
  from fcbs [OF lt(2), of s] obtain f1 where f1: "get_fcb ?d 1 = dir_fcb tm 1 [46] [0] (clear_fcb tm f1)" by auto
  from fcbs [OF lt(3), of s] obtain f2 where f2: "get_fcb ?d 2 = dir_fcb tm 2 [46, 46] [0] (clear_fcb tm f2)" by auto
  have flag: "?d (1024 + b) = (if b < 102 then USED else FREE)" if "b < 1024" for b
    using that out [of "1024 + b" s] blank_flags [OF that] by (simp add: table_byte_def)
  show rest: "\<And>j. 3 \<le> j \<Longrightarrow> j < MAXFILENUM \<Longrightarrow> fcb_id (get_fcb ?d (int j)) = - 1
      \<and> named (get_fcb ?d (int j)) \<and> fname (get_fcb ?d (int j)) = []"
  proof -
    fix j :: nat assume "3 \<le> j" "j < MAXFILENUM"
    with fcbs [of j s] obtain f where "get_fcb ?d (int j) = clear_fcb tm f" by auto
    then show "fcb_id (get_fcb ?d (int j)) = - 1 \<and> named (get_fcb ?d (int j)) \<and> fname (get_fcb ?d (int j)) = []" by simp
  qed
  have three: "j < 3 \<longleftrightarrow> j = 0 \<or> j = 1 \<or> j = 2" and two: "j < 2 \<longleftrightarrow> j = 0 \<or> j = 1" for j :: nat by auto
  show lv: "\<And>j. j < 3 \<Longrightarrow> live ?d j"
    using f0 f1 f2 lt unfolding three live_def by auto
  show "free_list ?d = [102..<BLOCKS]" by (rule free_list_behind_table) (rule flag)
  have head: "dir_head ?d 0 [1, 2]" using f0 lt by (simp add: dir_head_def records_def)
  have dots: "dots_ok ?D ?d [1, 2]"
    using f1 f2 by (auto simp: dots_ok_def two parent_of_def)
  have mem: "members_ok ?D ?d 0 [1, 2]"
    using dots lv [of 1] lv [of 2] f1 f2 by (simp add: members_ok_def)
  have tab: "table_ok ?D ?d"
    unfolding table_ok_def
  proof (intro conjI allI impI)
    fix k ids assume "?D k = Some ids"
    then have "k = 0" "ids = [1, 2]" by (auto split: if_splits)
    with head mem show "dir_head ?d k ids" "members_ok ?D ?d k ids" by simp_all
  next
    fix j assume j: "j < MAXFILENUM" "fcb_id (get_fcb ?d (int j)) = - 1"
    with lv have "\<not> j < 3" by (auto simp: live_def)
    with fcbs [OF j(1), of s] show "fcb_record (get_fcb ?d (int j)) = records []" by auto
  next
    fix b :: nat assume "b < 102"
    then show "?d (1024 + b) \<noteq> FREE" using flag by simp
  next
    show "?d 0 = 36" using out [of 0 s] by (simp add: table_byte_def blank_bytes_def)
  qed
  show "cur_dir (mFormat tm s) = 0" by (simp add: mFormat_def Let_def fwrite_blocks_def open_trunc_def)
  with tab show "vfs_ok ?D (mFormat tm s)" by (simp add: vfs_ok_def)
qed

section \<open>Restarting\<close>

lemma table_ok_cong:
  assumes "table_ok D d" and "\<And>a. a < DISK_SIZE \<Longrightarrow> d' a = d a"
  shows "table_ok D d'"
proof -
  have g: "get_fcb d' (int j) = get_fcb d (int j)" if "j < MAXFILENUM" for j
    by (rule get_fcb_cong [OF that]) (use assms(2) in \<open>auto simp: table_byte_def DISK_SIZE_def\<close>)
  have fl: "d' (1024 + b) = d (1024 + b)" if "b < 1024" for b
    using assms(2) [of "1024 + b"] that by (simp add: DISK_SIZE_def)
  have keep: "file_fcb d' f" if "file_fcb d f" for f
    using that fl unfolding file_fcb_def by (metis (no_types, lifting))
  have ex: "extends D d D d'"
    unfolding extends_def by (intro conjI allI impI) (use g keep in \<open>auto simp: live_def same_head_def\<close>)
  show ?thesis
    unfolding table_ok_def
  proof (intro conjI allI impI)
    fix j js assume j: "D j = Some js"
    with extends_dirs [OF assms(1) ex j g] dir_entries_ok(3) [OF assms(1) j]
    show "dir_head d' j js" "members_ok D d' j js" by auto
  qed (use g fl table_okD [OF assms(1)] assms(2) [of 0] in \<open>auto simp: DISK_SIZE_def\<close>)
qed

lemma LoadSys_saved:
  assumes "file_exists s" and "\<And>a. a < file_len s \<Longrightarrow> file_bytes s a = fdisk s a" and "0 < file_len s" and "fdisk s 0 = 36"
  shows "fdisk (LoadSys tm junk s) a = (if a < file_len s then fdisk s a else junk a)"
    and "cur_dir (LoadSys tm junk s) = 0" and "opennum (LoadSys tm junk s) = 0"
  using assms by (simp_all add: LoadSys_def Let_def)

end
