(* ===== verification/VfsRm.thy ===== *)
theory VfsRm
  imports VfsIO
begin

text \<open>Removing a file of \<open>vfs.c\<close>, which leaves a hole in the records of the directory, and the open table.\<close>

section \<open>mRm\<close>

lemma free_flags_eq:
  assumes "length bs \<le> 10" and "\<And>b. b \<in> set bs \<Longrightarrow> b < 1024"
  shows "\<exists>d'. free_flags (records bs) d = Some d' \<and> (\<forall>a. (a < 1024 \<or> 2048 \<le> a) \<longrightarrow> d' a = d a)
    \<and> (\<forall>b < 1024. d' (1024 + b) = (if b \<in> set bs then FREE else d (1024 + b)))"
proof -
  let ?P = "\<lambda>j d'. (\<forall>a. (a < 1024 \<or> 2048 \<le> a) \<longrightarrow> d' a = d a)
    \<and> (\<forall>b < 1024. d' (1024 + b) = (if b \<in> set (take j bs) then FREE else d (1024 + b)))"
  let ?body = "\<lambda>j d. if records bs ! j = - 1 then Some (Next d)
        else map_option Next (set_disk_char d (1024 + sint (records bs ! j)) FREE) :: (buf, buf) flow option"
  have step: "\<exists>t'. ?body j t = Some (Next t') \<and> ?P (Suc j) t'" if j: "j < 10" and P: "?P j t" for j t
  proof (cases "j < length bs")
    case True
    then have b: "bs ! j < 1024" "bs ! j \<in> set bs" using assms(2) by auto
    have r: "records bs ! j = of_nat (bs ! j)" "sint (records bs ! j) = int (bs ! j)"
      using True b(1) by (simp_all add: nth_records)
    have "nat (1024 + int (bs ! j)) = 1024 + bs ! j" by (simp add: nat_add_distrib)
    then have "set_disk_char t (1024 + sint (records bs ! j)) FREE = Some (t(1024 + bs ! j := FREE))"
      using b(1) by (simp add: set_disk_char_def DISK_SIZE_def r)
    moreover have "?P (Suc j) (t(1024 + bs ! j := FREE))"
      using P b(1) by (auto simp: take_Suc_conv_app_nth [OF True])
    ultimately show ?thesis using b(1) by (simp add: r(1) del: fun_upd_apply)
  next
    case False
    with j P show ?thesis by (simp add: nth_records_END)
  qed
  have "\<exists>t. for_loop 0 10 ?body d = Some (Next t) \<and> ?P 10 t"
    by (rule for_loop_invariant [where P = ?P]) (use step in simp_all)
  with assms(1) show ?thesis by (auto simp: free_flags_def)
qed

text \<open>The loop finds the first entry of the name, at position \<open>p\<close>.\<close>

definition dropped :: "nat list \<Rightarrow> nat \<Rightarrow> FCB \<Rightarrow> FCB" where
  "dropped ids p f = f\<lparr>fcb_length := of_nat (length ids - 1), fcb_record := (records ids)[p := - 1]\<rparr>"

lemma drop_record_dropped:
  assumes "dir_head d k ids"
  shows "drop_record p (get_fcb d (int k)) = Some (dropped ids p (get_fcb d (int k)))"
proof -
  from assms have l: "1 \<le> length ids" "fcb_length (get_fcb d (int k)) = of_nat (length ids)"
    "fcb_record (get_fcb d (int k)) = records ids" by (auto simp: dir_head_def Let_def)
  have "(of_nat (length ids) - 1 :: 32 word) = of_nat (length ids - 1)" using l(1) by (simp add: of_nat_diff)
  with l show ?thesis by (simp add: drop_record_def dropped_def)
qed

lemma wf_removed [simp]:
  "wf_fcb f \<Longrightarrow> wf_fcb (FreeFCB f)"
  "wf_fcb f \<Longrightarrow> length ids \<le> 10 \<Longrightarrow> wf_fcb (dropped ids p f)"
  by (simp_all add: wf_fcb_def FreeFCB_def dropped_def)

text \<open>What \<open>rm_file\<close> does to the disk: the FCB and the flags of its blocks are freed, the record becomes a hole.\<close>

lemma rm_file_spec:
  assumes head: "dir_head d k ids" and i: "i < MAXFILENUM" "i \<noteq> k" and f: "file_fcb d (get_fcb d (int i))"
  shows "\<exists>d'. rm_file (int k) p (int i) d = Some d'
    \<and> (\<forall>j < MAXFILENUM. get_fcb d' (int j) = (if j = k then dropped ids p (get_fcb d (int k))
          else if j = i then FreeFCB (get_fcb d (int j)) else get_fcb d (int j)))
    \<and> (\<forall>b < 1024. of_nat b \<in> set (fcb_record (get_fcb d (int i))) \<longrightarrow> d' (1024 + b) = FREE)
    \<and> (\<forall>a. 104448 \<le> a \<longrightarrow> d' a = d a)"
proof -
  from f obtain bs where bs: "length bs \<le> 10" "fcb_record (get_fcb d (int i)) = records bs"
    "\<And>b. b \<in> set bs \<Longrightarrow> 102 \<le> b \<and> b < 1024" by (auto simp: file_fcb_def)
  from free_flags_eq [of bs d] bs obtain d1 where d1: "free_flags (records bs) d = Some d1"
    "\<And>a. a < 1024 \<or> 2048 \<le> a \<Longrightarrow> d1 a = d a"
    "\<And>b. b < 1024 \<Longrightarrow> d1 (1024 + b) = (if b \<in> set bs then FREE else d (1024 + b))" by blast
  have g1: "get_fcb d1 (int j) = get_fcb d (int j)" if "j < MAXFILENUM" for j
    by (rule get_fcb_cong [OF that]) (use d1(2) in \<open>simp add: table_byte_def\<close>)
  have k: "k < MAXFILENUM" "length ids \<le> 10" using head by (auto simp: dir_head_def Let_def)
  define d2 where "d2 = put_fcb d1 (int i) (FreeFCB (get_fcb d1 (int i)))"
  have g2: "get_fcb d2 (int j) = (if j = i then FreeFCB (get_fcb d (int j)) else get_fcb d (int j))" if "j < MAXFILENUM" for j
    using that i(1) by (simp add: d2_def get_put_fcb g1)
  have head2: "dir_head d2 k ids" using head g2 [OF k(1)] i(2) by (simp add: dir_head_def)
  define d3 where "d3 = put_fcb d2 (int k) (dropped ids p (get_fcb d2 (int k)))"
  have g3: "get_fcb d3 (int j) = (if j = k then dropped ids p (get_fcb d (int k))
          else if j = i then FreeFCB (get_fcb d (int j)) else get_fcb d (int j))" if "j < MAXFILENUM" for j
    using that i k by (simp add: d3_def get_put_fcb g2)
  have out: "d3 a = d1 a" if "\<not> table_byte a" for a
    using that i(1) k by (simp add: d3_def d2_def put_fcb_outside)
  have run: "rm_file (int k) p (int i) d = Some d3"
    using i(1) k(1) d1(1) by (simp add: rm_file_def bs(2) d2_def [symmetric] drop_record_dropped [OF head2] d3_def [symmetric])
  have "d3 (1024 + b) = FREE" if b: "b < 1024" "of_nat b \<in> set (fcb_record (get_fcb d (int i)))" for b
  proof -
    from b have "(of_nat b :: 32 word) \<in> of_nat ` set bs" by (auto simp: bs(2) records_def)
    then obtain c where c: "c \<in> set bs" "(of_nat b :: 32 word) = of_nat c" by auto
    then have "unat (of_nat b :: 32 word) = unat (of_nat c :: 32 word)" by simp
    with b(1) bs(3) [OF c(1)] c(1) have "b \<in> set bs" by (simp add: unat_of_nat)
    with d1(3) [OF b(1)] out [of "1024 + b"] b(1) show ?thesis by (simp add: table_byte_def)
  qed
  moreover have "d3 a = d a" if "104448 \<le> a" for a using that out [of a] d1(2) [of a] by (simp add: table_byte_def)
  ultimately show ?thesis using run g3 by blast
qed

lemma mRm_file:
  assumes ok: "vfs_ok D s" and cur: "cur_dir s = int k" and k: "D k = Some ids" and w: "word_ok name"
    and p: "p < length ids" "fname (get_fcb (fdisk s) (int (ids ! p))) = name"
    and first: "\<And>q. q < p \<Longrightarrow> fname (get_fcb (fdisk s) (int (ids ! q))) \<noteq> name"
    and isfile: "isdir (get_fcb (fdisk s) (int (ids ! p))) \<noteq> 1"
  shows "\<exists>s'. mRm name s = Some (1, s') \<and> cur_dir s' = cur_dir s
    \<and> (\<forall>j < MAXFILENUM. get_fcb (fdisk s') (int j) =
         (if j = k then dropped ids p (get_fcb (fdisk s) (int k))
          else if j = ids ! p then FreeFCB (get_fcb (fdisk s) (int j)) else get_fcb (fdisk s) (int j)))
    \<and> (\<forall>b < 1024. of_nat b \<in> set (fcb_record (get_fcb (fdisk s) (int (ids ! p)))) \<longrightarrow> fdisk s' (1024 + b) = FREE)
    \<and> (\<forall>a. 104448 \<le> a \<longrightarrow> fdisk s' a = fdisk s a)"
proof -
  let ?d = "fdisk s" and ?i = "ids ! p" and ?t = "open_trunc s"
  from ok have tab: "table_ok D ?d" by (simp add: vfs_ok_def)
  note dir = dir_entries_ok [OF tab k] and head = table_okD(1) [OF tab k]
  have fl: "file_fcb ?d (get_fcb ?d (int ?i))" "D ?i = None" using entry_is_file [OF tab k _ isfile] p(1) by auto
  then have isd: "isdir (get_fcb ?d (int ?i)) = 0" by (simp add: file_fcb_def)
  have ik: "?i \<noteq> k" using fl(2) k by auto
  have mem: "ids ! n < MAXFILENUM" "named (get_fcb ?d (int (ids ! n)))" if "n < length ids" for n
    using dir(1) that by (auto simp: entries_ok_def)
  from rm_file_spec [OF head mem(1) [OF p(1)] ik fl(1)] obtain d' where
    d': "rm_file (int k) p (int ?i) ?d = Some d'"
    "\<forall>j < MAXFILENUM. get_fcb d' (int j) = (if j = k then dropped ids p (get_fcb ?d (int k))
          else if j = ?i then FreeFCB (get_fcb ?d (int j)) else get_fcb ?d (int j))"
    "\<forall>b < 1024. of_nat b \<in> set (fcb_record (get_fcb ?d (int ?i))) \<longrightarrow> d' (1024 + b) = FREE"
    "\<forall>a. 104448 \<le> a \<longrightarrow> d' a = ?d a" by blast
  let ?s = "close_fp (fwrite_blocks 1024 (?t\<lparr>fdisk := d'\<rparr>))"
  have trunc: "fdisk ?t = ?d" "cur_dir ?t = int k" using cur by (simp_all add: open_trunc_def)
  have rm: "rm_entry p (int ?i) ?t = Some (1, ?s)"
    using isd d'(1) by (simp add: rm_entry_def trunc)
  have rec: "fcb_record (get_fcb ?d (int k)) = records ids" using head by (simp add: dir_head_def Let_def)
  have cmp: "strcmp_eq ?d (sint (records ids ! n)) name = Some (fname (get_fcb ?d (int (ids ! n))) = name)"
    "sint (records ids ! n) = int (ids ! n)" if "n < length ids" for n
    using that mem [OF that] w by (simp_all add: nth_records strcmp_named word_ok_def)
  have "for_loop 0 10 (\<lambda>i _. do {
         eq \<leftarrow> strcmp_eq ?d (sint (records ids ! i)) name;
         if eq then map_option Return (rm_entry i (sint (records ids ! i)) ?t) else Some (Next ())
       }) () = Some (Return (1, ?s))"
    by (rule for_loop_return [where r = p]) (use p dir(7) first cmp rm in simp_all)
  then have run: "mRm name s = Some (1, ?s)"
    using w dir(3) rec by (simp add: mRm_def trunc cong: if_cong)
  then show ?thesis
    using d' by (intro exI [of _ ?s]) (simp add: close_fp_def fwrite_blocks_def open_trunc_def)
qed

section \<open>The open table\<close>

text \<open>The names in the table, and its invariant: five places, no name twice.\<close>

definition open_names :: "vfs \<Rightarrow> byte list list" where
  "open_names s = map open_name (take (opennum s) (opened s))"

definition open_ok :: "vfs \<Rightarrow> bool" where
  "open_ok s \<longleftrightarrow> length (opened s) = 5 \<and> opennum s \<le> 5 \<and> distinct (open_names s)"

lemma shift_down:
  assumes "i \<le> n" and "n < length os"
  shows "take n (fold (\<lambda>k os. os[k := os ! (k + 1)]) [i..<n] os) = take i os @ drop (Suc i) (take (Suc n) os)
    \<and> length (fold (\<lambda>k os. os[k := os ! (k + 1)]) [i..<n] os) = length os"
  using assms
proof (induction "n - i" arbitrary: i os)
  case 0
  then show ?case by simp
next
  case (Suc x)
  then have i: "i < n" "x = n - Suc i" "Suc i \<le> n" by auto
  let ?os = "os[i := os ! (i + 1)]"
  have "take n (fold (\<lambda>k os. os[k := os ! (k + 1)]) [Suc i..<n] ?os) = take (Suc i) ?os @ drop (Suc (Suc i)) (take (Suc n) ?os)
    \<and> length (fold (\<lambda>k os. os[k := os ! (k + 1)]) [Suc i..<n] ?os) = length ?os"
    by (rule Suc.hyps(1) [OF i(2,3)]) (use Suc.prems in simp)
  moreover have "take (Suc i) ?os @ drop (Suc (Suc i)) (take (Suc n) ?os) = take i os @ drop (Suc i) (take (Suc n) os)"
  proof -
    have "take (Suc i) ?os = take i os @ [os ! (i + 1)]"
      using i(1) Suc.prems(2) by (simp add: take_Suc_conv_app_nth)
    moreover have "drop (Suc i) (take (Suc n) os) = os ! (i + 1) # drop (Suc (Suc i)) (take (Suc n) os)"
      using i(1) Suc.prems(2) Cons_nth_drop_Suc [of "Suc i" "take (Suc n) os"] by simp
    moreover have "drop (Suc (Suc i)) (take (Suc n) ?os) = drop (Suc (Suc i)) (take (Suc n) os)"
      using i(1) by (simp add: take_update_swap drop_update_cancel)
    ultimately show ?thesis by simp
  qed
  ultimately show ?case using i(1) by (simp add: upt_conv_Cons)
qed

lemma remove1_at:
  assumes "i < length xs" and "xs ! i = x" and "\<And>j. j < i \<Longrightarrow> xs ! j \<noteq> x"
  shows "remove1 x xs = take i xs @ drop (Suc i) xs"
  using assms
proof (induction i arbitrary: xs)
  case 0
  then show ?case by (cases xs) auto
next
  case (Suc i)
  then obtain y ys where xs: "xs = y # ys" by (cases xs) auto
  have "remove1 x ys = take i ys @ drop (Suc i) ys"
    by (rule Suc.IH) (use Suc.prems xs in \<open>auto dest: Suc.prems(3) [OF Suc_mono]\<close>)
  with Suc.prems(3) [of 0] xs show ?case by simp
qed

lemma mClose_spec:
  assumes ok: "open_ok s" and w: "word_ok name"
  shows "\<exists>s'. mClose name s = Some (if name \<in> set (open_names s) then 1 else 115, s')
    \<and> open_ok s' \<and> open_names s' = remove1 name (open_names s) \<and> fdisk s' = fdisk s"
proof (cases "List.find (\<lambda>i. open_name (opened s ! i) = name) [0..<opennum s]")
  case None
  then have no: "\<forall>i < opennum s. open_name (opened s ! i) \<noteq> name" by (auto simp: find_upt_None)
  have "name \<notin> set (open_names s)"
  proof
    assume "name \<in> set (open_names s)"
    then obtain i where "i < opennum s" "open_name (opened s ! i) = name"
      by (auto simp: open_names_def in_set_conv_nth)
    with no show False by blast
  qed
  with None ok w show ?thesis by (simp add: mClose_def remove1_idem)
next
  case (Some i)
  from find_upt_Some [OF this] have i: "i < opennum s" "open_name (opened s ! i) = name"
    "\<And>j. j < i \<Longrightarrow> open_name (opened s ! j) \<noteq> name" by auto
  have len: "length (opened s) = 5" "opennum s \<le> 5" using ok by (auto simp: open_ok_def)
  let ?n = "opennum s - 1"
  let ?os = "fold (\<lambda>k os. os[k := os ! (k + 1)]) [i..<?n] (opened s)"
  have n: "i \<le> ?n" "?n < length (opened s)" "Suc ?n = opennum s" using i(1) len by auto
  from shift_down [OF n(1,2)] have sh: "take ?n ?os = take i (opened s) @ drop (Suc i) (take (opennum s) (opened s))"
    "length ?os = length (opened s)" unfolding n(3) by auto
  have nth: "open_names s ! j = open_name (opened s ! j)" if "j < opennum s" for j
    using that len by (simp add: open_names_def)
  have lo: "length (open_names s) = opennum s" using len by (simp add: open_names_def)
  have rem: "remove1 name (open_names s) = take i (open_names s) @ drop (Suc i) (open_names s)"
    by (rule remove1_at) (use i nth lo in auto)
  let ?s = "s\<lparr>opened := ?os, opennum := ?n\<rparr>"
  have names: "open_names ?s = remove1 name (open_names s)"
    unfolding rem using sh(1) i(1) len by (simp add: open_names_def take_map [symmetric] drop_map [symmetric] min_def)
  have mem: "name \<in> set (open_names s)" using nth [OF i(1)] i lo by (auto simp: in_set_conv_nth)
  have "open_ok ?s" using ok names sh(2) len by (simp add: open_ok_def distinct_remove1)
  with names mem Some w show ?thesis by (intro exI [of _ ?s]) (simp add: mClose_def)
qed

lemma mOpen_table:
  assumes ok: "open_ok s" and run: "mOpen tm name s = Some (e, s')"
  shows "open_ok s' \<and> open_names s' = (if e = 1 then open_names s @ [name] else open_names s) \<and> (e = 1 \<longrightarrow> opennum s < 5)"
proof -
  have len: "length (opened s) = 5" "opennum s \<le> 5" "distinct (open_names s)" using ok by (auto simp: open_ok_def)
  consider "s' = s" "e \<noteq> 1" | temp f where "e = 1" "opennum s \<noteq> 5"
    "\<not> (\<exists>x \<in> set (take (opennum s) (opened s)). open_name x = name)"
    "s' = s\<lparr>opened := (opened s)[opennum s := \<lparr>open_name = name, open_time = tm, open_size = fcb_size f\<rparr>],
                opennum := opennum s + 1, fdisk := put_fcb (fdisk s) temp (f\<lparr>data_time := tm\<rparr>)\<rparr>"
    using run unfolding mOpen_def
    by (auto simp: bind_Some_iff split: if_splits option.splits)
  then show ?thesis
  proof cases
    case 1
    with ok show ?thesis by simp
  next
    case 2
    let ?x = "\<lparr>open_name = name, open_time = tm, open_size = fcb_size f\<rparr>"
    have lt: "opennum s < 5" using 2(2) len by simp
    have "take (Suc (opennum s)) ((opened s)[opennum s := ?x]) = take (opennum s) (opened s) @ [?x]"
      using lt len by (simp add: take_Suc_conv_app_nth)
    then have names: "open_names s' = open_names s @ [name]" using 2(4) by (simp add: open_names_def)
    have "name \<notin> set (open_names s)" using 2(3) by (auto simp: open_names_def)
    then have "distinct (open_names s')" using names len(3) by simp
    then show ?thesis using names 2(1,4) lt len by (simp add: open_ok_def)
  qed
qed

end
