(* ===== verification/VfsProps.thy ===== *)
theory VfsProps
  imports VfsFormat VfsRm
begin

text \<open>
  The properties of the shell file system \<open>vfs.c\<close>, with a freshly formatted disk and disks with one and two files
  on which each is applied.
\<close>

section \<open>What the commands show of a file\<close>

definition read_result :: "byte list \<Rightarrow> vfs \<Rightarrow> (int \<times> byte list) option" where
  "read_result name s = map_option (\<lambda>(e, out, _). (e, out)) (mRead name s)"

lemma file_text_cong:
  assumes "file_fcb d f" and "\<And>a. \<not> table_byte a \<Longrightarrow> d' a = d a"
  shows "file_text d' f = file_text d f"
proof -
  have "only_new d [] d" by (simp add: only_new_def)
  from file_text_kept [OF this _ assms(1), of d'] assms(2) show ?thesis by simp
qed

text \<open>A new entry at the end of a directory changes what is found under its own name only.\<close>

lemma read_after_append:
  assumes ok: "vfs_ok D s" and cur: "cur_dir s = int k" and k: "D k = Some ids"
    and ok': "vfs_ok D' s'" and cur': "cur_dir s' = int k" and k': "D' k = Some (ids @ [i])"
    and i: "\<not> live (fdisk s) i"
    and same: "\<And>j. live (fdisk s) j \<Longrightarrow> j \<noteq> k \<Longrightarrow> get_fcb (fdisk s') (int j) = get_fcb (fdisk s) (int j)"
    and head: "same_head (get_fcb (fdisk s) (int k)) (get_fcb (fdisk s') (int k))"
    and out: "\<And>a. \<not> table_byte a \<Longrightarrow> fdisk s' a = fdisk s a"
    and w: "word_ok w" and new: "fname (get_fcb (fdisk s') (int i)) \<noteq> w"
  shows "read_result w s' = read_result w s"
proof -
  let ?d = "fdisk s" and ?d' = "fdisk s'"
  from ok ok' have tab: "table_ok D ?d" and tab': "table_ok D' ?d'" by (auto simp: vfs_ok_def)
  note dir = dir_entries_ok [OF tab k]
  have mem: "fname (get_fcb ?d' (int j)) = fname (get_fcb ?d (int j)) \<and> isdir (get_fcb ?d' (int j)) = isdir (get_fcb ?d (int j))"
    if "j \<in> set ids" for j
    using same [of j] head dir(5) [OF that] by (cases "j = k") (auto simp: same_head_def fname_def)
  have "List.find (\<lambda>j. fname (get_fcb ?d' (int j)) = w) ids = List.find (\<lambda>j. fname (get_fcb ?d (int j)) = w) ids"
    using mem by (intro find_cong) auto
  then have ent: "entry_of ?d' (ids @ [i]) w = entry_of ?d ids w"
    using new by (simp add: entry_of_def find_append split: option.split)
  then have fnm: "file_named ?d' (ids @ [i]) w = file_named ?d ids w"
    using mem entry_of_Some [of ?d ids w] by (auto simp: file_named_def split: option.split)
  have same_text: "file_text ?d' (get_fcb ?d' (int j)) = file_text ?d (get_fcb ?d (int j))" if "file_named ?d ids w = Some j" for j
  proof -
    from file_namedD [OF that] have j: "j \<in> set ids" "isdir (get_fcb ?d (int j)) \<noteq> 1" by auto
    then have "j \<noteq> k" using table_okD(1) [OF tab k] by (auto simp: dir_head_def Let_def)
    with same [OF dir(5) [OF j(1)]] file_text_cong [OF entry_is_file(1) [OF tab k j] out] show ?thesis by simp
  qed
  show ?thesis
    using mRead_spec [OF ok cur k w] mRead_spec [OF ok' cur' k' w] fnm same_text
    by (auto simp: read_result_def split: option.splits)
qed

section \<open>Sample disks\<close>

definition no_time :: "byte list" where "no_time = replicate 56 0"

definition start :: vfs where
  "start = \<lparr>fdisk = \<lambda>_. 0, cur_dir = 0, opened = replicate 5 \<lparr>open_name = [], open_time = no_time, open_size = 0\<rparr>,
     opennum = 0, file_exists = False, file_len = 0, file_bytes = \<lambda>_. 0, fp_open = False\<rparr>"

definition shell0 :: vfs where "shell0 = mFormat no_time start"
definition shell1 :: vfs where "shell1 = snd (the (mMkfile no_time [97] shell0))"
definition shell2 :: vfs where "shell2 = snd (the (mMkfile no_time [98] shell1))"

lemma no_time_length [simp]: "length no_time = 56"
  by (simp add: no_time_def)

lemma sample_names [simp]: "short_name [97]" "short_name [98]" "short_name [99]" "word_ok [97]" "word_ok [98]" "word_ok [99]"
  by (simp_all add: short_name_def word_ok_def)

lemma small_index [simp]: "3 < MAXFILENUM" "4 < MAXFILENUM" "5 < MAXFILENUM" "0 < MAXFILENUM" "Suc 0 < MAXFILENUM" "2 < MAXFILENUM"
  by (simp_all add: MAXFILENUM_def)

lemmas format0 = mFormat_spec [OF no_time_length, where s = start, folded shell0_def]

lemma shell0_facts:
  "vfs_ok [0 \<mapsto> [1, 2]] shell0" "cur_dir shell0 = int 0"
  "find_fcb (fdisk shell0) 0 = 3" "find_fcb (fdisk shell0) (Suc 3) = 4" "find_fcb (fdisk shell0) (Suc 4) = 5"
proof -
  show "vfs_ok [0 \<mapsto> [1, 2]] shell0" "cur_dir shell0 = int 0" using format0(1,2) by simp_all
  have live: "fcb_id (get_fcb (fdisk shell0) (int j)) \<noteq> - 1" if "j < 3" for j
    using format0(4) [OF that] by (simp add: live_def)
  have dead: "fcb_id (get_fcb (fdisk shell0) (int j)) = - 1" if "3 \<le> j" "j < MAXFILENUM" for j
    using format0(3) [OF that] by simp
  show "find_fcb (fdisk shell0) 0 = 3" "find_fcb (fdisk shell0) (Suc 3) = 4" "find_fcb (fdisk shell0) (Suc 4) = 5"
    using live dead by (auto intro!: find_fcb_least simp del: of_nat_numeral)
qed

lemma shell0_no_entry: "w \<noteq> [] \<Longrightarrow> w \<notin> {[46], [46, 46]} \<Longrightarrow> entry_of (fdisk shell0) [1, 2] w = None"
proof -
  have "dots_ok [0 \<mapsto> [1, 2]] (fdisk shell0) [1, 2]"
    using shell0_facts(1) by (auto simp: vfs_ok_def table_ok_def members_ok_def)
  then have "fname (get_fcb (fdisk shell0) 1) = [46]" "fname (get_fcb (fdisk shell0) 2) = [46, 46]"
    by (auto simp: dots_ok_def Let_def dest: spec [of _ "0 :: nat"] spec [of _ "1 :: nat"])
  then show "w \<notin> {[46], [46, 46]} \<Longrightarrow> entry_of (fdisk shell0) [1, 2] w = None"
    by (auto simp: entry_of_def)
qed

lemma dots_names:
  assumes "vfs_ok D s" and "D k = Some ids"
  shows "fname (get_fcb (fdisk s) (int (ids ! 0))) = [46]" and "fname (get_fcb (fdisk s) (int (ids ! 1))) = [46, 46]"
proof -
  have "dots_ok D (fdisk s) ids" using assms by (auto simp: vfs_ok_def table_ok_def members_ok_def)
  then have "\<forall>j < 2. fname (get_fcb (fdisk s) (int (ids ! j))) = (if j = 0 then [46] else [46, 46])"
    by (simp add: dots_ok_def Let_def)
  from this [rule_format, of 0] this [rule_format, of 1]
  show "fname (get_fcb (fdisk s) (int (ids ! 0))) = [46]" "fname (get_fcb (fdisk s) (int (ids ! 1))) = [46, 46]"
    by simp_all
qed

lemma shell0_two: "named (get_fcb (fdisk shell0) 2)" "fname (get_fcb (fdisk shell0) 2) = [46, 46]"
proof -
  have "entries_ok (fdisk shell0) [1, 2]"
    by (rule dir_entries_ok(1) [where D = "[0 \<mapsto> [1, 2]]"]) (use shell0_facts(1) in \<open>simp_all add: vfs_ok_def\<close>)
  then show "named (get_fcb (fdisk shell0) 2)" by (simp add: entries_ok_def)
  show "fname (get_fcb (fdisk shell0) 2) = [46, 46]"
    using dots_names(2) [OF shell0_facts(1), of 0 "[1, 2]"] by simp
qed

lemma shell1_made:
  "mMkfile no_time [97] shell0 = Some (1, shell1)" "vfs_ok [0 \<mapsto> [1, 2, 3]] shell1" "cur_dir shell1 = int 0"
  "get_fcb (fdisk shell1) 3 = new_file no_time 3 [97] (get_fcb (fdisk shell0) 3)"
  "\<And>j. j < MAXFILENUM \<Longrightarrow> j \<noteq> 3 \<Longrightarrow> j \<noteq> 0 \<Longrightarrow> get_fcb (fdisk shell1) (int j) = get_fcb (fdisk shell0) (int j)"
  "same_head (get_fcb (fdisk shell0) 0) (get_fcb (fdisk shell1) 0)"
  "\<And>a. \<not> table_byte a \<Longrightarrow> fdisk shell1 a = fdisk shell0 a"
proof -
  from mMkfile_spec [OF shell0_facts(1,2) _ _ shell0_facts(3), of "[1, 2]" "[97]" no_time] obtain s' where
    s': "mMkfile no_time [97] shell0 = Some (1, s')" "vfs_ok ([0 \<mapsto> [1, 2]](0 \<mapsto> [1, 2] @ [3])) s'" "cur_dir s' = cur_dir shell0"
    "get_fcb (fdisk s') (int 3) = new_file no_time 3 [97] (get_fcb (fdisk shell0) (int 3))"
    "\<forall>j < MAXFILENUM. j \<noteq> 3 \<longrightarrow> j \<noteq> 0 \<longrightarrow> get_fcb (fdisk s') (int j) = get_fcb (fdisk shell0) (int j)"
    "same_head (get_fcb (fdisk shell0) (int 0)) (get_fcb (fdisk s') (int 0))"
    "\<forall>a. \<not> table_byte a \<longrightarrow> fdisk s' a = fdisk shell0 a" by auto
  then have "shell1 = s'" by (simp add: shell1_def)
  with s' shell0_facts(2)
  show "mMkfile no_time [97] shell0 = Some (1, shell1)" "vfs_ok [0 \<mapsto> [1, 2, 3]] shell1" "cur_dir shell1 = int 0"
    "get_fcb (fdisk shell1) 3 = new_file no_time 3 [97] (get_fcb (fdisk shell0) 3)"
    "\<And>j. j < MAXFILENUM \<Longrightarrow> j \<noteq> 3 \<Longrightarrow> j \<noteq> 0 \<Longrightarrow> get_fcb (fdisk shell1) (int j) = get_fcb (fdisk shell0) (int j)"
    "same_head (get_fcb (fdisk shell0) 0) (get_fcb (fdisk shell1) 0)"
    "\<And>a. \<not> table_byte a \<Longrightarrow> fdisk shell1 a = fdisk shell0 a"
    by simp_all
qed

lemma new_file_simps [simp]:
  "0 \<notin> set w \<Longrightarrow> fname (new_file tm i w f) = w" "isdir (new_file tm i w f) = 0" "fcb_id (new_file tm i w f) = of_nat i"
  "0 \<notin> set w \<Longrightarrow> named (new_file tm i w f)" "fcb_size (new_file tm i w f) = 0"
  by (simp_all add: new_file_def fname_def named_def)

lemma shell1_facts:
  "entry_of (fdisk shell1) [1, 2, 3] [97] = Some 3" "file_named (fdisk shell1) [1, 2, 3] [97] = Some 3"
  "find_fcb (fdisk shell1) 0 = 4" "free_list (fdisk shell1) = [102..<BLOCKS]"
proof -
  have n: "fname (get_fcb (fdisk shell1) 1) = [46]" "fname (get_fcb (fdisk shell1) 2) = [46, 46]"
    using dots_names [OF shell1_made(2), of 0 "[1, 2, 3]"] by simp_all
  then show e: "entry_of (fdisk shell1) [1, 2, 3] [97] = Some 3" using shell1_made(4) by (simp add: entry_of_def)
  then show "file_named (fdisk shell1) [1, 2, 3] [97] = Some 3" using shell1_made(4) by (simp add: file_named_def)
  show "find_fcb (fdisk shell1) 0 = 4"
  proof (rule find_fcb_least)
    have "fcb_id (get_fcb (fdisk shell1) (int 4)) = fcb_id (get_fcb (fdisk shell0) (int 4))"
      by (subst shell1_made(5)) simp_all
    then show "fcb_id (get_fcb (fdisk shell1) (int 4)) = - 1" using format0(3) [of 4] by simp
    fix j :: nat assume j: "j < 4"
    show "fcb_id (get_fcb (fdisk shell1) (int j)) \<noteq> - 1"
    proof (cases "j = 3")
      case True
      with shell1_made(4) show ?thesis by simp
    next
      case False
      with j have l: "live (fdisk shell0) j" using format0(4) by simp
      show ?thesis
      proof (cases "j = 0")
        case True
        with l shell1_made(6) show ?thesis by (simp add: live_def same_head_def)
      next
        case F: False
        with False l shell1_made(5) [of j] show ?thesis by (simp add: live_def)
      qed
    qed
  qed simp_all
  have "free_list (fdisk shell1) = free_list (fdisk shell0)"
    unfolding free_list_def free_among_def
    by (rule filter_cong) (use shell1_made(7) in \<open>auto simp: table_byte_def BLOCKS_def\<close>)
  then show "free_list (fdisk shell1) = [102..<BLOCKS]" using format0(5) by simp
qed

section \<open>Formatting and directories\<close>

text \<open>
  \<open>mFormat\<close> establishes the invariant of the file system from any state: the root directory has exactly \<open>"."\<close>
  and \<open>".."\<close>, its own FCB is the current directory, and exactly the blocks behind the FCB table are free.
\<close>
theorem vfs_format_invariant:
  assumes "length tm = 56"
  shows "vfs_ok [0 \<mapsto> [1, 2]] (mFormat tm s) \<and> cur_dir (mFormat tm s) = 0
    \<and> (\<forall>j < MAXFILENUM. live (fdisk (mFormat tm s)) j \<longleftrightarrow> j < 3)
    \<and> free_list (fdisk (mFormat tm s)) = [102..<BLOCKS]"
proof -
  note spec = mFormat_spec [OF assms, where s = s]
  have "live (fdisk (mFormat tm s)) j \<longleftrightarrow> j < 3" if "j < MAXFILENUM" for j
    using spec(3) [of j] spec(4) [of j] that by (cases "j < 3") (auto simp: live_def)
  with spec(1,2,5) show ?thesis by blast
qed

lemma vfs_format_invariant_witness:
  "vfs_ok [0 \<mapsto> [1, 2]] (mFormat no_time start) \<and> live (fdisk (mFormat no_time start)) 2
    \<and> \<not> live (fdisk (mFormat no_time start)) 3 \<and> free_list (fdisk (mFormat no_time start)) = [102..<BLOCKS]"
  using vfs_format_invariant [OF no_time_length, of start] small_index by auto

text \<open>
  C17: \<open>mMkfile\<close> of a new name in a directory that is not full returns 1 and keeps the invariant with one entry
  more; reading the new file gives no character, and every other name reads as before.
\<close>
theorem vfs_mkfile_adds_file:
  assumes "vfs_ok D s" and "cur_dir s = int k" and "D k = Some ids" and "length ids < 10"
    and "entry_of (fdisk s) ids name = None" and "find_fcb (fdisk s) 0 < MAXFILENUM"
    and "short_name name" and "length tm = 56"
  shows "\<exists>s'. mMkfile tm name s = Some (1, s') \<and> vfs_ok (D(k \<mapsto> ids @ [find_fcb (fdisk s) 0])) s'
    \<and> read_result name s' = Some (1, [])
    \<and> (\<forall>other. word_ok other \<longrightarrow> other \<noteq> name \<longrightarrow> read_result other s' = read_result other s)"
proof -
  let ?i = "find_fcb (fdisk s) 0" and ?d = "fdisk s"
  from mMkfile_spec [OF assms(1-4) refl assms(6,7,8)] obtain s' where
    run: "mMkfile tm name s = Some (1, s')" and ok': "vfs_ok (D(k \<mapsto> ids @ [?i])) s'" and c: "cur_dir s' = cur_dir s"
    and new: "get_fcb (fdisk s') (int ?i) = new_file tm ?i name (get_fcb ?d (int ?i))"
    and same: "\<And>j. j < MAXFILENUM \<Longrightarrow> j \<noteq> ?i \<Longrightarrow> j \<noteq> k \<Longrightarrow> get_fcb (fdisk s') (int j) = get_fcb ?d (int j)"
    and head: "same_head (get_fcb ?d (int k)) (get_fcb (fdisk s') (int k))"
    and out: "\<And>a. \<not> table_byte a \<Longrightarrow> fdisk s' a = ?d a" by blast
  have z: "0 \<notin> set name" using assms(7) by (simp add: short_name_def)
  have tab: "table_ok D ?d" using assms(1) by (simp add: vfs_ok_def)
  note dir = dir_entries_ok [OF tab assms(3)]
  have dead: "\<not> live ?d ?i" using find_fcb_free(1) [OF refl assms(6)] by (simp add: live_def)
  have same': "get_fcb (fdisk s') (int j) = get_fcb ?d (int j)" if "live ?d j" "j \<noteq> k" for j
    using that dead same by (auto simp: live_def)
  have cur': "cur_dir s' = int k" using c assms(2) by simp
  have k': "(D(k \<mapsto> ids @ [?i])) k = Some (ids @ [?i])" by simp
  have "entry_of (fdisk s') ids name = entry_of ?d ids name"
    unfolding entry_of_def
  proof (rule find_cong [OF refl])
    fix j assume "j \<in> set ids"
    then have "live ?d j" by (rule dir(5))
    with same' [OF this] head show "(fname (get_fcb (fdisk s') (int j)) = name) = (fname (get_fcb ?d (int j)) = name)"
      by (cases "j = k") (auto simp: same_head_def fname_def)
  qed
  then have "entry_of (fdisk s') (ids @ [?i]) name = Some ?i"
    using assms(5) new z by (simp add: entry_of_def find_append)
  then have "file_named (fdisk s') (ids @ [?i]) name = Some ?i" using new by (simp add: file_named_def)
  then have "read_result name s' = Some (1, [])"
    using mRead_spec [OF ok' cur' k' short_name_word [OF assms(7)]] new by (simp add: read_result_def file_text_def)
  moreover have "read_result other s' = read_result other s" if "word_ok other" "other \<noteq> name" for other
    by (rule read_after_append [OF assms(1-3) ok' cur' k' dead same' head out that(1)])
      (use new z that(2) in auto)
  ultimately show ?thesis using run ok' by blast
qed

lemma vfs_mkfile_adds_file_witness:
  "\<exists>s'. mMkfile no_time [97] shell0 = Some (1, s') \<and> vfs_ok ([0 \<mapsto> [1, 2]](0 \<mapsto> [1, 2] @ [find_fcb (fdisk shell0) 0])) s'
    \<and> read_result [97] s' = Some (1, [])
    \<and> (\<forall>other. word_ok other \<longrightarrow> other \<noteq> [97] \<longrightarrow> read_result other s' = read_result other shell0)"
  by (rule vfs_mkfile_adds_file)
    (use shell0_facts(1,2,3) shell0_no_entry [of "[97]"] in \<open>simp_all add: MAXFILENUM_def\<close>)

text \<open>
  C16: \<open>mMkdir\<close> with three free FCBs in a directory with room refuses one name, that of the FCB whose number is the length of
  the directory, with 101 and the disk unchanged. Every other name it takes, whether or not the directory has an entry of
  that name, and keeps the invariant: the new directory is the last entry of the current one and has exactly its own
  \<open>"."\<close> and a \<open>".."\<close> that leads back.
\<close>
theorem vfs_mkdir_adds_directory:
  assumes "vfs_ok D s" and "cur_dir s = int k" and "D k = Some ids" and "length ids < 10"
    and "find_fcb (fdisk s) 0 = i" and "find_fcb (fdisk s) (Suc i) = a" and "find_fcb (fdisk s) (Suc a) = b"
    and "b < MAXFILENUM" and "short_name name" and "length tm = 56"
    and "named (get_fcb (fdisk s) (int (length ids)))"
  shows "\<exists>e s'. mMkdir tm name s = Some (e, s') \<and> cur_dir s' = int k
    \<and> (if fname (get_fcb (fdisk s) (int (length ids))) = name then e = 101 \<and> fdisk s' = fdisk s
       else e = 1 \<and> vfs_ok (D(k \<mapsto> ids @ [i], i \<mapsto> [a, b])) s'
         \<and> fname (get_fcb (fdisk s') (int i)) = name \<and> parent_of (fdisk s') [a, b] = of_nat k
         \<and> file_bytes s' = fdisk s' \<and> file_len s' = DISK_SIZE)"
proof -
  have z: "0 \<notin> set name" "word_ok name" using assms(9) by (simp_all add: short_name_def word_ok_def)
  have tab: "table_ok D (fdisk s)" using assms(1) by (simp add: vfs_ok_def)
  have "fcb_valid (int (length ids))" by (rule fcb_valid_int) (use assms(4) in \<open>simp add: MAXFILENUM_def\<close>)
  with z have cmp: "strcmp_eq (fdisk s) (int (length ids)) name = Some (fname (get_fcb (fdisk s) (int (length ids))) = name)"
    using strcmp_named assms(11) by auto
  have k: "k < MAXFILENUM" "2 \<le> length ids" by (rule dir_entries_ok(3,6) [OF tab assms(3)])+
  show ?thesis
  proof (cases "fname (get_fcb (fdisk s) (int (length ids))) = name")
    case True
    have "sint (fcb_length (get_fcb (fdisk s) (int k))) = int (length ids)"
      using table_okD(1) [OF tab assms(3)] assms(4) by (simp add: dir_head_def Let_def)
    moreover have "ids \<noteq> []" using k(2) by auto
    ultimately have "mMkdir tm name s = Some (101, open_trunc s)"
      using assms(2,4) z cmp True k(1) by (simp add: mMkdir_def Let_def open_trunc_def)
    with True assms(2) show ?thesis by (auto simp: open_trunc_def)
  next
    case False
    with cmp have "strcmp_eq (fdisk s) (int (length ids)) name = Some False" by simp
    from mMkdir_spec [OF assms(1-10) this] obtain s' where
      s': "mMkdir tm name s = Some (1, s')" "vfs_ok (D(k \<mapsto> ids @ [i], i \<mapsto> [a, b])) s'" "cur_dir s' = cur_dir s"
      "fname (get_fcb (fdisk s') (int i)) = name" "file_len s' = 1024 * 1024" "file_bytes s' = fdisk s'" by blast
    have "find_fcb (fdisk s) 0 \<noteq> k" if "find_fcb (fdisk s) 0 < MAXFILENUM"
      using find_fcb_free(1) [OF refl that] dir_entries_ok(4) [OF tab assms(3)] by (auto simp: live_def)
    then have "k \<noteq> i" using assms(5) k(1) by auto
    then have "members_ok (D(k \<mapsto> ids @ [i], i \<mapsto> [a, b])) (fdisk s') k (ids @ [i])"
      using s'(2) by (auto simp: vfs_ok_def table_ok_def)
    then have "child_ok (D(k \<mapsto> ids @ [i], i \<mapsto> [a, b])) (fdisk s') k i"
      using k(2) by (simp add: members_ok_def)
    then have "parent_of (fdisk s') [a, b] = of_nat k" by (simp add: child_ok_def)
    with s' False assms(2) show ?thesis by (auto simp: DISK_SIZE_def)
  qed
qed

lemma vfs_mkdir_adds_directory_witness:
  "(\<exists>s'. mMkdir no_time [97] shell0 = Some (1, s') \<and> vfs_ok ([0 \<mapsto> [1, 2]](0 \<mapsto> [1, 2] @ [3], 3 \<mapsto> [4, 5])) s'
      \<and> fname (get_fcb (fdisk s') (int 3)) = [97] \<and> parent_of (fdisk s') [4, 5] = of_nat 0)
    \<and> (\<exists>s'. mMkdir no_time [46, 46] shell0 = Some (101, s') \<and> fdisk s' = fdisk shell0)"
proof -
  have two: "named (get_fcb (fdisk shell0) (int (length [1 :: nat, 2])))"
    "fname (get_fcb (fdisk shell0) (int (length [1 :: nat, 2]))) = [46, 46]" using shell0_two by simp_all
  have short: "short_name [97]" "short_name [46, 46]" by (simp_all add: short_name_def)
  note use = vfs_mkdir_adds_directory [OF shell0_facts(1,2) _ _ shell0_facts(3-5) _ _ _ two(1), of _ no_time]
  from use [of "[97]"] use [of "[46, 46]"] short two(2) show ?thesis by auto
qed

text \<open>
  \<open>mCd\<close> into a child directory, found as the first entry of its name, returns 1 and makes it the current directory;
  from there \<open>cd \\<close> goes to the root, and \<open>cd ..\<close> has no defined run: it prints a record whose index is not set.
\<close>
theorem vfs_cd_enters_child:
  assumes "vfs_ok D s" and "cur_dir s = int k" and "D k = Some ids"
    and "entry_of (fdisk s) (drop 2 ids) name = Some i" and "i \<in> dom D"
    and "word_ok name" and "name \<notin> {[92], [46], [46, 46]}"
  shows "\<exists>s'. mCd name s = Some (1, s') \<and> cur_dir s' = int i \<and> vfs_ok D s'
    \<and> mCd [92] s' = Some (1, s\<lparr>cur_dir := 0\<rparr>) \<and> mCd [46, 46] s' = None"
proof -
  let ?s = "s\<lparr>cur_dir := int i\<rparr>"
  have "mCd name s = Some (1, ?s)" by (rule mCd_child [OF assms])
  moreover have "vfs_ok D ?s" using assms(1,5) by (auto simp: vfs_ok_def)
  moreover have "mCd [92] ?s = Some (1, s\<lparr>cur_dir := 0\<rparr>)" by (simp add: mCd_def word_ok_def)
  moreover have "mCd [46, 46] ?s = None" by (simp add: mCd_def)
  ultimately show ?thesis by (intro exI [of _ ?s]) simp
qed

lemma vfs_cd_enters_child_witness:
  "\<exists>s t. mMkdir no_time [97] shell0 = Some (1, s) \<and> mCd [97] s = Some (1, t) \<and> cur_dir t = 3 \<and> mCd [46, 46] t = None"
proof -
  have "strcmp_eq (fdisk shell0) (int (length [1 :: nat, 2])) [97] = Some False"
  proof -
    have "fcb_valid (int 2)" by (rule fcb_valid_int) simp
    from strcmp_named [OF this, of "fdisk shell0" "[97]"] shell0_two show ?thesis by simp
  qed
  from mMkdir_spec [OF shell0_facts(1,2) _ _ shell0_facts(3-5) _ _ _ this, of no_time]
  have "\<exists>s. mMkdir no_time [97] shell0 = Some (1, s) \<and> vfs_ok ([0 \<mapsto> [1, 2]](0 \<mapsto> [1, 2] @ [3], 3 \<mapsto> [4, 5])) s
    \<and> cur_dir s = cur_dir shell0 \<and> fname (get_fcb (fdisk s) (int 3)) = [97]" by auto
  then obtain s where s: "mMkdir no_time [97] shell0 = Some (1, s)" "vfs_ok [0 \<mapsto> [1, 2, 3], 3 \<mapsto> [4, 5]] s" "cur_dir s = int 0"
    "fname (get_fcb (fdisk s) (int 3)) = [97]" using shell0_facts(2) by auto
  have "\<exists>t. mCd [97] s = Some (1, t) \<and> cur_dir t = int 3 \<and> vfs_ok [0 \<mapsto> [1, 2, 3], 3 \<mapsto> [4, 5]] t
    \<and> mCd [92] t = Some (1, s\<lparr>cur_dir := 0\<rparr>) \<and> mCd [46, 46] t = None"
    by (rule vfs_cd_enters_child [where k = 0 and ids = "[1, 2, 3]" and i = 3 and name = "[97]", OF s(2,3)])
      (use s(4) in \<open>simp_all add: entry_of_def\<close>)
  with s(1) show ?thesis by auto
qed

section \<open>Contents of files\<close>

text \<open>
  C15: Writing fewer than 10240 characters to a file and reading it back gives only the first
  \<open>length mod 1024\<close> of them: everything for a text shorter than a block, nothing at all for exactly 1024
  characters. All other files of the directory read as before.
\<close>
theorem vfs_write_then_read:
  assumes "vfs_ok D s" and "cur_dir s = int k" and "D k = Some ids" and "word_ok name"
    and "file_named (fdisk s) ids name = Some i" and "length text < 10240"
    and "length text div 1024 + 1 \<le> length (free_list (fdisk s))" and "length tm = 56"
  shows "\<exists>s'. mWrite tm name text s = Some (1, s') \<and> vfs_ok D s'
    \<and> read_result name s' = Some (1, take (length text mod 1024) text)
    \<and> (\<forall>other. word_ok other \<longrightarrow> file_named (fdisk s) ids other \<noteq> Some i \<longrightarrow> read_result other s' = read_result other s)"
proof -
  let ?d = "fdisk s"
  from mWrite_spec [OF assms] obtain s' where run: "mWrite tm name text s = Some (1, s')" and ok': "vfs_ok D s'"
    and c: "cur_dir s' = cur_dir s"
    and new: "file_text (fdisk s') (get_fcb (fdisk s') (int i)) = take (length text mod 1024) text"
    and same: "\<And>j. j < MAXFILENUM \<Longrightarrow> j \<noteq> i \<Longrightarrow> get_fcb (fdisk s') (int j) = get_fcb ?d (int j)"
    and head: "same_head (get_fcb ?d (int i)) (get_fcb (fdisk s') (int i))"
    and kept: "\<And>f. file_fcb ?d f \<Longrightarrow> file_text (fdisk s') f = file_text ?d f" by blast
  have tab: "table_ok D ?d" using assms(1) by (simp add: vfs_ok_def)
  note dir = dir_entries_ok [OF tab assms(3)]
  have cur': "cur_dir s' = int k" using c assms(2) by simp
  have heads: "fname (get_fcb (fdisk s') (int j)) = fname (get_fcb ?d (int j)) \<and> isdir (get_fcb (fdisk s') (int j)) = isdir (get_fcb ?d (int j))"
    if "j \<in> set ids" for j
    using same [of j] head dir(5) [OF that] by (cases "j = i") (auto simp: same_head_def fname_def live_def)
  have ent: "entry_of (fdisk s') ids w = entry_of ?d ids w" for w
    unfolding entry_of_def by (rule find_cong) (use heads in auto)
  then have fnm: "file_named (fdisk s') ids w = file_named ?d ids w" for w
    using heads entry_of_Some [of ?d ids w] by (auto simp: file_named_def split: option.split)
  have "read_result name s' = Some (1, take (length text mod 1024) text)"
    using mRead_spec [OF ok' cur' assms(3,4)] fnm assms(5) new by (simp add: read_result_def)
  moreover have "read_result w s' = read_result w s" if w: "word_ok w" "file_named ?d ids w \<noteq> Some i" for w
  proof (cases "file_named ?d ids w")
    case None
    then show ?thesis
      using mRead_spec [OF ok' cur' assms(3) w(1)] mRead_spec [OF assms(1-3) w(1)] fnm by (simp add: read_result_def)
  next
    case (Some j)
    from file_namedD [OF this] have j: "j \<in> set ids" "isdir (get_fcb ?d (int j)) \<noteq> 1" by auto
    have "j \<noteq> i" using w(2) Some by simp
    with same dir(5) [OF j(1)] have "get_fcb (fdisk s') (int j) = get_fcb ?d (int j)" by (simp add: live_def)
    with kept [OF entry_is_file(1) [OF tab assms(3) j]] Some show ?thesis
      using mRead_spec [OF ok' cur' assms(3) w(1)] mRead_spec [OF assms(1-3) w(1)] fnm by (simp add: read_result_def)
  qed
  ultimately show ?thesis using run ok' by blast
qed

lemma vfs_write_then_read_witness:
  "\<exists>s'. mWrite no_time [97] (replicate 1030 98) shell1 = Some (1, s') \<and> vfs_ok [0 \<mapsto> [1, 2, 3]] s'
    \<and> read_result [97] s' = Some (1, take (length (replicate 1030 (98 :: byte)) mod 1024) (replicate 1030 98))
    \<and> (\<forall>other. word_ok other \<longrightarrow> file_named (fdisk shell1) [1, 2, 3] other \<noteq> Some 3 \<longrightarrow> read_result other s' = read_result other shell1)"
  by (rule vfs_write_then_read [OF shell1_made(2,3)]) (use shell1_facts in \<open>simp_all add: BLOCKS_def\<close>)

section \<open>The host file\<close>

text \<open>
  After a successful \<open>mWrite\<close> the shell can be left and started again: \<open>LoadSys\<close> reads the same disk back,
  the invariant holds with the root as current directory, and the open table is empty.
\<close>
theorem vfs_reload_after_write:
  assumes "vfs_ok D s" and "cur_dir s = int k" and "D k = Some ids" and "word_ok name"
    and "file_named (fdisk s) ids name = Some i" and "length text < 10240"
    and "length text div 1024 + 1 \<le> length (free_list (fdisk s))" and "length tm = 56"
    and "mWrite tm name text s = Some (e, s')"
  shows "vfs_ok D (LoadSys tm2 junk s') \<and> cur_dir (LoadSys tm2 junk s') = 0 \<and> opennum (LoadSys tm2 junk s') = 0
    \<and> (\<forall>a < DISK_SIZE. fdisk (LoadSys tm2 junk s') a = fdisk s' a)"
proof -
  from mWrite_spec [OF assms(1-8)] assms(9) have s': "vfs_ok D s'" "file_exists s'" "file_len s' = 1024 * 1024" "file_bytes s' = fdisk s'"
    by auto
  have tab: "table_ok D (fdisk s')" and root: "0 \<in> dom D" using s'(1) by (auto simp: vfs_ok_def)
  have d: "fdisk (LoadSys tm2 junk s') a = (if a < file_len s' then fdisk s' a else junk a)" for a
    by (rule LoadSys_saved(1)) (use s' table_okD(5) [OF tab] in auto)
  have rest: "cur_dir (LoadSys tm2 junk s') = 0" "opennum (LoadSys tm2 junk s') = 0"
    by (rule LoadSys_saved(2,3); use s' table_okD(5) [OF tab] in auto)+
  have same: "fdisk (LoadSys tm2 junk s') a = fdisk s' a" if "a < DISK_SIZE" for a
    using d [of a] that s'(3) by (simp add: DISK_SIZE_def)
  have "table_ok D (fdisk (LoadSys tm2 junk s'))" by (rule table_ok_cong [OF tab same])
  with root rest same show ?thesis by (auto simp: vfs_ok_def)
qed

lemma vfs_reload_after_write_witness:
  "\<exists>s'. mWrite no_time [97] [98, 99] shell1 = Some (1, s') \<and> vfs_ok [0 \<mapsto> [1, 2, 3]] (LoadSys no_time (\<lambda>_. 0) s')"
proof -
  from mWrite_spec [OF shell1_made(2,3) _ _ shell1_facts(2), of "[98, 99]" no_time] shell1_facts(4)
  obtain s' where s': "mWrite no_time [97] [98, 99] shell1 = Some (1, s')" by (auto simp: BLOCKS_def)
  have "vfs_ok [0 \<mapsto> [1, 2, 3]] (LoadSys no_time (\<lambda>_. 0) s') \<and> cur_dir (LoadSys no_time (\<lambda>_. 0) s') = 0
    \<and> opennum (LoadSys no_time (\<lambda>_. 0) s') = 0 \<and> (\<forall>a < DISK_SIZE. fdisk (LoadSys no_time (\<lambda>_. 0) s') a = fdisk s' a)"
    by (rule vfs_reload_after_write [OF shell1_made(2,3) _ _ shell1_facts(2) _ _ _ s'])
      (use shell1_facts(4) in \<open>simp_all add: BLOCKS_def\<close>)
  with s' show ?thesis by blast
qed

text \<open>
  \<open>mMkfile\<close> saves only the first 20 blocks of the disk: after it, leaving and starting again, every byte from
  20480 on, which is every FCB from number 144 on and every block of every file, is whatever the new memory
  held, although the file had been there.
\<close>
theorem vfs_reload_after_mkfile:
  assumes "vfs_ok D s" and "cur_dir s = int k" and "D k = Some ids" and "length ids < 10"
    and "find_fcb (fdisk s) 0 < MAXFILENUM" and "short_name name" and "length tm = 56"
    and "mMkfile tm name s = Some (e, s')"
  shows "\<forall>a. fdisk (LoadSys tm2 junk s') a = (if a < 20480 then fdisk s' a else junk a)"
proof -
  from mMkfile_spec [OF assms(1-4) refl assms(5-7)] assms(8)
  have s': "vfs_ok (D(k \<mapsto> ids @ [find_fcb (fdisk s) 0])) s'" "file_exists s'" "file_len s' = 20480" "file_bytes s' = fdisk s'"
    by auto
  have "fdisk s' 0 = 36" using s'(1) by (simp add: vfs_ok_def table_ok_def)
  then show ?thesis using LoadSys_saved(1) [of s' tm2 junk] s' by simp
qed

lemma vfs_reload_after_mkfile_witness:
  "\<forall>a. fdisk (LoadSys no_time (\<lambda>_. 7) shell1) a = (if a < 20480 then fdisk shell1 a else 7)"
  by (rule vfs_reload_after_mkfile [where ids = "[1, 2]", OF shell0_facts(1,2) _ _ _ _ _ shell1_made(1)])
    (use shell0_facts(3) in simp_all)

text \<open>
  A command that fails has already emptied the host file: a \<open>mWrite\<close> to a name that is not there reports
  error 110 and leaves the disk in memory as it was, but after leaving and starting again (in memory that
  does not happen to start with the mark \<open>'$'\<close>) there is a freshly formatted disk with an empty root directory.
\<close>
theorem vfs_failed_write_erases:
  assumes "vfs_ok D s" and "cur_dir s = int k" and "D k = Some ids" and "word_ok name"
    and "file_named (fdisk s) ids name = None" and "length tm2 = 56" and "junk 0 \<noteq> 36"
  shows "\<exists>s'. mWrite tm name text s = Some (110, s') \<and> fdisk s' = fdisk s \<and> file_len s' = 0
    \<and> vfs_ok [0 \<mapsto> [1, 2]] (LoadSys tm2 junk s') \<and> file_len (LoadSys tm2 junk s') = DISK_SIZE"
proof -
  let ?s = "open_trunc s"
  have tab: "table_ok D (fdisk s)" using assms(1) by (simp add: vfs_ok_def)
  have run: "mWrite tm name text s = Some (110, ?s)"
    using find_file_named [OF tab assms(3,4)] assms(2,4,5) dir_entries_ok(3) [OF tab assms(3)]
    by (simp add: mWrite_def Let_def open_trunc_def)
  define s2 where "s2 = ?s\<lparr>opennum := 0, fdisk := junk, cur_dir := 0, fp_open := False\<rparr>"
  have load: "LoadSys tm2 junk ?s = mFormat tm2 s2"
    using assms(7) by (simp add: LoadSys_def Let_def open_trunc_def s2_def)
  have "vfs_ok [0 \<mapsto> [1, 2]] (mFormat tm2 s2)" by (rule mFormat_spec(1) [OF assms(6)])
  moreover have "file_len (mFormat tm2 s2) = DISK_SIZE" by (simp add: mFormat_def Let_def fwrite_blocks_def DISK_SIZE_def)
  ultimately show ?thesis
    by (intro exI [of _ ?s]) (simp only: run load, simp add: open_trunc_def)
qed

lemma vfs_failed_write_erases_witness:
  "\<exists>s'. mWrite no_time [98] [99] shell1 = Some (110, s') \<and> fdisk s' = fdisk shell1 \<and> file_len s' = 0
    \<and> vfs_ok [0 \<mapsto> [1, 2]] (LoadSys no_time (\<lambda>_. 0) s') \<and> file_len (LoadSys no_time (\<lambda>_. 0) s') = DISK_SIZE"
proof (rule vfs_failed_write_erases [OF shell1_made(2,3)])
  show "file_named (fdisk shell1) [1, 2, 3] [98] = None"
    using dots_names [OF shell1_made(2), of 0 "[1, 2, 3]"] shell1_made(4) by (simp add: file_named_def entry_of_def)
qed simp_all

section \<open>Removing, and the open table\<close>

text \<open>A name that no entry has, in records with holes.\<close>

lemma find_file_none:
  assumes "\<And>j. j < 10 \<Longrightarrow> rs ! j = - 1 \<or> (\<exists>i. rs ! j = of_nat i \<and> i < MAXFILENUM \<and> named (get_fcb d (int i))
      \<and> fname (get_fcb d (int i)) \<noteq> name)"
    and "m < 10" and "rs ! m \<noteq> - 1" and z: "0 \<notin> set name"
  shows "find_file d rs name = Some None"
proof -
  let ?body = "\<lambda>i temp. if rs ! i = - 1 then Some (Next temp)
        else do {
          eq \<leftarrow> strcmp_eq d (sint (rs ! i)) name;
          Some (if eq then Return (if isdir (get_fcb d (sint (rs ! i))) = 1 then None else Some (sint (rs ! i)))
                else Next (Some (sint (rs ! i))))
        } :: (int option, int option) flow option"
  let ?P = "\<lambda>j (temp :: int option). m < j \<longrightarrow> temp \<noteq> None"
  have step: "\<exists>t'. ?body j t = Some (Next t') \<and> ?P (Suc j) t'" if "j < 10" "?P j t" for j t
  proof (cases "rs ! j = - 1")
    case True
    with that assms(3) show ?thesis by (cases "m = j") auto
  next
    case False
    with assms(1) [OF that(1)] obtain i where i: "rs ! j = of_nat i" "i < MAXFILENUM" "named (get_fcb d (int i))"
      "fname (get_fcb d (int i)) \<noteq> name" by blast
    then have "strcmp_eq d (sint (rs ! j)) name = Some False" using z by (simp add: strcmp_named)
    with False show ?thesis by simp
  qed
  have "\<exists>t. for_loop 0 10 ?body None = Some (Next t) \<and> ?P 10 t"
    by (rule for_loop_invariant [where P = ?P]) (use step in simp_all)
  with assms(2) show ?thesis by (auto simp: find_file_def)
qed

text \<open>\<open>mMkfile\<close> in any directory that is not full, also one with holes.\<close>

lemma mMkfile_run:
  assumes cur: "cur_dir s = int k" "k < MAXFILENUM" and len: "fcb_length (get_fcb (fdisk s) (int k)) = of_nat n" "n < 10"
    and i: "find_fcb (fdisk s) 0 = i" "i < MAXFILENUM" "i \<noteq> k" and name: "short_name name" and tm: "length tm = 56"
  shows "\<exists>s'. mMkfile tm name s = Some (1, s') \<and> cur_dir s' = int k
    \<and> (\<forall>j < MAXFILENUM. get_fcb (fdisk s') (int j) = (let f = get_fcb (fdisk s) (int j) in
         if j = k then f\<lparr>fcb_record := (fcb_record f)[n := of_nat i], fcb_length := of_nat n + 1, data_time := tm\<rparr>
         else if j = i then new_file tm i name f else f))"
proof -
  let ?d = "fdisk s"
  define d1 where "d1 = put_fcb ?d (int i) (new_file tm i name (get_fcb ?d (int i)))"
  define cur' where "cur' = (get_fcb ?d (int k))\<lparr>fcb_record := (fcb_record (get_fcb ?d (int k)))[n := of_nat i],
    fcb_length := of_nat n + 1, data_time := tm\<rparr>"
  have w: "length name \<le> 7" using name by (simp add: short_name_def)
  have wf: "wf_fcb (get_fcb ?d (int k))" "wf_fcb cur'" using tm wf_get_fcb [of ?d "int k"] by (simp_all add: cur'_def wf_fcb_def)
  have g1: "get_fcb d1 (int k) = get_fcb ?d (int k)" using i cur w tm by (simp add: d1_def get_put_fcb)
  have sl: "sint (fcb_length (get_fcb ?d (int k))) = int n" using len by simp
  have add: "add_record tm i (get_fcb d1 (int k)) = Some cur'"
    using wf(1) len(2) by (simp add: add_record_def g1 sl array_set_def cur'_def wf_fcb_def) (simp add: len)
  let ?s = "close_fp (fwrite_blocks 20 ((open_trunc s)\<lparr>fdisk := put_fcb d1 (int k) cur'\<rparr>))"
  have run: "mMkfile tm name s = Some (1, ?s)"
    using name w i cur sl len(2)
    by (simp add: mMkfile_def Let_def open_trunc_def new_file_def [symmetric] d1_def [symmetric] add)
  have "get_fcb (put_fcb d1 (int k) cur') (int j) = (let f = get_fcb ?d (int j) in
         if j = k then f\<lparr>fcb_record := (fcb_record f)[n := of_nat i], fcb_length := of_nat n + 1, data_time := tm\<rparr>
         else if j = i then new_file tm i name f else f)" if "j < MAXFILENUM" for j
    using that i cur w tm wf(2) by (simp add: get_put_fcb d1_def cur'_def Let_def)
  with run cur show ?thesis
    by (intro exI [of _ ?s]) (simp add: close_fp_def fwrite_blocks_def open_trunc_def)
qed

text \<open>
  \<open>mRm\<close> of the entry at position \<open>p\<close>, then \<open>mMkfile\<close>: the FCB \<open>m\<close> of the new file is recorded over the last entry.
  The other entries keep their names, or have none if their FCB is the one that was freed.
\<close>

lemma rm_then_mkfile:
  assumes "vfs_ok D s" and "cur_dir s = int k" and "D k = Some ids" and "p < length ids"
    and "fname (get_fcb (fdisk s) (int (ids ! p))) = name" and "isdir (get_fcb (fdisk s) (int (ids ! p))) \<noteq> 1"
    and "\<And>q. q < p \<Longrightarrow> fname (get_fcb (fdisk s) (int (ids ! q))) \<noteq> name"
    and "word_ok name" and "short_name new" and "length tm = 56"
  shows "\<exists>s1 s2 m. mRm name s = Some (1, s1) \<and> mMkfile tm new s1 = Some (1, s2) \<and> cur_dir s2 = int k \<and> m < MAXFILENUM
    \<and> fcb_record (get_fcb (fdisk s2) (int k)) = (records ids)[p := - 1, length ids - 1 := of_nat m]
    \<and> named (get_fcb (fdisk s2) (int m)) \<and> fname (get_fcb (fdisk s2) (int m)) = new
    \<and> (\<forall>j < MAXFILENUM. named (get_fcb (fdisk s) (int j)) \<longrightarrow> named (get_fcb (fdisk s2) (int j))
         \<and> fname (get_fcb (fdisk s2) (int j)) \<in> {fname (get_fcb (fdisk s) (int j)), [], new})"
proof -
  let ?d = "fdisk s" and ?n = "length ids - 1" and ?i = "ids ! p"
  have tab: "table_ok D ?d" using assms(1) by (simp add: vfs_ok_def)
  note dir = dir_entries_ok [OF tab assms(3)]
  from mRm_file [OF assms(1-3,8,4,5,7,6)] obtain s1 where
    rm: "mRm name s = Some (1, s1)" and c1: "cur_dir s1 = cur_dir s"
    and g1: "\<And>j. j < MAXFILENUM \<Longrightarrow> get_fcb (fdisk s1) (int j) =
         (if j = k then dropped ids p (get_fcb ?d (int k)) else if j = ?i then FreeFCB (get_fcb ?d (int j)) else get_fcb ?d (int j))"
    by blast
  have il: "?i < MAXFILENUM" using dir(5) [of ?i] assms(4) by (simp add: live_def)
  have ik: "?i \<noteq> k" using table_okD(1) [OF tab assms(3)] assms(6) by (auto simp: dir_head_def Let_def)
  let ?m = "find_fcb (fdisk s1) 0"
  have "fcb_id (get_fcb (fdisk s1) (int ?i)) = - 1" using g1 [OF il] ik by (simp add: FreeFCB_def)
  then have "List.find (\<lambda>i. fcb_id (get_fcb (fdisk s1) (int i)) = - 1) [0..<MAXFILENUM] \<noteq> None"
    using il by (auto simp: find_upt_None)
  then have m: "?m < MAXFILENUM" by (auto simp: find_fcb_def dest: find_upt_Some)
  have gk: "get_fcb (fdisk s1) (int k) = dropped ids p (get_fcb ?d (int k))" using g1 [OF dir(3)] by simp
  have mk: "?m \<noteq> k" using find_fcb_free(1) [OF refl m] gk dir(4) by (auto simp: dropped_def live_def)
  have ln: "fcb_length (get_fcb (fdisk s1) (int k)) = of_nat ?n" "?n < 10" using gk dir(7) dir(2) by (auto simp: dropped_def)
  have cur1: "cur_dir s1 = int k" using c1 assms(2) by simp
  from mMkfile_run [OF cur1 dir(3) ln refl m mk assms(9,10)] obtain s2 where
    mkf: "mMkfile tm new s1 = Some (1, s2)" and cur2: "cur_dir s2 = int k"
    and g2: "\<And>j. j < MAXFILENUM \<Longrightarrow> get_fcb (fdisk s2) (int j) = (let f = get_fcb (fdisk s1) (int j) in
         if j = k then f\<lparr>fcb_record := (fcb_record f)[?n := of_nat ?m], fcb_length := of_nat ?n + 1, data_time := tm\<rparr>
         else if j = ?m then new_file tm ?m new f else f)" by blast
  have zero: "0 \<notin> set new" using assms(9) by (simp add: short_name_def)
  have dr: "named (dropped ids p f) = named f" "fname (dropped ids p f) = fname f" for f
    by (simp_all add: dropped_def named_def fname_def)
  have fr: "named (FreeFCB f)" "fname (FreeFCB f) = []" for f
    by (simp_all add: FreeFCB_def named_def fname_def)
  have hd: "named (f\<lparr>fcb_record := r, fcb_length := l, data_time := tm\<rparr>) = named f"
    "fname (f\<lparr>fcb_record := r, fcb_length := l, data_time := tm\<rparr>) = fname f" for f :: FCB and r l
    by (simp_all add: named_def fname_def)
  have "fcb_record (get_fcb (fdisk s2) (int k)) = (records ids)[p := - 1, ?n := of_nat ?m]"
    using g2 [OF dir(3)] gk by (simp add: Let_def dropped_def)
  moreover have "named (get_fcb (fdisk s2) (int ?m)) \<and> fname (get_fcb (fdisk s2) (int ?m)) = new"
    using g2 [OF m] mk zero by (simp add: Let_def)
  moreover have "named (get_fcb (fdisk s2) (int j)) \<and> fname (get_fcb (fdisk s2) (int j)) \<in> {fname (get_fcb ?d (int j)), [], new}"
    if "j < MAXFILENUM" "named (get_fcb ?d (int j))" for j
    using g2 [OF that(1)] g1 [OF that(1)] that(2) zero
    by (cases "j = k"; cases "j = ?m"; cases "j = ?i") (simp_all add: Let_def dr fr hd)
  ultimately show ?thesis using rm mkf cur2 m by blast
qed

text \<open>
  C18: After \<open>mRm\<close> of a file that is not the last entry of its directory, \<open>mMkfile\<close> stores the new file over the
  record of the last entry, because \<open>mRm\<close> leaves a hole but counts one entry less: that last entry, which could
  be read before, is not found any more.
\<close>
theorem vfs_rm_then_mkfile_loses_file:
  assumes "vfs_ok D s" and "cur_dir s = int k" and "D k = Some ids" and "p < length ids - 1"
    and "fname (get_fcb (fdisk s) (int (ids ! p))) = name" and "isdir (get_fcb (fdisk s) (int (ids ! p))) \<noteq> 1"
    and "\<And>q. q < p \<Longrightarrow> fname (get_fcb (fdisk s) (int (ids ! q))) \<noteq> name"
    and "\<And>q. q < length ids - 1 \<Longrightarrow> fname (get_fcb (fdisk s) (int (ids ! q))) \<noteq> victim"
    and "fname (get_fcb (fdisk s) (int (last ids))) = victim" and "isdir (get_fcb (fdisk s) (int (last ids))) \<noteq> 1"
    and "short_name name" and "short_name victim" and "short_name new" and "new \<noteq> victim" and "length tm = 56"
  shows "\<exists>s1 s2 out. read_result victim s = Some (1, out) \<and> mRm name s = Some (1, s1)
    \<and> mMkfile tm new s1 = Some (1, s2) \<and> read_result victim s2 = Some (108, [])"
proof -
  let ?n = "length ids - 1"
  have tab: "table_ok D (fdisk s)" using assms(1) by (simp add: vfs_ok_def)
  note dir = dir_entries_ok [OF tab assms(3)]
  have p: "p < length ids" using assms(4) by simp
  have "entry_of (fdisk s) ids victim = Some (last ids)"
    unfolding entry_of_def find_Some_iff
    by (intro exI [of _ ?n]) (use dir(2) assms(8,9) in \<open>auto simp: last_conv_nth\<close>)
  then have before: "\<exists>out. read_result victim s = Some (1, out)"
    using mRead_spec [OF assms(1-3) short_name_word [OF assms(12)]] assms(10) by (simp add: file_named_def read_result_def)
  from rm_then_mkfile [OF assms(1-3) p assms(5-7) short_name_word [OF assms(11)] assms(13,15)] obtain s1 s2 m where
    run: "mRm name s = Some (1, s1)" "mMkfile tm new s1 = Some (1, s2)" and cur2: "cur_dir s2 = int k" and m: "m < MAXFILENUM"
    and rec: "fcb_record (get_fcb (fdisk s2) (int k)) = (records ids)[p := - 1, ?n := of_nat m]" (is "_ = ?rs")
    and new: "named (get_fcb (fdisk s2) (int m))" "fname (get_fcb (fdisk s2) (int m)) = new"
    and old: "\<And>j. j < MAXFILENUM \<Longrightarrow> named (get_fcb (fdisk s) (int j)) \<Longrightarrow> named (get_fcb (fdisk s2) (int j))
         \<and> fname (get_fcb (fdisk s2) (int j)) \<in> {fname (get_fcb (fdisk s) (int j)), [], new}" by blast
  have v: "victim \<noteq> []" "0 \<notin> set victim" using assms(12) by (auto simp: short_name_def)
  have lrec: "length (records ids) = 10" using dir(7) by simp
  have "find_file (fdisk s2) ?rs victim = Some None"
  proof (rule find_file_none)
    show "?n < 10" "?rs ! ?n \<noteq> - 1" using dir(2,7) lrec m by auto
    show "0 \<notin> set victim" by (rule v)
    fix j :: nat assume j: "j < 10"
    consider "j = ?n" | "j \<noteq> ?n" "j = p" | "j \<noteq> ?n" "j \<noteq> p" "j < ?n" | "j \<noteq> ?n" "j \<noteq> p" "length ids \<le> j"
      using dir(2) by linarith
    then show "?rs ! j = - 1 \<or> (\<exists>i. ?rs ! j = of_nat i \<and> i < MAXFILENUM \<and> named (get_fcb (fdisk s2) (int i))
      \<and> fname (get_fcb (fdisk s2) (int i)) \<noteq> victim)"
    proof cases
      case 1
      with new m j lrec assms(14) show ?thesis by auto
    next
      case 3
      then have l: "j < length ids" by simp
      then have "ids ! j < MAXFILENUM" "named (get_fcb (fdisk s) (int (ids ! j)))" using dir(1) by (auto simp: entries_ok_def)
      with old [of "ids ! j"] assms(8) [OF 3(3)] v(1) assms(14) 3 l j lrec show ?thesis
        by (intro disjI2 exI [of _ "ids ! j"]) (auto simp: nth_records)
    qed (use j lrec in \<open>simp_all add: nth_records_END\<close>)
  qed
  then have "mRead victim s2 = Some (108, [], s2)" using rec cur2 dir(3) assms(12) by (simp add: mRead_def)
  then show ?thesis using before run by (auto simp: read_result_def)
qed

lemma shell2_made:
  "vfs_ok [0 \<mapsto> [1, 2, 3, 4]] shell2" "cur_dir shell2 = int 0"
  "get_fcb (fdisk shell2) 4 = new_file no_time 4 [98] (get_fcb (fdisk shell1) 4)"
  "get_fcb (fdisk shell2) 3 = get_fcb (fdisk shell1) 3"
proof -
  from mMkfile_spec [OF shell1_made(2,3) _ _ shell1_facts(3), of "[1, 2, 3]" "[98]" no_time] obtain s' where
    s': "mMkfile no_time [98] shell1 = Some (1, s')" "vfs_ok ([0 \<mapsto> [1, 2, 3]](0 \<mapsto> [1, 2, 3] @ [4])) s'" "cur_dir s' = cur_dir shell1"
    "get_fcb (fdisk s') (int 4) = new_file no_time 4 [98] (get_fcb (fdisk shell1) (int 4))"
    "\<forall>j < MAXFILENUM. j \<noteq> 4 \<longrightarrow> j \<noteq> 0 \<longrightarrow> get_fcb (fdisk s') (int j) = get_fcb (fdisk shell1) (int j)" by auto
  from s'(5) [rule_format, of 3] have three: "get_fcb (fdisk s') 3 = get_fcb (fdisk shell1) 3" by simp
  from s'(1) have "shell2 = s'" by (simp add: shell2_def)
  with s' three shell1_made(3)
  show "vfs_ok [0 \<mapsto> [1, 2, 3, 4]] shell2" "cur_dir shell2 = int 0"
    "get_fcb (fdisk shell2) 4 = new_file no_time 4 [98] (get_fcb (fdisk shell1) 4)"
    "get_fcb (fdisk shell2) 3 = get_fcb (fdisk shell1) 3" by simp_all
qed

lemma vfs_rm_then_mkfile_loses_file_witness:
  "\<exists>s1 s2 out. read_result [98] shell2 = Some (1, out) \<and> mRm [97] shell2 = Some (1, s1)
    \<and> mMkfile no_time [99] s1 = Some (1, s2) \<and> read_result [98] s2 = Some (108, [])"
proof (rule vfs_rm_then_mkfile_loses_file [where p = 2, OF shell2_made(1,2)])
  have n: "fname (get_fcb (fdisk shell2) 1) = [46]" "fname (get_fcb (fdisk shell2) 2) = [46, 46]"
    "fname (get_fcb (fdisk shell2) 3) = [97]" "fname (get_fcb (fdisk shell2) 4) = [98]"
    using dots_names [OF shell2_made(1), of 0 "[1, 2, 3, 4]"] shell2_made(3,4) shell1_made(4) by simp_all
  show "[0 \<mapsto> [1, 2, 3, 4]] 0 = Some [1, 2, 3, 4 :: nat]" by simp
  fix q :: nat
  have q: "q < 2 \<longleftrightarrow> q = 0 \<or> q = 1" "q < 3 \<longleftrightarrow> q = 0 \<or> q = 1 \<or> q = 2" by auto
  show "q < 2 \<Longrightarrow> fname (get_fcb (fdisk shell2) (int ([1, 2, 3, 4] ! q))) \<noteq> [97]" using n q(1) by auto
  show "q < length [1 :: nat, 2, 3, 4] - 1 \<Longrightarrow> fname (get_fcb (fdisk shell2) (int ([1, 2, 3, 4] ! q))) \<noteq> [98]"
    using n q(2) by auto
  show "fname (get_fcb (fdisk shell2) (int ([1, 2, 3, 4] ! 2))) = [97]"
    "isdir (get_fcb (fdisk shell2) (int ([1, 2, 3, 4] ! 2))) \<noteq> 1"
    "fname (get_fcb (fdisk shell2) (int (last [1, 2, 3, 4]))) = [98]"
    "isdir (get_fcb (fdisk shell2) (int (last [1, 2, 3, 4]))) \<noteq> 1"
    using n shell2_made(3,4) shell1_made(4) by simp_all
qed simp_all

text \<open>
  C40: The open table implements a list of at most five different names. \<open>mOpen\<close> of a name in a consistent disk reports 111
  when the current directory has no file of that name, 113 when five files are open, 112 when the file is open, and otherwise
  succeeds and appends the name; a failing one changes nothing. \<open>mClose\<close> takes the name out and closes the gap, and reports
  115 when it is not open.
\<close>
theorem vfs_open_table_refines_list:
  assumes "open_ok s" and "vfs_ok D s" and "cur_dir s = int k" and "D k = Some ids" and "word_ok name"
  shows "(\<exists>e s'. mOpen tm name s = Some (e, s') \<and> open_ok s'
        \<and> e = (if file_named (fdisk s) ids name = None then 111 else if length (open_names s) = 5 then 113
               else if name \<in> set (open_names s) then 112 else 1)
        \<and> (if e = 1 then open_names s' = open_names s @ [name] else s' = s))
    \<and> (\<exists>s'. mClose name s = Some (if name \<in> set (open_names s) then 1 else 115, s')
        \<and> open_ok s' \<and> open_names s' = remove1 name (open_names s) \<and> fdisk s' = fdisk s)"
proof
  from assms(1) have len: "length (open_names s) = opennum s" "length (opened s) = 5" "opennum s \<le> 5"
    by (auto simp: open_ok_def open_names_def)
  have open_iff: "(\<exists>x \<in> set (take (opennum s) (opened s)). open_name x = name) \<longleftrightarrow> name \<in> set (open_names s)"
    by (auto simp: open_names_def)
  have tab: "table_ok D (fdisk s)" using assms(2) by (simp add: vfs_ok_def)
  note cur = assms(3) dir_entries_ok(3) [OF tab assms(4)] find_file_named [OF tab assms(4,5)]
  show "\<exists>e s'. mOpen tm name s = Some (e, s') \<and> open_ok s'
        \<and> e = (if file_named (fdisk s) ids name = None then 111 else if length (open_names s) = 5 then 113
               else if name \<in> set (open_names s) then 112 else 1)
        \<and> (if e = 1 then open_names s' = open_names s @ [name] else s' = s)"
  proof (cases "file_named (fdisk s) ids name")
    case None
    then show ?thesis using cur assms(1,5) by (simp add: mOpen_def)
  next
    case (Some i)
    from file_namedD [OF this] have "i \<in> set ids" by simp
    from dir_entries_ok(5) [OF tab assms(4) this] have i: "i < MAXFILENUM" by (simp add: live_def)
    show ?thesis
    proof (cases "opennum s = 5 \<or> name \<in> set (open_names s)")
      case True
      then show ?thesis using Some cur assms(1,5) len open_iff by (auto simp: mOpen_def)
    next
      case False
      then obtain s' where run: "mOpen tm name s = Some (1, s')" using Some cur assms(5) len open_iff i by (simp add: mOpen_def)
      from mOpen_table [OF assms(1) run] run False Some len show ?thesis by auto
    qed
  qed
  show "\<exists>s'. mClose name s = Some (if name \<in> set (open_names s) then 1 else 115, s')
        \<and> open_ok s' \<and> open_names s' = remove1 name (open_names s) \<and> fdisk s' = fdisk s"
    using mClose_spec [OF assms(1,5)] by blast
qed

lemma vfs_open_table_refines_list_witness:
  "\<exists>s1 s2. mOpen no_time [97] shell1 = Some (1, s1) \<and> open_names s1 = [[97]] \<and> mClose [98] shell1 = Some (115, s2) \<and> open_names s2 = []"
proof -
  have start: "opened shell1 = opened start" "opennum shell1 = 0"
  proof -
    have "opened shell0 = opened start \<and> opennum shell0 = 0"
      by (simp add: shell0_def mFormat_def Let_def fwrite_blocks_def open_trunc_def start_def)
    moreover from mMkfile_spec [OF shell0_facts(1,2) _ _ shell0_facts(3), of "[1, 2]" "[97]" no_time]
    have "opened shell1 = opened shell0 \<and> opennum shell1 = opennum shell0" using shell1_made(1) by auto
    ultimately show "opened shell1 = opened start" "opennum shell1 = 0" by simp_all
  qed
  have names: "open_names shell1 = []" using start by (simp add: open_names_def)
  have ok: "open_ok shell1" using start by (simp add: open_ok_def open_names_def start_def)
  have cur: "cur_dir shell1 = int 0" "[0 \<mapsto> [1, 2, 3]] 0 = Some [1, 2, 3 :: nat]" using shell1_made(3) by simp_all
  have w: "word_ok [97]" "word_ok [98]" by (simp_all add: word_ok_def)
  from vfs_open_table_refines_list [OF ok shell1_made(2) cur w(1), of no_time, THEN conjunct1]
  have "\<exists>s1. mOpen no_time [97] shell1 = Some (1, s1) \<and> open_names s1 = [[97]]"
    using shell1_facts(2) names by auto
  moreover from vfs_open_table_refines_list [OF ok shell1_made(2) cur w(2), of no_time, THEN conjunct2]
  have "\<exists>s2. mClose [98] shell1 = Some (115, s2) \<and> open_names s2 = []" using names by auto
  ultimately show ?thesis by blast
qed

end
