(* ===== verification/VfsSession.thy ===== *)
theory VfsSession
  imports VfsProps
begin

text \<open>
  Sessions of the shell \<open>vfs.c\<close>: sequences of commands from \<open>mFormat\<close> on. \<open>steady F B\<close> is the invariant of the whole
  state, with at least \<open>F\<close> free control blocks and \<open>B\<close> free data blocks left; every command but \<open>cp\<close>, \<open>rm\<close> and \<open>cd ..\<close> has a
  defined result in such a state, on every branch, and leaves it.
\<close>

section \<open>The invariant of the state\<close>

definition free_fcbs :: "buf \<Rightarrow> nat" where
  "free_fcbs d = card {j. j < MAXFILENUM \<and> \<not> live d j}"

definition flags_ok :: "buf \<Rightarrow> bool" where
  "flags_ok d \<longleftrightarrow> (\<forall>b < 1024. d (1024 + b) = FREE \<or> d (1024 + b) = USED)"

definition names_ok :: "buf \<Rightarrow> bool" where
  "names_ok d \<longleftrightarrow> (\<forall>j < MAXFILENUM. named (get_fcb d (int j)))"

definition steady :: "nat \<Rightarrow> nat \<Rightarrow> vfs \<Rightarrow> bool" where
  "steady F B s \<longleftrightarrow> (\<exists>D. vfs_ok D s) \<and> open_ok s \<and> flags_ok (fdisk s) \<and> names_ok (fdisk s)
     \<and> F \<le> free_fcbs (fdisk s) \<and> B \<le> length (free_list (fdisk s)) \<and> F \<le> 797 \<and> B \<le> 922"

text \<open>What a command does to the host file does not matter.\<close>

lemma steady_frame:
  assumes "steady F B s" and "fdisk s' = fdisk s" and "cur_dir s' = cur_dir s" and "opened s' = opened s"
    and "opennum s' = opennum s"
  shows "steady F B s'"
  using assms by (simp add: steady_def vfs_ok_def open_ok_def open_names_def)

lemma steady_mono: "steady F B s \<Longrightarrow> F' \<le> F \<Longrightarrow> B' \<le> B \<Longrightarrow> steady F' B' s"
  by (auto simp: steady_def)

lemma steady_trunc: "steady F B s \<Longrightarrow> steady F B (open_trunc s)"
  by (rule steady_frame) (simp_all add: open_trunc_def)

text \<open>Control blocks that become used.\<close>

lemma free_fcbs_less:
  assumes "\<And>j. j < MAXFILENUM \<Longrightarrow> live d' j \<Longrightarrow> j \<notin> X \<Longrightarrow> live d j" and "finite X"
  shows "free_fcbs d \<le> free_fcbs d' + card X"
proof -
  have "{j. j < MAXFILENUM \<and> \<not> live d j} \<subseteq> {j. j < MAXFILENUM \<and> \<not> live d' j} \<union> X" using assms(1) by auto
  then have "free_fcbs d \<le> card ({j. j < MAXFILENUM \<and> \<not> live d' j} \<union> X)"
    unfolding free_fcbs_def by (intro card_mono) (use assms(2) in auto)
  also have "\<dots> \<le> free_fcbs d' + card X" unfolding free_fcbs_def by (rule card_Un_le)
  finally show ?thesis .
qed

text \<open>The free control blocks from \<open>n\<close> on; a search takes the least of them.\<close>

definition free_from :: "buf \<Rightarrow> nat \<Rightarrow> nat set" where
  "free_from d n = {j. n \<le> j \<and> j < MAXFILENUM \<and> fcb_id (get_fcb d (int j)) = - 1}"

lemma finite_free_from [simp]: "finite (free_from d n)"
  by (rule finite_subset [of _ "{..<MAXFILENUM}"]) (auto simp: free_from_def)

lemma free_from_all: "card (free_from d 0) = free_fcbs d"
  by (simp add: free_from_def free_fcbs_def live_def) (rule arg_cong [where f = card], auto)

lemma find_fcb_from_next:
  assumes "Suc m \<le> card (free_from d n)"
  shows "find_fcb d n < MAXFILENUM" and "m \<le> card (free_from d (Suc (find_fcb d n)))"
proof -
  have "free_from d n \<noteq> {}" using assms by auto
  then obtain j where j: "n \<le> j" "j < MAXFILENUM" "fcb_id (get_fcb d (int j)) = - 1" by (auto simp: free_from_def)
  show lt: "find_fcb d n < MAXFILENUM"
  proof (cases "List.find (\<lambda>i. fcb_id (get_fcb d (int i)) = - 1) [n..<MAXFILENUM]")
    case None
    with j show ?thesis by (auto simp: find_None_iff)
  next
    case (Some i)
    then show ?thesis using find_upt_Some [OF Some] by (simp add: find_fcb_def)
  qed
  note l = find_fcb_free [OF refl lt]
  have "free_from d n \<subseteq> insert (find_fcb d n) (free_from d (Suc (find_fcb d n)))"
  proof
    fix k assume k: "k \<in> free_from d n"
    then have "\<not> k < find_fcb d n" using l(3) by (auto simp: free_from_def)
    then show "k \<in> insert (find_fcb d n) (free_from d (Suc (find_fcb d n)))" using k by (auto simp: free_from_def)
  qed
  then have "card (free_from d n) \<le> card (insert (find_fcb d n) (free_from d (Suc (find_fcb d n))))"
    by (intro card_mono) auto
  also have "\<dots> \<le> Suc (card (free_from d (Suc (find_fcb d n))))" by (simp add: card_insert_if)
  finally show "m \<le> card (free_from d (Suc (find_fcb d n)))" using assms by simp
qed

lemma cur_facts:
  assumes "steady F B s"
  obtains D k ids where "vfs_ok D s" "table_ok D (fdisk s)" "cur_dir s = int k" "D k = Some ids" "k < MAXFILENUM"
    "2 \<le> length ids" "length ids \<le> 10" "fcb_record (get_fcb (fdisk s) (int k)) = records ids"
    "sint (fcb_length (get_fcb (fdisk s) (int k))) = int (length ids)"
proof -
  from assms obtain D k ids where D: "vfs_ok D s" "table_ok D (fdisk s)" "cur_dir s = int k" "D k = Some ids"
    by (auto simp: steady_def vfs_ok_def)
  note dir = dir_entries_ok [OF D(2,4)]
  have "fcb_record (get_fcb (fdisk s) (int k)) = records ids" "fcb_length (get_fcb (fdisk s) (int k)) = of_nat (length ids)"
    using table_okD(1) [OF D(2,4)] by (auto simp: dir_head_def Let_def)
  moreover from this(2) have "sint (fcb_length (get_fcb (fdisk s) (int k))) = int (length ids)" using dir(7) by simp
  ultimately show thesis using that D dir(3,6,7) by blast
qed

section \<open>Every command\<close>

lemma mkfile_steady:
  assumes s: "steady (Suc F) B s" and w: "short_name name" and tm: "length tm = 56"
  shows "\<exists>e s'. mMkfile tm name s = Some (e, s') \<and> steady F B s'"
proof -
  from cur_facts [OF s] obtain D k ids where c: "vfs_ok D s" "table_ok D (fdisk s)" "cur_dir s = int k" "D k = Some ids"
    "k < MAXFILENUM" "length ids \<le> 10" "sint (fcb_length (get_fcb (fdisk s) (int k))) = int (length ids)" by metis
  have s': "steady F B s" by (rule steady_mono [OF s]) simp_all
  show ?thesis
  proof (cases "length ids = 10")
    case True
    then have "mMkfile tm name s = Some (103, open_trunc s)"
      using c w by (simp add: mMkfile_def open_trunc_def Let_def)
    with steady_trunc [OF s'] show ?thesis by blast
  next
    case False
    then have room: "length ids < 10" using c(6) by simp
    have "Suc 0 \<le> card (free_from (fdisk s) 0)" using s by (simp add: free_from_all steady_def)
    from find_fcb_from_next(1) [OF this] have i: "find_fcb (fdisk s) 0 < MAXFILENUM" .
    let ?i = "find_fcb (fdisk s) 0"
    from mMkfile_spec [OF c(1,3,4) room refl i w tm] obtain s1 where
      run: "mMkfile tm name s = Some (1, s1)" and ok: "vfs_ok (D(k \<mapsto> ids @ [?i])) s1"
      and new: "get_fcb (fdisk s1) (int ?i) = new_file tm ?i name (get_fcb (fdisk s) (int ?i))"
      and same: "\<And>j. j < MAXFILENUM \<Longrightarrow> j \<noteq> ?i \<Longrightarrow> j \<noteq> k \<Longrightarrow> get_fcb (fdisk s1) (int j) = get_fcb (fdisk s) (int j)"
      and head: "same_head (get_fcb (fdisk s) (int k)) (get_fcb (fdisk s1) (int k))"
      and out: "\<And>a. \<not> table_byte a \<Longrightarrow> fdisk s1 a = fdisk s a" and op: "opened s1 = opened s" "opennum s1 = opennum s"
      by blast
    have fl: "fdisk s1 (1024 + b) = fdisk s (1024 + b)" if "b < 1024" for b
      by (rule out) (use that in \<open>simp add: table_byte_def\<close>)
    then have fs: "free_list (fdisk s1) = free_list (fdisk s)" "flags_ok (fdisk s1) = flags_ok (fdisk s)"
      by (auto simp: free_list_def free_among_def BLOCKS_def flags_ok_def intro!: filter_cong)
    have "free_fcbs (fdisk s) \<le> free_fcbs (fdisk s1) + card {?i}"
    proof (rule free_fcbs_less)
      show "live (fdisk s) j" if "j < MAXFILENUM" "live (fdisk s1) j" "j \<notin> {?i}" for j
        using that same [of j] head by (cases "j = k") (auto simp: live_def same_head_def)
    qed simp
    then have cnt: "free_fcbs (fdisk s) \<le> free_fcbs (fdisk s1) + 1" by simp
    have "0 \<notin> set name" using w by (simp add: short_name_def)
    then have "named (get_fcb (fdisk s1) (int j))" if "j < MAXFILENUM" for j
      using that same [of j] head s new by (cases "j = ?i"; cases "j = k")
        (auto simp: steady_def names_ok_def same_head_def named_def new_file_def)
    then have "steady F B s1"
      using s ok cnt op fs by (auto simp: steady_def open_ok_def open_names_def names_ok_def)
    with run show ?thesis by blast
  qed
qed

text \<open>\<open>mMkdir\<close>: the directory is full, a name stands in the way, or three control blocks are taken.\<close>

lemma mkdir_steady:
  assumes s: "steady (F + 3) B s" and w: "short_name name" and tm: "length tm = 56"
  shows "\<exists>e s'. mMkdir tm name s = Some (e, s') \<and> steady F B s'"
proof -
  from cur_facts [OF s] obtain D k ids where c: "vfs_ok D s" "table_ok D (fdisk s)" "cur_dir s = int k" "D k = Some ids"
    "k < MAXFILENUM" "length ids \<le> 10" "sint (fcb_length (get_fcb (fdisk s) (int k))) = int (length ids)" "2 \<le> length ids" by metis
  have s': "steady F B s" by (rule steady_mono [OF s]) simp_all
  have z: "0 \<notin> set name" using w by (simp add: short_name_def)
  have len: "length ids < MAXFILENUM" using c(6) by (simp add: MAXFILENUM_def)
  have "named (get_fcb (fdisk s) (int (length ids)))" using s len by (simp add: steady_def names_ok_def)
  from strcmp_named [OF _ this z] len
  have cmp: "strcmp_eq (fdisk s) (int (length ids)) name = Some (fname (get_fcb (fdisk s) (int (length ids))) = name)" by simp
  consider "length ids = 10" | "length ids < 10" "fname (get_fcb (fdisk s) (int (length ids))) = name"
    | "length ids < 10" "fname (get_fcb (fdisk s) (int (length ids))) \<noteq> name" using c(6) by linarith
  then show ?thesis
  proof cases
    case 1
    then have "mMkdir tm name s = Some (100, open_trunc s)"
      using c w by (simp add: mMkdir_def open_trunc_def Let_def)
    with steady_trunc [OF s'] show ?thesis by blast
  next
    case 2
    moreover have "ids \<noteq> []" using c(8) by auto
    ultimately have "mMkdir tm name s = Some (101, open_trunc s)"
      using c w cmp by (simp add: mMkdir_def open_trunc_def Let_def)
    with steady_trunc [OF s'] show ?thesis by blast
  next
    case 3
    define i where "i = find_fcb (fdisk s) 0"
    define a where "a = find_fcb (fdisk s) (Suc i)"
    define b where "b = find_fcb (fdisk s) (Suc a)"
    have "Suc (Suc (Suc 0)) \<le> card (free_from (fdisk s) 0)" using s by (simp add: free_from_all steady_def)
    from find_fcb_from_next(2) [OF this] have n1: "Suc (Suc 0) \<le> card (free_from (fdisk s) (Suc i))" by (simp add: i_def)
    from find_fcb_from_next(2) [OF this] have "Suc 0 \<le> card (free_from (fdisk s) (Suc a))" by (simp add: a_def)
    from find_fcb_from_next(1) [OF this] have b_lt: "b < MAXFILENUM" by (simp add: b_def)
    have "strcmp_eq (fdisk s) (int (length ids)) name = Some False" using cmp 3(2) by simp
    from mMkdir_spec [OF c(1,3,4) 3(1) i_def [symmetric] a_def [symmetric] b_def [symmetric] b_lt w tm this] obtain s1 where
      run: "mMkdir tm name s = Some (1, s1)" and ok: "vfs_ok (D(k \<mapsto> ids @ [i], i \<mapsto> [a, b])) s1"
      and same: "\<And>j. j < MAXFILENUM \<Longrightarrow> j \<notin> {i, a, b, k} \<Longrightarrow> get_fcb (fdisk s1) (int j) = get_fcb (fdisk s) (int j)"
      and head: "same_head (get_fcb (fdisk s) (int k)) (get_fcb (fdisk s1) (int k))"
      and out: "\<And>n. \<not> table_byte n \<Longrightarrow> fdisk s1 n = fdisk s n" and op: "opened s1 = opened s" "opennum s1 = opennum s"
      by blast
    have tab: "table_ok (D(k \<mapsto> ids @ [i], i \<mapsto> [a, b])) (fdisk s1)" using ok by (simp add: vfs_ok_def)
    have fl: "fdisk s1 (1024 + n) = fdisk s (1024 + n)" if "n < 1024" for n
      by (rule out) (use that in \<open>simp add: table_byte_def\<close>)
    then have fs: "free_list (fdisk s1) = free_list (fdisk s)" "flags_ok (fdisk s1) = flags_ok (fdisk s)"
      by (auto simp: free_list_def free_among_def BLOCKS_def flags_ok_def intro!: filter_cong)
    have "free_fcbs (fdisk s) \<le> free_fcbs (fdisk s1) + card {i, a, b}"
    proof (rule free_fcbs_less)
      show "live (fdisk s) j" if "j < MAXFILENUM" "live (fdisk s1) j" "j \<notin> {i, a, b}" for j
        using that same [of j] head by (cases "j = k") (auto simp: live_def same_head_def)
    qed simp
    moreover have "card {i, a, b} \<le> 3" by (simp add: card_insert_if)
    ultimately have cnt: "free_fcbs (fdisk s) \<le> free_fcbs (fdisk s1) + 3" by simp
    have ik: "i \<noteq> k"
    proof
      assume "i = k"
      have lt: "i < MAXFILENUM" using \<open>i = k\<close> c(5) by simp
      have "fcb_id (get_fcb (fdisk s) (int i)) = - 1" by (rule find_fcb_free(1) [OF i_def [symmetric] lt])
      with dir_entries_ok(4) [OF c(2,4)] \<open>i = k\<close> show False by (simp add: live_def)
    qed
    have mem: "named (get_fcb (fdisk s1) (int j))" if "j \<in> {i, a, b}" for j
    proof -
      have "entries_ok (fdisk s1) (ids @ [i])" "entries_ok (fdisk s1) [a, b]"
        using dir_entries_ok(1) [OF tab, of k "ids @ [i]"] dir_entries_ok(1) [OF tab, of i "[a, b]"] ik by simp_all
      with that show ?thesis by (auto simp: entries_ok_def)
    qed
    have "named (get_fcb (fdisk s1) (int j))" if "j < MAXFILENUM" for j
      using that same [of j] head s mem [of j] by (cases "j \<in> {i, a, b}"; cases "j = k")
        (auto simp: steady_def names_ok_def same_head_def named_def)
    then have "steady F B s1"
      using s ok cnt op fs by (auto simp: steady_def open_ok_def open_names_def names_ok_def)
    with run show ?thesis by blast
  qed
qed

text \<open>
  \<open>mCd\<close> to a name that is none of the special ones: the loop also compares the name with the records of -1, as the
  control block before the table, which lies in the flags; there is no 0 among them, so no name is found there.
\<close>

lemma before_table:
  assumes "flags_ok d" and "word_ok w"
  shows "strcmp_eq d (- 1) w = Some False"
proof -
  have len: "length w < 20" using assms(2) by (simp add: word_ok_def)
  have off: "fcb_off (- 1) + 4 = 1924" by (simp add: fcb_off_def)
  have "900 + length w < 1024" using len by simp
  with assms(1) have "d (1024 + (900 + length w)) = FREE \<or> d (1024 + (900 + length w)) = USED" unfolding flags_ok_def by blast
  then have "d (1024 + (900 + length w)) \<noteq> 0" by auto
  then have "load_bytes d 1924 (length w + 1) ! length w \<noteq> (w @ [0]) ! length w" by (simp add: add.assoc [symmetric])
  then have "load_bytes d 1924 (length w + 1) \<noteq> w @ [0]" by metis
  then show ?thesis by (simp add: strcmp_eq_def off fcb_valid_def DISK_SIZE_def)
qed

lemma cd_name:
  assumes s: "steady F B s" and w: "word_ok name" "name \<notin> {[92], [46], [46, 46]}"
  shows "\<exists>e s'. mCd name s = Some (e, s') \<and> steady F B s'"
proof -
  from cur_facts [OF s] obtain D k ids where c: "vfs_ok D s" "table_ok D (fdisk s)" "cur_dir s = int k" "D k = Some ids"
    "k < MAXFILENUM" "length ids \<le> 10" "fcb_record (get_fcb (fdisk s) (int k)) = records ids" "2 \<le> length ids" by metis
  let ?d = "fdisk s"
  note dir = dir_entries_ok [OF c(2,4)]
  have z: "0 \<notin> set name" using w by (simp add: word_ok_def)
  let ?Q = "\<lambda>j. j < length ids \<and> fname (get_fcb ?d (int (ids ! j))) = name"
  let ?r = "\<lambda>j. if isdir (get_fcb ?d (sint (records ids ! j))) = 0 then (104 :: int, s) else (1, s\<lparr>cur_dir := sint (records ids ! j)\<rparr>)"
  let ?body = "\<lambda>i _. do {
             eq \<leftarrow> strcmp_eq ?d (sint (records ids ! i)) name;
             Some (if eq then Return (?r i) else Next ())
           }"
  have "?body j () = Some (if ?Q j then Return (?r j) else Next ())" if "2 \<le> j" "j < 10" for j
  proof (cases "j < length ids")
    case True
    then have "ids ! j < MAXFILENUM" "named (get_fcb ?d (int (ids ! j)))" using dir(1) by (auto simp: entries_ok_def)
    with True z show ?thesis by (simp add: nth_records strcmp_named)
  next
    case False
    then have "records ids ! j = - 1" using that by (simp add: nth_records_END)
    with False before_table [OF _ w(1)] s show ?thesis by (simp add: steady_def)
  qed
  from for_loop_search [of 2 10 ?body "()" ?Q ?r, OF this]
  have loop: "for_loop 2 10 ?body () = Some (case List.find ?Q [2..<10] of Some j \<Rightarrow> Return (?r j) | None \<Rightarrow> Next ())" .
  have run: "mCd name s = after_loop (for_loop 2 10 ?body ()) (\<lambda>_. Some (104, s))"
    using w c(3,5,7) by (simp add: mCd_def cong: if_cong)
  show ?thesis
  proof (cases "List.find ?Q [2..<10]")
    case None
    then show ?thesis using run loop s by simp
  next
    case (Some j)
    from find_upt_Some [OF Some] have j: "2 \<le> j" "j < length ids" "fname (get_fcb ?d (int (ids ! j))) = name" by auto
    have lt: "ids ! j < MAXFILENUM" using dir(1) j(2) by (auto simp: entries_ok_def)
    then have rj: "sint (records ids ! j) = int (ids ! j)" using j(2) by (simp add: nth_records)
    have "steady F B (s\<lparr>cur_dir := int (ids ! j)\<rparr>)" if "isdir (get_fcb ?d (int (ids ! j))) \<noteq> 0"
    proof -
      obtain q where "j = 2 + q" using j(1) le_Suc_ex by blast
      then have "ids ! j \<in> set (drop 2 ids)" using j(2) by (auto simp: in_set_conv_nth intro!: exI [of _ q])
      then have "child_ok D ?d k (ids ! j)" using table_okD(2) [OF c(2,4)] by (simp add: members_ok_def)
      then have "ids ! j \<in> dom D" using that by (auto simp: child_ok_def file_fcb_def split: option.splits)
      then have "vfs_ok D (s\<lparr>cur_dir := int (ids ! j)\<rparr>)" using c(1) by (auto simp: vfs_ok_def)
      then show ?thesis using s by (auto simp: steady_def open_ok_def open_names_def)
    qed
    with s rj have "steady F B (snd (?r j))" by simp
    moreover have "mCd name s = Some (?r j)" using run loop Some by simp
    ultimately show ?thesis by (metis prod.collapse)
  qed
qed

lemma cd_steady:
  assumes s: "steady F B s" and w: "word_ok name" "name \<noteq> [46, 46]"
  shows "\<exists>e s'. mCd name s = Some (e, s') \<and> steady F B s'"
proof -
  consider "name = [92]" | "name = [46]" | "name \<notin> {[92], [46], [46, 46]}" using w(2) by auto
  then show ?thesis
  proof cases
    case 1
    from s obtain D where D: "vfs_ok D s" by (auto simp: steady_def)
    then have "vfs_ok D (s\<lparr>cur_dir := 0\<rparr>)" by (auto simp: vfs_ok_def)
    then have "steady F B (s\<lparr>cur_dir := 0\<rparr>)" using s by (auto simp: steady_def open_ok_def open_names_def)
    with 1 w show ?thesis by (simp add: mCd_def)
  next
    case 2
    with s w show ?thesis by (simp add: mCd_def)
  next
    case 3
    from cd_name [OF s w(1) 3] show ?thesis .
  qed
qed

text \<open>The commands that only look.\<close>

lemma ls_steady:
  assumes s: "steady F B s"
  shows "\<exists>out. mLs s = Some out"
proof -
  from cur_facts [OF s] obtain D k ids where c: "table_ok D (fdisk s)" "cur_dir s = int k" "D k = Some ids"
    "k < MAXFILENUM" "fcb_record (get_fcb (fdisk s) (int k)) = records ids" by metis
  note dir = dir_entries_ok [OF c(1,3)]
  have "\<exists>out. after_loop (for_loop 0 10 (\<lambda>i out.
       let pos = sint (records ids ! i)
       in if pos \<ge> 0
          then do {
            temp \<leftarrow> fcb_at (fdisk s) pos;
            Some (Next (out @ [(pos, takeWhile (\<lambda>c. c \<noteq> 0) (drop 4 (encode_fcb temp)), isdir temp \<noteq> 0,
              fcb_size temp, data_time temp)]))
          }
          else Some (Next out)) []) Some = Some out" (is "\<exists>out. after_loop (for_loop 0 10 ?body []) Some = Some out")
  proof -
    have "\<exists>t. for_loop 0 10 ?body [] = Some (Next t) \<and> True"
  proof (rule for_loop_invariant [where P = "\<lambda>_ _. True"])
    show "\<exists>t'. ?body j t = Some (Next t') \<and> True" if "j < 10" for j t
    proof (cases "j < length ids")
      case True
      then have "ids ! j < MAXFILENUM" using dir(1) by (auto simp: entries_ok_def)
      with True show ?thesis by (simp add: nth_records Let_def)
    next
      case False
      then show ?thesis using that by (simp add: nth_records_END)
    qed
  qed simp_all
    then show ?thesis by auto
  qed
  then show ?thesis using c(2,4,5) by (simp add: mLs_def)
qed

lemma read_steady:
  assumes s: "steady F B s" and w: "word_ok name"
  shows "\<exists>e out. mRead name s = Some (e, out, s)"
proof -
  from cur_facts [OF s] obtain D k ids where c: "vfs_ok D s" "cur_dir s = int k" "D k = Some ids" by metis
  show ?thesis unfolding mRead_spec [OF c w] by (auto split: option.split)
qed

text \<open>\<open>mWrite\<close>: the file is missing, or its new blocks are taken from the free ones.\<close>

lemma length_filter_take:
  assumes "distinct xs"
  shows "filter (\<lambda>x. x \<notin> set (take n xs)) xs = drop n xs"
proof -
  have "set (take n xs) \<inter> set (drop n xs) = {}" using assms by (metis append_take_drop_id distinct_append)
  then have "filter (\<lambda>x. x \<notin> set (take n xs)) (drop n xs) = drop n xs" by (auto simp: filter_id_conv)
  moreover have "filter (\<lambda>x. x \<notin> set (take n xs)) (take n xs) = []" by (simp add: filter_empty_conv)
  ultimately show ?thesis by (metis append_Nil append_take_drop_id filter_append)
qed

lemma free_list_taken:
  assumes "\<And>b. b < 1024 \<Longrightarrow> d' (1024 + b) = (if b \<in> set (take n (free_list d)) then USED else d (1024 + b))"
  shows "free_list d' = drop n (free_list d)"
proof -
  have "free_list d' = filter (\<lambda>b. b \<notin> set (take n (free_list d))) (filter (\<lambda>b. d (1024 + b) = FREE) [0..<BLOCKS])"
    unfolding free_list_def [of d'] free_among_def filter_filter
    by (rule filter_cong) (use assms in \<open>auto simp: BLOCKS_def\<close>)
  also have "\<dots> = filter (\<lambda>b. b \<notin> set (take n (free_list d))) (free_list d)"
    by (simp add: free_list_def free_among_def)
  also have "\<dots> = drop n (free_list d)" by (rule length_filter_take [OF free_list_props(3)])
  finally show ?thesis .
qed

lemma write_steady:
  assumes s: "steady F (B + (length text div 1024 + 1)) s" and w: "word_ok name" and len: "length text < 10240" and tm: "length tm = 56"
  shows "\<exists>e s'. mWrite tm name text s = Some (e, s') \<and> steady F B s'"
proof -
  from cur_facts [OF s] obtain D k ids where c: "vfs_ok D s" "table_ok D (fdisk s)" "cur_dir s = int k" "D k = Some ids"
    "k < MAXFILENUM" by metis
  have s': "steady F B s" by (rule steady_mono [OF s]) simp_all
  show ?thesis
  proof (cases "file_named (fdisk s) ids name")
    case None
    then have "mWrite tm name text s = Some (110, open_trunc s)"
      using find_file_named [OF c(2,4) w] c(3,5) w by (simp add: mWrite_def Let_def open_trunc_def)
    with steady_trunc [OF s'] show ?thesis by blast
  next
    case (Some i)
    let ?n = "length text div 1024 + 1"
    have free: "?n \<le> length (free_list (fdisk s))" using s by (simp add: steady_def)
    from mWrite_spec [OF c(1,3,4) w Some len free tm] obtain s1 where
      run: "mWrite tm name text s = Some (1, s1)" and ok: "vfs_ok D s1"
      and same: "\<And>j. j < MAXFILENUM \<Longrightarrow> j \<noteq> i \<Longrightarrow> get_fcb (fdisk s1) (int j) = get_fcb (fdisk s) (int j)"
      and head: "same_head (get_fcb (fdisk s) (int i)) (get_fcb (fdisk s1) (int i))"
      and fl: "\<And>b. b < 1024 \<Longrightarrow> fdisk s1 (1024 + b) =
          (if b \<in> set (take ?n (free_list (fdisk s))) then USED else fdisk s (1024 + b))"
      and op: "opened s1 = opened s" "opennum s1 = opennum s" by blast
    have heads: "fcb_id (get_fcb (fdisk s1) (int j)) = fcb_id (get_fcb (fdisk s) (int j))"
      "filename (get_fcb (fdisk s1) (int j)) = filename (get_fcb (fdisk s) (int j))" if "j < MAXFILENUM" for j
      using same [OF that] head by (cases "j = i"; simp add: same_head_def)+
    have "free_fcbs (fdisk s) \<le> free_fcbs (fdisk s1) + card ({} :: nat set)"
      by (rule free_fcbs_less) (use heads in \<open>auto simp: live_def\<close>)
    moreover have "free_list (fdisk s1) = drop ?n (free_list (fdisk s))" by (rule free_list_taken [OF fl])
    moreover have "flags_ok (fdisk s1)" using s fl by (auto simp: steady_def flags_ok_def)
    moreover have "names_ok (fdisk s1)" using s heads by (auto simp: steady_def names_ok_def named_def)
    ultimately have "steady F B s1" using s ok op by (auto simp: steady_def open_ok_def open_names_def)
    with run show ?thesis by blast
  qed
qed

text \<open>\<open>mOpen\<close> changes the time of the file.\<close>

lemma touch_table_ok:
  assumes tab: "table_ok D d" and i: "i < MAXFILENUM" "D i = None" and tm: "length tm = 56"
    and d': "d' = put_fcb d (int i) ((get_fcb d (int i))\<lparr>data_time := tm\<rparr>)"
  shows "table_ok D d'" and "j < MAXFILENUM \<Longrightarrow> get_fcb d' (int j) = (if i = j then (get_fcb d (int i))\<lparr>data_time := tm\<rparr> else get_fcb d (int j))"
    and "\<not> table_byte a \<Longrightarrow> d' a = d a"
proof -
  have wf: "wf_fcb ((get_fcb d (int i))\<lparr>data_time := tm\<rparr>)"
    using wf_get_fcb [of d "int i"] tm by (simp add: wf_fcb_def del: wf_get_fcb)
  show g: "j < MAXFILENUM \<Longrightarrow> get_fcb d' (int j) = (if i = j then (get_fcb d (int i))\<lparr>data_time := tm\<rparr> else get_fcb d (int j))" for j
    unfolding d' by (rule get_put_fcb [OF i(1) _ wf])
  show out: "\<not> table_byte a \<Longrightarrow> d' a = d a" for a unfolding d' by (rule put_fcb_outside [OF i(1) wf])
  have fl: "d' (1024 + b) = d (1024 + b)" if "b < 1024" for b
    by (rule out) (use that in \<open>simp add: table_byte_def\<close>)
  have keep: "file_fcb d' (f\<lparr>data_time := t\<rparr>)" "file_fcb d' f" if "file_fcb d f" for f t
    using that fl by (auto simp: file_fcb_def)
  have ex: "extends D d D d'"
    unfolding extends_def by (intro conjI allI impI) (use g keep in \<open>auto simp: live_def same_head_def\<close>)
  have same: "get_fcb d' (int j) = get_fcb d (int j)" if "D j = Some js" for j js
    using g [OF dir_entries_ok(3) [OF tab that]] i(2) that by auto
  show "table_ok D d'"
    unfolding table_ok_def
  proof (intro conjI allI impI)
    fix j js assume j: "D j = Some js"
    with extends_dirs [OF tab ex j same [OF j]] show "dir_head d' j js" "members_ok D d' j js" by auto
  next
    fix j assume "j < MAXFILENUM" "fcb_id (get_fcb d' (int j)) = - 1"
    then show "fcb_record (get_fcb d' (int j)) = records []" using g [of j] table_okD(3) [OF tab, of j] by (auto split: if_splits)
  next
    show "d' (1024 + b) \<noteq> FREE" if "b < 102" for b using fl [of b] table_okD(4) [OF tab that] that by simp
    show "d' 0 = 36" using out [of 0] table_okD(5) [OF tab] by (simp add: table_byte_def)
  qed
qed

lemma open_steady:
  assumes s: "steady F B s" and w: "word_ok name" and tm: "length tm = 56"
  shows "\<exists>e s'. mOpen tm name s = Some (e, s') \<and> steady F B s'"
proof -
  from cur_facts [OF s] obtain D k ids where c: "vfs_ok D s" "table_ok D (fdisk s)" "cur_dir s = int k" "D k = Some ids"
    "k < MAXFILENUM" by metis
  have op: "open_ok s" using s by (simp add: steady_def)
  consider "file_named (fdisk s) ids name = None \<or> opennum s = 5 \<or> (\<exists>x \<in> set (take (opennum s) (opened s)). open_name x = name)"
    | i where "file_named (fdisk s) ids name = Some i" "opennum s \<noteq> 5" "\<not> (\<exists>x \<in> set (take (opennum s) (opened s)). open_name x = name)"
    by fastforce
  then show ?thesis
  proof cases
    case 1
    then have "\<exists>e. mOpen tm name s = Some (e, s)"
      using find_file_named [OF c(2,4) w] c(3,5) w by (auto simp: mOpen_def split: option.split)
    with s show ?thesis by blast
  next
    case 2
    from file_namedD [OF 2(1)] have i: "i \<in> set ids" "isdir (get_fcb (fdisk s) (int i)) \<noteq> 1" by auto
    have lt: "i < MAXFILENUM" using dir_entries_ok(5) [OF c(2,4) i(1)] by (simp add: live_def)
    note touch = touch_table_ok [OF c(2) lt entry_is_file(2) [OF c(2,4) i] tm refl]
    let ?d = "put_fcb (fdisk s) (int i) ((get_fcb (fdisk s) (int i))\<lparr>data_time := tm\<rparr>)"
    have lens: "\<not> length (opened s) \<le> opennum s" using op 2(2) by (auto simp: open_ok_def)
    obtain s1 where run: "mOpen tm name s = Some (1, s1)" and d: "fdisk s1 = ?d" "cur_dir s1 = cur_dir s"
      using find_file_named [OF c(2,4) w] c(3,5) w 2 lens lt by (simp add: mOpen_def)
    have "vfs_ok D s1" using c(1) touch(1) d by (auto simp: vfs_ok_def)
    moreover have "open_ok s1" using mOpen_table [OF op run] by simp
    moreover have heads: "fcb_id (get_fcb ?d (int j)) = fcb_id (get_fcb (fdisk s) (int j))"
      "filename (get_fcb ?d (int j)) = filename (get_fcb (fdisk s) (int j))" if "j < MAXFILENUM" for j
      using touch(2) [OF that] by simp_all
    moreover have "free_fcbs (fdisk s) \<le> free_fcbs ?d + card ({} :: nat set)"
      by (rule free_fcbs_less) (use heads in \<open>auto simp: live_def\<close>)
    moreover have "?d (1024 + b) = fdisk s (1024 + b)" if "b < 1024" for b
      by (rule touch(3)) (use that in \<open>simp add: table_byte_def\<close>)
    then have "free_list ?d = free_list (fdisk s)" "flags_ok ?d = flags_ok (fdisk s)"
      by (auto simp: free_list_def free_among_def BLOCKS_def flags_ok_def intro!: filter_cong)
    ultimately have "steady F B s1" using s d(1) by (auto simp: steady_def names_ok_def named_def)
    with run show ?thesis by blast
  qed
qed

lemma close_steady:
  assumes s: "steady F B s" and w: "word_ok name"
  shows "\<exists>e s'. mClose name s = Some (e, s') \<and> steady F B s'"
proof -
  have op: "open_ok s" using s by (simp add: steady_def)
  from mClose_spec [OF op w] obtain e s1 where run: "mClose name s = Some (e, s1)" and s1: "open_ok s1" "fdisk s1 = fdisk s" by blast
  have "cur_dir s1 = cur_dir s" using run by (auto simp: mClose_def split: if_splits option.splits)
  with s s1 have "steady F B s1" by (simp add: steady_def vfs_ok_def)
  with run show ?thesis by blast
qed

text \<open>\<open>mFormat\<close> gives all of the 797 control blocks behind the first three and the 922 blocks behind the table.\<close>

lemma format_steady:
  assumes op: "open_ok s" and tm: "length tm = 56" and n: "F \<le> 797" "B \<le> 922"
  shows "steady F B (mFormat tm s)"
proof -
  let ?s = "mFormat tm s"
  note f = mFormat_spec [OF tm, where s = s]
  have "{3..<MAXFILENUM} \<subseteq> {j. j < MAXFILENUM \<and> \<not> live (fdisk ?s) j}" using f(3) by (auto simp: live_def)
  then have "card {3..<MAXFILENUM} \<le> free_fcbs (fdisk ?s)"
    unfolding free_fcbs_def by (intro card_mono) (auto intro: finite_subset [of _ "{..<MAXFILENUM}"])
  then have "797 \<le> free_fcbs (fdisk ?s)" by (simp add: MAXFILENUM_def)
  moreover have "length (free_list (fdisk ?s)) = 922" by (simp add: f(5) BLOCKS_def)
  moreover have "flags_ok (fdisk ?s)"
    unfolding flags_ok_def
  proof (intro allI impI)
    fix b :: nat assume b: "b < 1024"
    then have "\<not> table_byte (1024 + b)" by (simp add: table_byte_def)
    then show "fdisk ?s (1024 + b) = FREE \<or> fdisk ?s (1024 + b) = USED"
      using mFormat_fcbs(2) [OF tm] blank_flags [OF b] by simp
  qed
  moreover have "names_ok (fdisk ?s)"
    unfolding names_ok_def
  proof (intro allI impI)
    fix j assume j: "j < MAXFILENUM"
    from mFormat_fcbs(1) [OF tm j, of s] show "named (get_fcb (fdisk ?s) (int j))"
      by (auto simp: named_def dir_fcb_def clear_fcb_def strcpy_name_def)
  qed
  moreover have "open_ok ?s" using op by (simp add: open_ok_def open_names_def mFormat_def Let_def fwrite_blocks_def open_trunc_def)
  ultimately show ?thesis using f(1) n by (auto simp: steady_def)
qed

section \<open>Sessions\<close>

text \<open>The control blocks and the data blocks that a command may take.\<close>

definition fcbs_taken :: "string \<Rightarrow> nat" where
  "fcbs_taken command = (let t = GetCommandType command in if t = 2 then 3 else if t = 5 then 1 else 0)"

definition data_taken :: "string \<Rightarrow> byte list \<Rightarrow> nat" where
  "data_taken command w2 = (if GetCommandType command = 9 then length w2 div 1024 + 1 else 0)"

text \<open>
  What may be typed: any command of fewer than 10 characters but \<open>cp\<close>, \<open>rm\<close> and \<open>cd ..\<close>, with names of at most 7 characters for
  new files and directories and of fewer than 20 elsewhere, and texts below 10240 characters.
\<close>

definition may_type :: "string \<times> byte list \<times> byte list \<Rightarrow> bool" where
  "may_type = (\<lambda>(command, w1, w2). let t = GetCommandType command in
     length command < 10 \<and> t \<noteq> 10 \<and> t \<noteq> 11
     \<and> (t = 2 \<or> t = 5 \<longrightarrow> short_name w1) \<and> (t \<in> {4, 6, 7, 8, 9} \<longrightarrow> word_ok w1) \<and> (t = 4 \<longrightarrow> w1 \<noteq> [46, 46]) \<and> (t = 9 \<longrightarrow> length w2 < 10240))"

lemma step_steady:
  assumes s: "steady (F + fcbs_taken command) (B + data_taken command w2) s" and c: "may_type (command, w1, w2)" and tm: "length tm = 56"
  shows "\<exists>m s'. main_step tm junk command w1 w2 s = Some (m, s') \<and> (case s' of None \<Rightarrow> True | Some t \<Rightarrow> steady F B t)"
proof -
  define t where "t = GetCommandType command"
  have s': "steady F B s" by (rule steady_mono [OF s]) simp_all
  have len: "\<not> 10 \<le> length command" and t: "t \<noteq> 10" "t \<noteq> 11" using c by (auto simp: may_type_def t_def Let_def)
  have run: "\<exists>m s1. map_option (\<lambda>(e, s'). (ErrorConfig e, Some s')) r = Some (m, s1) \<and> (case s1 of None \<Rightarrow> True | Some u \<Rightarrow> steady F B u)"
    if "\<exists>e s'. r = Some (e, s') \<and> steady F B s'" for r
    using that by auto
  note step = main_step_def Let_def t_def [symmetric]
  have "t = 1 \<or> t = 2 \<or> t = 3 \<or> t = 4 \<or> t = 5 \<or> t = 6 \<or> t = 7 \<or> t = 8 \<or> t = 9 \<or> t < 1 \<or> 11 < t"
    using t by presburger
  then consider "t = 1" | "t = 2" | "t = 3" | "t = 4" | "t = 5" | "t = 6" | "t = 7" | "t = 8" | "t = 9" | "t < 1 \<or> 11 < t"
    by blast
  then show ?thesis
  proof cases
    case 1
    have "open_ok s" "F \<le> 797" "B \<le> 922" using s' by (auto simp: steady_def)
    from format_steady [OF this(1) tm this(2,3)] 1 len show ?thesis by (simp add: step)
  next
    case 2
    then have "steady (F + 3) B s" "short_name w1" using s c by (auto simp: fcbs_taken_def data_taken_def t_def may_type_def Let_def)
    from run [OF mkdir_steady [OF this tm]] 2 len show ?thesis by (simp add: step)
  next
    case 3
    from ls_steady [OF s'] 3 len s' show ?thesis by (auto simp: step)
  next
    case 4
    then have "word_ok w1" "w1 \<noteq> [46, 46]" using c by (auto simp: t_def may_type_def Let_def)
    from run [OF cd_steady [OF s' this]] 4 len show ?thesis by (simp add: step)
  next
    case 5
    then have "steady (Suc F) B s" "short_name w1" using s c by (auto simp: fcbs_taken_def data_taken_def t_def may_type_def Let_def)
    from run [OF mkfile_steady [OF this tm]] 5 len show ?thesis by (simp add: step)
  next
    case 6
    then have "word_ok w1" using c by (auto simp: t_def may_type_def Let_def)
    from run [OF open_steady [OF s' this tm]] 6 len show ?thesis by (simp add: step)
  next
    case 7
    then have "word_ok w1" using c by (auto simp: t_def may_type_def Let_def)
    from run [OF close_steady [OF s' this]] 7 len show ?thesis by (simp add: step)
  next
    case 8
    then have "word_ok w1" using c by (auto simp: t_def may_type_def Let_def)
    from read_steady [OF s' this] 8 len s' show ?thesis by (auto simp: step)
  next
    case 9
    then have "steady F (B + (length w2 div 1024 + 1)) s" "word_ok w1" "length w2 < 10240"
      using s c by (auto simp: fcbs_taken_def data_taken_def t_def may_type_def Let_def)
    from run [OF write_steady [OF this tm]] 9 len show ?thesis by (simp add: step)
  next
    case 10
    then have "t \<noteq> 1" "t \<noteq> 2" "t \<noteq> 3" "t \<noteq> 4" "t \<noteq> 5" "t \<noteq> 6" "t \<noteq> 7" "t \<noteq> 8" "t \<noteq> 9" "t \<noteq> 10" "t \<noteq> 11" by auto
    then show ?thesis using len s' by (cases "t = 12"; cases "t = 13"; simp add: step)
  qed
qed

definition fcbs_needed :: "(string \<times> byte list \<times> byte list) list \<Rightarrow> nat" where
  "fcbs_needed input = sum_list (map (\<lambda>c. fcbs_taken (fst c)) input)"

definition data_needed :: "(string \<times> byte list \<times> byte list) list \<Rightarrow> nat" where
  "data_needed input = sum_list (map (\<lambda>c. data_taken (fst c) (snd (snd c))) input)"

lemma loop_steady:
  assumes "steady (fcbs_needed input) (data_needed input) s"
    and "\<forall>c \<in> set input. may_type c" and tm: "length tm = 56"
  shows "\<exists>ms s'. main_loop tm junk input s = Some (ms, s') \<and> steady 0 0 s'"
  using assms(1,2)
proof (induction input arbitrary: s)
  case Nil
  then show ?case by (simp add: fcbs_needed_def data_needed_def)
next
  case (Cons c input)
  obtain command w1 w2 where c: "c = (command, w1, w2)" by (cases c) auto
  have s: "steady (fcbs_needed input + fcbs_taken command) (data_needed input + data_taken command w2) s"
    using Cons.prems(1) by (simp add: c add.commute fcbs_needed_def data_needed_def)
  then have s0: "steady 0 0 s" by (rule steady_mono) simp_all
  have "may_type (command, w1, w2)" using Cons.prems(2) by (simp add: c)
  from step_steady [OF s this tm] obtain m s1 where
    run: "main_step tm junk command w1 w2 s = Some (m, s1)"
    and s1: "case s1 of None \<Rightarrow> True | Some t \<Rightarrow> steady (fcbs_needed input) (data_needed input) t"
    by blast
  show ?case
  proof (cases s1)
    case None
    then show ?thesis using run s0 by (simp add: c)
  next
    case (Some t)
    with s1 Cons.IH [of t] Cons.prems(2) obtain ms s' where "main_loop tm junk input t = Some (ms, s')" "steady 0 0 s'" by auto
    then show ?thesis using run Some by (simp add: c)
  qed
qed

text \<open>
  C14: the shell never fails on what it handles. After \<open>format\<close>, the loop of \<open>main\<close> has a defined run on every sequence of
  commands but \<open>cp\<close>, \<open>rm\<close> and \<open>cd ..\<close> (with names that fit their fields and texts that fit their buffer, and names taken or
  missing as they may be) whose new files and directories take at most the 797 control blocks and whose texts at most the 922
  blocks of a formatted disk; and the disk it leaves is consistent: every directory has the entries of a list of distinct live
  control blocks. \<open>cd ..\<close> has no defined run from any state.
\<close>

theorem vfs_shell_never_stuck:
  assumes "open_ok s0" and "length tm = 56" and "\<forall>c \<in> set input. may_type c"
    and "fcbs_needed input \<le> 797" and "data_needed input \<le> 922"
  shows "\<exists>ms s. main_loop tm junk input (mFormat tm s0) = Some (ms, s) \<and> (\<exists>D. vfs_ok D s) \<and> open_ok s
      \<and> main_step tm junk ''cd'' [46, 46] w2 s = None"
proof -
  have "GetCommandType ''cd'' = 4" by code_simp
  then have "main_step tm junk ''cd'' [46, 46] w2 s = None" for s by (simp add: main_step_def mCd_def)
  moreover from loop_steady [OF format_steady [OF assms(1,2,4,5)] assms(3,2)] obtain ms s where
    "main_loop tm junk input (mFormat tm s0) = Some (ms, s)" "steady 0 0 s" by blast
  ultimately show ?thesis by (auto simp: steady_def)
qed

definition typed :: "(string \<times> byte list \<times> byte list) list" where
  "typed = [(''mkdir'', [100], []), (''cd'', [100], []), (''mkfile'', [97], []), (''mkfile'', [97], []), (''write'', [97], [104, 105]),
     (''open'', [97], []), (''read'', [98], []), (''ls'', [], []), (''nonsense'', [], []), (''close'', [97], [])]"

lemma typed_types:
  "map (\<lambda>c. GetCommandType (fst c)) typed = [2, 4, 5, 5, 9, 6, 8, 3, 0, 7]"
  by code_simp

lemma open_ok_start: "open_ok start"
  by (simp add: open_ok_def open_names_def start_def)

theorem vfs_shell_never_stuck_witness:
  "\<exists>ms s. main_loop no_time (\<lambda>_. 0) typed (mFormat no_time start) = Some (ms, s) \<and> (\<exists>D. vfs_ok D s) \<and> open_ok s
    \<and> main_step no_time (\<lambda>_. 0) ''cd'' [46, 46] [] s = None"
proof (rule vfs_shell_never_stuck [OF open_ok_start no_time_length])
  show "\<forall>c \<in> set typed. may_type c"
    using typed_types by (simp add: typed_def may_type_def Let_def short_name_def word_ok_def)
  show "fcbs_needed typed \<le> 797"
    using typed_types by (simp add: typed_def fcbs_needed_def fcbs_taken_def Let_def)
  show "data_needed typed \<le> 922"
    using typed_types by (simp add: typed_def data_needed_def data_taken_def Let_def)
qed

end
