(* ===== verification/UfsState.thy ===== *)
theory UfsState
  imports Layout
begin

text \<open>
  The UFS of \<open>lymly_3799072\<close> (\<open>ufs.h\<close>, \<open>op.c\<close>, \<open>init.c\<close>): a file image of blocks of 512 bytes, a super block,
  seven blocks of bitmap, and files and directories as chains of blocks. This theory has the image, the
  structures read out of a block, and the bitmap.
\<close>

section \<open>64-bit fields\<close>

definition ld64 :: "buf \<Rightarrow> nat \<Rightarrow> 64 word" where
  "ld64 b off = le_word (load_bytes b off 8)"

definition st64 :: "buf \<Rightarrow> nat \<Rightarrow> 64 word \<Rightarrow> buf" where
  "st64 b off w = store_bytes b off (le_bytes 8 w)"

lemma ld64_st64_same [array_laws]: "ld64 (st64 b off w) off = w"
  by (simp add: ld64_def st64_def load_store_same)

lemma ld64_st64_other [array_laws]:
  "off + 8 \<le> off' \<or> off' + 8 \<le> off \<Longrightarrow> ld64 (st64 b off w) off' = ld64 b off'"
  by (simp add: ld64_def st64_def load_store_disjoint)

section \<open>Blocks\<close>

text \<open>
  \<open>struct u_fs_data_block\<close>: \<open>size\<close> at 0, \<open>nNextBlock\<close> at 8, 496 bytes of data at 16. A buffer for it is got by
  \<open>malloc\<close>; the bytes from 512 on are what lies behind it in memory, and the loops over directory entries do
  read there: with entries of 40 bytes they take 13 steps, and the last entry ends at byte 536.
\<close>

definition blk_size :: "buf \<Rightarrow> 64 word" where "blk_size c = ld64 c 0"
definition nNextBlock :: "buf \<Rightarrow> int" where "nNextBlock c = sint (ld64 c 8)"
definition set_size :: "buf \<Rightarrow> nat \<Rightarrow> buf" where "set_size c n = st64 c 0 (of_nat n)"
definition set_next :: "buf \<Rightarrow> int \<Rightarrow> buf" where "set_next c n = st64 c 8 (word_of_int n)"

definition MAX_DATA_IN_BLOCK :: nat where "MAX_DATA_IN_BLOCK = 496"

text \<open>The number of steps of \<open>pos += sizeof(struct u_fs_inode)\<close> from 0 below 496.\<close>

definition SLOTS :: nat where "SLOTS = 13"

record u_fs_inode =
  u_fname :: "byte list"
  u_fsize :: "64 word"
  nStartBlock :: "64 word"
  u_flag :: "32 word"

definition slot :: "nat \<Rightarrow> nat" where "slot i = 16 + 40 * i"

definition get_dirent :: "buf \<Rightarrow> nat \<Rightarrow> u_fs_inode" where
  "get_dirent c i = \<lparr>u_fname = load_bytes c (slot i) 13, u_fsize = ld64 c (slot i + 16),
     nStartBlock = ld64 c (slot i + 24), u_flag = ld32 c (slot i + 32)\<rparr>"

definition put_dirent :: "buf \<Rightarrow> nat \<Rightarrow> u_fs_inode \<Rightarrow> buf" where
  "put_dirent c i e = st32 (st64 (st64 (store_bytes c (slot i) (u_fname e))
     (slot i + 16) (u_fsize e)) (slot i + 24) (nStartBlock e)) (slot i + 32) (u_flag e)"

definition wf_dirent :: "u_fs_inode \<Rightarrow> bool" where
  "wf_dirent e \<longleftrightarrow> length (u_fname e) = 13"

lemma wf_get_dirent [simp]: "wf_dirent (get_dirent c i)"
  by (simp add: wf_dirent_def get_dirent_def)

lemma length_get_fname [simp]: "length (u_fname (get_dirent c i)) = 13"
  by (simp add: get_dirent_def)

lemma put_dirent_outside:
  assumes "wf_dirent e" and "a < slot i \<or> slot i + 36 \<le> a"
  shows "put_dirent c i e a = c a"
  using assms by (auto simp: put_dirent_def st32_def st64_def wf_dirent_def store_bytes_def)

lemma load_cong: "(\<And>a. off \<le> a \<Longrightarrow> a < off + n \<Longrightarrow> c a = d a) \<Longrightarrow> load_bytes c off n = load_bytes d off n"
  by (auto simp: load_bytes_def)

interpretation dirents: array_store get_dirent put_dirent "\<lambda>_. True" wf_dirent
proof unfold_locales
  fix i j e and c :: buf
  assume e: "wf_dirent e"
  then have l: "length (u_fname e) = 13" by (simp add: wf_dirent_def)
  show "get_dirent (put_dirent c i e) i = e"
    using l by (simp add: get_dirent_def put_dirent_def array_laws ld32_def ld64_def st32_def st64_def)
  assume "i \<noteq> j"
  then have "slot j + 40 \<le> slot i \<or> slot i + 40 \<le> slot j" by (auto simp: slot_def)
  then have same: "put_dirent c i e a = c a" if "slot j \<le> a" "a < slot j + 36" for a
    using that by (intro put_dirent_outside [OF e]) auto
  have "load_bytes (put_dirent c i e) (slot j + k) n = load_bytes c (slot j + k) n" if "k + n \<le> 36" for k n
    by (rule load_cong) (use same that in auto)
  from this [of 0 13] this [of 16 8] this [of 24 8] this [of 32 4]
  show "get_dirent (put_dirent c i e) j = get_dirent c j"
    by (simp add: get_dirent_def ld64_def ld32_def)
qed

text \<open>\<open>strcmp\<close> of the name of an entry and a string.\<close>

definition name_is :: "buf \<Rightarrow> nat \<Rightarrow> byte list \<Rightarrow> bool" where
  "name_is c i w \<longleftrightarrow> load_bytes c (slot i) (length w + 1) = w @ [0]"

section \<open>The image\<close>

text \<open>
  The host file \<open>DISK\<close>, which can be opened, and its length in bytes. A seek to a negative offset fails.
  Reading behind the end leaves the rest of the buffer as it is; writing there fills the gap with zeros.
\<close>

record ufs =
  image :: buf
  image_len :: nat
  max_filesystem_in_block :: int

definition op_read_blk :: "ufs \<Rightarrow> int \<Rightarrow> buf \<Rightarrow> int \<times> buf" where
  "op_read_blk s blk content =
     (if blk < 0 then (- 1, content)
      else (0, \<lambda>i. if i < 512 \<and> 512 * nat blk + i < image_len s then image s (512 * nat blk + i) else content i))"

definition write_image :: "nat \<Rightarrow> byte list \<Rightarrow> ufs \<Rightarrow> ufs" where
  "write_image off bs s = s\<lparr>
     image := store_bytes (\<lambda>a. if a < image_len s then image s a else 0) off bs,
     image_len := max (image_len s) (off + length bs)\<rparr>"

definition op_write_blk :: "ufs \<Rightarrow> int \<Rightarrow> buf \<Rightarrow> int \<times> ufs" where
  "op_write_blk s blk content =
     (if blk < 0 then (- 1, s) else (0, write_image (512 * nat blk) (load_bytes content 0 512) s))"

section \<open>The bitmap\<close>

text \<open>An \<open>int\<close> read from the image; behind its end the variable would keep a value it never got.\<close>

definition read_int :: "ufs \<Rightarrow> nat \<Rightarrow> 32 word option" where
  "read_int s off = (if off + 4 \<le> image_len s then Some (ld32 (image s) off) else None)"

text \<open>
  \<open>op_set_blk\<close> reads and writes four bytes from the byte of the block on. A negative number other than -1 makes a
  negative shift, which is undefined.
\<close>

definition op_set_blk :: "ufs \<Rightarrow> int \<Rightarrow> int \<Rightarrow> (int \<times> ufs) option" where
  "op_set_blk s blk flag =
     (if blk = - 1 then Some (- 1, s)
      else if blk < 0 then None
      else do {
        let start = nat blk div 8;
        let left = nat blk mod 8;
        let msk = push_bit left 1;
        temp \<leftarrow> read_int s (512 + start);
        let f = (if flag \<noteq> 0 then temp OR msk else temp AND NOT msk);
        Some (0, write_image (512 + start) (le_bytes 4 f) s)
      })"

text \<open>
  The inner loop of \<open>op_search_free_blk\<close>: the state is \<open>temp\<close>, the flags, the mask \<open>msk\<close> and the place of the next
  \<open>fread\<close>; it counts the zero bits from \<open>msk\<close> on, \<open>num\<close> at most.
\<close>

definition count_free :: "ufs \<Rightarrow> nat \<Rightarrow> nat \<Rightarrow> 32 word \<Rightarrow> 32 word \<Rightarrow> nat option" where
  "count_free s num at f msk = after_loop
     (for_loop 0 num (\<lambda>i (temp, f, msk, at).
        if f AND msk = msk then Some (Break (temp, f, msk, at))
        else if msk AND 0x80000000 = 0x80000000
             then do { f' \<leftarrow> read_int s at; Some (Next (temp + 1, f', 1, at + 4)) }
             else Some (Next (temp + 1, f, push_bit 1 msk, at))) (0, f, msk, at))
     (\<lambda>(temp, _, _, _). Some temp)"

text \<open>
  The outer loop: \<open>best\<close> is \<open>max\<close> and \<open>max_start\<close>. It stops at the first run of \<open>num\<close> free blocks, or with the
  longest run.
\<close>

function search_runs :: "ufs \<Rightarrow> nat \<Rightarrow> nat \<Rightarrow> nat \<times> int \<Rightarrow> (nat \<times> int) option" where
  "search_runs s num start_blk best =
     (if int start_blk < max_filesystem_in_block s - 1
      then (case (case read_int s (512 + start_blk div 8) of None \<Rightarrow> None
              | Some f \<Rightarrow> count_free s num (512 + start_blk div 8 + 4) f (push_bit (start_blk mod 8) 1)) of
             None \<Rightarrow> None
           | Some temp \<Rightarrow>
               let best' = (if fst best < temp then (temp, int start_blk) else best)
               in if temp = num then Some best' else search_runs s num (temp + 1 + start_blk) best')
      else Some best)"
  by pat_completeness auto
termination
  by (relation "measure (\<lambda>(s, num, start_blk, best). nat (max_filesystem_in_block s) - start_blk)") auto

declare search_runs.simps [simp del]

text \<open>
  \<open>op_search_free_blk\<close>: the number of blocks taken, the first of them, and the image in which they are marked.
  A negative \<open>num\<close> makes the loop take no step.
\<close>

definition op_search_free_blk :: "ufs \<Rightarrow> int \<Rightarrow> (int \<times> int \<times> ufs) option" where
  "op_search_free_blk s num = do {
     (mx, max_start) \<leftarrow> search_runs s (nat num) 9 (0, - 1);
     after_loop
       (for_loop 0 mx (\<lambda>i s. do {
          (r, s') \<leftarrow> op_set_blk s (max_start + int i) 1;
          Some (if r = - 1 then Return (- 1, max_start, s') else Next s')
        }) s)
       (\<lambda>s'. Some (int mx, max_start, s'))
   }"

end
