(* ===== verification/UfsOps.thy ===== *)
theory UfsOps
  imports UfsState
begin

text \<open>
  The operations of \<open>op.c\<close> on paths and directories. Following a chain of blocks is a \<open>partial_function\<close>: a chain
  that runs into itself makes the code loop, which is the value \<^term>\<open>None\<close>, as is a step C gives no meaning.
\<close>

section \<open>Memory\<close>

text \<open>
  What \<open>malloc\<close> returns is not initialised: \<open>mem\<close> are the buffers for blocks, by the place in the code that asks
  for one, \<open>junk\<close> is the \<open>struct u_fs_inode\<close>. \<open>malloc\<close> does not fail.
\<close>

datatype site = At_open | At_modify | At_create | At_new | At_init | At_rm | At_empty | At_readdir | At_read | At_write

record heap =
  mem :: "site \<Rightarrow> buf"
  junk :: u_fs_inode

text \<open>\<open>strcpy\<close> of a string over the 13 characters of a name.\<close>

definition strcpy_fname :: "byte list \<Rightarrow> byte list \<Rightarrow> byte list" where
  "strcpy_fname old w = w @ [0] @ drop (length w + 1) old"

section \<open>Paths\<close>

definition SLASH :: byte where "SLASH = 47"

text \<open>\<open>find_parent\<close>: the last slash behind the first character splits the path.\<close>

definition find_parent :: "byte list \<Rightarrow> (byte list \<times> byte list) option" where
  "find_parent path = (case path of
     [] \<Rightarrow> None
   | c # q_temp \<Rightarrow>
       if SLASH \<in> set q_temp
       then let fname = rev (takeWhile (\<lambda>x. x \<noteq> SLASH) (rev q_temp))
            in Some (c # take (length q_temp - length fname - 1) q_temp, fname)
       else Some ([SLASH], q_temp))"

text \<open>\<open>div_string\<close>: the first name of a path, and what follows its slash.\<close>

definition div_string :: "byte list \<Rightarrow> byte list \<times> byte list option" where
  "div_string path =
     (let q_temp = (case path of [] \<Rightarrow> [] | c # cs \<Rightarrow> if c = SLASH then cs else path)
      in (takeWhile (\<lambda>x. x \<noteq> SLASH) q_temp,
          if SLASH \<in> set q_temp then Some (tl (dropWhile (\<lambda>x. x \<noteq> SLASH) q_temp)) else None))"

lemma div_string_shorter: "div_string path = (fname, Some sub) \<Longrightarrow> length sub < length path"
proof -
  assume d: "div_string path = (fname, Some sub)"
  let ?q = "case path of [] \<Rightarrow> [] | c # cs \<Rightarrow> if c = SLASH then cs else path"
  from d have s: "SLASH \<in> set ?q" "sub = tl (dropWhile (\<lambda>x. x \<noteq> SLASH) ?q)"
    by (auto simp: div_string_def Let_def split: if_splits)
  then have "dropWhile (\<lambda>x. x \<noteq> SLASH) ?q \<noteq> []" by (simp only: dropWhile_eq_Nil_conv) blast
  then have "length sub < length (dropWhile (\<lambda>x. x \<noteq> SLASH) ?q)" using s(2) by simp
  also have "\<dots> \<le> length ?q" by (rule length_dropWhile_le)
  also have "\<dots> \<le> length path" by (simp split: list.split)
  finally show ?thesis .
qed

section \<open>Looking up\<close>

definition entry_named :: "buf \<Rightarrow> byte list \<Rightarrow> nat option" where
  "entry_named c fname = List.find (\<lambda>i. (u_flag (get_dirent c i) = 1 \<or> u_flag (get_dirent c i) = 2) \<and> name_is c i fname)
     [0..<SLOTS]"

text \<open>The return code, the block the search ended in, and the number of the entry.\<close>

partial_function (option) find_dirent :: "ufs \<Rightarrow> byte list \<Rightarrow> buf \<Rightarrow> (int \<times> buf \<times> nat) option" where
  "find_dirent s fname content =
     (case entry_named content fname of
        Some i \<Rightarrow> Some (0, content, i)
      | None \<Rightarrow>
          if nNextBlock content \<noteq> - 1
          then (if fst (op_read_blk s (nNextBlock content) content) = - 1
                then Some (- 1, content, 0)
                else find_dirent s fname (snd (op_read_blk s (nNextBlock content) content)))
          else Some (- 1, content, 0))"

function open_walk :: "ufs \<Rightarrow> byte list \<Rightarrow> buf \<Rightarrow> u_fs_inode \<Rightarrow> (int \<times> u_fs_inode) option" where
  "open_walk s temp content inode =
     (case div_string temp of (fname, subpath) \<Rightarrow>
        (case find_dirent s fname content of
           None \<Rightarrow> None
         | Some (r, content', i) \<Rightarrow>
             if r = - 1 then Some (- 1, inode)
             else (case subpath of
                     None \<Rightarrow>
                       if 13 \<le> length fname then None
                       else Some (0, (get_dirent content' i)\<lparr>u_fname := strcpy_fname (u_fname inode) fname\<rparr>)
                   | Some sub \<Rightarrow>
                       (case op_read_blk s (sint (nStartBlock (get_dirent content' i))) content' of
                          (r', c) \<Rightarrow> if r' = - 1 then Some (- 1, inode) else open_walk s sub c inode))))"
  by pat_completeness auto
termination
  by (relation "measure (\<lambda>(s, temp, content, inode). length temp)") (auto dest: div_string_shorter [OF sym])

declare open_walk.simps [simp del]

text \<open>For \<open>"/"\<close> only \<open>flag\<close> and \<open>nStartBlock\<close> of the result are set. \<open>first_blk\<close> is at byte 8 of the super block.\<close>

definition op_open :: "heap \<Rightarrow> ufs \<Rightarrow> byte list \<Rightarrow> u_fs_inode \<Rightarrow> (int \<times> u_fs_inode) option" where
  "op_open h s path inode =
     (case op_read_blk s 0 (mem h At_open) of (r, content) \<Rightarrow>
        if r = - 1 then Some (- 1, inode)
        else let start_blk = ld64 content 8
             in if path = [SLASH] then Some (0, inode\<lparr>u_flag := 2, nStartBlock := start_blk\<rparr>)
                else (case op_read_blk s (sint start_blk) content of (r', content') \<Rightarrow>
                        if r' = - 1 then Some (- 1, inode) else open_walk s path content' inode))"

section \<open>Searches of a directory\<close>

text \<open>
  \<open>is_exist\<close> stops in a block at the first entry whose flag is 0. It reads the following blocks into the
  buffer of its caller.
\<close>

definition exists_in :: "buf \<Rightarrow> byte list \<Rightarrow> bool" where
  "exists_in c fname = (case List.find (\<lambda>i. u_flag (get_dirent c i) = 0 \<or> name_is c i fname) [0..<SLOTS] of
     None \<Rightarrow> False | Some i \<Rightarrow> u_flag (get_dirent c i) \<noteq> 0)"

partial_function (option) is_exist :: "ufs \<Rightarrow> byte list \<Rightarrow> buf \<Rightarrow> (int \<times> buf) option" where
  "is_exist s fname content =
     (if exists_in content fname then Some (1, content)
      else if nNextBlock content \<noteq> - 1
      then (if fst (op_read_blk s (nNextBlock content) content) = - 1 then Some (- 1, content)
            else is_exist s fname (snd (op_read_blk s (nNextBlock content) content)))
      else Some (0, content))"

text \<open>Where the loops that look for an entry to change end.\<close>

datatype place = Found int buf nat | At_end int buf | Read_failed

definition entry_in_use :: "buf \<Rightarrow> byte list \<Rightarrow> nat option" where
  "entry_in_use c fname = List.find (\<lambda>i. u_flag (get_dirent c i) \<noteq> 0 \<and> name_is c i fname) [0..<SLOTS]"

partial_function (option) modify_loop :: "ufs \<Rightarrow> byte list \<Rightarrow> int \<Rightarrow> buf \<Rightarrow> place option" where
  "modify_loop s fname start_blk content =
     (case entry_in_use content fname of
        Some i \<Rightarrow> Some (Found start_blk content i)
      | None \<Rightarrow>
          if nNextBlock content \<noteq> - 1
          then (if fst (op_read_blk s (nNextBlock content) content) = - 1 then Some Read_failed
                else modify_loop s fname (nNextBlock content) (snd (op_read_blk s (nNextBlock content) content)))
          else Some (At_end start_blk content))"

text \<open>An entry is free for a new name if it ends before the last bytes of the block.\<close>

definition free_slot :: "buf \<Rightarrow> nat option" where
  "free_slot c = (case List.find (\<lambda>i. u_flag (get_dirent c i) = 0) [0..<SLOTS] of
     None \<Rightarrow> None | Some i \<Rightarrow> if 40 * i + 40 < MAX_DATA_IN_BLOCK then Some i else None)"

partial_function (option) create_loop :: "ufs \<Rightarrow> int \<Rightarrow> buf \<Rightarrow> place option" where
  "create_loop s p_dir content =
     (case free_slot content of
        Some i \<Rightarrow> Some (Found p_dir content i)
      | None \<Rightarrow>
          if nNextBlock content \<noteq> - 1
          then (if fst (op_read_blk s (nNextBlock content) content) = - 1 then Some Read_failed
                else create_loop s (nNextBlock content) (snd (op_read_blk s (nNextBlock content) content)))
          else Some (At_end p_dir content))"

section \<open>Changing entries\<close>

text \<open>An entry that reaches behind the block cannot be written to.\<close>

definition op_modify_attr :: "heap \<Rightarrow> ufs \<Rightarrow> byte list \<Rightarrow> u_fs_inode \<Rightarrow> (int \<times> ufs) option" where
  "op_modify_attr h s path inode = do {
     (parent, fname) \<leftarrow> find_parent path;
     (r, f_inode) \<leftarrow> op_open h s parent (junk h);
     if r \<noteq> 0 then Some (- 2, s)
     else case op_read_blk s (sint (nStartBlock f_inode)) (mem h At_modify) of (r1, content) \<Rightarrow>
       if r1 = - 1 then Some (- 1, s)
       else do {
         place \<leftarrow> modify_loop s fname (sint (nStartBlock f_inode)) content;
         case place of
           Read_failed \<Rightarrow> Some (- 1, s)
         | At_end _ _ \<Rightarrow> Some (- 2, s)
         | Found start_blk content i \<Rightarrow>
             if 512 < slot i + 40 then None
             else Some (op_write_blk s start_blk (put_dirent content i ((get_dirent content i)\<lparr>
                    u_fsize := u_fsize inode, nStartBlock := nStartBlock inode, u_flag := u_flag inode\<rparr>)))
       }
   }"

text \<open>\<open>init_new_blk\<close> sets the first byte of the data; the others are what \<open>malloc\<close> gave.\<close>

definition init_new_blk :: "heap \<Rightarrow> ufs \<Rightarrow> int \<Rightarrow> int \<times> ufs" where
  "init_new_blk h s blk = op_write_blk s blk ((set_next (set_size (mem h At_init) 0) (- 1))(16 := 0))"

definition new_dirent :: "byte list \<Rightarrow> int \<Rightarrow> int \<Rightarrow> u_fs_inode \<Rightarrow> u_fs_inode" where
  "new_dirent fname flag blk e = e\<lparr>u_fname := strcpy_fname (u_fname e) fname, u_fsize := 0,
     nStartBlock := word_of_int blk, u_flag := word_of_int flag\<rparr>"

text \<open>The labels \<open>find\<close> and \<open>new\<close> of \<open>op_create\<close>.\<close>

definition create_in_slot :: "heap \<Rightarrow> ufs \<Rightarrow> byte list \<Rightarrow> int \<Rightarrow> int \<Rightarrow> buf \<Rightarrow> nat \<Rightarrow> (int \<times> ufs) option" where
  "create_in_slot h s fname flag p_dir content i = do {
     (n, temp, s1) \<leftarrow> op_search_free_blk s 1;
     if n < 1 then Some (- 1, s1)
     else case op_write_blk s1 p_dir (put_dirent content i (new_dirent fname flag temp (get_dirent content i))) of (r, s2) \<Rightarrow>
       if r = - 1 then Some (- 1, s2)
       else case init_new_blk h s2 temp of (r', s3) \<Rightarrow> Some (if r' = - 1 then - 1 else 0, s3)
   }"

definition create_in_new_block :: "heap \<Rightarrow> ufs \<Rightarrow> byte list \<Rightarrow> int \<Rightarrow> int \<Rightarrow> buf \<Rightarrow> (int \<times> ufs) option" where
  "create_in_new_block h s fname flag p_dir content = do {
     (n, new_blk, s1) \<leftarrow> op_search_free_blk s 1;
     if n < 1 then Some (- 1, s1)
     else case op_write_blk s1 p_dir (set_next content new_blk) of (r, s2) \<Rightarrow>
       if r = - 1 then Some (- 1, s2)
       else do {
         (n', t, s3) \<leftarrow> op_search_free_blk s2 1;
         if n' < 1 then Some (- 1, s3)
         else let new_block = set_next (mem h At_new) (- 1)
              in case op_write_blk s3 new_blk (put_dirent new_block 0 (new_dirent fname flag t (get_dirent new_block 0))) of (r', s4) \<Rightarrow>
                if r' = - 1 then Some (- 1, s4)
                else case init_new_blk h s4 t of (r'', s5) \<Rightarrow> Some (if r'' = - 1 then - 1 else 0, s5)
       }
   }"

definition op_create :: "heap \<Rightarrow> ufs \<Rightarrow> byte list \<Rightarrow> int \<Rightarrow> (int \<times> ufs) option" where
  "op_create h s path flag = do {
     (parent, fname) \<leftarrow> find_parent path;
     if 12 < length fname then Some (- 36, s)
     else do {
       (r, inode) \<leftarrow> op_open h s parent (junk h);
       if r \<noteq> 0 then Some (- 2, s)
       else let p_dir = sint (nStartBlock inode) in
         case op_read_blk s p_dir (mem h At_create) of (r1, content) \<Rightarrow>
           if r1 = - 1 then Some (- 1, s)
           else do {
             (ex, content') \<leftarrow> is_exist s fname content;
             if ex \<noteq> 0 then Some (- 17, s)
             else do {
               place \<leftarrow> create_loop s p_dir content';
               case place of
                 Read_failed \<Rightarrow> Some (- 1, s)
               | Found p content2 i \<Rightarrow> create_in_slot h s fname flag p content2 i
               | At_end p content2 \<Rightarrow> create_in_new_block h s fname flag p content2
             }
           }
     }
   }"

section \<open>Removing\<close>

partial_function (option) has_entries :: "ufs \<Rightarrow> buf \<Rightarrow> int option" where
  "has_entries s content =
     (if \<exists>i \<in> set [0..<SLOTS]. u_flag (get_dirent content i) = 1 \<or> u_flag (get_dirent content i) = 2 then Some 0
      else if nNextBlock content \<noteq> - 1
      then (if fst (op_read_blk s (nNextBlock content) content) = - 1 then Some (- 1)
            else has_entries s (snd (op_read_blk s (nNextBlock content) content)))
      else Some 1)"

definition is_empty_dir :: "heap \<Rightarrow> ufs \<Rightarrow> byte list \<Rightarrow> int option" where
  "is_empty_dir h s path = do {
     (r, inode) \<leftarrow> op_open h s path (junk h);
     if r \<noteq> 0 then Some (- 2)
     else if u_flag inode = 1 then Some (- 20)
     else case op_read_blk s (sint (nStartBlock inode)) (mem h At_empty) of (r1, content) \<Rightarrow>
       if r1 = - 1 then Some (- 1) else has_entries s content
   }"

partial_function (option) free_chain :: "heap \<Rightarrow> ufs \<Rightarrow> int \<Rightarrow> buf \<Rightarrow> (int \<times> ufs) option" where
  "free_chain h s next_blk content =
     (if next_blk = - 1 then Some (0, s)
      else case op_set_blk s next_blk 0 of
             None \<Rightarrow> None
           | Some (r, s1) \<Rightarrow>
               if r = - 1 then Some (- 1, s1)
               else if fst (op_read_blk s1 next_blk content) = - 1 then Some (- 1, s1)
               else if fst (init_new_blk h s1 next_blk) = - 1 then Some (- 1, snd (init_new_blk h s1 next_blk))
               else free_chain h (snd (init_new_blk h s1 next_blk)) (nNextBlock (snd (op_read_blk s1 next_blk content)))
                      (snd (op_read_blk s1 next_blk content)))"

definition op_rm :: "heap \<Rightarrow> ufs \<Rightarrow> byte list \<Rightarrow> int \<Rightarrow> (int \<times> ufs) option" where
  "op_rm h s path flag = do {
     (r, inode) \<leftarrow> op_open h s path (junk h);
     if r \<noteq> 0 then Some (- 2, s)
     else if flag = 1 \<and> u_flag inode = 2 then Some (- 21, s)
     else if flag = 2 \<and> u_flag inode = 1 then Some (- 20, s)
     else do {
       em \<leftarrow> (if flag = 1 then Some 1 else is_empty_dir h s path);
       if flag \<noteq> 1 \<and> em = 0 then Some (- 39, s)
       else do {
         (r1, s1) \<leftarrow> (if flag = 1 \<or> flag = 2 then free_chain h s (sint (nStartBlock inode)) (mem h At_rm) else Some (0, s));
         if r1 = - 1 then Some (- 1, s1)
         else do {
           (r2, s2) \<leftarrow> op_modify_attr h s1 path (inode\<lparr>u_flag := 0, nStartBlock := - 1, u_fsize := 0\<rparr>);
           Some (if r2 \<noteq> 0 then - 1 else 0, s2)
         }
       }
     }
   }"

end
