(* ===== verification/UfsFuse.thy ===== *)
theory UfsFuse
  imports UfsOps
begin

text \<open>
  The callbacks of \<open>ufs.c\<close> over the operations of \<open>op.c\<close>, and the formatting program \<open>init.c\<close>. Sizes and offsets
  that the code keeps in \<open>int\<close> variables are below \<open>2^31\<close>.
\<close>

section \<open>Formatting\<close>

text \<open>\<open>main\<close> of \<open>init.c\<close>: of the root block only the first byte of the data is set, \<open>root\<close> is what \<open>malloc\<close> gave.\<close>

definition init_main :: "buf \<Rightarrow> ufs \<Rightarrow> int \<times> ufs" where
  "init_main root s =
     (let s1 = write_image 0 (le_bytes 8 (of_nat (image_len s div 512) :: 64 word)
                 @ le_bytes 8 (8 :: 64 word) @ le_bytes 8 (7 :: 64 word)) s;
          s2 = write_image 512 [0xFF] s1;
          s3 = write_image 513 (replicate 511 0) s2;
          s4 = write_image 1024 (replicate (6 * 512) 0) s3;
          s5 = write_image 4096 (load_bytes ((set_next (set_size root 0) (- 1))(16 := 0)) 0 512) s4
      in (0, s5))"

definition u_fs_init :: "ufs \<Rightarrow> ufs" where
  "u_fs_init s = s\<lparr>max_filesystem_in_block := sint (ld64 (image s) 0)\<rparr>"

section \<open>Attributes and directories\<close>

text \<open>The mode and the size that \<open>stbuf\<close> gets.\<close>

definition u_fs_getattr :: "heap \<Rightarrow> ufs \<Rightarrow> byte list \<Rightarrow> (int \<times> 32 word \<times> 64 word) option" where
  "u_fs_getattr h s path = do {
     (r, inode) \<leftarrow> op_open h s path (junk h);
     if r \<noteq> 0 then Some (- 2, 0, 0)
     else if u_flag inode = 2 then Some (0, 0x4000 OR 0x1B6, 0)
     else if u_flag inode = 1 then Some (0, 0x8000 OR 0x1B6, u_fsize inode)
     else Some (0, 0, 0)
   }"

text \<open>
  The names \<open>filler\<close> gets; \<open>full\<close> says, from the number of names it has, whether it refuses the next. Every name is
  copied to an array of 13 characters first.
\<close>

definition readdir_block :: "(nat \<Rightarrow> bool) \<Rightarrow> buf \<Rightarrow> byte list list \<Rightarrow> byte list list option" where
  "readdir_block full content names = after_loop
     (for_loop 0 SLOTS (\<lambda>i names.
        let f = u_fname (get_dirent content i); name = takeWhile (\<lambda>c. c \<noteq> 0) f
        in if 0 \<notin> set f then None
           else Some (if u_flag (get_dirent content i) = 1 \<or> u_flag (get_dirent content i) = 2
                      then (if full (length names) then Break names else Next (names @ [name]))
                      else Next names)) names)
     Some"

partial_function (option) readdir_loop ::
  "ufs \<Rightarrow> (nat \<Rightarrow> bool) \<Rightarrow> buf \<Rightarrow> byte list list \<Rightarrow> (int \<times> byte list list) option" where
  "readdir_loop s full content names =
     (case readdir_block full content names of
        None \<Rightarrow> None
      | Some names' \<Rightarrow>
          if nNextBlock content \<noteq> - 1
          then (if fst (op_read_blk s (nNextBlock content) content) = - 1 then Some (- 1, names')
                else readdir_loop s full (snd (op_read_blk s (nNextBlock content) content)) names')
          else Some (0, names'))"

definition u_fs_readdir :: "heap \<Rightarrow> ufs \<Rightarrow> (nat \<Rightarrow> bool) \<Rightarrow> byte list \<Rightarrow> (int \<times> byte list list) option" where
  "u_fs_readdir h s full path = do {
     (r, inode) \<leftarrow> op_open h s path (junk h);
     if r \<noteq> 0 then Some (- 2, [])
     else if u_flag inode = 1 then Some (- 20, [])
     else case op_read_blk s (sint (nStartBlock inode)) (mem h At_readdir) of (r1, content) \<Rightarrow>
       if r1 = - 1 then Some (- 1, [])
       else readdir_loop s full content ((if full 0 then [] else [[46]]) @ (if full 1 then [] else [[46, 46]]))
   }"

definition u_fs_open :: "heap \<Rightarrow> ufs \<Rightarrow> byte list \<Rightarrow> int option" where
  "u_fs_open h s path = map_option (\<lambda>(r, _). if r \<noteq> 0 then - 2 else 0) (op_open h s path (junk h))"

definition u_fs_mkdir :: "heap \<Rightarrow> ufs \<Rightarrow> byte list \<Rightarrow> (int \<times> ufs) option" where
  "u_fs_mkdir h s path = op_create h s path 2"

definition u_fs_rmdir :: "heap \<Rightarrow> ufs \<Rightarrow> byte list \<Rightarrow> (int \<times> ufs) option" where
  "u_fs_rmdir h s path = op_rm h s path 2"

definition u_fs_mknod :: "heap \<Rightarrow> ufs \<Rightarrow> byte list \<Rightarrow> (int \<times> ufs) option" where
  "u_fs_mknod h s path = op_create h s path 1"

definition u_fs_unlink :: "heap \<Rightarrow> ufs \<Rightarrow> byte list \<Rightarrow> (int \<times> ufs) option" where
  "u_fs_unlink h s path = op_rm h s path 1"

section \<open>Reading\<close>

text \<open>Walking \<open>n\<close> blocks along a chain.\<close>

definition skip_blocks :: "ufs \<Rightarrow> nat \<Rightarrow> int \<Rightarrow> buf \<Rightarrow> (int \<times> int \<times> buf) option" where
  "skip_blocks s n start_blk content = after_loop
     (for_loop 0 n (\<lambda>i (start_blk, content).
        case op_read_blk s start_blk content of (r, content') \<Rightarrow>
          Some (if r = - 1 then Return (- 1, start_blk, content') else Next (nNextBlock content', content')))
        (start_blk, content))
     (\<lambda>(start_blk, content). case op_read_blk s start_blk content of (r, content') \<Rightarrow> Some (r, start_blk, content'))"

text \<open>The loop for what lies behind the first block; \<open>out\<close> is what \<open>buf\<close> holds.\<close>

function read_rest :: "ufs \<Rightarrow> buf \<Rightarrow> nat \<Rightarrow> byte list \<Rightarrow> int \<times> byte list" where
  "read_rest s content temp out =
     (if temp = 0 then (0, out)
      else case op_read_blk s (nNextBlock content) content of (r, content') \<Rightarrow>
        if r = - 1 then (- 1, out)
        else if MAX_DATA_IN_BLOCK < temp
        then read_rest s content' (temp - MAX_DATA_IN_BLOCK) (out @ load_bytes content' 16 MAX_DATA_IN_BLOCK)
        else (0, out @ load_bytes content' 16 temp))"
  by pat_completeness auto
termination
  by (relation "measure (\<lambda>(s, content, temp, out). temp)") (auto simp: MAX_DATA_IN_BLOCK_def)

declare read_rest.simps [simp del]

definition u_fs_read :: "heap \<Rightarrow> ufs \<Rightarrow> byte list \<Rightarrow> nat \<Rightarrow> nat \<Rightarrow> (int \<times> byte list) option" where
  "u_fs_read h s path size0 offset = do {
     (r, inode) \<leftarrow> op_open h s path (junk h);
     if r \<noteq> 0 then Some (- 2, [])
     else if u_flag inode = 2 then Some (- 21, [])
     else if unat (u_fsize inode) \<le> offset then Some (0, [])
     else if 2 ^ 31 \<le> size0 \<or> 2 ^ 31 \<le> offset then None
     else do {
       let sz = (if unat (u_fsize inode) < offset + size0 then unat (u_fsize inode) - offset else size0);
       (r1, start_blk, content) \<leftarrow> skip_blocks s (offset div MAX_DATA_IN_BLOCK) (sint (nStartBlock inode)) (mem h At_read);
       if r1 = - 1 then Some (- 1, [])
       else let real_offset = offset mod MAX_DATA_IN_BLOCK;
                ret = min (MAX_DATA_IN_BLOCK - real_offset) sz
            in case read_rest s content (sz - ret) (load_bytes content (16 + real_offset) ret) of
                 (r2, out) \<Rightarrow> Some (if r2 = - 1 then - 1 else int sz, out)
     }
   }"

section \<open>Writing\<close>

text \<open>
  The loops of \<open>find_offset_to_write\<close> that lengthen a file: each of the \<open>real_num\<close> blocks is linked behind the
  last one, and \<open>offset\<close> is lowered by a block for each. Their result is the code, the offset, the last block,
  its contents and the image.
\<close>

type_synonym write_place = "int \<times> int \<times> int \<times> buf \<times> ufs"

definition link_blocks :: "nat \<Rightarrow> int \<Rightarrow> write_place \<Rightarrow> (int \<times> write_place) option" where
  "link_blocks real_num s_num p = after_loop
     (for_loop 0 real_num (\<lambda>j (s_num, (r, offset, start_blk, content, s)).
        let content1 = set_size (set_next content s_num) MAX_DATA_IN_BLOCK
        in case op_write_blk s start_blk content1 of (r1, s1) \<Rightarrow>
             if r1 = - 1 then Some (Return (s_num, (- 1, offset, start_blk, content1, s1)))
             else case op_read_blk s1 s_num content1 of (r2, content2) \<Rightarrow>
               Some (if r2 = - 1 then Return (s_num, (- 1, offset, start_blk, content2, s1))
                     else Next (s_num + 1, (0, offset - int MAX_DATA_IN_BLOCK, s_num, content2, s1)))) (s_num, p))
     Some"

partial_function (option) lengthen :: "int \<Rightarrow> write_place \<Rightarrow> write_place option" where
  "lengthen need_num p =
     (case p of (r, offset, start_blk, content, s) \<Rightarrow>
        (case op_search_free_blk s (to_int need_num) of
           None \<Rightarrow> None
         | Some (real_num, s_num, s1) \<Rightarrow>
             if real_num < 1 then Some (- 1, offset, start_blk, content, s1)
             else (case link_blocks (nat real_num) s_num (r, offset, start_blk, content, s1) of
                     None \<Rightarrow> None
                   | Some (_, p') \<Rightarrow>
                       if fst p' = - 1 then Some p'
                       else if need_num - real_num = 0 then Some p'
                       else lengthen (need_num - real_num) p')))"

definition find_offset_to_write :: "ufs \<Rightarrow> u_fs_inode \<Rightarrow> int \<Rightarrow> buf \<Rightarrow> write_place option" where
  "find_offset_to_write s inode offset content =
     (if offset \<le> uint (u_fsize inode)
      then do {
        (r, start_blk, content') \<leftarrow> skip_blocks s (nat offset div MAX_DATA_IN_BLOCK) (sint (nStartBlock inode)) content;
        Some (r, offset mod int MAX_DATA_IN_BLOCK, start_blk, content', s)
      }
      else do {
        let blk_num = unat (u_fsize inode) div MAX_DATA_IN_BLOCK;
        (r, start_blk, content') \<leftarrow> skip_blocks s blk_num (sint (nStartBlock inode)) content;
        if r = - 1 then Some (- 1, offset, start_blk, content', s)
        else let offset' = offset - int ((blk_num + 1) * MAX_DATA_IN_BLOCK);
                 need_num = sint ((word_of_int offset' - u_fsize inode) div of_nat MAX_DATA_IN_BLOCK + 1 :: 64 word)
             in lengthen need_num (0, offset', start_blk, content', s)
      })"

text \<open>The characters that do not fit the first block: \<open>num\<close> blocks at a time, each pointing to the next number.\<close>

definition fill_blocks :: "nat \<Rightarrow> int \<times> byte list \<times> buf \<times> ufs \<Rightarrow> (int \<times> int \<times> byte list \<times> buf \<times> ufs) option" where
  "fill_blocks num st = after_loop
     (for_loop 0 num (\<lambda>i (next_b, rest, content, s).
        let ret = min MAX_DATA_IN_BLOCK (length rest);
            content1 = store_bytes (set_size content ret) 16 (take ret rest);
            rest' = drop ret rest;
            content2 = set_next content1 (if rest' = [] then - 1 else next_b + 1)
        in case op_write_blk s next_b content2 of (r, s1) \<Rightarrow>
             Some (if r = - 1 then Return (- 1, next_b, rest', content2, s1) else Next (next_b + 1, rest', content2, s1))) st)
     (\<lambda>st. Some (0, st))"

partial_function (option) write_rest :: "nat \<Rightarrow> int \<times> byte list \<times> buf \<times> ufs \<Rightarrow> (int \<times> ufs) option" where
  "write_rest num st =
     (case fill_blocks num st of
        None \<Rightarrow> None
      | Some (r, next_b, rest, content, s) \<Rightarrow>
          if r = - 1 then Some (- 1, s)
          else if rest = [] then Some (0, s)
          else (case op_search_free_blk s (to_int (int (length rest div MAX_DATA_IN_BLOCK + 1))) of
                  None \<Rightarrow> None
                | Some (num', next_b', s') \<Rightarrow>
                    if num' < 1 then Some (- 1, s') else write_rest (nat num') (next_b', rest, content, s')))"

text \<open>When the text ends in the block, the chain is cut behind it and its blocks are freed.\<close>

partial_function (option) free_rest :: "int \<Rightarrow> buf \<Rightarrow> ufs \<Rightarrow> (int \<times> ufs) option" where
  "free_rest next_blk content s =
     (if next_blk = - 1 then Some (0, s)
      else case op_set_blk s next_blk 0 of
             None \<Rightarrow> None
           | Some (r, s1) \<Rightarrow>
               if r = - 1 then Some (- 1, s1)
               else if fst (op_read_blk s1 next_blk content) = - 1 then Some (- 1, s1)
               else free_rest (nNextBlock (snd (op_read_blk s1 next_blk content))) (snd (op_read_blk s1 next_blk content)) s1)"

text \<open>Copying to an offset outside the 496 bytes of data is undefined.\<close>

definition u_fs_write :: "heap \<Rightarrow> ufs \<Rightarrow> byte list \<Rightarrow> byte list \<Rightarrow> nat \<Rightarrow> (int \<times> ufs) option" where
  "u_fs_write h s path text0 org_offset = do {
     (r, inode) \<leftarrow> op_open h s path (junk h);
     if r \<noteq> 0 then Some (- 2, s)
     else if 2 ^ 31 \<le> length text0 + org_offset then None
     else do {
       (r1, offset, start_blk, content, s1) \<leftarrow> find_offset_to_write s inode (int org_offset) (mem h At_write);
       if r1 = - 1 then Some (- 1, s1)
       else if offset < 0 \<or> int MAX_DATA_IN_BLOCK < offset then None
       else do {
         let ret = min (MAX_DATA_IN_BLOCK - nat offset) (length text0);
         let content1 = store_bytes content (16 + nat offset) (take ret text0);
         let content2 = st64 content1 0 (blk_size content1 + of_nat ret);
         let rest = drop ret text0;
         (r2, s2) \<leftarrow>
           (if rest \<noteq> []
            then do {
              (num, next_b, s2) \<leftarrow> op_search_free_blk s1 (to_int (int (length rest div MAX_DATA_IN_BLOCK + 1)));
              if num < 1 then Some (- 1, s2)
              else let content3 = set_next content2 next_b
                   in case op_write_blk s2 start_blk content3 of (r', s3) \<Rightarrow>
                        if r' = - 1 then Some (- 1, s3) else write_rest (nat num) (next_b, rest, content3, s3)
            }
            else let content3 = set_next content2 (- 1)
                 in case op_write_blk s1 start_blk content3 of (r', s3) \<Rightarrow>
                      if r' = - 1 then Some (- 1, s3) else free_rest (nNextBlock content2) content3 s3);
         if r2 = - 1 then Some (- 1, s2)
         else if unat (u_fsize inode) < org_offset + length text0
         then do {
           (r3, s3) \<leftarrow> op_modify_attr h s2 path (inode\<lparr>u_fsize := of_nat (org_offset + length text0)\<rparr>);
           Some (if r3 \<noteq> 0 then - 1 else int (length text0), s3)
         }
         else Some (int (length text0), s2)
       }
     }
   }"

end
