(* ===== verification/UfsFacts.thy ===== *)
theory UfsFacts
  imports UfsFuse
begin

text \<open>
  Facts about the image of the UFS: single bits of the bitmap behind the four-byte accesses, the search for a
  free block, blocks read and written, and looking up a name in the root directory.
\<close>

section \<open>Bits of bytes and of integers\<close>

lemma bit_le_word_iff:
  "bit (le_word bs :: 'a::len word) n \<longleftrightarrow> n < LENGTH('a) \<and> n div 8 < length bs \<and> bit (bs ! (n div 8)) (n mod 8)"
proof (induction bs arbitrary: n)
  case (Cons b bs)
  show ?case
  proof (cases "n < 8")
    case True
    then have "bit (push_bit 8 (le_word bs) :: 'a word) n = False" by (simp add: bit_simps)
    with True show ?thesis by (auto simp: bit_simps)
  next
    case False
    then obtain m where m: "n = m + 8" by (metis add.commute le_add_diff_inverse not_less)
    have "\<not> bit b (m + 8)" using m False bit_imp_le_length [of b n] by auto
    moreover have "(m + 8) div 8 = Suc (m div 8)" "(m + 8) mod 8 = m mod 8" by simp_all
    ultimately show ?thesis using Cons.IH [of m] by (auto simp: m bit_simps)
  qed
qed simp

lemma bit_ld32: "bit (ld32 c off) n \<longleftrightarrow> n < 32 \<and> bit (c (off + n div 8)) (n mod 8)"
  by (auto simp: ld32_def bit_le_word_iff)

lemma bit_le_bytes: "i < n \<Longrightarrow> k < 8 \<Longrightarrow> bit (le_bytes n (w :: 'a::len word) ! i) k \<longleftrightarrow> bit w (8 * i + k)"
proof (induction n arbitrary: i w)
  case (Suc n)
  show ?case
  proof (cases i)
    case 0
    with Suc.prems show ?thesis by (auto simp: bit_simps dest: bit_imp_le_length)
  next
    case (Suc j)
    with Suc.prems Suc.IH [of j "drop_bit 8 w"] show ?thesis by (auto simp: bit_simps add.assoc dest: bit_imp_le_length)
  qed
qed simp

section \<open>The bitmap\<close>

text \<open>Block \<open>b\<close> is marked as used.\<close>

definition block_used :: "ufs \<Rightarrow> nat \<Rightarrow> bool" where
  "block_used s b \<longleftrightarrow> bit (image s (512 + b div 8)) (b mod 8)"

text \<open>Two images that agree but for the byte of the bitmap that has block \<open>b\<close>.\<close>

definition marked :: "ufs \<Rightarrow> nat \<Rightarrow> bool \<Rightarrow> ufs \<Rightarrow> bool" where
  "marked s b v s' \<longleftrightarrow> image_len s' = image_len s \<and> max_filesystem_in_block s' = max_filesystem_in_block s
     \<and> (\<forall>a < image_len s. a \<noteq> 512 + b div 8 \<longrightarrow> image s' a = image s a)
     \<and> (\<forall>k. 512 + k div 8 < image_len s \<longrightarrow> block_used s' k = (if k = b then v else block_used s k))"

lemma op_set_blk_spec:
  assumes "516 + b div 8 \<le> image_len s"
  shows "\<exists>s'. op_set_blk s (int b) flag = Some (0, s') \<and> marked s b (flag \<noteq> 0) s'"
proof -
  let ?m = "push_bit (b mod 8) 1 :: 32 word" and ?t = "ld32 (image s) (512 + b div 8)"
  define f where "f = (if flag \<noteq> 0 then ?t OR ?m else ?t AND NOT ?m)"
  let ?s = "write_image (512 + b div 8) (le_bytes 4 f) s"
  have run: "op_set_blk s (int b) flag = Some (0, ?s)"
    using assms by (simp add: op_set_blk_def read_int_def Let_def f_def)
  have bitm: "bit ?m n \<longleftrightarrow> n = b mod 8" for n
    using mod_less_divisor [of 8 b] by (auto simp: bit_simps)
  have bitf: "bit f n \<longleftrightarrow> (if n = b mod 8 then flag \<noteq> 0 else bit ?t n)" if "n < 32" for n
    using that bitm by (auto simp: f_def bit_simps)
  have bits: "bit (image ?s a) k \<longleftrightarrow> (if a = 512 + b div 8 \<and> k = b mod 8 then flag \<noteq> 0 else bit (image s a) k)"
    if a: "a < image_len s" and k: "k < 8" for a k
  proof (cases "512 + b div 8 \<le> a \<and> a < 516 + b div 8")
    case True
    define i where "i = a - (512 + b div 8)"
    have i: "a = 512 + b div 8 + i" "i < 4" using True by (auto simp: i_def)
    have "image ?s a = le_bytes 4 f ! i" using i by (simp add: write_image_def store_bytes_def)
    then have "bit (image ?s a) k \<longleftrightarrow> bit f (8 * i + k)" using i(2) k by (simp add: bit_le_bytes)
    also have "\<dots> \<longleftrightarrow> (if 8 * i + k = b mod 8 then flag \<noteq> 0 else bit ?t (8 * i + k))" by (rule bitf) (use i k in simp)
    also have "bit ?t (8 * i + k) \<longleftrightarrow> bit (image s a) k" using i k by (simp add: bit_ld32 add.assoc)
    also have "8 * i + k = b mod 8 \<longleftrightarrow> a = 512 + b div 8 \<and> k = b mod 8"
      using i k mod_less_divisor [of 8 b] by (cases i) auto
    finally show ?thesis .
  next
    case False
    then have "image ?s a = image s a" using a by (auto simp: write_image_def store_bytes_def)
    with False show ?thesis by auto
  qed
  have "image ?s a = image s a" if "a < image_len s" "a \<noteq> 512 + b div 8" for a
    by (rule bit_word_eqI) (use bits [OF that(1)] that(2) in auto)
  moreover have "block_used ?s k = (if k = b then flag \<noteq> 0 else block_used s k)" if "512 + k div 8 < image_len s" for k
  proof -
    have "block_used ?s k \<longleftrightarrow> (if 512 + k div 8 = 512 + b div 8 \<and> k mod 8 = b mod 8 then flag \<noteq> 0 else block_used s k)"
      unfolding block_used_def by (rule bits [OF that]) simp
    moreover have "512 + k div 8 = 512 + b div 8 \<and> k mod 8 = b mod 8 \<longleftrightarrow> k = b"
      by (metis add_left_cancel div_mult_mod_eq)
    ultimately show ?thesis by simp
  qed
  moreover have "image_len ?s = image_len s" "max_filesystem_in_block ?s = max_filesystem_in_block s"
    using assms by (simp_all add: write_image_def)
  ultimately show ?thesis using run by (auto simp: marked_def)
qed

section \<open>Searching for one free block\<close>

text \<open>The bitmap lies within the image.\<close>

definition bitmap_inside :: "ufs \<Rightarrow> bool" where
  "bitmap_inside s \<longleftrightarrow> (\<forall>b. int b < max_filesystem_in_block s - 1 \<longrightarrow> 516 + b div 8 \<le> image_len s)"

text \<open>The block \<open>b\<close> is the first free one behind the root block.\<close>

definition first_free :: "ufs \<Rightarrow> nat \<Rightarrow> bool" where
  "first_free s b \<longleftrightarrow> bitmap_inside s \<and> 9 \<le> b \<and> int b < max_filesystem_in_block s - 1 \<and> \<not> block_used s b
     \<and> (\<forall>k. 9 \<le> k \<longrightarrow> k < b \<longrightarrow> block_used s k)"

lemma count_free_one:
  "count_free s 1 at (ld32 (image s) (512 + b div 8)) (push_bit (b mod 8) 1) = Some (if block_used s b then 0 else 1)"
proof -
  let ?m = "push_bit (b mod 8) 1 :: 32 word" and ?t = "ld32 (image s) (512 + b div 8)"
  have l: "b mod 8 < 8" by simp
  have bitm: "bit ?m n \<longleftrightarrow> n = b mod 8" for n using l by (auto simp: bit_simps)
  have "?t AND ?m = ?m \<longleftrightarrow> bit ?t (b mod 8)"
  proof
    assume "?t AND ?m = ?m"
    then have "bit (?t AND ?m) (b mod 8) = bit ?m (b mod 8)" by simp
    then show "bit ?t (b mod 8)" using bitm by (simp add: bit_and_iff)
  next
    assume "bit ?t (b mod 8)"
    then show "?t AND ?m = ?m" by (intro bit_word_eqI) (use bitm in \<open>auto simp: bit_and_iff\<close>)
  qed
  also have "\<dots> \<longleftrightarrow> block_used s b"
  proof -
    have "b mod 8 < 32" using l by linarith
    with l show ?thesis by (simp add: bit_ld32 block_used_def)
  qed
  finally have u: "?t AND ?m = ?m \<longleftrightarrow> block_used s b" .
  have "?m AND 0x80000000 \<noteq> 0x80000000"
  proof
    assume "?m AND 0x80000000 = 0x80000000"
    then have "bit (?m AND 0x80000000) 31" by (simp only:) simp
    then have "b mod 8 = 31" using bitm [of 31] by (simp add: bit_simps)
    with l show False by simp
  qed
  with u show ?thesis by (simp add: count_free_def for_loop_step)
qed

lemma search_runs_first:
  assumes "bitmap_inside s" and "int b < max_filesystem_in_block s - 1" and "\<not> block_used s b"
    and "start \<le> b" and "\<And>k. start \<le> k \<Longrightarrow> k < b \<Longrightarrow> block_used s k"
  shows "search_runs s 1 start (0, - 1) = Some (1, int b)"
  using assms(4,5)
proof (induction "b - start" arbitrary: start)
  case 0
  then have "start = b" by simp
  moreover have "516 + b div 8 \<le> image_len s" using assms(1,2) by (simp add: bitmap_inside_def)
  ultimately show ?case
    using assms(2,3) count_free_one [of s "516 + b div 8" b] by (simp add: search_runs.simps read_int_def)
next
  case (Suc x)
  then have st: "start < b" "x = b - Suc start" "Suc start \<le> b" by auto
  have "search_runs s 1 (Suc start) (0, - 1) = Some (1, int b)"
    by (rule Suc.hyps(1) [OF st(2,3)]) (use Suc.prems in auto)
  moreover have "block_used s start" using Suc.prems(2) [of start] st(1) by simp
  moreover have "int start < max_filesystem_in_block s - 1" using st(1) assms(2) by simp
  moreover from this have "516 + start div 8 \<le> image_len s" using assms(1) by (simp add: bitmap_inside_def)
  ultimately show ?case
    using count_free_one [of s "516 + start div 8" start] by (simp add: search_runs.simps [of s "Suc 0" start] read_int_def)
qed

lemma search_one:
  assumes "first_free s b"
  shows "\<exists>s'. op_search_free_blk s 1 = Some (1, int b, s') \<and> marked s b True s'"
proof -
  from assms have f: "bitmap_inside s" "int b < max_filesystem_in_block s - 1" "\<not> block_used s b" "9 \<le> b"
    "\<And>k. 9 \<le> k \<Longrightarrow> k < b \<Longrightarrow> block_used s k" by (auto simp: first_free_def)
  then have "516 + b div 8 \<le> image_len s" by (simp add: bitmap_inside_def)
  from op_set_blk_spec [OF this, of 1] obtain s' where s': "op_set_blk s (int b) 1 = Some (0, s')" "marked s b True s'" by auto
  have "search_runs s 1 9 (0, - 1) = Some (1, int b)" by (rule search_runs_first [OF f(1-5)])
  with s' show ?thesis by (auto simp: op_search_free_blk_def for_loop_step)
qed

section \<open>Blocks of the image\<close>

definition blk_at :: "ufs \<Rightarrow> nat \<Rightarrow> buf" where
  "blk_at s n = (\<lambda>a. image s (512 * n + a))"

text \<open>A buffer into which a block was read, with what lies behind it.\<close>

definition over :: "buf \<Rightarrow> buf \<Rightarrow> buf" where
  "over b c = (\<lambda>i. if i < 512 then b i else c i)"

definition inside :: "ufs \<Rightarrow> nat \<Rightarrow> bool" where
  "inside s n \<longleftrightarrow> 512 * n + 512 \<le> image_len s"

lemma read_blk [simp]: "inside s n \<Longrightarrow> op_read_blk s (int n) content = (0, over (blk_at s n) content)"
  by (auto simp: op_read_blk_def inside_def blk_at_def over_def)

lemma load_over: "off + n \<le> 512 \<Longrightarrow> load_bytes (over b c) off n = load_bytes b off n"
  by (rule load_cong) (simp add: over_def)

lemma next_over [simp]: "nNextBlock (over b c) = nNextBlock b"
  by (simp add: nNextBlock_def ld64_def load_over)

lemma dirent_cong:
  assumes "\<And>a. a < 512 \<Longrightarrow> b a = c a" and "i < 12"
  shows "get_dirent b i = get_dirent c i"
proof -
  have "load_bytes b (slot i + k) n = load_bytes c (slot i + k) n" if "k + n \<le> 36" for k n
    by (rule load_cong) (use assms that in \<open>auto simp: slot_def\<close>)
  from this [of 0 13] this [of 16 8] this [of 24 8] this [of 32 4] show ?thesis
    by (simp add: get_dirent_def ld64_def ld32_def)
qed

lemma dirent_over [simp]: "i < 12 \<Longrightarrow> get_dirent (over b c) i = get_dirent b i"
  by (rule dirent_cong) (simp_all add: over_def)

text \<open>An entry has a name.\<close>

definition named_as :: "u_fs_inode \<Rightarrow> byte list \<Rightarrow> bool" where
  "named_as e w \<longleftrightarrow> take (length w + 1) (u_fname e) = w @ [0]"

lemma name_is_entry: "length w \<le> 12 \<Longrightarrow> name_is c i w \<longleftrightarrow> named_as (get_dirent c i) w"
proof -
  assume "length w \<le> 12"
  then have "take (length w + 1) (load_bytes c (slot i) 13) = load_bytes c (slot i) (length w + 1)"
    by (simp add: load_bytes_def take_map)
  then show ?thesis by (simp add: name_is_def named_as_def get_dirent_def)
qed

lemma write_blk_image:
  assumes "op_write_blk s (int n) c = (r, s')"
  shows "r = 0" and "512 * n + 512 \<le> image_len s'" and "image_len s \<le> image_len s'"
    and "max_filesystem_in_block s' = max_filesystem_in_block s"
    and "a < 512 \<Longrightarrow> blk_at s' n a = c a"
    and "a < image_len s \<Longrightarrow> a < 512 * n \<or> 512 * n + 512 \<le> a \<Longrightarrow> image s' a = image s a"
  using assms by (auto simp: op_write_blk_def write_image_def blk_at_def store_bytes_def)

lemma write_blk_int: "\<exists>s'. op_write_blk s (int n) c = (0, s')"
  by (simp add: op_write_blk_def)

section \<open>The root directory\<close>

abbreviation root :: "ufs \<Rightarrow> buf" where "root s \<equiv> blk_at s 8"

definition root_ok :: "ufs \<Rightarrow> bool" where
  "root_ok s \<longleftrightarrow> ld64 (image s) 8 = 8 \<and> 4608 \<le> image_len s"

text \<open>The first entry of the root directory for a name.\<close>

definition in_use :: "u_fs_inode \<Rightarrow> bool" where
  "in_use e \<longleftrightarrow> u_flag e = 1 \<or> u_flag e = 2"

definition root_entry :: "ufs \<Rightarrow> nat \<Rightarrow> byte list \<Rightarrow> bool" where
  "root_entry s i name \<longleftrightarrow> i < 12 \<and> in_use (get_dirent (root s) i) \<and> named_as (get_dirent (root s) i) name
     \<and> (\<forall>j < i. \<not> named_as (get_dirent (root s) j) name)"

text \<open>A name of at most 12 characters without a slash.\<close>

definition ufs_name :: "byte list \<Rightarrow> bool" where
  "ufs_name w \<longleftrightarrow> w \<noteq> [] \<and> length w \<le> 12 \<and> 0 \<notin> set w \<and> SLASH \<notin> set w"

lemma root_inside [simp]: "root_ok s \<Longrightarrow> inside s 8" "root_ok s \<Longrightarrow> inside s 0"
  by (simp_all add: root_ok_def inside_def)

lemma read_root:
  assumes "root_ok s"
  shows "op_read_blk s 8 content = (0, over (root s) content)" and "op_read_blk s 0 content = (0, over (blk_at s 0) content)"
  using read_blk [OF root_inside(1) [OF assms]] read_blk [OF root_inside(2) [OF assms]] by simp_all

lemma first_blk:
  assumes "root_ok s"
  shows "ld64 (over (blk_at s 0) content) 8 = 8"
proof -
  have "load_bytes (blk_at s 0) 8 8 = load_bytes (image s) 8 8" by (rule load_cong) (simp add: blk_at_def)
  with assms show ?thesis by (simp add: root_ok_def ld64_def load_over)
qed

lemma open_root:
  assumes "root_ok s"
  shows "op_open h s [SLASH] inode = Some (0, inode\<lparr>u_flag := 2, nStartBlock := 8\<rparr>)"
  using assms by (simp add: op_open_def read_root first_blk Let_def)

lemma div_name: "ufs_name w \<Longrightarrow> div_string (SLASH # w) = (w, None)"
  by (auto simp: div_string_def ufs_name_def takeWhile_eq_all_conv)

lemma parent_name: "ufs_name w \<Longrightarrow> find_parent (SLASH # w) = Some ([SLASH], w)"
  by (simp add: find_parent_def ufs_name_def)

lemma find_slot:
  assumes "i < 12" and "P i" and "\<And>j. j < i \<Longrightarrow> \<not> P j"
  shows "List.find P [0..<SLOTS] = Some i"
  by (rule find_upt_least) (use assms in \<open>simp_all add: SLOTS_def\<close>)

lemma open_root_entry:
  assumes ok: "root_ok s" and e: "root_entry s i name" and n: "ufs_name name"
  shows "op_open h s (SLASH # name) inode =
    Some (0, (get_dirent (root s) i)\<lparr>u_fname := strcpy_fname (u_fname inode) name\<rparr>)"
proof -
  let ?c = "over (root s) (over (blk_at s 0) (mem h At_open))"
  have len: "length name \<le> 12" using n by (simp add: ufs_name_def)
  have i: "i < 12" using e by (simp add: root_entry_def)
  have "entry_named ?c name = Some i"
    unfolding entry_named_def
    by (rule find_slot) (use e len i in \<open>auto simp: root_entry_def name_is_entry in_use_def\<close>)
  then have "find_dirent s name ?c = Some (0, ?c, i)" by (simp add: find_dirent.simps)
  then have "open_walk s (SLASH # name) ?c inode =
      Some (0, (get_dirent (root s) i)\<lparr>u_fname := strcpy_fname (u_fname inode) name\<rparr>)"
    using len i by (simp add: open_walk.simps div_name [OF n])
  with ok n show ?thesis by (simp add: op_open_def read_root first_blk Let_def ufs_name_def)
qed

section \<open>Creating in the root directory\<close>

text \<open>The root directory has room in entry \<open>i\<close> of its first block, and the name is not in an entry before.\<close>

definition room_at :: "buf \<Rightarrow> nat \<Rightarrow> byte list \<Rightarrow> bool" where
  "room_at b i name \<longleftrightarrow> i < 12 \<and> u_flag (get_dirent b i) = 0
     \<and> (\<forall>j < i. u_flag (get_dirent b j) \<noteq> 0 \<and> \<not> named_as (get_dirent b j) name)"

lemma room_searches:
  assumes "room_at b i name" and "length name \<le> 12"
  shows "\<not> exists_in (over b c) name" and "free_slot (over b c) = Some i"
proof -
  have i: "i < 12" using assms(1) by (simp add: room_at_def)
  have "List.find (\<lambda>i. u_flag (get_dirent (over b c) i) = 0 \<or> name_is (over b c) i name) [0..<SLOTS] = Some i"
    by (rule find_slot) (use assms i in \<open>auto simp: room_at_def name_is_entry\<close>)
  with assms i show "\<not> exists_in (over b c) name" by (simp add: exists_in_def room_at_def)
  have "List.find (\<lambda>i. u_flag (get_dirent (over b c) i) = 0) [0..<SLOTS] = Some i"
    by (rule find_slot) (use assms i in \<open>auto simp: room_at_def\<close>)
  with i show "free_slot (over b c) = Some i" by (simp add: free_slot_def MAX_DATA_IN_BLOCK_def)
qed

lemma wf_new_dirent: "wf_dirent e \<Longrightarrow> length fname \<le> 12 \<Longrightarrow> wf_dirent (new_dirent fname flag blk e)"
  by (simp add: wf_dirent_def new_dirent_def strcpy_fname_def)

lemma named_new_dirent: "named_as (new_dirent fname flag blk e) fname"
  by (simp add: named_as_def new_dirent_def strcpy_fname_def)

text \<open>What \<open>create_in_slot\<close> leaves: the entry in its block, a new block with nothing behind it, one block more in use.\<close>

lemma create_in_slot_spec:
  assumes b: "first_free s b" and p: "9 \<le> p \<or> p = 8" "p \<noteq> b" "inside s p" and i: "i < 12" and len: "length fname \<le> 12"
    and root: "4608 \<le> image_len s"
  shows "\<exists>s'. create_in_slot h s fname flag (int p) content i = Some (0, s')
    \<and> image_len s \<le> image_len s' \<and> max_filesystem_in_block s' = max_filesystem_in_block s
    \<and> (\<forall>a < 512. blk_at s' p a = put_dirent content i (new_dirent fname flag (int b) (get_dirent content i)) a)
    \<and> (\<forall>a < 512. image s' a = image s a) \<and> inside s' b \<and> nNextBlock (blk_at s' b) = - 1
    \<and> (\<forall>k. 512 + k div 8 < 4096 \<longrightarrow> block_used s' k = (k = b \<or> block_used s k))
    \<and> (\<forall>a < image_len s. 4096 \<le> a \<longrightarrow> a div 512 \<noteq> p \<longrightarrow> a div 512 \<noteq> b \<longrightarrow> a \<noteq> 512 + b div 8 \<longrightarrow> image s' a = image s a)"
proof -
  let ?c = "put_dirent content i (new_dirent fname flag (int b) (get_dirent content i))"
  have b9: "9 \<le> b" using b by (simp add: first_free_def)
  from search_one [OF b] obtain s1 where s1: "op_search_free_blk s 1 = Some (1, int b, s1)" and m: "marked s b True s1" by blast
  obtain s2 where w2: "op_write_blk s1 (int p) ?c = (0, s2)" using write_blk_int by blast
  define ini where "ini = (set_next (set_size (mem h At_init) 0) (- 1))(16 := 0)"
  obtain s3 where w3: "op_write_blk s2 (int b) ini = (0, s3)" using write_blk_int by blast
  have i3: "init_new_blk h s2 (int b) = (0, s3)" using w3 by (simp add: init_new_blk_def ini_def)
  have run: "create_in_slot h s fname flag (int p) content i = Some (0, s3)"
    by (simp add: create_in_slot_def s1 w2 i3)
  note f2 = write_blk_image [OF w2] and f3 = write_blk_image [OF w3]
  have len1: "image_len s1 = image_len s" using m by (simp add: marked_def)
  have lens: "image_len s \<le> image_len s3" using f2(3) f3(3) len1 by simp
  have far: "image s3 a = image s1 a" if "a < image_len s" "a div 512 \<noteq> p" "a div 512 \<noteq> b" for a
  proof -
    have "a < 512 * p \<or> 512 * p + 512 \<le> a" "a < 512 * b \<or> 512 * b + 512 \<le> a" using that by linarith+
    with f2(6) [of a] f3(6) [of a] f2(3) that(1) len1 show ?thesis by simp
  qed
  have pblk: "blk_at s3 p a = ?c a" if "a < 512" for a
  proof -
    have "512 * p + a < 512 * b \<or> 512 * b + 512 \<le> 512 * p + a" using p(2) that by linarith
    with f3(6) [of "512 * p + a"] f2(2) that have "image s3 (512 * p + a) = image s2 (512 * p + a)" by simp
    with f2(5) [OF that] show ?thesis by (simp add: blk_at_def)
  qed
  have low: "image s3 a = image s1 a" if "a < 4096" for a
    by (rule far) (use that p(1) b9 root in \<open>auto simp: div_less_iff_less_mult\<close>)
  have "ld64 (blk_at s3 b) 8 = - 1"
  proof -
    have "ld64 (blk_at s3 b) 8 = ld64 ini 8"
      unfolding ld64_def by (rule arg_cong [where f = le_word], rule load_cong) (use f3(5) in auto)
    also have "ld64 ini 8 = ld64 (set_next (set_size (mem h At_init) 0) (- 1)) 8"
      unfolding ld64_def ini_def by (rule arg_cong [where f = le_word], rule load_cong) auto
    also have "\<dots> = - 1" by (simp add: set_next_def ld64_st64_same)
    finally show ?thesis .
  qed
  then have nxt: "nNextBlock (blk_at s3 b) = - 1" by (simp add: nNextBlock_def)
  have used: "block_used s3 k = (k = b \<or> block_used s k)" if "512 + k div 8 < 4096" for k
  proof -
    have "block_used s3 k = block_used s1 k" using low [OF that] by (simp add: block_used_def)
    with m that root show ?thesis by (auto simp: marked_def)
  qed
  have sup: "image s3 a = image s a" if "a < 512" for a
    using low [of a] m that root by (simp add: marked_def)
  show ?thesis
  proof (intro exI [of _ s3] conjI allI impI)
    fix a assume "a < image_len s" "4096 \<le> a" "a div 512 \<noteq> p" "a div 512 \<noteq> b" "a \<noteq> 512 + b div 8"
    with far [of a] m show "image s3 a = image s a" by (simp add: marked_def)
  qed (use run lens f2(4) f3(2,4) m pblk sup nxt used in \<open>auto simp: marked_def inside_def\<close>)
qed

end
