(* ===== verification/UfsProps.thy ===== *)
theory UfsProps
  imports UfsFacts
begin

text \<open>The properties of the UFS of \<open>lymly_3799072\<close>, with small images on which each is applied.\<close>

section \<open>Sample images\<close>

text \<open>
  64 blocks: the super block, the bitmap with the first byte set, and an empty root directory. \<open>sample_image xs\<close>
  changes single bytes of it.
\<close>

definition empty_image :: buf where
  "empty_image = (\<lambda>a. if a = 8 then 8 else if a = 512 then 255 else if 4104 \<le> a \<and> a < 4112 then 255 else 0)"

definition sample_ufs :: "(nat \<times> byte) list \<Rightarrow> ufs" where
  "sample_ufs xs = \<lparr>image = fold (\<lambda>(a, v) m. m(a := v)) xs empty_image, image_len = 32768, max_filesystem_in_block = 64\<rparr>"

definition zero_heap :: heap where
  "zero_heap = \<lparr>mem = \<lambda>_ _. 0, junk = \<lparr>u_fname = replicate 13 0, u_fsize = 0, nStartBlock = 0, u_flag = 0\<rparr>\<rparr>"

lemma bitmap_sample [simp]: "bitmap_inside (sample_ufs xs)"
  by (auto simp: bitmap_inside_def sample_ufs_def)

section \<open>The bitmap\<close>

text \<open>
  C21: \<open>op_search_free_blk\<close> for one block takes the least free block behind the root block and marks it and no
  other; no other byte of the image changes.
\<close>
theorem ufs_search_takes_least_free:
  assumes "first_free s b"
  shows "\<exists>s'. op_search_free_blk s 1 = Some (1, int b, s')
    \<and> (\<forall>k. 512 + k div 8 < image_len s \<longrightarrow> block_used s' k = (k = b \<or> block_used s k))
    \<and> (\<forall>a < image_len s. a \<noteq> 512 + b div 8 \<longrightarrow> image s' a = image s a) \<and> image_len s' = image_len s"
  using search_one [OF assms] by (auto simp: marked_def)

lemma ufs_search_takes_least_free_witness:
  "\<exists>s'. op_search_free_blk (sample_ufs [(513, 2)]) 1 = Some (1, int 10, s')
    \<and> (\<forall>k. 512 + k div 8 < image_len (sample_ufs [(513, 2)]) \<longrightarrow> block_used s' k = (k = 10 \<or> block_used (sample_ufs [(513, 2)]) k))
    \<and> (\<forall>a < image_len (sample_ufs [(513, 2)]). a \<noteq> 512 + 10 div 8 \<longrightarrow> image s' a = image (sample_ufs [(513, 2)]) a)
    \<and> image_len s' = image_len (sample_ufs [(513, 2)])"
proof (rule ufs_search_takes_least_free)
  have "9 \<le> k \<Longrightarrow> k < 10 \<longleftrightarrow> k = 9" for k :: nat by auto
  then show "first_free (sample_ufs [(513, 2)]) 10"
    by (auto simp: first_free_def block_used_def) (auto simp: sample_ufs_def)
qed

section \<open>Creating\<close>

text \<open>
  C19: \<open>mknod\<close> of a name in a root directory of one block, whose first free entry is \<open>i\<close>, returns 0; \<open>getattr\<close>
  then reports a regular file of mode 0666 and size 0, the entry points to the first free block, which is in
  use and has no successor, and the other entries of the block are unchanged.
\<close>
theorem ufs_mknod_then_getattr:
  assumes "root_ok s" and "ufs_name name" and "room_at (root s) i name" and "nNextBlock (root s) = - 1"
    and "first_free s b"
  shows "\<exists>s'. u_fs_mknod h s (SLASH # name) = Some (0, s')
    \<and> u_fs_getattr h' s' (SLASH # name) = Some (0, 0x8000 OR 0x1B6, 0)
    \<and> nStartBlock (get_dirent (root s') i) = of_nat b \<and> nNextBlock (blk_at s' b) = - 1
    \<and> (\<forall>k < 28672. block_used s' k = (k = b \<or> block_used s k))
    \<and> (\<forall>j < 12. j \<noteq> i \<longrightarrow> get_dirent (root s') j = get_dirent (root s) j)"
proof -
  let ?c = "over (root s) (mem h At_create)"
  let ?e = "new_dirent name 1 (int b) (get_dirent ?c i)"
  have len: "length name \<le> 12" using assms(2) by (simp add: ufs_name_def)
  have i: "i < 12" using assms(3) by (simp add: room_at_def)
  have b: "9 \<le> b" using assms(5) by (simp add: first_free_def)
  have size: "4608 \<le> image_len s" using assms(1) by (simp add: root_ok_def)
  note se = room_searches [OF assms(3) len, of "mem h At_create"]
  have e8: "8 \<noteq> b" using b by simp
  from create_in_slot_spec [OF assms(5) _ e8 root_inside(1) [OF assms(1)] i len size, of h 1 ?c]
  obtain s' where cr: "create_in_slot h s name 1 (int 8) ?c i = Some (0, s')"
    and big: "image_len s \<le> image_len s'" and rt: "\<And>a. a < 512 \<Longrightarrow> root s' a = put_dirent ?c i ?e a"
    and sup: "\<And>a. a < 512 \<Longrightarrow> image s' a = image s a" and nb: "nNextBlock (blk_at s' b) = - 1"
    and used: "\<And>k. 512 + k div 8 < 4096 \<Longrightarrow> block_used s' k = (k = b \<or> block_used s k)" by auto
  have "is_exist s name ?c = Some (0, ?c)" using se(1) assms(4) by (simp add: is_exist.simps)
  moreover have "create_loop s 8 ?c = Some (Found 8 ?c i)" using se(2) by (simp add: create_loop.simps)
  ultimately have run: "u_fs_mknod h s (SLASH # name) = Some (0, s')"
    using len cr assms(1) by (simp add: u_fs_mknod_def op_create_def parent_name [OF assms(2)] open_root read_root)
  have ent: "get_dirent (root s') j = (if j = i then ?e else get_dirent (root s) j)" if "j < 12" for j
  proof -
    have "get_dirent (root s') j = get_dirent (put_dirent ?c i ?e) j" by (rule dirent_cong [OF rt that])
    also have "\<dots> = (if j = i then ?e else get_dirent ?c j)" using len by (simp add: dirents.get_put wf_new_dirent)
    finally show ?thesis using that by simp
  qed
  have "ld64 (image s') 8 = ld64 (image s) 8"
    unfolding ld64_def by (rule arg_cong [where f = le_word], rule load_cong) (use sup in simp)
  with assms(1) big have ok': "root_ok s'" by (simp add: root_ok_def)
  have flag: "u_flag ?e = 1" "u_fsize ?e = 0" "nStartBlock ?e = of_nat b" by (simp_all add: new_dirent_def)
  have "root_entry s' i name"
    using ent i flag assms(3) named_new_dirent [of name 1 "int b"] by (auto simp: root_entry_def in_use_def room_at_def)
  from open_root_entry [OF ok' this assms(2)] have "u_fs_getattr h' s' (SLASH # name) = Some (0, 0x8000 OR 0x1B6, 0)"
    using ent [OF i] flag by (simp add: u_fs_getattr_def)
  moreover have "nStartBlock (get_dirent (root s') i) = of_nat b" using ent [OF i] flag by simp
  moreover have "\<forall>k < 28672. block_used s' k = (k = b \<or> block_used s k)" using used by auto
  ultimately show ?thesis using run nb ent by auto
qed

lemma sample_root:
  "root_ok (sample_ufs [])" "nNextBlock (root (sample_ufs [])) = - 1" "u_flag (get_dirent (root (sample_ufs [])) 0) = 0"
  "first_free (sample_ufs []) 9"
proof -
  show "root_ok (sample_ufs [])"
    by (simp add: root_ok_def sample_ufs_def ld64_def load_bytes_def empty_image_def)
  show "nNextBlock (root (sample_ufs [])) = - 1"
    by (simp add: nNextBlock_def ld64_def load_bytes_def blk_at_def sample_ufs_def empty_image_def)
  show "u_flag (get_dirent (root (sample_ufs [])) 0) = 0"
    by (simp add: get_dirent_def slot_def ld32_def load_bytes_def blk_at_def sample_ufs_def empty_image_def)
  show "first_free (sample_ufs []) 9"
    by (auto simp: first_free_def block_used_def) (simp_all add: sample_ufs_def empty_image_def)
qed

lemma ufs_name_a [simp]: "ufs_name [97]"
  by (simp add: ufs_name_def SLASH_def)

lemma ufs_mknod_then_getattr_witness:
  "\<exists>s'. u_fs_mknod zero_heap (sample_ufs []) (SLASH # [97]) = Some (0, s')
    \<and> u_fs_getattr zero_heap s' (SLASH # [97]) = Some (0, 0x8000 OR 0x1B6, 0)
    \<and> nStartBlock (get_dirent (root s') 0) = of_nat 9 \<and> nNextBlock (blk_at s' 9) = - 1
    \<and> (\<forall>k < 28672. block_used s' k = (k = 9 \<or> block_used (sample_ufs []) k))
    \<and> (\<forall>j < 12. j \<noteq> 0 \<longrightarrow> get_dirent (root s') j = get_dirent (root (sample_ufs [])) j)"
  by (rule ufs_mknod_then_getattr) (use sample_root in \<open>simp_all add: room_at_def\<close>)

text \<open>
  In a root directory of two blocks a new name destroys the first block: \<open>is_exist\<close> leaves the last block in
  the buffer, and \<open>op_create\<close> stores it, with the new entry, as the first. Afterwards the entries of the first
  block are those of the second, and the chain ends there.
\<close>
theorem ufs_create_destroys_first_block:
  assumes "root_ok s" and "ufs_name name" and "nNextBlock (root s) = int q" and "9 \<le> q" and "inside s q"
    and "nNextBlock (blk_at s q) = - 1" and "\<not> exists_in (over (root s) (mem h At_create)) name"
    and "room_at (blk_at s q) i name" and "first_free s b" and "b \<noteq> q"
  shows "\<exists>s'. u_fs_mknod h s (SLASH # name) = Some (0, s') \<and> nNextBlock (root s') = - 1
    \<and> (\<forall>j < 12. j \<noteq> i \<longrightarrow> get_dirent (root s') j = get_dirent (blk_at s q) j)"
proof -
  let ?c1 = "over (root s) (mem h At_create)" and ?c = "over (blk_at s q) (over (root s) (mem h At_create))"
  let ?e = "new_dirent name 1 (int b) (get_dirent ?c i)"
  have len: "length name \<le> 12" using assms(2) by (simp add: ufs_name_def)
  have i: "i < 12" using assms(8) by (simp add: room_at_def)
  have size: "4608 \<le> image_len s" using assms(1) by (simp add: root_ok_def)
  note se = room_searches [OF assms(8) len, of "over (root s) (mem h At_create)"]
  have e8: "8 \<noteq> b" using assms(9) by (auto simp: first_free_def)
  from create_in_slot_spec [OF assms(9) _ e8 root_inside(1) [OF assms(1)] i len size, of h 1 ?c]
  obtain s' where cr: "create_in_slot h s name 1 (int 8) ?c i = Some (0, s')"
    and rt: "\<And>a. a < 512 \<Longrightarrow> root s' a = put_dirent ?c i ?e a" by auto
  have "is_exist s name ?c = Some (0, ?c)" using se(1) assms(6) by (simp add: is_exist.simps)
  then have "is_exist s name ?c1 = Some (0, ?c)"
    using assms(3,5,7) by (subst is_exist.simps) simp
  moreover have "create_loop s 8 ?c = Some (Found 8 ?c i)" using se(2) by (simp add: create_loop.simps)
  ultimately have run: "u_fs_mknod h s (SLASH # name) = Some (0, s')"
    using len cr assms(1) by (simp add: u_fs_mknod_def op_create_def parent_name [OF assms(2)] open_root read_root)
  have ent: "get_dirent (root s') j = get_dirent (blk_at s q) j" if "j < 12" "j \<noteq> i" for j
  proof -
    have "get_dirent (root s') j = get_dirent (put_dirent ?c i ?e) j" by (rule dirent_cong [OF rt that(1)])
    also have "\<dots> = get_dirent ?c j" using len that(2) by (simp add: dirents.get_put wf_new_dirent)
    finally show ?thesis using that(1) by simp
  qed
  have "load_bytes (root s') 8 8 = load_bytes ?c 8 8"
  proof (rule load_cong)
    fix a :: nat assume a: "8 \<le> a" "a < 8 + 8"
    have "put_dirent ?c i ?e a = ?c a"
      by (rule put_dirent_outside) (use a len in \<open>simp_all add: wf_new_dirent slot_def\<close>)
    with rt a show "root s' a = ?c a" by simp
  qed
  then have "nNextBlock (root s') = nNextBlock ?c" by (simp add: nNextBlock_def ld64_def)
  then have "nNextBlock (root s') = - 1" using assms(6) by simp
  with run ent show ?thesis by blast
qed

text \<open>Two blocks of root directory: a file \<open>a\<close> in the first entry of the first, whose second is free, and an empty second.\<close>

definition two_blocks :: "(nat \<times> byte) list" where
  "two_blocks = [(513, 2), (4104, 9)] @ map (\<lambda>a. (a, 0)) [4105..<4112] @ [(4112, 97), (4144, 1)]
     @ map (\<lambda>a. (a, 255)) [4616..<4624]"

lemma ufs_create_destroys_first_block_witness:
  "\<exists>s'. u_fs_mknod zero_heap (sample_ufs two_blocks) (SLASH # [98]) = Some (0, s') \<and> nNextBlock (root s') = - 1
    \<and> (\<forall>j < 12. j \<noteq> 0 \<longrightarrow> get_dirent (root s') j = get_dirent (blk_at (sample_ufs two_blocks) 9) j)"
proof (rule ufs_create_destroys_first_block)
  let ?s = "sample_ufs two_blocks"
  note ev = sample_ufs_def two_blocks_def empty_image_def load_bytes_def blk_at_def
  show "root_ok ?s" by (simp add: root_ok_def ld64_def ev)
  show "ufs_name [98]" by (simp add: ufs_name_def SLASH_def)
  show "nNextBlock (root ?s) = int 9" by (simp add: nNextBlock_def ld64_def ev)
  show "nNextBlock (blk_at ?s 9) = - 1" by (simp add: nNextBlock_def ld64_def ev)
  have e0: "u_flag (get_dirent (root ?s) 0) = 1" "u_flag (get_dirent (root ?s) 1) = 0"
    "\<not> named_as (get_dirent (root ?s) 0) [98]"
    by (simp_all add: get_dirent_def slot_def ld32_def named_as_def ev)
  have "List.find (\<lambda>i. u_flag (get_dirent (over (root ?s) (mem zero_heap At_create)) i) = 0
      \<or> name_is (over (root ?s) (mem zero_heap At_create)) i [98]) [0..<SLOTS] = Some 1"
    by (rule find_slot) (use e0 in \<open>simp_all add: name_is_entry\<close>)
  then show "\<not> exists_in (over (root ?s) (mem zero_heap At_create)) [98]"
    using e0(2) by (simp add: exists_in_def)
  show "room_at (blk_at ?s 9) 0 [98]"
    by (simp add: room_at_def get_dirent_def slot_def ld32_def ev)
  show "inside ?s 9" by (simp add: inside_def sample_ufs_def)
  have "9 \<le> k \<Longrightarrow> k < 10 \<longleftrightarrow> k = 9" for k :: nat by auto
  then show "first_free ?s 10" by (auto simp: first_free_def block_used_def) (auto simp: ev)
qed simp_all

section \<open>Reading and writing\<close>

text \<open>A chain of \<open>n\<close> blocks, all within the image.\<close>

fun chain_ends :: "ufs \<Rightarrow> int \<Rightarrow> nat \<Rightarrow> bool" where
  "chain_ends s blk 0 \<longleftrightarrow> blk = - 1"
| "chain_ends s blk (Suc n) \<longleftrightarrow> 0 \<le> blk \<and> inside s (nat blk) \<and> chain_ends s (nNextBlock (blk_at s (nat blk))) n"

lemma skip_chain:
  assumes "chain_ends s blk n"
  shows "\<exists>c'. skip_blocks s n blk c = Some (- 1, - 1, c')"
proof -
  let ?body = "\<lambda>(i :: nat) (start_blk, content).
        (case op_read_blk s start_blk content of (r, content') \<Rightarrow>
          Some (if r = - 1 then Return (- 1, start_blk, content') else Next (nNextBlock content', content')))
          :: (int \<times> buf, int \<times> int \<times> buf) flow option"
  have "\<exists>c'. for_loop i n ?body (blk, c) = Some (Next (- 1, c'))" if "i \<le> n" "chain_ends s blk (n - i)" for i blk c
    using that
  proof (induction "n - i" arbitrary: i blk c)
    case 0
    then show ?case by auto
  next
    case (Suc m)
    then have i: "i < n" "m = n - Suc i" "Suc i \<le> n" "n - i = Suc m" by auto
    with Suc.prems(2) have blk: "0 \<le> blk" "inside s (nat blk)" "chain_ends s (nNextBlock (blk_at s (nat blk))) (n - Suc i)"
      by auto
    have rd: "op_read_blk s blk c = (0, over (blk_at s (nat blk)) c)" using read_blk [OF blk(2), of c] blk(1) by simp
    from Suc.hyps(1) [OF i(2,3) blk(3), of "over (blk_at s (nat blk)) c"] i(1) rd show ?case
      by (simp add: for_loop_step)
  qed
  from this [of 0 blk c] assms obtain c' where "for_loop 0 n ?body (blk, c) = Some (Next (- 1, c'))" by auto
  then show ?thesis by (simp add: skip_blocks_def op_read_blk_def)
qed

text \<open>
  A file whose size is a positive multiple of 496 cannot be extended: a write at its end follows the chain
  one block too far, to -1, and reports an error; nothing is written.
\<close>
theorem ufs_append_at_boundary_fails:
  assumes "op_open h s path (junk h) = Some (0, inode)" and "unat (u_fsize inode) = 496 * n"
    and "chain_ends s (sint (nStartBlock inode)) n" and "length text + 496 * n < 2 ^ 31"
  shows "u_fs_write h s path text (496 * n) = Some (- 1, s)"
proof -
  obtain c' where c': "skip_blocks s n (sint (nStartBlock inode)) (mem h At_write) = Some (- 1, - 1, c')"
    using skip_chain [OF assms(3)] by blast
  have "uint (u_fsize inode) = int (496 * n)" using assms(2) by (metis uint_nat)
  then have "find_offset_to_write s inode (int (496 * n)) (mem h At_write) = Some (- 1, 0, - 1, c', s)"
    using c' by (simp add: find_offset_to_write_def MAX_DATA_IN_BLOCK_def nat_mult_distrib)
  with assms(1,4) show ?thesis by (simp add: u_fs_write_def)
qed

text \<open>A file \<open>a\<close> of one full block, and one of size 0.\<close>

definition full_file :: "(nat \<times> byte) list" where
  "full_file = [(513, 2), (4112, 97), (4128, 240), (4129, 1), (4136, 9), (4144, 1)] @ map (\<lambda>a. (a, 255)) [4616..<4624]"

definition empty_file :: "(nat \<times> byte) list" where
  "empty_file = [(513, 2), (4112, 97), (4136, 9), (4144, 1)] @ map (\<lambda>a. (a, 255)) [4616..<4624]"

lemma file_samples:
  "root_ok (sample_ufs full_file)" "root_entry (sample_ufs full_file) 0 [97]"
  "get_dirent (root (sample_ufs full_file)) 0 = \<lparr>u_fname = [97, 0, 0, 0, 0, 0, 0, 0, 0, 0, 0, 0, 0], u_fsize = 496, nStartBlock = 9, u_flag = 1\<rparr>"
  "nNextBlock (blk_at (sample_ufs full_file) 9) = - 1" "inside (sample_ufs full_file) 9"
  "root_ok (sample_ufs empty_file)" "root_entry (sample_ufs empty_file) 0 [97]"
  "get_dirent (root (sample_ufs empty_file)) 0 = \<lparr>u_fname = [97, 0, 0, 0, 0, 0, 0, 0, 0, 0, 0, 0, 0], u_fsize = 0, nStartBlock = 9, u_flag = 1\<rparr>"
  "nNextBlock (blk_at (sample_ufs empty_file) 9) = - 1" "inside (sample_ufs empty_file) 9"
proof -
  note ev = sample_ufs_def full_file_def empty_file_def empty_image_def load_bytes_def blk_at_def
  show "root_ok (sample_ufs full_file)" "root_ok (sample_ufs empty_file)" by (simp_all add: root_ok_def ld64_def ev)
  show d: "get_dirent (root (sample_ufs full_file)) 0 = \<lparr>u_fname = [97, 0, 0, 0, 0, 0, 0, 0, 0, 0, 0, 0, 0], u_fsize = 496, nStartBlock = 9, u_flag = 1\<rparr>"
    "get_dirent (root (sample_ufs empty_file)) 0 = \<lparr>u_fname = [97, 0, 0, 0, 0, 0, 0, 0, 0, 0, 0, 0, 0], u_fsize = 0, nStartBlock = 9, u_flag = 1\<rparr>"
    by (simp_all add: get_dirent_def slot_def ld64_def ld32_def ev)
  show "root_entry (sample_ufs full_file) 0 [97]" "root_entry (sample_ufs empty_file) 0 [97]"
    by (simp_all add: root_entry_def d in_use_def named_as_def)
  show "nNextBlock (blk_at (sample_ufs full_file) 9) = - 1" "nNextBlock (blk_at (sample_ufs empty_file) 9) = - 1"
    by (simp_all add: nNextBlock_def ld64_def ev)
  show "inside (sample_ufs full_file) 9" "inside (sample_ufs empty_file) 9" by (simp_all add: inside_def sample_ufs_def)
qed

lemma ufs_append_at_boundary_fails_witness:
  "u_fs_write zero_heap (sample_ufs full_file) [SLASH, 97] [98] (496 * 1) = Some (- 1, sample_ufs full_file)"
  by (rule ufs_append_at_boundary_fails [OF open_root_entry [OF file_samples(1,2) ufs_name_a]])
    (use file_samples(3,4,5) in simp_all)

text \<open>The steps of a write of one block at the start of a file in the root directory.\<close>

lemma root_ok_frame:
  assumes "root_ok s" and "\<And>a. a < 4096 \<Longrightarrow> image s' a = image s a" and "image_len s \<le> image_len s'"
  shows "root_ok s'"
proof -
  have "ld64 (image s') 8 = ld64 (image s) 8"
    unfolding ld64_def by (rule arg_cong [where f = le_word], rule load_cong) (use assms(2) in simp)
  with assms(1,3) show ?thesis by (simp add: root_ok_def)
qed

text \<open>\<open>op_modify_attr\<close> with the entry that \<open>op_open\<close> gave changes the size in the root directory, nothing else.\<close>

lemma modify_root_size:
  assumes ok: "root_ok s" and e: "root_entry s i name" and n: "ufs_name name"
  shows "\<exists>s'. op_modify_attr h s (SLASH # name) ((get_dirent (root s) i)\<lparr>u_fname := w, u_fsize := z\<rparr>) = Some (0, s')
    \<and> root_ok s' \<and> image_len s \<le> image_len s'
    \<and> (\<forall>a < image_len s. a < 4096 \<or> 4608 \<le> a \<longrightarrow> image s' a = image s a)
    \<and> (\<forall>j < 12. get_dirent (root s') j = (let d = get_dirent (root s) j in if j = i then d\<lparr>u_fsize := z\<rparr> else d))"
proof -
  let ?m = "over (root s) (mem h At_modify)" and ?new = "(get_dirent (root s) i)\<lparr>u_fsize := z\<rparr>"
  have i: "i < 12" using e by (simp add: root_entry_def)
  have len: "length name \<le> 12" using n by (simp add: ufs_name_def)
  have "entry_in_use ?m name = Some i"
    unfolding entry_in_use_def
    by (rule find_slot) (use e len i in \<open>auto simp: root_entry_def name_is_entry in_use_def\<close>)
  then have loop: "modify_loop s name 8 ?m = Some (Found 8 ?m i)" by (simp add: modify_loop.simps)
  obtain s' where w: "op_write_blk s (int 8) (put_dirent ?m i ?new) = (0, s')" using write_blk_int by blast
  note f = write_blk_image [OF w]
  have run: "op_modify_attr h s (SLASH # name) ((get_dirent (root s) i)\<lparr>u_fname := w, u_fsize := z\<rparr>) = Some (0, s')"
    using w i loop ok by (simp add: op_modify_attr_def parent_name [OF n] open_root read_root slot_def)
  have img: "image s' a = image s a" if "a < image_len s" "a < 4096 \<or> 4608 \<le> a" for a
    using f(6) [OF that(1)] that(2) by simp
  have ok': "root_ok s'" by (rule root_ok_frame [OF ok _ f(3)]) (use img ok in \<open>simp add: root_ok_def\<close>)
  have wf: "wf_dirent ?new" by (simp add: wf_dirent_def)
  have "get_dirent (root s') j = (let d = get_dirent (root s) j in if j = i then d\<lparr>u_fsize := z\<rparr> else d)"
    if "j < 12" for j
  proof -
    have "get_dirent (root s') j = get_dirent (put_dirent ?m i ?new) j" by (rule dirent_cong [OF f(5) that])
    then show ?thesis using that by (simp add: dirents.get_put wf Let_def)
  qed
  with run ok' f(3) img show ?thesis by blast
qed

lemma write_first_block:
  assumes ok: "root_ok s" and e: "root_entry s i name" and n: "ufs_name name"
    and f: "nStartBlock (get_dirent (root s) i) = of_nat b" "9 \<le> b" "b < 2 ^ 31" "inside s b"
    and nxt: "nNextBlock (blk_at s b) = - 1"
    and small: "unat (u_fsize (get_dirent (root s) i)) < length text" "length text \<le> 496"
  shows "\<exists>s'. u_fs_write h s (SLASH # name) text 0 = Some (int (length text), s')
    \<and> root_ok s' \<and> inside s' b \<and> load_bytes (blk_at s' b) 16 (length text) = text
    \<and> (\<forall>j < 12. get_dirent (root s') j = (let d = get_dirent (root s) j in
         if j = i then d\<lparr>u_fsize := of_nat (length text)\<rparr> else d))"
proof -
  let ?d = "get_dirent (root s) i" and ?l = "length text"
  let ?ino = "?d\<lparr>u_fname := strcpy_fname (u_fname (junk h)) name\<rparr>"
  have l: "?l < 2 ^ 31" "text \<noteq> []" using small by auto
  let ?c = "over (blk_at s b) (mem h At_write)"
  let ?c1 = "store_bytes ?c 16 text"
  let ?c2 = "st64 ?c1 0 (blk_size ?c1 + of_nat ?l)"
  let ?c3 = "set_next ?c2 (- 1)"
  have sb: "sint (of_nat b :: 64 word) = int b"
    using sint_word_of_int_id [of "int b", where 'a = 64] f(3) by simp
  have "ld64 ?c2 8 = ld64 ?c 8" by (simp add: ld64_st64_other) (simp add: ld64_def load_store_disjoint)
  then have next2: "nNextBlock ?c2 = - 1" using nxt by (simp add: nNextBlock_def ld64_def load_over)
  have opn: "op_open h s (SLASH # name) (junk h) = Some (0, ?ino)" by (rule open_root_entry [OF ok e n])
  have place: "find_offset_to_write s ?ino 0 (mem h At_write) = Some (0, 0, int b, ?c, s)"
    using f(1,4) sb by (simp add: find_offset_to_write_def skip_blocks_def)
  obtain s3 where w3: "op_write_blk s (int b) ?c3 = (0, s3)" using write_blk_int by blast
  note f3 = write_blk_image [OF w3]
  have same3: "image s3 a = image s a" if "a < 4608" for a
    using f3(6) [of a] that ok f(2) by (auto simp: root_ok_def)
  have ok3: "root_ok s3" by (rule root_ok_frame [OF ok _ f3(3)]) (simp add: same3)
  have "root s3 a = root s a" if "a < 512" for a using same3 [of "4096 + a"] that by (simp add: blk_at_def)
  then have d3: "get_dirent (root s3) j = get_dirent (root s) j" if "j < 12" for j by (rule dirent_cong [OF _ that])
  then have e3: "root_entry s3 i name" using e by (simp add: root_entry_def)
  have i: "i < 12" using e by (simp add: root_entry_def)
  from modify_root_size [OF ok3 e3 n, where h = h and w = "strcpy_fname (u_fname (junk h)) name"
    and z = "of_nat ?l", unfolded d3 [OF i]]
  obtain s4 where upd: "op_modify_attr h s3 (SLASH # name) (?ino\<lparr>u_fsize := of_nat ?l\<rparr>) = Some (0, s4)"
    and ok4: "root_ok s4" and len4: "image_len s3 \<le> image_len s4"
    and img4: "\<And>a. a < image_len s3 \<Longrightarrow> a < 4096 \<or> 4608 \<le> a \<Longrightarrow> image s4 a = image s3 a"
    and ds4: "\<And>j. j < 12 \<Longrightarrow> get_dirent (root s4) j =
      (let d = get_dirent (root s3) j in if j = i then d\<lparr>u_fsize := of_nat ?l\<rparr> else d)" by blast
  have d4: "get_dirent (root s4) j = (let d = get_dirent (root s) j in if j = i then d\<lparr>u_fsize := of_nat ?l\<rparr> else d)"
    if "j < 12" for j using ds4 [OF that] d3 [OF that] by simp
  have run: "u_fs_write h s (SLASH # name) text 0 = Some (int ?l, s4)"
    using l small place next2 w3 upd opn
    by (simp add: u_fs_write_def MAX_DATA_IN_BLOCK_def Let_def free_rest.simps)
  have b4: "blk_at s4 b a = ?c3 a" if "a < 512" for a
    using img4 [of "512 * b + a"] f3(2) f3(5) [OF that] f(2) that by (simp add: blk_at_def)
  have "load_bytes (blk_at s4 b) 16 ?l = load_bytes ?c1 16 ?l"
    by (rule load_cong) (use small(2) b4 in \<open>simp add: set_next_def st64_def store_bytes_outside\<close>)
  then have "load_bytes (blk_at s4 b) 16 ?l = text" by (simp add: load_store_same)
  moreover have "inside s4 b" using f3(2) len4 by (simp add: inside_def)
  ultimately show ?thesis using run ok4 d4 by blast
qed

text \<open>
  C20: Writing at most 496 characters at the start of a file of the root directory that is shorter returns their
  number; reading that many back gives exactly the text, and \<open>getattr\<close> reports their number as the size.
\<close>
theorem ufs_write_read_roundtrip:
  assumes "root_ok s" and "root_entry s i name" and "ufs_name name" and "u_flag (get_dirent (root s) i) = 1"
    and "nStartBlock (get_dirent (root s) i) = of_nat b" and "9 \<le> b" and "b < 2 ^ 31" and "inside s b"
    and "nNextBlock (blk_at s b) = - 1"
    and "unat (u_fsize (get_dirent (root s) i)) < length text" and "length text \<le> 496"
  shows "\<exists>s'. u_fs_write h s (SLASH # name) text 0 = Some (int (length text), s')
    \<and> u_fs_read h' s' (SLASH # name) (length text) 0 = Some (int (length text), text)
    \<and> u_fs_getattr h' s' (SLASH # name) = Some (0, 0x8000 OR 0x1B6, of_nat (length text))"
proof -
  from write_first_block [OF assms(1-3,5-11)] obtain s' where
    run: "u_fs_write h s (SLASH # name) text 0 = Some (int (length text), s')" and ok: "root_ok s'" and ins: "inside s' b"
    and data: "load_bytes (blk_at s' b) 16 (length text) = text"
    and d: "\<And>j. j < 12 \<Longrightarrow> get_dirent (root s') j = (let d = get_dirent (root s) j in
         if j = i then d\<lparr>u_fsize := of_nat (length text)\<rparr> else d)" by blast
  have i: "i < 12" using assms(2) by (simp add: root_entry_def)
  have di: "get_dirent (root s') i = (get_dirent (root s) i)\<lparr>u_fsize := of_nat (length text)\<rparr>" using d [OF i] by simp
  have "named_as (get_dirent (root s') j) w = named_as (get_dirent (root s) j) w"
    "in_use (get_dirent (root s') j) = in_use (get_dirent (root s) j)" if "j < 12" for j w
    using d [OF that] by (auto simp: named_as_def in_use_def Let_def)
  then have "root_entry s' i name" using assms(2) i by (auto simp: root_entry_def)
  note opn = open_root_entry [OF ok this assms(3)]
  have size: "unat (of_nat (length text) :: 64 word) = length text"
    using assms(11) by (simp add: unat_of_nat)
  have sb: "sint (of_nat b :: 64 word) = int b"
    using sint_word_of_int_id [of "int b", where 'a = 64] assms(7) by simp
  have pos: "0 < length text" using assms(10) by linarith
  have "u_fs_read h' s' (SLASH # name) (length text) 0 = Some (int (length text), text)"
    using opn di assms(4,5,11) size sb ins data pos
    by (simp add: u_fs_read_def skip_blocks_def MAX_DATA_IN_BLOCK_def Let_def read_rest.simps load_over)
  moreover have "u_fs_getattr h' s' (SLASH # name) = Some (0, 0x8000 OR 0x1B6, of_nat (length text))"
    using opn di assms(4) by (simp add: u_fs_getattr_def)
  ultimately show ?thesis using run by blast
qed

lemma ufs_write_read_roundtrip_witness:
  "\<exists>s'. u_fs_write zero_heap (sample_ufs empty_file) (SLASH # [97]) [98, 99, 100] 0 = Some (int (length [98, 99, 100 :: byte]), s')
    \<and> u_fs_read zero_heap s' (SLASH # [97]) (length [98, 99, 100 :: byte]) 0 = Some (int (length [98, 99, 100 :: byte]), [98, 99, 100])
    \<and> u_fs_getattr zero_heap s' (SLASH # [97]) = Some (0, 0x8000 OR 0x1B6, of_nat (length [98, 99, 100 :: byte]))"
  by (rule ufs_write_read_roundtrip [where i = 0 and b = 9, OF file_samples(6,7) ufs_name_a])
    (use file_samples(8-10) in simp_all)

end
