(* ===== verification/UfsV1State.thy ===== *)
theory UfsV1State
  imports UfsFacts
begin

text \<open>
  The UFS of \<open>exmple/ufs\<close> (version 1.0 of \<open>ufs.h\<close>, \<open>op.c\<close>, \<open>ufs.c\<close>, \<open>init.c\<close>), an older and different program than
  that of \<open>lymly_3799072\<close>: names with extensions, one level of directories, and a directory is the one block its
  \<open>size\<close> field tells the end of. \<open>ufs.h\<close> fixes the sizes of its target: \<open>size_t\<close> and \<open>long\<close> have 4 bytes, so a
  block is 512 = 4 + 4 + 504 bytes. The image is the record \<^typ>\<open>ufs\<close>, which both programs keep in the same way;
  this theory has the structures of a block, the access to blocks, and the bitmap. The suffix \<open>_v1\<close> tells the
  definitions from those of the other program.
\<close>

section \<open>Blocks\<close>

text \<open>\<open>u_fs_disk_block\<close>: \<open>size\<close> at 0, \<open>nNextBlock\<close> at 4, 504 bytes of data at 8.\<close>

definition size_v1 :: "buf \<Rightarrow> 32 word" where "size_v1 c = ld32 c 0"
definition next_v1 :: "buf \<Rightarrow> int" where "next_v1 c = sint (ld32 c 4)"
definition set_size_v1 :: "buf \<Rightarrow> 32 word \<Rightarrow> buf" where "set_size_v1 c n = st32 c 0 n"
definition set_next_v1 :: "buf \<Rightarrow> int \<Rightarrow> buf" where "set_next_v1 c n = st32 c 4 (word_of_int n)"

definition MAX_DATA_V1 :: nat where "MAX_DATA_V1 = 504"
definition MAX_BITMAP_IN_BLOCK :: nat where "MAX_BITMAP_IN_BLOCK = 1280"
definition MAX_FILENAME_V1 :: nat where "MAX_FILENAME_V1 = 8"
definition MAX_EXTENSION :: nat where "MAX_EXTENSION = 3"

text \<open>\<open>u_fs_file_directory\<close>: 9 bytes of name, 4 of extension, 3 of padding, then the three numbers: 28 bytes.\<close>

record u_fs_file_directory =
  fname_v1 :: "byte list"
  fext_v1 :: "byte list"
  fsize_v1 :: "32 word"
  nStartBlock_v1 :: "32 word"
  flag_v1 :: "32 word"

definition slot_v1 :: "nat \<Rightarrow> nat" where "slot_v1 i = 8 + 28 * i"

definition get_dir_v1 :: "buf \<Rightarrow> nat \<Rightarrow> u_fs_file_directory" where
  "get_dir_v1 c i = \<lparr>fname_v1 = load_bytes c (slot_v1 i) 9, fext_v1 = load_bytes c (slot_v1 i + 9) 4,
     fsize_v1 = ld32 c (slot_v1 i + 16), nStartBlock_v1 = ld32 c (slot_v1 i + 20), flag_v1 = ld32 c (slot_v1 i + 24)\<rparr>"

definition put_dir_v1 :: "buf \<Rightarrow> nat \<Rightarrow> u_fs_file_directory \<Rightarrow> buf" where
  "put_dir_v1 c i e = st32 (st32 (st32 (store_bytes (store_bytes c (slot_v1 i) (fname_v1 e)) (slot_v1 i + 9) (fext_v1 e))
     (slot_v1 i + 16) (fsize_v1 e)) (slot_v1 i + 20) (nStartBlock_v1 e)) (slot_v1 i + 24) (flag_v1 e)"

definition wf_dir_v1 :: "u_fs_file_directory \<Rightarrow> bool" where
  "wf_dir_v1 e \<longleftrightarrow> length (fname_v1 e) = 9 \<and> length (fext_v1 e) = 4"

lemma wf_get_dir_v1 [simp]: "wf_dir_v1 (get_dir_v1 c i)"
  by (simp add: wf_dir_v1_def get_dir_v1_def)

lemma put_dir_v1_outside:
  assumes "wf_dir_v1 e" and "a < slot_v1 i \<or> slot_v1 i + 28 \<le> a"
  shows "put_dir_v1 c i e a = c a"
  using assms by (auto simp: put_dir_v1_def st32_def wf_dir_v1_def store_bytes_def)

lemma dir_v1_cong:
  assumes "\<And>a. slot_v1 i \<le> a \<Longrightarrow> a < slot_v1 i + 28 \<Longrightarrow> b a = c a"
  shows "get_dir_v1 b i = get_dir_v1 c i"
proof -
  have "load_bytes b (slot_v1 i + k) n = load_bytes c (slot_v1 i + k) n" if "k + n \<le> 28" for k n
    by (rule load_cong) (use assms that in auto)
  from this [of 0 9] this [of 9 4] this [of 16 4] this [of 20 4] this [of 24 4] show ?thesis
    by (simp add: get_dir_v1_def ld32_def)
qed

interpretation dirs_v1: array_store get_dir_v1 put_dir_v1 "\<lambda>_. True" wf_dir_v1
proof unfold_locales
  fix i j e and c :: buf
  assume e: "wf_dir_v1 e"
  then have l: "length (fname_v1 e) = 9" "length (fext_v1 e) = 4" by (simp_all add: wf_dir_v1_def)
  show "get_dir_v1 (put_dir_v1 c i e) i = e"
    using l by (simp add: get_dir_v1_def put_dir_v1_def array_laws ld32_def st32_def)
  assume "i \<noteq> j"
  then have "slot_v1 j + 28 \<le> slot_v1 i \<or> slot_v1 i + 28 \<le> slot_v1 j" by (auto simp: slot_v1_def)
  then show "get_dir_v1 (put_dir_v1 c i e) j = get_dir_v1 c j"
    by (intro dir_v1_cong put_dir_v1_outside [OF e]) auto
qed

text \<open>
  \<open>strcmp\<close> of a string with the name or the extension of an entry. A name that fills its array goes on in the
  bytes behind it.
\<close>

definition fname_is :: "buf \<Rightarrow> nat \<Rightarrow> byte list \<Rightarrow> bool" where
  "fname_is c i w \<longleftrightarrow> load_bytes c (slot_v1 i) (length w + 1) = w @ [0]"

definition fext_is :: "buf \<Rightarrow> nat \<Rightarrow> byte list \<Rightarrow> bool" where
  "fext_is c i w \<longleftrightarrow> load_bytes c (slot_v1 i + 9) (length w + 1) = w @ [0]"

text \<open>\<open>strcpy\<close> of a string over a character array.\<close>

definition strcpy_over :: "byte list \<Rightarrow> byte list \<Rightarrow> byte list" where
  "strcpy_over old w = w @ [0] @ drop (length w + 1) old"

section \<open>Access to blocks\<close>

text \<open>
  \<open>blk * BLOCK_BYTES\<close> is an arithmetic overflow from block \<open>2^22\<close> on. A read that reaches the end of the image
  reports an error, with the bytes that were there in the buffer.
\<close>

definition blk_range :: "int \<Rightarrow> bool" where
  "blk_range blk \<longleftrightarrow> - 4194304 \<le> blk \<and> blk < 4194304"

definition op_read_blk_v1 :: "ufs \<Rightarrow> int \<Rightarrow> buf \<Rightarrow> (int \<times> buf) option" where
  "op_read_blk_v1 s blk content =
     (if \<not> blk_range blk then None
      else if blk < 0 then Some (- 1, content)
      else Some (if 512 * nat blk + 512 \<le> image_len s then 0 else - 1,
             \<lambda>i. if i < 512 \<and> 512 * nat blk + i < image_len s then image s (512 * nat blk + i) else content i))"

definition op_write_blk_v1 :: "ufs \<Rightarrow> int \<Rightarrow> buf \<Rightarrow> (int \<times> ufs) option" where
  "op_write_blk_v1 s blk content =
     (if \<not> blk_range blk then None
      else if blk < 0 then Some (- 1, s)
      else Some (0, write_image (512 * nat blk) (load_bytes content 0 512) s))"

section \<open>The bitmap\<close>

definition op_set_blk_v1 :: "ufs \<Rightarrow> int \<Rightarrow> int \<Rightarrow> (int \<times> ufs) option" where
  "op_set_blk_v1 s blk flag =
     (if blk = - 1 then Some (- 1, s)
      else if blk < 0 then None
      else do {
        let start = nat blk div 8;
        let left = nat blk mod 8;
        temp \<leftarrow> read_int s (512 + start);
        let f = (if flag \<noteq> 0 then temp OR push_bit left 1 else temp AND NOT (push_bit left 1));
        Some (0, write_image (512 + start) (le_bytes 4 f) s)
      })"

text \<open>
  \<open>op_search_free_blk\<close>: the two loops are those of the other program, \<^const>\<open>search_runs\<close>, which count the free
  blocks behind each start; the search begins behind the root block, 1281.
\<close>

definition op_search_free_blk_v1 :: "ufs \<Rightarrow> int \<Rightarrow> (int \<times> int \<times> ufs) option" where
  "op_search_free_blk_v1 s num = do {
     (mx, max_start) \<leftarrow> search_runs s (nat num) (1 + MAX_BITMAP_IN_BLOCK + 1) (0, - 1);
     after_loop
       (for_loop 0 mx (\<lambda>i s. do {
          (r, s') \<leftarrow> op_set_blk_v1 s (max_start + int i) 1;
          Some (if r = - 1 then Return (- 1, max_start, s') else Next s')
        }) s)
       (\<lambda>s'. Some (int mx, max_start, s'))
   }"

lemma op_set_blk_v1_eq: "op_set_blk_v1 = op_set_blk"
  by (intro ext) (simp add: op_set_blk_v1_def op_set_blk_def Let_def cong: if_cong)

end
