(* ===== verification/UfsV1Ops.thy ===== *)
theory UfsV1Ops
  imports UfsV1State
begin

text \<open>
  The operations of \<open>op.c\<close> of version 1.0 on paths and directories. A path names a file of the root directory or of
  a directory in it. \<^term>\<open>None\<close> is a run to which C gives no meaning, or one that does not end.
\<close>

section \<open>Memory\<close>

text \<open>
  The blocks and the entry that \<open>malloc\<close> returns without a value, and \<open>errno\<close>, which some functions return without
  setting it. \<open>malloc\<close> and \<open>strdup\<close> do not fail.
\<close>

datatype site_v1 = V1_open | V1_setattr | V1_create | V1_rm | V1_empty | V1_readdir | V1_read | V1_write

record heap_v1 =
  mem_v1 :: "site_v1 \<Rightarrow> buf"
  junk_v1 :: u_fs_file_directory
  errno :: int

section \<open>Paths\<close>

definition DOT :: byte where "DOT = 46"

text \<open>\<open>strchr\<close> of a character, with the string cut there: what lies before, and what lies behind if it occurs.\<close>

definition split_at :: "byte \<Rightarrow> byte list \<Rightarrow> byte list \<times> byte list option" where
  "split_at x w = (takeWhile (\<lambda>c. c \<noteq> x) w, if x \<in> set w then Some (tl (dropWhile (\<lambda>c. c \<noteq> x) w)) else None)"

section \<open>Looking up\<close>

text \<open>
  The loops over the entries of a directory: the entries begin at the positions 0, 28, 56, ... below \<open>size\<close>.
  A block has 18; a search that goes on behind them reads outside the block.
\<close>

definition entries_v1 :: "buf \<Rightarrow> nat" where
  "entries_v1 c = (unat (size_v1 c) + 27) div 28"

definition scan_v1 :: "(nat \<Rightarrow> bool) \<Rightarrow> buf \<Rightarrow> nat option option" where
  "scan_v1 P c = (case List.find P [0..<min (entries_v1 c) 18] of
     Some i \<Rightarrow> Some (Some i)
   | None \<Rightarrow> if 18 < entries_v1 c then None else Some None)"

text \<open>The entry of a name; without an extension in the path, that of the entry does not matter.\<close>

definition is_entry_v1 :: "buf \<Rightarrow> byte list \<Rightarrow> byte list option \<Rightarrow> nat \<Rightarrow> bool" where
  "is_entry_v1 c p q i \<longleftrightarrow> flag_v1 (get_dir_v1 c i) \<noteq> 0 \<and> fname_is c i p
     \<and> (case q of None \<Rightarrow> True | Some e \<Rightarrow> fext_is c i e)"

text \<open>What \<open>op_open\<close> does from its label \<open>file\<close> on.\<close>

definition open_file_v1 ::
  "buf \<Rightarrow> byte list \<Rightarrow> byte list option \<Rightarrow> u_fs_file_directory \<Rightarrow> (int \<times> u_fs_file_directory) option" where
  "open_file_v1 content p q attr = do {
     found \<leftarrow> scan_v1 (is_entry_v1 content p q) content;
     case found of
       None \<Rightarrow> Some (- 1, attr)
     | Some i \<Rightarrow> do {
         let dirent = get_dir_v1 content i;
         w \<leftarrow> c_str (fname_v1 dirent);
         e \<leftarrow> c_str (fext_v1 dirent);
         Some (0, attr\<lparr>fname_v1 := strcpy_over (fname_v1 attr) w, fext_v1 := strcpy_over (fext_v1 attr) e,
            fsize_v1 := fsize_v1 dirent, nStartBlock_v1 := nStartBlock_v1 dirent, flag_v1 := flag_v1 dirent\<rparr>)
       }
   }"

text \<open>
  For \<open>"/"\<close> only \<open>flag\<close> and \<open>nStartBlock\<close> of the result are set. When no directory is found the test for it compares
  the position with \<open>size\<close>; it misses if \<open>size\<close> is not a multiple of 28, and the root block is searched instead.
\<close>

definition op_open_v1 ::
  "heap_v1 \<Rightarrow> ufs \<Rightarrow> byte list \<Rightarrow> u_fs_file_directory \<Rightarrow> (int \<times> u_fs_file_directory) option" where
  "op_open_v1 h s org_path attr = do {
     (r, content) \<leftarrow> op_read_blk_v1 s 0 (mem_v1 h V1_open);
     if r = - 1 then Some (- 1, attr)
     else let start_blk = ld32 content 4 in
     if org_path = [SLASH] then Some (0, attr\<lparr>flag_v1 := 2, nStartBlock_v1 := start_blk\<rparr>)
     else case org_path of
       [] \<Rightarrow> None
     | c # p0 \<Rightarrow> do {
         let (dir0, behind) = split_at SLASH p0;
         let (p, q) = split_at DOT (case behind of None \<Rightarrow> p0 | Some w \<Rightarrow> w);
         (r1, content) \<leftarrow> op_read_blk_v1 s (sint start_blk) content;
         if r1 = - 1 then Some (- 1, attr)
         else if behind = None \<and> c = SLASH then open_file_v1 content p q attr
         else do {
           let dir_name = (if behind = None then c # p else dir0);
           found \<leftarrow> scan_v1 (\<lambda>i. fname_is content i dir_name \<and> flag_v1 (get_dir_v1 content i) = 2) content;
           if found = None \<and> 28 * entries_v1 content = unat (size_v1 content) then Some (- 1, attr)
           else do {
             let dir_blk = (case found of None \<Rightarrow> start_blk | Some i \<Rightarrow> nStartBlock_v1 (get_dir_v1 content i));
             (r2, content) \<leftarrow> op_read_blk_v1 s (sint dir_blk) content;
             if r2 = - 1 then Some (- 1, attr) else open_file_v1 content p q attr
           }
         }
       }
   }"

section \<open>Changing an entry\<close>

text \<open>The directory and the name that \<open>op_setattr\<close> and \<open>op_create\<close> take from a path.\<close>

definition parent_v1 :: "byte list \<Rightarrow> (byte list \<times> byte list \<times> bool) option" where
  "parent_v1 path = (case path of
     [] \<Rightarrow> None
   | c # p0 \<Rightarrow> (case split_at SLASH p0 of
       (dir0, Some p) \<Rightarrow> Some (c # dir0, p, True)
     | (dir0, None) \<Rightarrow> Some ([SLASH], p0, False)))"

text \<open>If the entry is not found, the variable \<open>res\<close> that is returned was never given a value.\<close>

definition op_setattr_v1 :: "heap_v1 \<Rightarrow> ufs \<Rightarrow> byte list \<Rightarrow> u_fs_file_directory \<Rightarrow> (int \<times> ufs) option" where
  "op_setattr_v1 h s org_path attr = do {
     (dir_path, p0, sub) \<leftarrow> parent_v1 org_path;
     (r, a) \<leftarrow> op_open_v1 h s dir_path (junk_v1 h);
     if r = - 1 then Some (- 2, s)
     else do {
       let (p, q) = split_at DOT p0;
       let start_blk = sint (nStartBlock_v1 a);
       if start_blk = - 1 then Some (- 1, s)
       else do {
         (r1, content) \<leftarrow> op_read_blk_v1 s start_blk (mem_v1 h V1_setattr);
         if r1 = - 1 then Some (- 1, s)
         else do {
           found \<leftarrow> scan_v1 (is_entry_v1 content p q) content;
           case found of
             None \<Rightarrow> None
           | Some i \<Rightarrow> do {
               w \<leftarrow> c_str (fname_v1 attr);
               e \<leftarrow> c_str (fext_v1 attr);
               let dirent = get_dir_v1 content i;
               (r2, s1) \<leftarrow> op_write_blk_v1 s start_blk (put_dir_v1 content i
                  (attr\<lparr>fname_v1 := strcpy_over (fname_v1 dirent) w, fext_v1 := strcpy_over (fext_v1 dirent) e\<rparr>));
               Some (if r2 = - 1 then - 1 else 0, s1)
             }
         }
       }
     }
   }"

section \<open>Creating\<close>

text \<open>\<open>strcpy\<close> of the name over the entry, and of the extension, if a file has one.\<close>

definition new_entry_v1 ::
  "byte list \<Rightarrow> byte list option \<Rightarrow> int \<Rightarrow> int \<Rightarrow> u_fs_file_directory \<Rightarrow> u_fs_file_directory" where
  "new_entry_v1 p q flag blk e = e\<lparr>fname_v1 := strcpy_over (fname_v1 e) p,
     fext_v1 := (case q of None \<Rightarrow> fext_v1 e | Some x \<Rightarrow> strcpy_over (fext_v1 e) x),
     fsize_v1 := 0, nStartBlock_v1 := word_of_int blk, flag_v1 := word_of_int flag\<rparr>"

definition exists_v1 :: "buf \<Rightarrow> byte list \<Rightarrow> byte list option \<Rightarrow> int \<Rightarrow> nat \<Rightarrow> bool" where
  "exists_v1 c p q flag i \<longleftrightarrow>
     flag = 1 \<and> flag_v1 (get_dir_v1 c i) = 1 \<and> fname_is c i p \<and> fext_is c i (case q of None \<Rightarrow> [] | Some e \<Rightarrow> e)
     \<or> flag = 2 \<and> flag_v1 (get_dir_v1 c i) = 2 \<and> fname_is c i p"

text \<open>The block of a new file or directory: that of its directory, with size 0, no successor, and a 0 as its first byte.\<close>

definition first_block_v1 :: "buf \<Rightarrow> buf" where
  "first_block_v1 c = (set_next_v1 (set_size_v1 c 0) (- 1))(8 := 0)"

text \<open>
  \<open>position\<close> is changed only for the flag 0, which no caller passes; with it the last loop would not end. An entry
  behind the block cannot be written, and at the label \<open>new_blk\<close> the pointer \<open>temp\<close> has no value.
\<close>

definition op_create_v1 :: "heap_v1 \<Rightarrow> ufs \<Rightarrow> byte list \<Rightarrow> int \<Rightarrow> (int \<times> ufs) option" where
  "op_create_v1 h s org_path flag = do {
     (dir_path, p0, sub) \<leftarrow> parent_v1 org_path;
     if flag = 2 \<and> sub then Some (- 1, s)
     else do {
       (r, attr) \<leftarrow> op_open_v1 h s dir_path (junk_v1 h);
       if r = - 1 then Some (- 2, s)
       else do {
         let (p, q) = (if flag = 1 then split_at DOT p0 else (p0, None));
         if (flag = 1 \<or> flag = 2) \<and> MAX_FILENAME_V1 < length p
            \<or> flag = 1 \<and> (case q of None \<Rightarrow> False | Some e \<Rightarrow> MAX_EXTENSION < length e)
         then Some (- 36, s)
         else if sint (nStartBlock_v1 attr) = - 1 then Some (- 2, s)
         else do {
           let p_dir = sint (nStartBlock_v1 attr);
           (r1, content) \<leftarrow> op_read_blk_v1 s p_dir (mem_v1 h V1_create);
           if r1 = - 1 then Some (- 2, s)
           else do {
             found \<leftarrow> scan_v1 (exists_v1 content p q flag) content;
             if found \<noteq> None then Some (- 17, s)
             else do {
               let n = entries_v1 content;
               let position = (if flag = 0 \<and> 0 < n then 28 * (n - 1) else unat (size_v1 content));
               (content, i) \<leftarrow>
                 (if position = unat (size_v1 content)
                  then if MAX_DATA_V1 < unat (size_v1 content) then None
                       else Some (set_size_v1 content (size_v1 content + 28), n)
                  else if position = 0 then Some (content, 0)
                  else None);
               if 18 \<le> i then None
               else do {
                 (num, temp, s1) \<leftarrow> op_search_free_blk_v1 s 1;
                 if num \<noteq> 1 then Some (- errno h, s1)
                 else do {
                   let content = put_dir_v1 content i (new_entry_v1 p q flag temp (get_dir_v1 content i));
                   (r2, s2) \<leftarrow> op_write_blk_v1 s1 p_dir content;
                   (r3, s3) \<leftarrow> op_write_blk_v1 s2 (sint (nStartBlock_v1 (get_dir_v1 content i))) (first_block_v1 content);
                   Some (0, s3)
                 }
               }
             }
           }
         }
       }
     }
   }"

section \<open>Removing\<close>

text \<open>The results of \<open>op_set_blk\<close> and \<open>op_read_blk\<close> are not looked at.\<close>

partial_function (option) free_chain_v1 :: "ufs \<Rightarrow> int \<Rightarrow> buf \<Rightarrow> ufs option" where
  "free_chain_v1 s next_blk content =
     (if next_blk = - 1 then Some s
      else case op_set_blk_v1 s next_blk 0 of
             None \<Rightarrow> None
           | Some (r, s1) \<Rightarrow>
               (case op_read_blk_v1 s1 next_blk content of
                  None \<Rightarrow> None
                | Some (r1, content1) \<Rightarrow> free_chain_v1 s1 (next_v1 content1) content1))"

definition is_empty_dir_v1 :: "heap_v1 \<Rightarrow> ufs \<Rightarrow> byte list \<Rightarrow> bool option" where
  "is_empty_dir_v1 h s path = do {
     (r, attr) \<leftarrow> op_open_v1 h s path (junk_v1 h);
     if r = - 1 then Some False
     else if flag_v1 attr = 1 then Some False
     else do {
       (r1, content) \<leftarrow> op_read_blk_v1 s (sint (nStartBlock_v1 attr)) (mem_v1 h V1_empty);
       if r1 \<noteq> 0 then Some False
       else do {
         found \<leftarrow> scan_v1 (\<lambda>i. flag_v1 (get_dir_v1 content i) \<noteq> 0) content;
         Some (found = None)
       }
     }
   }"

definition op_rm_v1 :: "heap_v1 \<Rightarrow> ufs \<Rightarrow> byte list \<Rightarrow> int \<Rightarrow> (int \<times> ufs) option" where
  "op_rm_v1 h s org_path flag = do {
     (r, attr) \<leftarrow> op_open_v1 h s org_path (junk_v1 h);
     if r = - 1 then Some (- 2, s)
     else if flag = 1 \<and> flag_v1 attr = 2 then Some (- 21, s)
     else if flag = 2 \<and> flag_v1 attr = 1 then Some (- 20, s)
     else do {
       em \<leftarrow> (if flag = 1 then Some True else is_empty_dir_v1 h s org_path);
       if \<not> em then Some (- 39, s)
       else do {
         s1 \<leftarrow> (if flag = 1 then free_chain_v1 s (sint (nStartBlock_v1 attr)) (mem_v1 h V1_rm) else Some s);
         (r2, s2) \<leftarrow> op_setattr_v1 h s1 org_path (attr\<lparr>flag_v1 := 0\<rparr>);
         Some (if r2 = - 1 then - 1 else 0, s2)
       }
     }
   }"

end
