(* ===== verification/UfsV1Fuse.thy ===== *)
theory UfsV1Fuse
  imports UfsV1Ops
begin

text \<open>
  The callbacks of \<open>ufs.c\<close> of version 1.0 over the operations of \<open>op.c\<close>, and the formatting program \<open>init.c\<close>.
  Sizes that the code keeps in \<open>int\<close> variables are below \<open>2^31\<close>.
\<close>

section \<open>Formatting\<close>

text \<open>\<open>main\<close> of \<open>init.c\<close>: of the root block only the first byte of the data is set, \<open>block0\<close> is what \<open>malloc\<close> gave.\<close>

definition init_main_v1 :: "buf \<Rightarrow> ufs \<Rightarrow> int \<times> ufs" where
  "init_main_v1 block0 s =
     (let s1 = write_image 0 (le_bytes 4 (of_nat (image_len s div 512) :: 32 word)
                 @ le_bytes 4 (of_nat (1 + MAX_BITMAP_IN_BLOCK) :: 32 word) @ le_bytes 4 (of_nat MAX_BITMAP_IN_BLOCK :: 32 word)) s;
          s2 = write_image 512 (replicate 180 0xFF) s1;
          s3 = write_image 692 (le_bytes 4 (0x80000000 :: 32 word)) s2;
          s4 = write_image 696 (replicate 328 0) s3;
          s5 = write_image 1024 (replicate ((MAX_BITMAP_IN_BLOCK - 1) * 512) 0) s4;
          s6 = write_image (512 * (MAX_BITMAP_IN_BLOCK + 1))
                 (load_bytes ((set_next_v1 (set_size_v1 block0 0) (- 1))(8 := 0)) 0 512) s5
      in (0, s6))"

definition u_fs_init_v1 :: "ufs \<Rightarrow> ufs" where
  "u_fs_init_v1 s = s\<lparr>max_filesystem_in_block := sint (ld32 (image s) 0)\<rparr>"

section \<open>Attributes and directories\<close>

text \<open>The mode and the size that \<open>stbuf\<close> gets.\<close>

definition u_fs_getattr_v1 :: "heap_v1 \<Rightarrow> ufs \<Rightarrow> byte list \<Rightarrow> (int \<times> 32 word \<times> 32 word) option" where
  "u_fs_getattr_v1 h s path = do {
     (r, attr) \<leftarrow> op_open_v1 h s path (junk_v1 h);
     if r = - 1 then Some (- 2, 0, 0)
     else if flag_v1 attr = 2 then Some (0, 0x4000 OR 0x1B6, 0)
     else if flag_v1 attr = 1 then Some (0, 0x8000 OR 0x1B6, fsize_v1 attr)
     else Some (0, 0, 0)
   }"

text \<open>
  The names \<open>filler\<close> gets; \<open>full\<close> says, from the number of names it has, whether it refuses the next. The name and,
  if there is one, a dot and the extension are copied to an array of 13 characters first.
\<close>

definition shown_name_v1 :: "u_fs_file_directory \<Rightarrow> byte list option" where
  "shown_name_v1 e = do {
     w \<leftarrow> c_str (fname_v1 e);
     x \<leftarrow> c_str (fext_v1 e);
     Some (if x = [] then w else w @ DOT # x)
   }"

definition readdir_names_v1 :: "(nat \<Rightarrow> bool) \<Rightarrow> buf \<Rightarrow> byte list list \<Rightarrow> byte list list option" where
  "readdir_names_v1 full content names = after_loop
     (for_loop 0 (entries_v1 content) (\<lambda>i names.
        if 18 \<le> i then None
        else do {
          name \<leftarrow> shown_name_v1 (get_dir_v1 content i);
          Some (if flag_v1 (get_dir_v1 content i) \<noteq> 0
                then (if full (length names) then Break names else Next (names @ [name]))
                else Next names)
        }) names)
     Some"

definition u_fs_readdir_v1 :: "heap_v1 \<Rightarrow> ufs \<Rightarrow> (nat \<Rightarrow> bool) \<Rightarrow> byte list \<Rightarrow> (int \<times> byte list list) option" where
  "u_fs_readdir_v1 h s full path = do {
     (r, attr) \<leftarrow> op_open_v1 h s path (junk_v1 h);
     if r = - 1 then Some (- 2, [])
     else if flag_v1 attr = 1 then Some (- 2, [])
     else do {
       (r1, content) \<leftarrow> op_read_blk_v1 s (sint (nStartBlock_v1 attr)) (mem_v1 h V1_readdir);
       if r1 \<noteq> 0 then Some (- 2, [])
       else do {
         names \<leftarrow> readdir_names_v1 full content ((if full 0 then [] else [[DOT]]) @ (if full 1 then [] else [[DOT, DOT]]));
         Some (0, names)
       }
     }
   }"

definition u_fs_open_v1 :: "heap_v1 \<Rightarrow> ufs \<Rightarrow> byte list \<Rightarrow> int option" where
  "u_fs_open_v1 h s path = map_option (\<lambda>(r, _). if r = - 1 then - errno h else 0) (op_open_v1 h s path (junk_v1 h))"

definition u_fs_mkdir_v1 :: "heap_v1 \<Rightarrow> ufs \<Rightarrow> byte list \<Rightarrow> (int \<times> ufs) option" where
  "u_fs_mkdir_v1 h s path = op_create_v1 h s path 2"

definition u_fs_rmdir_v1 :: "heap_v1 \<Rightarrow> ufs \<Rightarrow> byte list \<Rightarrow> (int \<times> ufs) option" where
  "u_fs_rmdir_v1 h s path = op_rm_v1 h s path 2"

definition u_fs_mknod_v1 :: "heap_v1 \<Rightarrow> ufs \<Rightarrow> byte list \<Rightarrow> (int \<times> ufs) option" where
  "u_fs_mknod_v1 h s path = op_create_v1 h s path 1"

definition u_fs_unlink_v1 :: "heap_v1 \<Rightarrow> ufs \<Rightarrow> byte list \<Rightarrow> (int \<times> ufs) option" where
  "u_fs_unlink_v1 h s path = op_rm_v1 h s path 1"

definition u_fs_truncate_v1 :: "byte list \<Rightarrow> int \<Rightarrow> int" where
  "u_fs_truncate_v1 path sz = 0"

definition u_fs_flush_v1 :: "byte list \<Rightarrow> int" where
  "u_fs_flush_v1 path = 0"

section \<open>Reading\<close>

text \<open>The string that begins at an offset of a block; without a 0 behind it the copy leaves the block.\<close>

definition block_str :: "buf \<Rightarrow> nat \<Rightarrow> byte list option" where
  "block_str c off = c_str (load_bytes c off (512 - off))"

text \<open>
  The loop behind the first block: \<open>strcat\<close> of the data of each block. \<open>cap\<close> is the room of \<open>buf\<close>; a string that does
  not fit it with its 0 is written outside.
\<close>

partial_function (option) read_rest_v1 :: "ufs \<Rightarrow> nat \<Rightarrow> buf \<Rightarrow> int \<Rightarrow> byte list \<Rightarrow> byte list option" where
  "read_rest_v1 s cap content temp out =
     (if temp \<le> 0 then Some out
      else case op_read_blk_v1 s (next_v1 content) content of
             None \<Rightarrow> None
           | Some (r, content1) \<Rightarrow>
               if r = - 1 then Some out
               else (case block_str content1 8 of
                       None \<Rightarrow> None
                     | Some w \<Rightarrow>
                         if cap < length out + length w + 1 then None
                         else read_rest_v1 s cap content1 (to_int (temp - uint (size_v1 content1))) (out @ w)))"

text \<open>The result is the returned size and the string in \<open>buf\<close>.\<close>

definition u_fs_read_v1 :: "heap_v1 \<Rightarrow> ufs \<Rightarrow> byte list \<Rightarrow> nat \<Rightarrow> nat \<Rightarrow> (int \<times> byte list) option" where
  "u_fs_read_v1 h s path size0 offset = do {
     (r, attr) \<leftarrow> op_open_v1 h s path (junk_v1 h);
     if r = - 1 then Some (- 2, [])
     else if flag_v1 attr = 2 then Some (- 21, [])
     else do {
       (r1, content) \<leftarrow> op_read_blk_v1 s (sint (nStartBlock_v1 attr)) (mem_v1 h V1_read);
       if r1 = - 1 then Some (- 1, [])
       else if 2 ^ 31 \<le> size0 then None
       else do {
         let sz = (if offset < unat (fsize_v1 attr)
                   then (if unat (fsize_v1 attr) < offset + size0 then unat (fsize_v1 attr) - offset else size0)
                   else 0);
         if MAX_DATA_V1 < offset then None
         else do {
           w \<leftarrow> block_str content (8 + offset);
           if size0 < length w + 1 then None
           else do {
             out \<leftarrow> read_rest_v1 s size0 content (to_int (int sz - uint (size_v1 content))) w;
             Some (int sz, out)
           }
         }
       }
     }
   }"

section \<open>Writing\<close>

text \<open>\<open>strncpy\<close>: the characters up to a 0, then zeros up to the number.\<close>

definition strncpy_bytes :: "byte list \<Rightarrow> nat \<Rightarrow> byte list" where
  "strncpy_bytes w n = (let u = takeWhile (\<lambda>x. x \<noteq> 0) (take n w) in u @ replicate (n - length u) 0)"

text \<open>The loop that looks for the block where the offset lies: the code, the rest of the offset, the block and its contents.\<close>

partial_function (option) write_seek_v1 :: "ufs \<Rightarrow> nat \<Rightarrow> int \<Rightarrow> buf \<Rightarrow> (int \<times> nat \<times> int \<times> buf) option" where
  "write_seek_v1 s offset start_blk content =
     (case op_read_blk_v1 s start_blk content of
        None \<Rightarrow> None
      | Some (r, content1) \<Rightarrow>
          if r = - 1 then Some (- 1, offset, start_blk, content1)
          else if offset \<le> unat (size_v1 content1) then Some (0, offset, start_blk, content1)
          else write_seek_v1 s (offset - unat (size_v1 content1)) (next_v1 content1) content1)"

text \<open>One round of \<open>num\<close> blocks, each pointing to the next number; the result of \<open>op_write_blk\<close> is not looked at.\<close>

definition fill_blocks_v1 :: "nat \<Rightarrow> int \<times> byte list \<times> buf \<times> ufs \<Rightarrow> (int \<times> byte list \<times> buf \<times> ufs) option" where
  "fill_blocks_v1 num st = after_loop
     (for_loop 0 num (\<lambda>i (next_blk, rest, content, s).
        let ret = min MAX_DATA_V1 (length rest);
            content1 = store_bytes (set_size_v1 content (of_nat ret)) 8 (strncpy_bytes rest ret);
            rest' = drop ret rest;
            content2 = set_next_v1 content1 (if rest' = [] then - 1 else next_blk + 1)
        in do {
             (r, s1) \<leftarrow> op_write_blk_v1 s next_blk content2;
             Some (Next (next_blk + 1, rest', content2, s1))
           }) st)
     Some"

text \<open>When no free block is left, \<open>num\<close> is 0 and the loop goes round forever.\<close>

partial_function (option) write_rest_v1 :: "nat \<Rightarrow> int \<times> byte list \<times> buf \<times> ufs \<Rightarrow> (int \<times> ufs) option" where
  "write_rest_v1 num st =
     (case fill_blocks_v1 num st of
        None \<Rightarrow> None
      | Some (next_blk, rest, content, s) \<Rightarrow>
          if rest = [] then Some (0, s)
          else (case op_search_free_blk_v1 s (to_int (int (length rest div MAX_DATA_V1 + 1))) of
                  None \<Rightarrow> None
                | Some (num', next_blk', s') \<Rightarrow>
                    if num' = - 1 then Some (- 1, s') else write_rest_v1 (nat num') (next_blk', rest, content, s')))"

text \<open>
  The result of \<open>op_open\<close> is not looked at: for a missing file \<open>attr\<close> is what \<open>malloc\<close> gave. The size of the block
  grows by what is written, also over bytes it had, and the blocks behind it are dropped.
\<close>

definition u_fs_write_v1 :: "heap_v1 \<Rightarrow> ufs \<Rightarrow> byte list \<Rightarrow> byte list \<Rightarrow> nat \<Rightarrow> (int \<times> ufs) option" where
  "u_fs_write_v1 h s path text0 org_offset = do {
     (r, attr) \<leftarrow> op_open_v1 h s path (junk_v1 h);
     if sint (nStartBlock_v1 attr) = - 1 then Some (- errno h, s)
     else if unat (fsize_v1 attr) < org_offset then Some (- 27, s)
     else if 2 ^ 31 \<le> length text0 + org_offset then None
     else do {
       (r1, offset, start_blk, content) \<leftarrow> write_seek_v1 s org_offset (sint (nStartBlock_v1 attr)) (mem_v1 h V1_write);
       if r1 = - 1 then Some (- errno h, s)
       else if MAX_DATA_V1 < offset then None
       else do {
         let ret = min (MAX_DATA_V1 - offset) (length text0);
         let content1 = store_bytes content (8 + offset) (strncpy_bytes text0 ret);
         let content2 = set_size_v1 content1 (size_v1 content1 + of_nat ret);
         let rest = drop ret text0;
         (r2, s2) \<leftarrow>
           (if rest \<noteq> []
            then do {
              (num, next_blk, s2) \<leftarrow> op_search_free_blk_v1 s (to_int (int (length rest div MAX_DATA_V1 + 1)));
              if num = - 1 then Some (- 1, s2)
              else do {
                let content3 = set_next_v1 content2 next_blk;
                (r', s3) \<leftarrow> op_write_blk_v1 s2 start_blk content3;
                write_rest_v1 (nat num) (next_blk, rest, content3, s3)
              }
            }
            else do {
              let content3 = set_next_v1 content2 (- 1);
              (r', s3) \<leftarrow> op_write_blk_v1 s start_blk content3;
              s4 \<leftarrow> free_chain_v1 s3 (next_v1 content2) content3;
              Some (0, s4)
            });
         if r2 = - 1 then Some (- errno h, s2)
         else do {
           (r3, s3) \<leftarrow> op_setattr_v1 h s2 path (attr\<lparr>fsize_v1 := of_nat (org_offset + length text0)\<rparr>);
           Some (if r3 = - 1 then - errno h else int (length text0), s3)
         }
       }
     }
   }"

end
