(* ===== verification/UfsV1Facts.thy ===== *)
theory UfsV1Facts
  imports UfsV1Fuse
begin

text \<open>
  Facts about version 1.0 of the UFS: what reading and writing a block does to the image, a directory as the list of
  its entries, the directory a path denotes, and looking up a name in it.
\<close>

section \<open>Blocks of the image\<close>

text \<open>Block \<open>b\<close> lies within the image, and its offset does not overflow.\<close>

definition inside_v1 :: "ufs \<Rightarrow> nat \<Rightarrow> bool" where
  "inside_v1 s b \<longleftrightarrow> inside s b \<and> b < 4194304"

lemma range_int [simp]: "b < 4194304 \<Longrightarrow> blk_range (int b)"
  by (simp add: blk_range_def)

lemma read_blk_v1 [simp]: "inside_v1 s b \<Longrightarrow> op_read_blk_v1 s (int b) c = Some (0, over (blk_at s b) c)"
  by (auto simp: op_read_blk_v1_def inside_v1_def inside_def blk_at_def over_def)

lemma write_blk_v1: "b < 4194304 \<Longrightarrow> op_write_blk_v1 s (int b) c = Some (op_write_blk s (int b) c)"
  by (simp add: op_write_blk_v1_def op_write_blk_def)

lemma write_blk_v1_spec:
  assumes "b < 4194304"
  shows "\<exists>s'. op_write_blk_v1 s (int b) c = Some (0, s') \<and> op_write_blk s (int b) c = (0, s')"
  using write_blk_int [of s b c] by (auto simp: write_blk_v1 [OF assms])

lemma blk_at_write:
  assumes "op_write_blk s (int p) c = (r, s')" and "b \<noteq> p" and "inside s b" and "a < 512"
  shows "blk_at s' b a = blk_at s b a"
proof -
  have "512 * b + a < 512 * p \<or> 512 * p + 512 \<le> 512 * b + a" using assms(2,4) by linarith
  moreover have "512 * b + a < image_len s" using assms(3,4) by (simp add: inside_def)
  ultimately show ?thesis using write_blk_image(6) [OF assms(1)] by (simp add: blk_at_def)
qed

lemma sint_blk: "b < 4194304 \<Longrightarrow> sint (of_nat b :: 32 word) = int b"
  using sint_word_of_int_id [of "int b", where 'a = 32] by simp

lemma ld32_cong: "(\<And>a. off \<le> a \<Longrightarrow> a < off + 4 \<Longrightarrow> c a = d a) \<Longrightarrow> ld32 c off = ld32 d off"
  unfolding ld32_def by (rule arg_cong [where f = le_word], rule load_cong) auto

lemma fields_over [simp]:
  "size_v1 (over b c) = size_v1 b" "next_v1 (over b c) = next_v1 b"
  by (auto simp: size_v1_def next_v1_def over_def intro!: ld32_cong arg_cong [where f = sint])

lemma dir_over_v1 [simp]: "i < 18 \<Longrightarrow> get_dir_v1 (over b c) i = get_dir_v1 b i"
  by (rule dir_v1_cong) (simp add: over_def slot_v1_def)

section \<open>A directory as the list of its entries\<close>

definition dir_ok_v1 :: "ufs \<Rightarrow> nat \<Rightarrow> nat \<Rightarrow> bool" where
  "dir_ok_v1 s b n \<longleftrightarrow> inside_v1 s b \<and> n \<le> 18 \<and> size_v1 (blk_at s b) = of_nat (28 * n)"

definition dir_list_v1 :: "ufs \<Rightarrow> nat \<Rightarrow> nat \<Rightarrow> u_fs_file_directory list" where
  "dir_list_v1 s b n = map (get_dir_v1 (blk_at s b)) [0..<n]"

lemma length_dir_list_v1 [simp]: "length (dir_list_v1 s b n) = n"
  by (simp add: dir_list_v1_def)

lemma nth_dir_list_v1 [simp]: "i < n \<Longrightarrow> dir_list_v1 s b n ! i = get_dir_v1 (blk_at s b) i"
  by (simp add: dir_list_v1_def)

text \<open>An entry has a name, and an extension if one is asked for.\<close>

definition holds_str :: "byte list \<Rightarrow> byte list \<Rightarrow> bool" where
  "holds_str bs w \<longleftrightarrow> take (length w + 1) bs = w @ [0]"

definition matches_v1 :: "byte list \<Rightarrow> byte list option \<Rightarrow> u_fs_file_directory \<Rightarrow> bool" where
  "matches_v1 p q e \<longleftrightarrow> flag_v1 e \<noteq> 0 \<and> holds_str (fname_v1 e) p
     \<and> (case q of None \<Rightarrow> True | Some x \<Rightarrow> holds_str (fext_v1 e) x)"

lemma matches_fsize [simp]: "matches_v1 p q (e\<lparr>fsize_v1 := z\<rparr>) = matches_v1 p q e"
  by (simp add: matches_v1_def split: option.split)

lemma fname_is_entry: "length w \<le> 8 \<Longrightarrow> fname_is c i w \<longleftrightarrow> holds_str (fname_v1 (get_dir_v1 c i)) w"
  by (simp add: fname_is_def holds_str_def get_dir_v1_def load_bytes_def take_map)

lemma fext_is_entry: "length w \<le> 3 \<Longrightarrow> fext_is c i w \<longleftrightarrow> holds_str (fext_v1 (get_dir_v1 c i)) w"
  by (simp add: fext_is_def holds_str_def get_dir_v1_def load_bytes_def take_map)

text \<open>Names of at most 8 characters, extensions of at most 3.\<close>

definition short_v1 :: "byte list \<Rightarrow> byte list option \<Rightarrow> bool" where
  "short_v1 p q \<longleftrightarrow> length p \<le> 8 \<and> 0 \<notin> set p \<and> (case q of None \<Rightarrow> True | Some x \<Rightarrow> length x \<le> 3 \<and> 0 \<notin> set x)"

lemma is_entry_matches: "short_v1 p q \<Longrightarrow> is_entry_v1 c p q i \<longleftrightarrow> matches_v1 p q (get_dir_v1 c i)"
  by (auto simp: is_entry_v1_def matches_v1_def short_v1_def fname_is_entry fext_is_entry split: option.splits)

lemma holds_strcpy [simp]: "holds_str (strcpy_over old w) w"
  by (simp add: holds_str_def strcpy_over_def)

lemma length_strcpy [simp]: "length w < length old \<Longrightarrow> length (strcpy_over old w) = length old"
  by (simp add: strcpy_over_def)

lemma c_str_holds: "holds_str bs w \<Longrightarrow> 0 \<notin> set w \<Longrightarrow> c_str bs = Some w"
proof -
  assume a: "holds_str bs w" "0 \<notin> set w"
  then have b: "bs = w @ 0 # drop (length w + 1) bs"
    by (metis append_take_drop_id append_Cons append_Nil append_assoc holds_str_def)
  have "takeWhile (\<lambda>x. x \<noteq> 0) (w @ 0 # drop (length w + 1) bs) = w"
    using a(2) by (subst takeWhile_append2) auto
  with b show ?thesis unfolding c_str_def by (metis in_set_conv_decomp)
qed

lemma find_map_index: "List.find P (map f xs) = map_option f (List.find (\<lambda>i. P (f i)) xs)"
  by (induction xs) auto

text \<open>The loops over the entries are searches of the list.\<close>

lemma entries_dir: "size_v1 c = of_nat (28 * n) \<Longrightarrow> n \<le> 18 \<Longrightarrow> entries_v1 c = n"
proof -
  assume a: "size_v1 c = of_nat (28 * n)" "n \<le> 18"
  have "unat (of_nat (28 * n) :: 32 word) = 28 * n" by (subst unat_of_nat) (use a(2) in simp)
  with a(1) have "unat (size_v1 c) = 28 * n" by (simp only:)
  moreover have "(28 * n + 27) div 28 = n" by simp
  ultimately show ?thesis by (simp add: entries_v1_def)
qed

lemma scan_dir_v1:
  assumes "dir_ok_v1 s b n" and "\<And>i. i < n \<Longrightarrow> P i \<longleftrightarrow> Q (get_dir_v1 (blk_at s b) i)"
  shows "scan_v1 P (over (blk_at s b) c) = Some (List.find (\<lambda>i. Q (get_dir_v1 (blk_at s b) i)) [0..<n])"
proof -
  have n: "n \<le> 18" "entries_v1 (over (blk_at s b) c) = n"
    using assms(1) entries_dir [of "over (blk_at s b) c" n] by (auto simp: dir_ok_v1_def)
  have "List.find P [0..<n] = List.find (\<lambda>i. Q (get_dir_v1 (blk_at s b) i)) [0..<n]"
    by (rule find_cong) (use assms(2) in auto)
  with n show ?thesis by (simp add: scan_v1_def min_absorb1 split: option.split)
qed

lemma find_dir_list:
  "List.find Q (dir_list_v1 s b n) =
    map_option (get_dir_v1 (blk_at s b)) (List.find (\<lambda>i. Q (get_dir_v1 (blk_at s b) i)) [0..<n])"
  by (simp add: dir_list_v1_def find_map_index)

section \<open>Paths\<close>

abbreviation root_v1 :: "ufs \<Rightarrow> buf" where "root_v1 s \<equiv> blk_at s 1281"

text \<open>The super block points to block 1281, which holds the root directory.\<close>

definition root_ok_v1 :: "ufs \<Rightarrow> nat \<Rightarrow> bool" where
  "root_ok_v1 s n \<longleftrightarrow> ld32 (image s) 4 = 1281 \<and> dir_ok_v1 s 1281 n"

text \<open>
  The directory a path leads to: the root, or a directory of the root whose name is the first of all entries with
  that name and has no dot; \<open>b\<close> is its block.
\<close>

inductive dir_at_v1 :: "ufs \<Rightarrow> byte list \<Rightarrow> nat \<Rightarrow> bool" for s where
  root: "dir_at_v1 s [SLASH] 1281"
| sub: "List.find (\<lambda>i. matches_v1 d None (get_dir_v1 (root_v1 s) i)) [0..<n] = Some i \<Longrightarrow> root_ok_v1 s n \<Longrightarrow>
     flag_v1 (get_dir_v1 (root_v1 s) i) = 2 \<Longrightarrow> nStartBlock_v1 (get_dir_v1 (root_v1 s) i) = of_nat b \<Longrightarrow>
     0 \<in> set (fext_v1 (get_dir_v1 (root_v1 s) i)) \<Longrightarrow> short_v1 d None \<Longrightarrow> d \<noteq> [] \<Longrightarrow> SLASH \<notin> set d \<Longrightarrow> DOT \<notin> set d \<Longrightarrow>
     inside_v1 s b \<Longrightarrow> 1281 < b \<Longrightarrow> dir_at_v1 s (SLASH # d) b"

text \<open>The path of a name in a directory.\<close>

definition in_dir_v1 :: "byte list \<Rightarrow> byte list \<Rightarrow> byte list" where
  "in_dir_v1 d w = (if d = [SLASH] then SLASH # w else d @ SLASH # w)"

text \<open>A name of a file: a part of at most 8 characters and, behind a dot, an extension of at most 3.\<close>

definition name_v1 :: "byte list \<Rightarrow> byte list \<Rightarrow> byte list option \<Rightarrow> bool" where
  "name_v1 w p q \<longleftrightarrow> split_at DOT w = (p, q) \<and> w \<noteq> [] \<and> SLASH \<notin> set w \<and> short_v1 p q"

lemma split_no [simp]: "x \<notin> set w \<Longrightarrow> split_at x w = (w, None)"
  by (auto simp: split_at_def takeWhile_eq_all_conv)

lemma split_mid [simp]: "x \<notin> set u \<Longrightarrow> split_at x (u @ x # w) = (u, Some w)"
  by (auto simp: split_at_def takeWhile_append dropWhile_append)

lemma super_first_blk:
  assumes "root_ok_v1 s n"
  shows "op_read_blk_v1 s 0 c = Some (0, over (blk_at s 0) c)" and "ld32 (over (blk_at s 0) c) 4 = 1281"
    and "op_read_blk_v1 s 1281 c = Some (0, over (root_v1 s) c)"
proof -
  have i: "inside_v1 s 0" "inside_v1 s 1281" using assms by (auto simp: root_ok_v1_def dir_ok_v1_def inside_v1_def inside_def)
  show "op_read_blk_v1 s 0 c = Some (0, over (blk_at s 0) c)" using read_blk_v1 [OF i(1)] by simp
  show "op_read_blk_v1 s 1281 c = Some (0, over (root_v1 s) c)" using read_blk_v1 [OF i(2)] by simp
  have "ld32 (over (blk_at s 0) c) 4 = ld32 (image s) 4" by (rule ld32_cong) (simp add: over_def blk_at_def)
  then show "ld32 (over (blk_at s 0) c) 4 = 1281" using assms by (simp add: root_ok_v1_def)
qed

lemma open_root_v1:
  "root_ok_v1 s n \<Longrightarrow> op_open_v1 h s [SLASH] attr = Some (0, attr\<lparr>flag_v1 := 2, nStartBlock_v1 := 1281\<rparr>)"
  by (simp add: op_open_v1_def super_first_blk Let_def)

text \<open>What \<open>op_open\<close> stores when it finds an entry.\<close>

definition opened_v1 :: "u_fs_file_directory \<Rightarrow> u_fs_file_directory \<Rightarrow> u_fs_file_directory" where
  "opened_v1 attr e = attr\<lparr>fname_v1 := strcpy_over (fname_v1 attr) (takeWhile (\<lambda>x. x \<noteq> 0) (fname_v1 e)),
     fext_v1 := strcpy_over (fext_v1 attr) (takeWhile (\<lambda>x. x \<noteq> 0) (fext_v1 e)),
     fsize_v1 := fsize_v1 e, nStartBlock_v1 := nStartBlock_v1 e, flag_v1 := flag_v1 e\<rparr>"

lemma in_opened [simp]:
  "fsize_v1 (opened_v1 attr e) = fsize_v1 e" "nStartBlock_v1 (opened_v1 attr e) = nStartBlock_v1 e"
  "flag_v1 (opened_v1 attr e) = flag_v1 e"
  by (simp_all add: opened_v1_def)

text \<open>All extensions end within their four bytes.\<close>

definition exts_end :: "u_fs_file_directory list \<Rightarrow> bool" where
  "exts_end es \<longleftrightarrow> (\<forall>e \<in> set es. 0 \<in> set (fext_v1 e))"

lemma holds_str_zero: "holds_str bs w \<Longrightarrow> 0 \<in> set bs"
  unfolding holds_str_def by (metis in_set_conv_decomp in_set_takeD)

lemma open_file_list:
  assumes d: "dir_ok_v1 s b n" and pq: "short_v1 p q"
    and ext: "\<And>i. i < n \<Longrightarrow> matches_v1 p q (get_dir_v1 (blk_at s b) i) \<Longrightarrow> 0 \<in> set (fext_v1 (get_dir_v1 (blk_at s b) i))"
  shows "open_file_v1 (over (blk_at s b) c) p q attr =
    Some (case List.find (matches_v1 p q) (dir_list_v1 s b n) of None \<Rightarrow> (- 1, attr) | Some e \<Rightarrow> (0, opened_v1 attr e))"
proof -
  have n: "n \<le> 18" using d by (simp add: dir_ok_v1_def)
  have sc: "scan_v1 (is_entry_v1 (over (blk_at s b) c) p q) (over (blk_at s b) c)
      = Some (List.find (\<lambda>i. matches_v1 p q (get_dir_v1 (blk_at s b) i)) [0..<n])"
    by (rule scan_dir_v1 [OF d]) (use n pq in \<open>simp add: is_entry_matches\<close>)
  show ?thesis
  proof (cases "List.find (\<lambda>i. matches_v1 p q (get_dir_v1 (blk_at s b) i)) [0..<n]")
    case None
    then show ?thesis by (simp add: open_file_v1_def sc find_dir_list)
  next
    case (Some i)
    from find_upt_Some [OF Some] have i: "i < n" "matches_v1 p q (get_dir_v1 (blk_at s b) i)" by auto
    from i(2) have "0 \<in> set (fname_v1 (get_dir_v1 (blk_at s b) i))" by (auto simp: matches_v1_def dest: holds_str_zero)
    with Some i ext [OF i] n show ?thesis
      by (simp add: open_file_v1_def sc find_dir_list c_str_def opened_v1_def Let_def)
  qed
qed

lemma open_root_file:
  assumes "root_ok_v1 s m" and "name_v1 w p q"
  shows "op_open_v1 h s (SLASH # w) attr = open_file_v1 (over (root_v1 s) (over (blk_at s 0) (mem_v1 h V1_open))) p q attr"
  using assms by (simp add: op_open_v1_def super_first_blk Let_def name_v1_def)

lemma open_in_dir_v1:
  assumes "root_ok_v1 s m" and "dir_at_v1 s d b" and "name_v1 w p q"
  shows "\<exists>c. op_open_v1 h s (in_dir_v1 d w) attr = open_file_v1 (over (blk_at s b) c) p q attr"
  using assms(2)
proof cases
  case root
  then show ?thesis using open_root_file [OF assms(1,3)] by (auto simp: in_dir_v1_def)
next
  case (sub dn n i)
  let ?c = "over (root_v1 s) (over (blk_at s 0) (mem_v1 h V1_open))"
  from find_upt_Some [OF sub(2)] have i: "i < n" "matches_v1 dn None (get_dir_v1 (root_v1 s) i)"
    "\<And>k. k < i \<Longrightarrow> \<not> matches_v1 dn None (get_dir_v1 (root_v1 s) k)" by auto
  have n: "n \<le> 18" and d: "dir_ok_v1 s 1281 n" using sub(3) by (auto simp: root_ok_v1_def dir_ok_v1_def)
  have "List.find (\<lambda>i. holds_str (fname_v1 (get_dir_v1 (root_v1 s) i)) dn \<and> flag_v1 (get_dir_v1 (root_v1 s) i) = 2) [0..<n] = Some i"
  proof (rule find_upt_least)
    show "\<not> (holds_str (fname_v1 (get_dir_v1 (root_v1 s) k)) dn \<and> flag_v1 (get_dir_v1 (root_v1 s) k) = 2)" if "k < i" for k
      using i(3) [OF that] by (auto simp: matches_v1_def)
  qed (use i sub(4) in \<open>auto simp: matches_v1_def\<close>)
  with scan_dir_v1 [OF d, of "\<lambda>i. fname_is ?c i dn \<and> flag_v1 (get_dir_v1 ?c i) = 2"
      "\<lambda>e. holds_str (fname_v1 e) dn \<and> flag_v1 e = 2"]
  have sc: "scan_v1 (\<lambda>i. fname_is ?c i dn \<and> flag_v1 (get_dir_v1 ?c i) = 2) ?c = Some (Some i)"
    using n sub(7) by (simp add: fname_is_entry short_v1_def)
  have b: "b < 4194304" using sub(11) by (simp add: inside_v1_def)
  have "op_open_v1 h s (SLASH # dn @ SLASH # w) attr = open_file_v1 (over (blk_at s b) ?c) p q attr"
    using assms(3) sub n i(1) b
    by (simp add: op_open_v1_def super_first_blk [OF assms(1)] Let_def sc name_v1_def sint_blk)
  moreover have "in_dir_v1 d w = SLASH # dn @ SLASH # w" using sub(1,8) by (simp add: in_dir_v1_def)
  ultimately show ?thesis by auto
qed

lemma open_list_v1:
  assumes "root_ok_v1 s m" and "dir_at_v1 s d b" and "name_v1 w p q" and "dir_ok_v1 s b n"
    and "exts_end (filter (matches_v1 p q) (dir_list_v1 s b n))"
  shows "op_open_v1 h s (in_dir_v1 d w) attr =
    Some (case List.find (matches_v1 p q) (dir_list_v1 s b n) of None \<Rightarrow> (- 1, attr) | Some e \<Rightarrow> (0, opened_v1 attr e))"
proof -
  from open_in_dir_v1 [OF assms(1-3)] obtain c where
    c: "op_open_v1 h s (in_dir_v1 d w) attr = open_file_v1 (over (blk_at s b) c) p q attr" by blast
  show ?thesis unfolding c
    by (rule open_file_list [OF assms(4)]) (use assms(3,5) in \<open>auto simp: name_v1_def exts_end_def dir_list_v1_def\<close>)
qed

lemma parent_in_dir:
  assumes "dir_at_v1 s d b" and "SLASH \<notin> set w"
  shows "\<exists>sub. parent_v1 (in_dir_v1 d w) = Some (d, w, sub) \<and> (sub \<longleftrightarrow> d \<noteq> [SLASH])"
  using assms(1)
proof cases
  case (sub dn n i)
  then show ?thesis using assms(2) by (intro exI [of _ True]) (simp add: parent_v1_def in_dir_v1_def)
qed (use assms(2) in \<open>intro exI [of _ False], simp add: parent_v1_def in_dir_v1_def\<close>)

lemma open_dir_v1:
  assumes "root_ok_v1 s m" and "dir_at_v1 s d b"
  shows "\<exists>a. op_open_v1 h s d attr = Some (0, a) \<and> sint (nStartBlock_v1 a) = int b"
  using assms(2)
proof cases
  case root
  then show ?thesis using open_root_v1 [OF assms(1)] by auto
next
  case (sub dn n i)
  from find_upt_Some [OF sub(2)] have i: "i < n" "matches_v1 dn None (get_dir_v1 (root_v1 s) i)" by auto
  have d: "dir_ok_v1 s 1281 n" and n: "n \<le> 18" using sub(3) by (auto simp: root_ok_v1_def dir_ok_v1_def)
  have name: "name_v1 dn dn None" using sub(7-10) by (simp add: name_v1_def)
  let ?c = "over (root_v1 s) (over (blk_at s 0) (mem_v1 h V1_open))"
  have sc: "scan_v1 (is_entry_v1 ?c dn None) ?c = Some (Some i)"
    using scan_dir_v1 [OF d, of "is_entry_v1 ?c dn None" "matches_v1 dn None"] sub(2,7) n by (simp add: is_entry_matches)
  from i(2) have "0 \<in> set (fname_v1 (get_dir_v1 (root_v1 s) i))" by (auto simp: matches_v1_def dest: holds_str_zero)
  then have "op_open_v1 h s (SLASH # dn) attr = Some (0, opened_v1 attr (get_dir_v1 (root_v1 s) i))"
    using open_root_file [OF assms(1) name] sc i(1) n sub(6)
    by (simp add: open_file_v1_def c_str_def opened_v1_def Let_def)
  moreover have "b < 4194304" using sub(11) by (simp add: inside_v1_def)
  ultimately show ?thesis using sub(1,5) by (simp add: sint_blk)
qed

section \<open>The bitmap\<close>

text \<open>The block \<open>b\<close> is the first free one behind the root block.\<close>

definition first_free_v1 :: "ufs \<Rightarrow> nat \<Rightarrow> bool" where
  "first_free_v1 s b \<longleftrightarrow> bitmap_inside s \<and> 1282 \<le> b \<and> b < 4194304 \<and> int b < max_filesystem_in_block s - 1 \<and> \<not> block_used s b
     \<and> (\<forall>k. 1282 \<le> k \<longrightarrow> k < b \<longrightarrow> block_used s k)"

lemma search_one_v1:
  assumes "first_free_v1 s b"
  shows "\<exists>s'. op_search_free_blk_v1 s 1 = Some (1, int b, s') \<and> marked s b True s'"
proof -
  from assms have f: "bitmap_inside s" "int b < max_filesystem_in_block s - 1" "\<not> block_used s b" "1282 \<le> b"
    "\<And>k. 1282 \<le> k \<Longrightarrow> k < b \<Longrightarrow> block_used s k" by (auto simp: first_free_v1_def)
  then have "516 + b div 8 \<le> image_len s" by (simp add: bitmap_inside_def)
  from op_set_blk_spec [OF this, of 1] obtain s' where s': "op_set_blk s (int b) 1 = Some (0, s')" "marked s b True s'" by auto
  have "search_runs s 1 1282 (0, - 1) = Some (1, int b)" by (rule search_runs_first [OF f(1-5)])
  with s' show ?thesis
    by (auto simp: op_search_free_blk_v1_def op_set_blk_v1_eq for_loop_step MAX_BITMAP_IN_BLOCK_def)
qed

text \<open>No block behind the root block is free.\<close>

definition all_used_v1 :: "ufs \<Rightarrow> bool" where
  "all_used_v1 s \<longleftrightarrow> bitmap_inside s \<and> (\<forall>k. 1282 \<le> k \<longrightarrow> int k < max_filesystem_in_block s - 1 \<longrightarrow> block_used s k)"

lemma count_free_used:
  assumes "block_used s b" and "0 < num"
  shows "count_free s num at (ld32 (image s) (512 + b div 8)) (push_bit (b mod 8) 1) = Some 0"
proof -
  let ?m = "push_bit (b mod 8) 1 :: 32 word" and ?t = "ld32 (image s) (512 + b div 8)"
  have l: "b mod 8 < 8" by simp
  have bitm: "bit ?m n \<longleftrightarrow> n = b mod 8" for n using l by (auto simp: bit_simps)
  have "b mod 8 < 32" using l by linarith
  then have "bit ?t (b mod 8)" using assms(1) l by (simp add: bit_ld32 block_used_def)
  then have "?t AND ?m = ?m" by (intro bit_word_eqI) (use bitm in \<open>auto simp: bit_and_iff\<close>)
  with assms(2) show ?thesis by (simp add: count_free_def for_loop_step)
qed

lemma search_runs_none:
  assumes "all_used_v1 s" and "0 < num" and "1282 \<le> start"
  shows "search_runs s num start (0, - 1) = Some (0, - 1)"
  using assms(3)
proof (induction "nat (max_filesystem_in_block s) - start" arbitrary: start rule: less_induct)
  case less
  show ?case
  proof (cases "int start < max_filesystem_in_block s - 1")
    case True
    then have u: "block_used s start" "516 + start div 8 \<le> image_len s"
      using assms(1) less.prems by (auto simp: all_used_v1_def bitmap_inside_def)
    have "search_runs s num (Suc start) (0, - 1) = Some (0, - 1)"
      by (rule less.hyps) (use True less.prems in auto)
    with True u assms(2) show ?thesis
      using count_free_used [OF u(1) assms(2), of "516 + start div 8"]
      by (simp add: search_runs.simps [of s num start] read_int_def)
  qed (simp add: search_runs.simps)
qed

lemma search_none_v1:
  assumes "all_used_v1 s" and "0 < num"
  shows "op_search_free_blk_v1 s num = Some (0, - 1, s)"
  using search_runs_none [OF assms(1), of "nat num" 1282] assms(2)
  by (simp add: op_search_free_blk_v1_def MAX_BITMAP_IN_BLOCK_def)

section \<open>What changes and what does not\<close>

text \<open>Only the blocks of \<open>B\<close> and the bitmap changed; and the bitmap did not either.\<close>

definition touched_v1 :: "ufs \<Rightarrow> ufs \<Rightarrow> nat set \<Rightarrow> bool" where
  "touched_v1 s s' B \<longleftrightarrow> image_len s \<le> image_len s' \<and> max_filesystem_in_block s' = max_filesystem_in_block s
     \<and> (\<forall>a < 512. a < image_len s \<longrightarrow> image s' a = image s a)
     \<and> (\<forall>c a. inside s c \<longrightarrow> 1281 \<le> c \<longrightarrow> c \<notin> B \<longrightarrow> a < 512 \<longrightarrow> blk_at s' c a = blk_at s c a)"

definition same_bits_v1 :: "ufs \<Rightarrow> ufs \<Rightarrow> bool" where
  "same_bits_v1 s s' \<longleftrightarrow> (\<forall>k. k < 4194304 \<longrightarrow> 512 + k div 8 < image_len s \<longrightarrow> block_used s' k = block_used s k)"

lemma touched_refl [simp]: "touched_v1 s s B" "same_bits_v1 s s"
  by (simp_all add: touched_v1_def same_bits_v1_def)

lemma inside_mono: "inside s c \<Longrightarrow> image_len s \<le> image_len s' \<Longrightarrow> inside s' c"
  by (simp add: inside_def)

lemma touched_inside: "touched_v1 s s' B \<Longrightarrow> inside_v1 s c \<Longrightarrow> inside_v1 s' c"
  by (auto simp: touched_v1_def inside_v1_def dest: inside_mono)

lemma touched_trans:
  assumes 1: "touched_v1 s s1 A" and 2: "touched_v1 s1 s2 B"
  shows "touched_v1 s s2 (A \<union> B)"
proof -
  have "image_len s \<le> image_len s1" using 1 by (simp add: touched_v1_def)
  then have "inside s1 c" if "inside s c" for c using that inside_mono by blast
  with 1 2 show ?thesis by (auto simp: touched_v1_def)
qed

lemma same_bits_trans:
  "same_bits_v1 s s1 \<Longrightarrow> touched_v1 s s1 B \<Longrightarrow> same_bits_v1 s1 s2 \<Longrightarrow> same_bits_v1 s s2"
  by (auto simp: same_bits_v1_def touched_v1_def)

lemma write_touched:
  assumes "op_write_blk s (int p) c = (r, s')" and "1281 \<le> p"
  shows "touched_v1 s s' {p}" and "same_bits_v1 s s'"
proof -
  note w = write_blk_image [OF assms(1)]
  have low: "image s' a = image s a" if "a < image_len s" "a < 655872" for a
    using w(6) [OF that(1)] that(2) assms(2) by simp
  then show "touched_v1 s s' {p}"
    using w(3,4) blk_at_write [OF assms(1)] by (auto simp: touched_v1_def)
  show "same_bits_v1 s s'"
    unfolding same_bits_v1_def block_used_def by (auto intro!: arg_cong2 [where f = bit] low)
qed

lemma marked_touched:
  assumes "marked s b v s'" and "b < 4194304"
  shows "touched_v1 s s' {}"
  using assms by (auto simp: touched_v1_def marked_def blk_at_def inside_def)

text \<open>A block that did not change is the same directory.\<close>

lemma dir_kept:
  assumes "touched_v1 s s' B" and "dir_ok_v1 s c n" and "1281 \<le> c" and "c \<notin> B"
  shows "dir_ok_v1 s' c n" and "dir_list_v1 s' c n = dir_list_v1 s c n"
proof -
  have i: "inside_v1 s c" and n: "n \<le> 18" using assms(2) by (simp_all add: dir_ok_v1_def)
  then have same: "blk_at s' c a = blk_at s c a" if "a < 512" for a
    using assms(1,3,4) that by (auto simp: touched_v1_def inside_v1_def)
  then have "size_v1 (blk_at s' c) = size_v1 (blk_at s c)" 
    unfolding size_v1_def by (intro ld32_cong) simp
  then show "dir_ok_v1 s' c n" using assms(2) touched_inside [OF assms(1) i] by (simp add: dir_ok_v1_def)
  have "get_dir_v1 (blk_at s' c) j = get_dir_v1 (blk_at s c) j" if "j < n" for j
    by (rule dir_v1_cong) (use same n that in \<open>auto simp: slot_v1_def\<close>)
  then show "dir_list_v1 s' c n = dir_list_v1 s c n" by (simp add: dir_list_v1_def)
qed

lemma super_kept:
  assumes "touched_v1 s s' B" and "root_ok_v1 s n" and "dir_ok_v1 s' 1281 n'"
  shows "root_ok_v1 s' n'"
proof -
  have "image_len s \<ge> 512" using assms(2) by (simp add: root_ok_v1_def dir_ok_v1_def inside_v1_def inside_def)
  with assms(1) have "image s' a = image s a" if "a < 512" for a using that by (simp add: touched_v1_def)
  then have "ld32 (image s') 4 = ld32 (image s) 4" by (intro ld32_cong) simp
  with assms(2,3) show ?thesis by (simp add: root_ok_v1_def)
qed

lemma find_dirs_cong:
  "dir_list_v1 s' b n = dir_list_v1 s b n \<Longrightarrow>
   List.find (\<lambda>i. Q (get_dir_v1 (blk_at s' b) i)) [0..<n] = List.find (\<lambda>i. Q (get_dir_v1 (blk_at s b) i)) [0..<n]"
  by (rule find_cong) (auto simp: dir_list_v1_def)

lemma dir_at_kept:
  assumes t: "touched_v1 s s' B" and d: "dir_at_v1 s d b" and B: "d \<noteq> [SLASH] \<Longrightarrow> 1281 \<notin> B"
  shows "dir_at_v1 s' d b"
  using d
proof cases
  case root
  then show ?thesis by (simp add: dir_at_v1.root)
next
  case (sub dn n i)
  have B': "1281 \<notin> B" using B sub(1,8) by simp
  have d: "dir_ok_v1 s 1281 n" using sub(3) by (simp add: root_ok_v1_def)
  note k = dir_kept [OF t d _ B']
  from find_upt_Some [OF sub(2)] have i: "i < n" by simp
  have e: "get_dir_v1 (root_v1 s') i = get_dir_v1 (root_v1 s) i"
    using k(2) i nth_dir_list_v1 [of i n] by (metis order_refl)
  show ?thesis
    unfolding sub(1)
  proof (rule dir_at_v1.sub)
    show "List.find (\<lambda>i. matches_v1 dn None (get_dir_v1 (root_v1 s') i)) [0..<n] = Some i"
      using find_dirs_cong [OF k(2)] sub(2) by simp
    show "root_ok_v1 s' n" using super_kept [OF t sub(3)] k(1) by simp
    show "inside_v1 s' b" by (rule touched_inside [OF t sub(11)])
  qed (use sub e in simp_all)
qed

lemma dir_at_block: "dir_at_v1 s d b \<Longrightarrow> 1281 \<le> b \<and> (d = [SLASH] \<longleftrightarrow> b = 1281)"
  by (cases rule: dir_at_v1.cases) auto

section \<open>Creating\<close>

text \<open>An entry stands in the way of a new file or directory.\<close>

definition taken_v1 :: "byte list \<Rightarrow> byte list option \<Rightarrow> int \<Rightarrow> u_fs_file_directory \<Rightarrow> bool" where
  "taken_v1 p q flag e \<longleftrightarrow>
     flag = 1 \<and> flag_v1 e = 1 \<and> holds_str (fname_v1 e) p \<and> holds_str (fext_v1 e) (case q of None \<Rightarrow> [] | Some x \<Rightarrow> x)
     \<or> flag = 2 \<and> flag_v1 e = 2 \<and> holds_str (fname_v1 e) p"

lemma exists_taken:
  "short_v1 p q \<Longrightarrow> exists_v1 c p q flag i \<longleftrightarrow> taken_v1 p q flag (get_dir_v1 c i)"
  by (auto simp: exists_v1_def taken_v1_def short_v1_def fname_is_entry fext_is_entry split: option.splits)

lemma wf_new_entry: "wf_dir_v1 e \<Longrightarrow> short_v1 p q \<Longrightarrow> wf_dir_v1 (new_entry_v1 p q flag blk e)"
  by (auto simp: wf_dir_v1_def new_entry_v1_def short_v1_def strcpy_over_def split: option.splits)

lemma set_size_dirs [simp]: "get_dir_v1 (set_size_v1 c n) i = get_dir_v1 c i"
  by (rule dir_v1_cong) (simp add: set_size_v1_def st32_def store_bytes_def slot_v1_def)

lemma put_dir_fields [simp]:
  assumes "wf_dir_v1 e"
  shows "size_v1 (put_dir_v1 c i e) = size_v1 c" and "next_v1 (put_dir_v1 c i e) = next_v1 c"
  by (auto simp: size_v1_def next_v1_def put_dir_v1_outside [OF assms] slot_v1_def intro!: ld32_cong arg_cong [where f = sint])

lemma size_set_size [simp]: "size_v1 (set_size_v1 c n) = n"
  by (simp add: size_v1_def set_size_v1_def ld32_st32_same)

lemma first_block_fields [simp]:
  "size_v1 (first_block_v1 c) = 0" "next_v1 (first_block_v1 c) = - 1" "first_block_v1 c 8 = 0"
  "8 < a \<Longrightarrow> first_block_v1 c a = c a"
proof -
  let ?c = "set_next_v1 (set_size_v1 c 0) (- 1)"
  have "ld32 (first_block_v1 c) k = ld32 ?c k" if "k + 4 \<le> 8" for k
    by (rule ld32_cong) (use that in \<open>simp add: first_block_v1_def\<close>)
  from this [of 0] this [of 4] show "size_v1 (first_block_v1 c) = 0" "next_v1 (first_block_v1 c) = - 1"
    by (simp_all add: size_v1_def next_v1_def set_next_v1_def set_size_v1_def ld32_st32_same ld32_st32_other)
  show "first_block_v1 c 8 = 0" "8 < a \<Longrightarrow> first_block_v1 c a = c a"
    by (simp_all add: first_block_v1_def set_next_v1_def set_size_v1_def st32_def store_bytes_def)
qed

text \<open>What the two writes of \<open>op_create\<close> leave.\<close>

definition created_v1 :: "ufs \<Rightarrow> nat \<Rightarrow> nat \<Rightarrow> nat \<Rightarrow> u_fs_file_directory \<Rightarrow> ufs \<Rightarrow> bool" where
  "created_v1 s p n b e s' \<longleftrightarrow> touched_v1 s s' {p, b} \<and> dir_ok_v1 s' p (Suc n)
     \<and> dir_list_v1 s' p (Suc n) = dir_list_v1 s p n @ [e]
     \<and> inside_v1 s' b \<and> size_v1 (blk_at s' b) = 0 \<and> next_v1 (blk_at s' b) = - 1 \<and> blk_at s' b 8 = 0
     \<and> (\<forall>k < 4194304. 512 + k div 8 < image_len s \<longrightarrow> block_used s' k = (k = b \<or> block_used s k))"

lemma create_writes:
  assumes d: "dir_ok_v1 s p n" "n < 18" "1281 \<le> p" and m: "marked s b True s1" and b: "1282 \<le> b" "b < 4194304" "b \<noteq> p"
    and e: "wf_dir_v1 e" and c: "c = put_dir_v1 (set_size_v1 (over (blk_at s p) c0) (of_nat (28 * Suc n))) n e"
    and w2: "op_write_blk s1 (int p) c = (0, s2)" and w3: "op_write_blk s2 (int b) (first_block_v1 c) = (0, s3)"
  shows "created_v1 s p n b e s3"
proof -
  have p: "p < 4194304" "inside s p" using d(1) by (simp_all add: dir_ok_v1_def inside_v1_def)
  note f2 = write_blk_image [OF w2] and f3 = write_blk_image [OF w3]
  note t1 = marked_touched [OF m b(2)]
  have b1: "1281 \<le> b" using b(1) by simp
  note t2 = write_touched [OF w2 d(3)] and t3 = write_touched [OF w3 b1]
  have t: "touched_v1 s s3 {p, b}" using touched_trans [OF touched_trans [OF t1 t2(1)] t3(1)] by (simp add: insert_commute)
  have in2: "inside s2 p" using f2(2) by (simp add: inside_def)
  have pb: "blk_at s3 p a = c a" if "a < 512" for a
    using blk_at_write [OF w3 b(3) [symmetric] in2 that] f2(5) [OF that] by simp
  have bb: "blk_at s3 b a = first_block_v1 c a" if "a < 512" for a using f3(5) [OF that] .
  have ins: "inside_v1 s3 p" "inside_v1 s3 b"
    using touched_inside [OF t] d(1) f3(2) b(2) by (auto simp: dir_ok_v1_def inside_v1_def inside_def)
  have "size_v1 (blk_at s3 p) = size_v1 c" unfolding size_v1_def by (intro ld32_cong) (use pb in simp)
  then have ok: "dir_ok_v1 s3 p (Suc n)" using ins d(2) e by (simp add: dir_ok_v1_def c del: of_nat_mult)
  have "get_dir_v1 (blk_at s3 p) j = (if j = n then e else get_dir_v1 (blk_at s p) j)" if "j \<le> n" for j
  proof -
    have "get_dir_v1 (blk_at s3 p) j = get_dir_v1 c j"
      by (rule dir_v1_cong) (use pb that d(2) in \<open>auto simp: slot_v1_def\<close>)
    then show ?thesis using that d(2) e by (simp add: c dirs_v1.get_put)
  qed
  then have "dir_list_v1 s3 p (Suc n) = dir_list_v1 s p n @ [e]" by (simp add: dir_list_v1_def)
  moreover have "size_v1 (blk_at s3 b) = size_v1 (first_block_v1 c)" "next_v1 (blk_at s3 b) = next_v1 (first_block_v1 c)"
    using bb by (auto simp: size_v1_def next_v1_def intro!: ld32_cong arg_cong [where f = sint])
  moreover have "block_used s3 k = (k = b \<or> block_used s k)" if "k < 4194304" "512 + k div 8 < image_len s" for k
  proof -
    have "image_len s \<le> image_len s2" "image_len s1 = image_len s" using m f2(3) by (simp_all add: marked_def)
    then have "block_used s3 k = block_used s1 k" using t2(2) t3(2) that by (simp add: same_bits_v1_def)
    then show ?thesis using m that(2) by (auto simp: marked_def)
  qed
  ultimately show ?thesis using t ok ins(2) bb [of 8] by (simp add: created_v1_def)
qed

lemma create_spec_v1:
  assumes ok: "root_ok_v1 s m" and d: "dir_at_v1 s d p" and dir: "dir_ok_v1 s p n" and n: "n < 18"
    and name: "(if flag = 1 then split_at DOT w else (w, None)) = (pn, q)" "short_v1 pn q" "SLASH \<notin> set w"
    and flag: "flag = 1 \<or> flag = 2 \<and> d = [SLASH]"
    and new: "\<And>e. e \<in> set (dir_list_v1 s p n) \<Longrightarrow> \<not> taken_v1 pn q flag e"
    and b: "first_free_v1 s b" "b \<noteq> p"
  shows "\<exists>s'. op_create_v1 h s (in_dir_v1 d w) flag = Some (0, s')
    \<and> created_v1 s p n b (new_entry_v1 pn q flag (int b) (get_dir_v1 (blk_at s p) n)) s'"
proof -
  let ?c0 = "over (blk_at s p) (mem_v1 h V1_create)" and ?e = "new_entry_v1 pn q flag (int b) (get_dir_v1 (blk_at s p) n)"
  from parent_in_dir [OF d name(3)] obtain sub where
    par: "parent_v1 (in_dir_v1 d w) = Some (d, w, sub)" "sub \<longleftrightarrow> d \<noteq> [SLASH]" by blast
  from open_dir_v1 [OF ok d] obtain a where
    a: "op_open_v1 h s d (junk_v1 h) = Some (0, a)" "sint (nStartBlock_v1 a) = int p" by blast
  have p: "1281 \<le> p" using dir_at_block [OF d] by simp
  have ins: "inside_v1 s p" using dir by (simp add: dir_ok_v1_def)
  then have p2: "p < 4194304" by (simp add: inside_v1_def)
  have size: "size_v1 (blk_at s p) = of_nat (28 * n)" using dir by (simp add: dir_ok_v1_def)
  have sz: "unat (of_nat (28 * n) :: 32 word) = 28 * n" by (subst unat_of_nat) (use n in simp)
  have sc: "scan_v1 (exists_v1 ?c0 pn q flag) ?c0 = Some None"
  proof -
    have "scan_v1 (exists_v1 ?c0 pn q flag) ?c0 = Some (List.find (\<lambda>i. taken_v1 pn q flag (get_dir_v1 (blk_at s p) i)) [0..<n])"
      by (rule scan_dir_v1 [OF dir]) (use n name(2) in \<open>simp add: exists_taken\<close>)
    moreover have "List.find (\<lambda>i. taken_v1 pn q flag (get_dir_v1 (blk_at s p) i)) [0..<n] = None"
      unfolding find_upt_None using new by (auto simp: dir_list_v1_def)
    ultimately show ?thesis by simp
  qed
  have ent: "entries_v1 ?c0 = n" using entries_dir [of ?c0 n] size n by simp
  have b2: "1282 \<le> b" "b < 4194304" using b(1) by (simp_all add: first_free_v1_def)
  from search_one_v1 [OF b(1)] obtain s1 where s1: "op_search_free_blk_v1 s 1 = Some (1, int b, s1)" "marked s b True s1" by blast
  define c where "c = put_dir_v1 (set_size_v1 ?c0 (of_nat (28 * Suc n))) n ?e"
  have wfe: "wf_dir_v1 ?e" by (rule wf_new_entry) (simp_all add: name(2))
  from write_blk_v1_spec [OF p2, of s1 c] obtain s2 where
    w2: "op_write_blk_v1 s1 (int p) c = Some (0, s2)" "op_write_blk s1 (int p) c = (0, s2)" by blast
  from write_blk_v1_spec [OF b2(2), of s2 "first_block_v1 c"] obtain s3 where
    w3: "op_write_blk_v1 s2 (int b) (first_block_v1 c) = Some (0, s3)" "op_write_blk s2 (int b) (first_block_v1 c) = (0, s3)" by blast
  have start: "sint (nStartBlock_v1 (get_dir_v1 c n)) = int b"
    using wfe b2(2) by (simp add: c_def dirs_v1.get_put) (simp add: new_entry_v1_def sint_blk)
  have grow: "size_v1 (blk_at s p) + 28 = of_nat (28 * Suc n)" "unat (size_v1 (blk_at s p)) = 28 * n"
    using size sz by (simp_all add: algebra_simps)
  have g: "\<not> (flag = 2 \<and> sub)" "flag \<noteq> 0" using par(2) flag by auto
  have g2: "\<not> ((flag = 1 \<or> flag = 2) \<and> MAX_FILENAME_V1 < length pn
      \<or> flag = 1 \<and> (case q of None \<Rightarrow> False | Some x \<Rightarrow> MAX_EXTENSION < length x))"
    using name(2) by (auto simp: short_v1_def MAX_FILENAME_V1_def MAX_EXTENSION_def split: option.splits)
  have g3: "\<not> MAX_DATA_V1 < 28 * n" "\<not> 18 \<le> n" using n by (simp_all add: MAX_DATA_V1_def)
  have c: "put_dir_v1 (set_size_v1 ?c0 (of_nat (28 * Suc n))) n
      (new_entry_v1 pn q flag (int b) (get_dir_v1 (set_size_v1 ?c0 (of_nat (28 * Suc n))) n)) = c"
    using n by (simp add: c_def)
  have run: "op_create_v1 h s (in_dir_v1 d w) flag = Some (0, s3)"
    unfolding op_create_v1_def par(1)
    by (simp add: a ins sc name(1) g g2 g3 grow ent s1(1) c w2(1) w3(1) start Let_def
        del: of_nat_mult of_nat_Suc mult_Suc_right de_Morgan_disj de_Morgan_conj set_size_dirs dir_over_v1)
  with create_writes [OF dir n p s1(2) b2(1,2) b(2) wfe c_def w2(2) w3(2)] show ?thesis by blast
qed

section \<open>Changing an entry\<close>

lemma strcpy_back: "0 \<in> set bs \<Longrightarrow> strcpy_over bs (takeWhile (\<lambda>x. x \<noteq> 0) bs) = bs"
proof (induction bs)
  case (Cons x xs)
  then show ?case by (cases "x = 0") (simp_all add: strcpy_over_def)
qed simp

lemma takeWhile_no_zero: "0 \<notin> set (takeWhile (\<lambda>x. x \<noteq> 0) (bs :: byte list))"
  by (auto dest: set_takeWhileD)

lemma c_str_opened [simp]:
  "c_str (fname_v1 (opened_v1 a e)) = Some (takeWhile (\<lambda>x. x \<noteq> 0) (fname_v1 e))"
  "c_str (fext_v1 (opened_v1 a e)) = Some (takeWhile (\<lambda>x. x \<noteq> 0) (fext_v1 e))"
  by (auto simp: opened_v1_def takeWhile_no_zero intro!: c_str_holds)

text \<open>Storing an entry in a directory block.\<close>

lemma put_dir_written:
  assumes d: "dir_ok_v1 s b n" and i: "i < n" and b: "1281 \<le> b" and e: "wf_dir_v1 e"
    and w: "op_write_blk s (int b) (put_dir_v1 (over (blk_at s b) c) i e) = (0, s')"
  shows "touched_v1 s s' {b}" and "same_bits_v1 s s'" and "dir_ok_v1 s' b n"
    and "dir_list_v1 s' b n = (dir_list_v1 s b n)[i := e]"
proof -
  let ?c = "put_dir_v1 (over (blk_at s b) c) i e"
  have n: "n \<le> 18" using d by (simp add: dir_ok_v1_def)
  show t: "touched_v1 s s' {b}" "same_bits_v1 s s'" using write_touched [OF w b] by auto
  note same = write_blk_image(5) [OF w]
  have "size_v1 (blk_at s' b) = size_v1 ?c" unfolding size_v1_def by (intro ld32_cong) (use same in simp)
  then show "dir_ok_v1 s' b n"
    using d touched_inside [OF t(1)] e by (simp add: dir_ok_v1_def)
  have "get_dir_v1 (blk_at s' b) j = (if i = j then e else get_dir_v1 (blk_at s b) j)" if "j < n" for j
  proof -
    have "get_dir_v1 (blk_at s' b) j = get_dir_v1 ?c j"
      by (rule dir_v1_cong) (use same that n in \<open>auto simp: slot_v1_def\<close>)
    then show ?thesis using that n e by (simp add: dirs_v1.get_put)
  qed
  then show "dir_list_v1 s' b n = (dir_list_v1 s b n)[i := e]"
    by (intro nth_equalityI) (auto simp: nth_list_update)
qed

text \<open>The first entry of a name in a directory, with an extension that ends.\<close>

definition entry_at_v1 :: "ufs \<Rightarrow> nat \<Rightarrow> nat \<Rightarrow> byte list \<Rightarrow> byte list option \<Rightarrow> nat \<Rightarrow> bool" where
  "entry_at_v1 s b n p q i \<longleftrightarrow> i < n \<and> matches_v1 p q (dir_list_v1 s b n ! i) \<and> 0 \<in> set (fext_v1 (dir_list_v1 s b n ! i))
     \<and> (\<forall>j < i. \<not> matches_v1 p q (dir_list_v1 s b n ! j))"

lemma entry_at_find:
  "entry_at_v1 s b n p q i \<Longrightarrow> List.find (\<lambda>i. matches_v1 p q (get_dir_v1 (blk_at s b) i)) [0..<n] = Some i"
  by (rule find_upt_least) (auto simp: entry_at_v1_def)

lemma scan_entry_at:
  assumes "dir_ok_v1 s b n" and "short_v1 p q" and "entry_at_v1 s b n p q i"
  shows "scan_v1 (is_entry_v1 (over (blk_at s b) c) p q) (over (blk_at s b) c) = Some (Some i)"
proof -
  have n: "n \<le> 18" using assms(1) by (simp add: dir_ok_v1_def)
  have "scan_v1 (is_entry_v1 (over (blk_at s b) c) p q) (over (blk_at s b) c)
      = Some (List.find (\<lambda>i. matches_v1 p q (get_dir_v1 (blk_at s b) i)) [0..<n])"
    by (rule scan_dir_v1 [OF assms(1)]) (use n assms(2) in \<open>simp add: is_entry_matches\<close>)
  then show ?thesis by (simp add: entry_at_find [OF assms(3)])
qed

lemma open_entry_at:
  assumes "root_ok_v1 s m" and "dir_at_v1 s d b" and "name_v1 w p q" and "dir_ok_v1 s b n" and "entry_at_v1 s b n p q i"
  shows "op_open_v1 h s (in_dir_v1 d w) attr = Some (0, opened_v1 attr (dir_list_v1 s b n ! i))"
proof -
  from open_in_dir_v1 [OF assms(1-3)] obtain c where
    c: "op_open_v1 h s (in_dir_v1 d w) attr = open_file_v1 (over (blk_at s b) c) p q attr" by blast
  have i: "i < n" "n \<le> 18" and z: "0 \<in> set (fext_v1 (dir_list_v1 s b n ! i))" "0 \<in> set (fname_v1 (dir_list_v1 s b n ! i))"
    using assms(4,5) by (auto simp: entry_at_v1_def dir_ok_v1_def matches_v1_def dest: holds_str_zero)
  have pq: "short_v1 p q" using assms(3) by (simp add: name_v1_def)
  show ?thesis unfolding c open_file_v1_def scan_entry_at [OF assms(4) pq assms(5)]
    using i z by (simp add: c_str_def opened_v1_def Let_def)
qed

lemma setattr_spec_v1:
  assumes ok: "root_ok_v1 s m" and d: "dir_at_v1 s d b" and w: "name_v1 w p q" and dir: "dir_ok_v1 s b n"
    and i: "entry_at_v1 s b n p q i" and e: "e = dir_list_v1 s b n ! i"
    and a: "c_str (fname_v1 a) = Some (takeWhile (\<lambda>x. x \<noteq> 0) (fname_v1 e))"
      "c_str (fext_v1 a) = Some (takeWhile (\<lambda>x. x \<noteq> 0) (fext_v1 e))"
  shows "\<exists>s'. op_setattr_v1 h s (in_dir_v1 d w) a = Some (0, s') \<and> touched_v1 s s' {b} \<and> same_bits_v1 s s'
    \<and> dir_ok_v1 s' b n \<and> dir_list_v1 s' b n = (dir_list_v1 s b n)[i := e\<lparr>fsize_v1 := fsize_v1 a,
         nStartBlock_v1 := nStartBlock_v1 a, flag_v1 := flag_v1 a\<rparr>]"
proof -
  let ?c = "over (blk_at s b) (mem_v1 h V1_setattr)"
  let ?e = "e\<lparr>fsize_v1 := fsize_v1 a, nStartBlock_v1 := nStartBlock_v1 a, flag_v1 := flag_v1 a\<rparr>"
  have sl: "SLASH \<notin> set w" and sp: "split_at DOT w = (p, q)" and pq: "short_v1 p q" using w by (simp_all add: name_v1_def)
  from parent_in_dir [OF d sl] obtain sub where par: "parent_v1 (in_dir_v1 d w) = Some (d, w, sub)" by blast
  from open_dir_v1 [OF ok d] obtain f where
    f: "op_open_v1 h s d (junk_v1 h) = Some (0, f)" "sint (nStartBlock_v1 f) = int b" by blast
  have b: "1281 \<le> b" using dir_at_block [OF d] by simp
  have ins: "inside_v1 s b" using dir by (simp add: dir_ok_v1_def)
  have i2: "i < n" "i < 18" "get_dir_v1 (blk_at s b) i = e" using i dir by (auto simp: entry_at_v1_def dir_ok_v1_def e)
  have z: "0 \<in> set (fname_v1 e)" "0 \<in> set (fext_v1 e)"
    using i by (auto simp: e entry_at_v1_def matches_v1_def dest: holds_str_zero)
  have new: "a\<lparr>fname_v1 := strcpy_over (fname_v1 e) (takeWhile (\<lambda>x. x \<noteq> 0) (fname_v1 e)),
      fext_v1 := strcpy_over (fext_v1 e) (takeWhile (\<lambda>x. x \<noteq> 0) (fext_v1 e))\<rparr> = ?e"
    using z by (simp add: strcpy_back)
  have wf: "wf_dir_v1 ?e" using i2(3) wf_get_dir_v1 [of "blk_at s b" i] by (simp add: wf_dir_v1_def)
  have "b < 4194304" using ins by (simp add: inside_v1_def)
  from write_blk_v1_spec [OF this, of s "put_dir_v1 ?c i ?e"] obtain s' where
    w2: "op_write_blk_v1 s (int b) (put_dir_v1 ?c i ?e) = Some (0, s')" "op_write_blk s (int b) (put_dir_v1 ?c i ?e) = (0, s')" by blast
  have run: "op_setattr_v1 h s (in_dir_v1 d w) a = Some (0, s')"
    using i2 ins by (simp add: op_setattr_v1_def par f sp scan_entry_at [OF dir pq i] a new w2(1) Let_def)
  with put_dir_written [OF dir i2(1) b wf w2(2)] show ?thesis by blast
qed

section \<open>Freeing a chain\<close>

text \<open>The blocks of a chain that ends.\<close>

fun chain_v1 :: "ufs \<Rightarrow> int \<Rightarrow> nat list \<Rightarrow> bool" where
  "chain_v1 s start [] \<longleftrightarrow> start = - 1"
| "chain_v1 s start (b # bs) \<longleftrightarrow> start = int b \<and> inside_v1 s b \<and> 1282 \<le> b \<and> chain_v1 s (next_v1 (blk_at s b)) bs"

definition bits_are :: "ufs \<Rightarrow> ufs \<Rightarrow> (nat \<Rightarrow> bool \<Rightarrow> bool) \<Rightarrow> bool" where
  "bits_are s s' f \<longleftrightarrow> (\<forall>k < 4194304. 512 + k div 8 < image_len s \<longrightarrow> block_used s' k = f k (block_used s k))"

lemma marked_chain:
  assumes "marked s b v s1" and "b < 4194304"
  shows "chain_v1 s start bs \<Longrightarrow> chain_v1 s1 start bs"
proof (induction bs arbitrary: start)
  case (Cons c bs)
  note t = marked_touched [OF assms]
  have c: "inside_v1 s c" "1282 \<le> c" "start = int c" and ch: "chain_v1 s (next_v1 (blk_at s c)) bs" using Cons.prems by auto
  then have same: "blk_at s1 c a = blk_at s c a" if "a < 512" for a using that t by (auto simp: touched_v1_def inside_v1_def)
  have "next_v1 (blk_at s1 c) = next_v1 (blk_at s c)"
    unfolding next_v1_def by (intro arg_cong [where f = sint] ld32_cong) (use same in simp)
  with Cons.IH [OF ch] c touched_inside [OF t c(1)] show ?case by simp
qed simp

lemma free_chain_spec:
  "chain_v1 s start bs \<Longrightarrow> \<exists>s'. free_chain_v1 s start c = Some s' \<and> touched_v1 s s' {} \<and> image_len s' = image_len s
     \<and> bits_are s s' (\<lambda>k u. k \<notin> set bs \<and> u)"
proof (induction bs arbitrary: s start c)
  case Nil
  then show ?case by (auto simp: free_chain_v1.simps bits_are_def)
next
  case (Cons b bs)
  then have b: "start = int b" "inside_v1 s b" "1282 \<le> b" "b < 4194304" and ch: "chain_v1 s (next_v1 (blk_at s b)) bs"
    by (auto simp: inside_v1_def)
  then have "516 + b div 8 \<le> image_len s" by (auto simp: inside_v1_def inside_def)
  from op_set_blk_spec [OF this, of 0] obtain s1 where s1: "op_set_blk s (int b) 0 = Some (0, s1)" and m: "marked s b False s1"
    by auto
  note t1 = marked_touched [OF m b(4)]
  have same: "blk_at s1 b a = blk_at s b a" if "a < 512" for a using that t1 b(2,3) by (auto simp: touched_v1_def inside_v1_def)
  have nxt: "next_v1 (blk_at s1 b) = next_v1 (blk_at s b)"
    unfolding next_v1_def by (intro arg_cong [where f = sint] ld32_cong) (use same in simp)
  from Cons.IH [OF marked_chain [OF m b(4) ch]] obtain s' where
    s': "free_chain_v1 s1 (next_v1 (blk_at s b)) (over (blk_at s1 b) c) = Some s'" "touched_v1 s1 s' {}"
      "image_len s' = image_len s1" "bits_are s1 s' (\<lambda>k u. k \<notin> set bs \<and> u)" by blast
  have "free_chain_v1 s start c = Some s'"
    using b touched_inside [OF t1 b(2)] s1 s'(1) nxt by (simp add: free_chain_v1.simps [of s] op_set_blk_v1_eq)
  moreover have "image_len s1 = image_len s" using m by (simp add: marked_def)
  moreover from this have "bits_are s s' (\<lambda>k u. k \<notin> set (b # bs) \<and> u)"
    using s'(4) m by (auto simp: bits_are_def marked_def)
  ultimately show ?case using touched_trans [OF t1 s'(2)] s'(3) by auto
qed

section \<open>What survives a change elsewhere\<close>

lemma root_kept:
  assumes "touched_v1 s s' B" and "root_ok_v1 s m" and "1281 \<notin> B"
  shows "root_ok_v1 s' m"
proof -
  have "dir_ok_v1 s 1281 m" using assms(2) by (simp add: root_ok_v1_def)
  from super_kept [OF assms(1,2) dir_kept(1) [OF assms(1) this _ assms(3)]] show ?thesis by simp
qed

lemma entry_at_cong: "dir_list_v1 s' b n = dir_list_v1 s b n \<Longrightarrow> entry_at_v1 s' b n p q i = entry_at_v1 s b n p q i"
  by (simp add: entry_at_v1_def)

text \<open>After a change of one directory the root is a directory again and the path leads to the same block.\<close>

lemma dir_changed:
  assumes t: "touched_v1 s s' B" and ok: "root_ok_v1 s m" and d: "dir_at_v1 s d p" and B: "1281 \<in> B \<Longrightarrow> p = 1281"
    and dir: "dir_ok_v1 s' p n"
  shows "\<exists>m'. root_ok_v1 s' m'" and "dir_at_v1 s' d p"
proof -
  note p = dir_at_block [OF d]
  show "\<exists>m'. root_ok_v1 s' m'"
  proof (cases "1281 \<in> B")
    case True
    with B dir have "dir_ok_v1 s' 1281 n" by simp
    from super_kept [OF t ok this] show ?thesis by blast
  qed (use root_kept [OF t ok] in blast)
  show "dir_at_v1 s' d p" by (rule dir_at_kept [OF t d]) (use p B in auto)
qed

section \<open>Strings in a block\<close>

lemma strncpy_no_zero: "0 \<notin> set w \<Longrightarrow> strncpy_bytes w (length w) = w"
proof -
  assume "0 \<notin> set w"
  then have "takeWhile (\<lambda>x. x \<noteq> 0) w = w" by (intro takeWhile_eq_all_conv [THEN iffD2]) auto
  then show ?thesis
    by (simp only: strncpy_bytes_def Let_def take_all order_refl diff_self_eq_0 replicate_0 append_Nil2)
qed

lemma takeWhile_prefix: "0 \<notin> set u \<Longrightarrow> take (length u) (takeWhile (\<lambda>x. x \<noteq> 0) (u @ v)) = (u :: byte list)"
  by (induction u) auto

lemma load_bytes_split: "k \<le> n \<Longrightarrow> load_bytes c off n = load_bytes c off k @ load_bytes c (off + k) (n - k)"
  unfolding load_bytes_def using upt_add_eq_append [of off "off + k" "n - k"] by simp

text \<open>A block that begins with a text and has a 0 behind it gives a string that begins with the text.\<close>

lemma block_str_text:
  assumes t: "load_bytes c off (length text) = text" "0 \<notin> set text" and z: "off + length text \<le> a" "a < 512" "c a = 0"
  shows "\<exists>w. block_str c off = Some w \<and> take (length text) w = text \<and> length w \<le> 511 - off"
proof -
  let ?bs = "load_bytes c off (512 - off)" and ?v = "load_bytes c (off + length text) (512 - off - length text)"
  have bs: "?bs = text @ ?v" using load_bytes_split [of "length text" "512 - off" c off] t(1) z by simp
  have "c a \<in> set ?bs" unfolding load_bytes_def using z by auto
  then have zero: "0 \<in> set ?bs" by (simp add: z(3))
  then have "takeWhile (\<lambda>x. x \<noteq> 0) ?bs \<noteq> ?bs" by (metis takeWhile_no_zero)
  then have "length (takeWhile (\<lambda>x. x \<noteq> 0) ?bs) < length ?bs"
    by (metis length_takeWhile_le nat_less_le takeWhile_eq_take take_all_iff)
  then have len: "length (takeWhile (\<lambda>x. x \<noteq> 0) ?bs) \<le> 511 - off" by simp
  have "take (length text) (takeWhile (\<lambda>x. x \<noteq> 0) ?bs) = text" unfolding bs by (rule takeWhile_prefix [OF t(2)])
  moreover have "block_str c off = Some (takeWhile (\<lambda>x. x \<noteq> 0) ?bs)" using zero by (simp add: block_str_def c_str_def)
  ultimately show ?thesis using len by blast
qed

section \<open>A full disk\<close>

lemma all_used_kept:
  assumes "all_used_v1 s" and "touched_v1 s s' B" and "same_bits_v1 s s'" and "max_filesystem_in_block s \<le> 4194304"
  shows "all_used_v1 s'"
  unfolding all_used_v1_def bitmap_inside_def
proof (intro conjI allI impI)
  have m: "max_filesystem_in_block s' = max_filesystem_in_block s" and l: "image_len s \<le> image_len s'"
    using assms(2) by (simp_all add: touched_v1_def)
  have ins: "516 + b div 8 \<le> image_len s" if "int b < max_filesystem_in_block s - 1" for b
    using assms(1) that by (simp add: all_used_v1_def bitmap_inside_def)
  fix b assume b: "int b < max_filesystem_in_block s' - 1"
  from ins [of b] b m l show "516 + b div 8 \<le> image_len s'" by simp
next
  fix k assume k: "1282 \<le> k" "int k < max_filesystem_in_block s' - 1"
  have m: "max_filesystem_in_block s' = max_filesystem_in_block s" using assms(2) by (simp add: touched_v1_def)
  then have "516 + k div 8 \<le> image_len s" "k < 4194304" "block_used s k"
    using k assms(1,4) by (auto simp: all_used_v1_def bitmap_inside_def)
  with assms(3) show "block_used s' k" by (simp add: same_bits_v1_def)
qed

text \<open>Without a free block the loop that stores the rest of a text never ends.\<close>

lemma write_rest_loops:
  assumes "all_used_v1 s" and "rest \<noteq> []" and "length rest < 2 ^ 31"
  shows "write_rest_v1 0 (b, rest, c, s) = None"
proof (rule ccontr)
  assume "write_rest_v1 0 (b, rest, c, s) \<noteq> None"
  then obtain y where y: "write_rest_v1 0 (b, rest, c, s) = Some y" by blast
  have pos: "0 < to_int (int (length rest div MAX_DATA_V1 + 1))"
  proof -
    have "length rest div MAX_DATA_V1 \<le> length rest div 2" by (simp add: MAX_DATA_V1_def div_le_mono2)
    then have "int (length rest div MAX_DATA_V1 + 1) < 2 ^ 31" using assms(3) by simp
    then show ?thesis by simp
  qed
  have sr: "op_search_free_blk_v1 s (to_int (1 + int (length rest div MAX_DATA_V1))) = Some (0, - 1, s)"
    using search_none_v1 [OF assms(1) pos] by (simp add: add.commute)
  have "\<forall>b. num = 0 \<longrightarrow> st = (b, rest, c, s) \<longrightarrow> False" if "write_rest_v1 num st = Some y" for num st
    using that
  proof (rule write_rest_v1.raw_induct [rotated])
    fix f num st y
    assume IH: "\<And>num st y. f num st = Some y \<Longrightarrow> \<forall>b. num = 0 \<longrightarrow> st = (b, rest, c, s) \<longrightarrow> False"
      and body: "(case fill_blocks_v1 num st of None \<Rightarrow> None
        | Some (next_blk, rest, content, s) \<Rightarrow>
            if rest = [] then Some (0, s)
            else case op_search_free_blk_v1 s (to_int (int (length rest div MAX_DATA_V1 + 1))) of
                None \<Rightarrow> None
              | Some (num', next_blk', s') \<Rightarrow>
                  if num' = - 1 then Some (- 1, s') else f (nat num') (next_blk', rest, content, s')) = Some y"
    show "\<forall>b. num = 0 \<longrightarrow> st = (b, rest, c, s) \<longrightarrow> False"
    proof (intro allI impI)
      fix b assume "num = 0" "st = (b, rest, c, s)"
      with body have "f 0 (- 1, rest, c, s) = Some y"
        using assms(2) by (simp add: fill_blocks_v1_def sr)
      with IH show False by blast
    qed
  qed
  with y show False by blast
qed

end
