(* ===== verification/UfsV1Format.thy ===== *)
theory UfsV1Format
  imports UfsV1Facts
begin

text \<open>The image that the formatting program \<open>init.c\<close> of version 1.0 leaves.\<close>

lemma write_image_at:
  assumes "off + length bs \<le> image_len s" and "a < image_len s"
  shows "image (write_image off bs s) a = (if off \<le> a \<and> a < off + length bs then bs ! (a - off) else image s a)"
  using assms by (auto simp: write_image_def store_bytes_def)

lemma write_image_len: "off + length bs \<le> image_len s \<Longrightarrow> image_len (write_image off bs s) = image_len s"
  by (simp add: write_image_def)

lemma sign_bytes: "le_bytes 4 (0x80000000 :: 32 word) = [0, 0, 0, 0x80]"
  by code_simp

text \<open>The bytes of a formatted image.\<close>

lemma formatted_image:
  assumes len: "738304 \<le> image_len s" and s': "s' = snd (init_main_v1 block0 s)"
  shows "image_len s' = image_len s" and "ld32 (image s') 0 = of_nat (image_len s div 512)" and "ld32 (image s') 4 = 1281"
    and "512 \<le> a \<Longrightarrow> a < 655872 \<Longrightarrow> image s' a = (if a < 692 then 255 else if a = 695 then 0x80 else 0)"
    and "a < 512 \<Longrightarrow> blk_at s' 1281 a = first_block_v1 block0 a"
    and "656384 \<le> a \<Longrightarrow> a < image_len s \<Longrightarrow> image s' a = image s a"
proof -
  define sb where "sb = le_bytes 4 (of_nat (image_len s div 512) :: 32 word) @ le_bytes 4 (1281 :: 32 word) @ le_bytes 4 (1280 :: 32 word)"
  define blk where "blk = load_bytes (first_block_v1 block0) 0 512"
  have lens: "length sb = 12" "length blk = 512" by (simp_all add: sb_def blk_def)
  define s1 where "s1 = write_image 0 sb s"
  define s2 where "s2 = write_image 512 (replicate 180 0xFF) s1"
  define s3 where "s3 = write_image 692 [0, 0, 0, 0x80] s2"
  define s4 where "s4 = write_image 696 (replicate 328 0) s3"
  define s5 where "s5 = write_image 1024 (replicate 654848 0) s4"
  have s6: "s' = write_image 655872 blk s5"
    unfolding s' s5_def s4_def s3_def s2_def s1_def blk_def sb_def
    by (simp add: init_main_v1_def Let_def MAX_BITMAP_IN_BLOCK_def sign_bytes first_block_v1_def)
  have l: "image_len s1 = image_len s" "image_len s2 = image_len s" "image_len s3 = image_len s" "image_len s4 = image_len s"
    "image_len s5 = image_len s"
    using len lens by (simp_all add: s1_def s2_def s3_def s4_def s5_def write_image_len)
  show "image_len s' = image_len s" using len lens l by (simp add: s6 write_image_len)
  have at: "image s' a = (if a < 12 then sb ! a else if a < 512 then image s a else if a < 692 then 255
      else if a < 696 then [0, 0, 0, 0x80] ! (a - 692) else if a < 655872 then 0
      else if a < 656384 then blk ! (a - 655872) else image s a)" if "a < image_len s" for a
    using that len lens l
    by (simp add: s6 s5_def s4_def s3_def s2_def s1_def write_image_at write_image_len nth_append)
  have sup: "load_bytes (image s') k 4 = take 4 (drop k sb)" if "k \<le> 8" for k
    by (rule nth_equalityI) (use that at len lens in auto)
  show "ld32 (image s') 0 = of_nat (image_len s div 512)" "ld32 (image s') 4 = 1281"
    using sup [of 0] sup [of 4] by (simp_all add: ld32_def sb_def)
  show "image s' a = (if a < 692 then 255 else if a = 695 then 0x80 else 0)" if "512 \<le> a" "a < 655872"
  proof (cases "692 \<le> a \<and> a < 696")
    case True
    then have "a = 692 \<or> a = 693 \<or> a = 694 \<or> a = 695" by auto
    then show ?thesis using at [of a] len by auto
  next
    case False
    then show ?thesis using at [of a] that len by auto
  qed
  show "blk_at s' 1281 a = first_block_v1 block0 a" if "a < 512"
    using at [of "655872 + a"] that len by (simp add: blk_at_def blk_def)
  show "image s' a = image s a" if "656384 \<le> a" "a < image_len s" using at [of a] that by simp
qed

end
