(* ===== verification/UfsV1Props.thy ===== *)
theory UfsV1Props
  imports UfsV1Format
begin

text \<open>The properties of version 1.0 of the UFS, with small images on which each is applied.\<close>

section \<open>Sample images\<close>

text \<open>
  A super block that points to block 1281, an empty root directory there, and 1300 blocks; \<open>sample_v1 xs\<close> changes
  single bytes. The bitmap is all zero.
\<close>

definition empty_v1 :: buf where
  "empty_v1 = (\<lambda>a. if a = 4 then 1 else if a = 5 then 5 else if 655876 \<le> a \<and> a < 655880 then 255 else 0)"

definition sample_v1 :: "(nat \<times> byte) list \<Rightarrow> ufs" where
  "sample_v1 xs = \<lparr>image = fold (\<lambda>(a, v) m. m(a := v)) xs empty_v1, image_len = 665600, max_filesystem_in_block = 1300\<rparr>"

definition zero_heap_v1 :: heap_v1 where
  "zero_heap_v1 = \<lparr>mem_v1 = \<lambda>_ _. 0,
     junk_v1 = \<lparr>fname_v1 = replicate 9 0, fext_v1 = replicate 4 0, fsize_v1 = 0, nStartBlock_v1 = 0, flag_v1 = 0\<rparr>, errno = 0\<rparr>"

lemma bitmap_sample_v1 [simp]: "bitmap_inside (sample_v1 xs)"
  by (auto simp: bitmap_inside_def sample_v1_def)

text \<open>An empty root directory, one with an empty file \<open>a\<close> in block 1282, one of 18 unused entries, and a full disk with \<open>a\<close>.\<close>

definition file_v1 :: "(nat \<times> byte) list" where
  "file_v1 = [(655872, 28), (655880, 97), (655900, 2), (655901, 5), (655904, 1), (656388, 255), (656389, 255), (656390, 255), (656391, 255)]"

definition full_dir_v1 :: "(nat \<times> byte) list" where
  "full_dir_v1 = [(655872, 248), (655873, 1)]"

definition full_disk_v1 :: "(nat \<times> byte) list" where
  "full_disk_v1 = file_v1 @ [(672, 255), (673, 255), (674, 255)]"

lemma name_a: "name_v1 [97] [97] None"
  by (simp add: name_v1_def short_v1_def SLASH_def DOT_def)

lemma inside_sample: "b < 1300 \<Longrightarrow> inside_v1 (sample_v1 xs) b"
  by (simp add: inside_v1_def inside_def sample_v1_def)

lemma ld32_bytes: "ld32 b a = le_word [b a, b (a + 1), b (a + 2), b (a + 3)]"
  by (simp add: ld32_def load_bytes_def upt_rec eval_nat_numeral)

lemmas sample_eval = ld32_bytes sample_v1_def file_v1_def full_dir_v1_def full_disk_v1_def empty_v1_def load_bytes_def blk_at_def

lemma sample_roots:
  "root_ok_v1 (sample_v1 []) 0" "root_ok_v1 (sample_v1 file_v1) 1" "root_ok_v1 (sample_v1 full_dir_v1) 18"
  "root_ok_v1 (sample_v1 full_disk_v1) 1"
  by (simp_all add: root_ok_v1_def dir_ok_v1_def inside_v1_def inside_def size_v1_def sample_eval)

lemmas sample_dirs = sample_roots [unfolded root_ok_v1_def, THEN conjunct2]

lemma sample_free: "first_free_v1 (sample_v1 []) 1282" "first_free_v1 (sample_v1 file_v1) 1282"
  by (auto simp: first_free_v1_def block_used_def) (simp_all add: sample_eval)

lemma sample_entry:
  "get_dir_v1 (root_v1 (sample_v1 file_v1)) 0 = \<lparr>fname_v1 = [97, 0, 0, 0, 0, 0, 0, 0, 0], fext_v1 = [0, 0, 0, 0], fsize_v1 = 0,
     nStartBlock_v1 = 1282, flag_v1 = 1\<rparr>"
  "get_dir_v1 (root_v1 (sample_v1 full_disk_v1)) 0 = \<lparr>fname_v1 = [97, 0, 0, 0, 0, 0, 0, 0, 0], fext_v1 = [0, 0, 0, 0], fsize_v1 = 0,
     nStartBlock_v1 = 1282, flag_v1 = 1\<rparr>"
  "fext_v1 (get_dir_v1 (root_v1 (sample_v1 [])) 0) = [0, 0, 0, 0]"
  by (simp_all add: get_dir_v1_def slot_v1_def sample_eval)

lemma sample_at:
  "entry_at_v1 (sample_v1 file_v1) 1281 1 [97] None 0" "entry_at_v1 (sample_v1 full_disk_v1) 1281 1 [97] None 0"
  by (simp_all add: entry_at_v1_def sample_entry matches_v1_def holds_str_def)

lemma sample_block:
  "size_v1 (blk_at (sample_v1 file_v1) 1282) = 0" "next_v1 (blk_at (sample_v1 file_v1) 1282) = - 1"
  "blk_at (sample_v1 file_v1) 1282 100 = 0"
  by (simp_all add: size_v1_def next_v1_def sample_eval)

lemma byte_ones: "n < 8 \<Longrightarrow> bit (255 :: byte) n"
proof -
  assume "n < 8"
  moreover have "(255 :: byte) = - 1" by simp
  ultimately show ?thesis by (simp only: bit_minus_1_iff) (simp add: possible_bit_def)
qed

lemma sample_full_disk: "all_used_v1 (sample_v1 full_disk_v1)"
proof -
  have "block_used (sample_v1 full_disk_v1) k" if "1282 \<le> k" "k < 1299" for k
  proof -
    have "k div 8 = 160 \<or> k div 8 = 161 \<or> k div 8 = 162" using that by linarith
    then have "image (sample_v1 full_disk_v1) (512 + k div 8) = 255" by (auto simp: sample_eval)
    then show ?thesis using byte_ones [of "k mod 8"] by (simp add: block_used_def)
  qed
  then show ?thesis by (simp add: all_used_v1_def) (simp add: sample_v1_def)
qed

lemma sample_no_flags: "i < 18 \<Longrightarrow> flag_v1 (get_dir_v1 (root_v1 (sample_v1 full_dir_v1)) i) = 0"
proof -
  assume "i < 18"
  have "ld32 (root_v1 (sample_v1 full_dir_v1)) (slot_v1 i + 24) = ld32 (\<lambda>_. 0) (slot_v1 i + 24)"
    by (rule ld32_cong) (simp add: sample_v1_def empty_v1_def full_dir_v1_def blk_at_def slot_v1_def)
  also have "\<dots> = 0" by (rule bit_word_eqI) (simp add: bit_ld32)
  finally show ?thesis by (simp add: get_dir_v1_def)
qed

section \<open>Formatting\<close>

lemma formatted_bits:
  assumes "738304 \<le> image_len s" and "k < 5242880"
  shows "block_used (snd (init_main_v1 block0 s)) k \<longleftrightarrow> k < 1440 \<or> k = 1471"
proof -
  let ?b = "if 512 + k div 8 < 692 then 255 else if 512 + k div 8 = 695 then 0x80 else 0 :: byte"
  have "image (snd (init_main_v1 block0 s)) (512 + k div 8) = ?b"
    by (rule formatted_image(4) [OF assms(1) refl]) (use assms(2) in auto)
  then have used: "block_used (snd (init_main_v1 block0 s)) k \<longleftrightarrow> bit ?b (k mod 8)" by (simp add: block_used_def)
  consider "k < 1440" | "1440 \<le> k" "k div 8 = 183" | "1440 \<le> k" "k div 8 \<noteq> 183" by linarith
  then show ?thesis
  proof cases
    case 1
    then have "512 + k div 8 < 692" "bit (255 :: byte) (k mod 8)" using byte_ones [of "k mod 8"] by simp_all
    then show ?thesis using 1 unfolding used by simp
  next
    case 2
    have "bit (0x80 :: byte) (k mod 8) \<longleftrightarrow> k mod 8 = 7"
      using bit_push_bit_iff [of 7 "1 :: byte" "k mod 8"] by (auto simp: bit_simps)
    moreover have "k mod 8 = 7 \<longleftrightarrow> k = 1471" using 2 by presburger
    ultimately show ?thesis using 2 unfolding used by simp
  next
    case 3
    then have "\<not> 512 + k div 8 < 692" "512 + k div 8 \<noteq> 695" "k \<noteq> 1471" by auto
    then show ?thesis using 3 unfolding used by simp
  qed
qed

text \<open>
  C23: The formatting program leaves an empty root directory, for which \<open>readdir\<close> lists \<open>.\<close> and \<open>..\<close>, and a bitmap in
  which exactly the blocks below 1440 and block 1471 are marked, more than the 1282 in use; nothing behind the root
  block is changed. The first directory made afterwards gets block 1440.
\<close>
theorem v1_format_then_mkdir:
  assumes len: "738304 \<le> image_len s" "image_len s < 2 ^ 31" and s': "s' = u_fs_init_v1 (snd (init_main_v1 block0 s))"
    and w: "short_v1 w None" "w \<noteq> []" "SLASH \<notin> set w" "DOT \<notin> set w"
  shows "root_ok_v1 s' 0 \<and> (\<forall>k < 5242880. block_used s' k \<longleftrightarrow> k < 1440 \<or> k = 1471)
    \<and> u_fs_readdir_v1 h s' (\<lambda>_. False) [SLASH] = Some (0, [[DOT], [DOT, DOT]])
    \<and> (\<forall>a. 656384 \<le> a \<longrightarrow> a < image_len s \<longrightarrow> image s' a = image s a)
    \<and> (\<exists>s2 e. u_fs_mkdir_v1 h s' (SLASH # w) = Some (0, s2) \<and> dir_list_v1 s2 1281 1 = [e] \<and> nStartBlock_v1 e = 1440
        \<and> flag_v1 e = 2)"
proof -
  let ?s = "snd (init_main_v1 block0 s)"
  note f = formatted_image [OF len(1) refl, where ?block0.0 = block0]
  have max: "max_filesystem_in_block s' = int (image_len s div 512)"
  proof -
    have "image_len s div 512 < 2 ^ 31" using len(2) by simp
    then have "sint (of_nat (image_len s div 512) :: 32 word) = int (image_len s div 512)"
      using sint_word_of_int_id [of "int (image_len s div 512)", where 'a = 32] by simp
    then show ?thesis by (simp add: s' u_fs_init_v1_def f(2))
  qed
  have same: "image s' = image ?s" "image_len s' = image_len s" by (simp_all add: s' u_fs_init_v1_def f(1))
  then have blk: "blk_at s' = blk_at ?s" "block_used s' = block_used ?s"
    by (auto simp: blk_at_def block_used_def fun_eq_iff)
  have bits: "block_used s' k \<longleftrightarrow> k < 1440 \<or> k = 1471" if "k < 5242880" for k
    unfolding blk by (rule formatted_bits [OF len(1) that])
  have "size_v1 (blk_at s' 1281) = size_v1 (first_block_v1 block0)"
    unfolding size_v1_def blk by (intro ld32_cong) (use f(5) in simp)
  then have size: "size_v1 (blk_at s' 1281) = 0" by simp
  then have dir: "dir_ok_v1 s' 1281 0" using len by (simp add: dir_ok_v1_def inside_v1_def inside_def same)
  then have ok: "root_ok_v1 s' 0" by (simp add: root_ok_v1_def same f(3))
  have free: "first_free_v1 s' 1440"
    unfolding first_free_v1_def bitmap_inside_def max same
  proof (intro conjI allI impI)
    show "516 + b div 8 \<le> image_len s" if "int b < int (image_len s div 512) - 1" for b using that len(1) by linarith
    show "int 1440 < int (image_len s div 512) - 1" using len(1) by linarith
    show "\<not> block_used s' 1440" using bits [of 1440] by simp
    show "block_used s' k" if "1282 \<le> k" "k < 1440" for k using bits [of k] that by simp
  qed simp_all
  have ent: "entries_v1 (over (blk_at s' 1281) c) = 0" for c using size by (simp add: entries_v1_def)
  have "op_read_blk_v1 s' 1281 c = Some (0, over (blk_at s' 1281) c)" for c by (rule super_first_blk(3) [OF ok])
  then have "u_fs_readdir_v1 h s' (\<lambda>_. False) [SLASH] = Some (0, [[DOT], [DOT, DOT]])"
    by (simp add: u_fs_readdir_v1_def open_root_v1 [OF ok] readdir_names_v1_def ent)
  moreover have "\<exists>s2 e. u_fs_mkdir_v1 h s' (SLASH # w) = Some (0, s2) \<and> dir_list_v1 s2 1281 1 = [e] \<and> nStartBlock_v1 e = 1440
      \<and> flag_v1 e = 2"
  proof -
    from create_spec_v1 [OF ok dir_at_v1.root dir, of 2 w w None 1440 h] w free obtain s2 where
      "op_create_v1 h s' (SLASH # w) 2 = Some (0, s2)"
      "created_v1 s' 1281 0 1440 (new_entry_v1 w None 2 1440 (get_dir_v1 (blk_at s' 1281) 0)) s2"
      by (auto simp: in_dir_v1_def dir_list_v1_def)
    then show ?thesis
      by (intro exI [of _ s2] exI [of _ "new_entry_v1 w None 2 1440 (get_dir_v1 (blk_at s' 1281) 0)"])
        (simp add: u_fs_mkdir_v1_def created_v1_def dir_list_v1_def new_entry_v1_def)
  qed
  ultimately show ?thesis using ok bits f(6) same by simp
qed

definition blank_v1 :: ufs where
  "blank_v1 = \<lparr>image = \<lambda>_. 7, image_len = 738304, max_filesystem_in_block = 0\<rparr>"

lemma v1_format_then_mkdir_witness:
  "root_ok_v1 (u_fs_init_v1 (snd (init_main_v1 (\<lambda>_. 3) blank_v1))) 0
    \<and> (\<exists>s2 e. u_fs_mkdir_v1 zero_heap_v1 (u_fs_init_v1 (snd (init_main_v1 (\<lambda>_. 3) blank_v1))) (SLASH # [100]) = Some (0, s2)
        \<and> dir_list_v1 s2 1281 1 = [e] \<and> nStartBlock_v1 e = 1440)"
proof -
  have w: "short_v1 [100] None" "[100 :: byte] \<noteq> []" "SLASH \<notin> set [100]" "DOT \<notin> set [100]"
    by (simp_all add: short_v1_def SLASH_def DOT_def)
  from v1_format_then_mkdir [of blank_v1 _ "\<lambda>_. 3", OF _ _ refl w, of zero_heap_v1] show ?thesis by (auto simp: blank_v1_def)
qed

section \<open>Looking up\<close>

text \<open>
  Opening a path gives the first entry of the directory with that name, and with that extension if the path has
  one; otherwise it gives -1 and leaves the result as it was.
\<close>
theorem v1_open_is_list_search:
  assumes "root_ok_v1 s m" and "dir_at_v1 s d b" and "name_v1 w p q" and "dir_ok_v1 s b n"
    and "exts_end (filter (matches_v1 p q) (dir_list_v1 s b n))"
  shows "op_open_v1 h s (in_dir_v1 d w) attr =
    Some (case List.find (matches_v1 p q) (dir_list_v1 s b n) of None \<Rightarrow> (- 1, attr) | Some e \<Rightarrow> (0, opened_v1 attr e))"
  by (rule open_list_v1 [OF assms])

lemma v1_open_is_list_search_witness:
  "op_open_v1 zero_heap_v1 (sample_v1 file_v1) (in_dir_v1 [SLASH] [97]) (junk_v1 zero_heap_v1) =
    Some (case List.find (matches_v1 [97] None) (dir_list_v1 (sample_v1 file_v1) 1281 1) of
      None \<Rightarrow> (- 1, junk_v1 zero_heap_v1) | Some e \<Rightarrow> (0, opened_v1 (junk_v1 zero_heap_v1) e))"
  by (rule v1_open_is_list_search [OF sample_roots(2) dir_at_v1.root name_a sample_dirs(2)])
    (simp add: exts_end_def dir_list_v1_def sample_entry)

section \<open>Creating\<close>






text \<open>
  C24: \<open>mkdir\<close> in the root of a name without a dot makes a directory: its path leads to the least free block, which
  has no entries, \<open>readdir\<close> lists \<open>.\<close> and \<open>..\<close>, and the other entries of the root are as they were.
\<close>
theorem v1_mkdir_makes_directory:
  assumes ok: "root_ok_v1 s n" "n < 18" and w: "short_v1 w None" "w \<noteq> []" "SLASH \<notin> set w" "DOT \<notin> set w"
    and new: "\<forall>e \<in> set (dir_list_v1 s 1281 n). \<not> matches_v1 w None e"
    and ext: "0 \<in> set (fext_v1 (get_dir_v1 (root_v1 s) n))" and b: "first_free_v1 s b"
  shows "\<exists>s' e. u_fs_mkdir_v1 h s (SLASH # w) = Some (0, s') \<and> dir_at_v1 s' (SLASH # w) b \<and> dir_ok_v1 s' b 0
    \<and> u_fs_readdir_v1 h' s' (\<lambda>_. False) (SLASH # w) = Some (0, [[DOT], [DOT, DOT]])
    \<and> root_ok_v1 s' (Suc n) \<and> dir_list_v1 s' 1281 (Suc n) = dir_list_v1 s 1281 n @ [e]"
proof -
  let ?e = "new_entry_v1 w None 2 (int b) (get_dir_v1 (root_v1 s) n)"
  have dir: "dir_ok_v1 s 1281 n" using ok by (simp add: root_ok_v1_def)
  have nt: "\<not> taken_v1 w None 2 e" if "e \<in> set (dir_list_v1 s 1281 n)" for e
    using new that by (auto simp: taken_v1_def matches_v1_def)
  have b1: "1282 \<le> b" "b \<noteq> 1281" using b by (auto simp: first_free_v1_def)
  from create_spec_v1 [OF ok(1) dir_at_v1.root dir ok(2), of 2 w w None b h] w nt b b1 obtain s' where
    run: "op_create_v1 h s (SLASH # w) 2 = Some (0, s')" and c: "created_v1 s 1281 n b ?e s'" by (auto simp: in_dir_v1_def)
  then have t: "touched_v1 s s' {1281, b}" and l: "dir_list_v1 s' 1281 (Suc n) = dir_list_v1 s 1281 n @ [?e]"
    and dir': "dir_ok_v1 s' 1281 (Suc n)" and ib: "inside_v1 s' b" and sb: "size_v1 (blk_at s' b) = 0"
    by (simp_all add: created_v1_def)
  have ok': "root_ok_v1 s' (Suc n)" by (rule super_kept [OF t ok(1) dir'])
  have mat: "matches_v1 w None ?e" by (simp add: matches_v1_def new_entry_v1_def)
  have e: "fext_v1 ?e = fext_v1 (get_dir_v1 (root_v1 s) n)" "flag_v1 ?e = 2" "nStartBlock_v1 ?e = of_nat b"
    by (simp_all add: new_entry_v1_def)
  have at: "entry_at_v1 s' 1281 (Suc n) w None n"
    using new mat ext e by (auto simp: entry_at_v1_def l nth_append simp del: nth_dir_list_v1)
  have en: "get_dir_v1 (root_v1 s') n = ?e"
    using l nth_dir_list_v1 [of n "Suc n" s' 1281] by (simp add: nth_append del: nth_dir_list_v1)
  have d': "dir_at_v1 s' (SLASH # w) b"
    by (rule dir_at_v1.sub [OF entry_at_find [OF at] ok']) (use en e ext w ib b1 in auto)
  have db: "dir_ok_v1 s' b 0" using ib sb by (simp add: dir_ok_v1_def)
  have name: "name_v1 w w None" using w by (simp add: name_v1_def)
  from open_entry_at [OF ok' dir_at_v1.root name dir' at]
  have "op_open_v1 h' s' (SLASH # w) (junk_v1 h') = Some (0, opened_v1 (junk_v1 h') ?e)"
    by (simp add: in_dir_v1_def l nth_append del: nth_dir_list_v1)
  moreover have "b < 4194304" using ib by (simp add: inside_v1_def)
  moreover have "entries_v1 (over (blk_at s' b) c) = 0" for c using sb by (simp add: entries_v1_def)
  ultimately have "u_fs_readdir_v1 h' s' (\<lambda>_. False) (SLASH # w) = Some (0, [[DOT], [DOT, DOT]])"
    using ib e by (simp add: u_fs_readdir_v1_def sint_blk readdir_names_v1_def)
  with run d' db ok' l show ?thesis by (auto simp: u_fs_mkdir_v1_def)
qed

lemma v1_mkdir_makes_directory_witness:
  "\<exists>s' e. u_fs_mkdir_v1 zero_heap_v1 (sample_v1 []) (SLASH # [100]) = Some (0, s') \<and> dir_at_v1 s' (SLASH # [100]) 1282
    \<and> dir_ok_v1 s' 1282 0 \<and> u_fs_readdir_v1 zero_heap_v1 s' (\<lambda>_. False) (SLASH # [100]) = Some (0, [[DOT], [DOT, DOT]])
    \<and> root_ok_v1 s' (Suc 0) \<and> dir_list_v1 s' 1281 (Suc 0) = dir_list_v1 (sample_v1 []) 1281 0 @ [e]"
  by (rule v1_mkdir_makes_directory [OF sample_roots(1) _ _ _ _ _ _ _ sample_free(1)])
    (simp_all add: dir_list_v1_def sample_entry short_v1_def SLASH_def DOT_def)

text \<open>
  In a directory that has 18 entries, which fill its block, a new name is written behind the block: the code
  tests for more than 504 bytes where it should test for 504, and the run has no defined result.
\<close>
theorem v1_full_directory_undefined:
  assumes ok: "root_ok_v1 s m" and d: "dir_at_v1 s d p" and dir: "dir_ok_v1 s p 18" and w: "name_v1 w pn q"
    and new: "\<forall>e \<in> set (dir_list_v1 s p 18). \<not> matches_v1 pn q e"
  shows "u_fs_mknod_v1 h s (in_dir_v1 d w) = None"
proof -
  let ?c0 = "over (blk_at s p) (mem_v1 h V1_create)"
  have w': "split_at DOT w = (pn, q)" "short_v1 pn q" "SLASH \<notin> set w" using w by (simp_all add: name_v1_def)
  from parent_in_dir [OF d w'(3)] obtain sub where par: "parent_v1 (in_dir_v1 d w) = Some (d, w, sub)" by blast
  from open_dir_v1 [OF ok d] obtain a where
    a: "op_open_v1 h s d (junk_v1 h) = Some (0, a)" "sint (nStartBlock_v1 a) = int p" by blast
  have ins: "inside_v1 s p" and size: "size_v1 (blk_at s p) = 504" using dir by (simp_all add: dir_ok_v1_def)
  have "scan_v1 (exists_v1 ?c0 pn q 1) ?c0 = Some (List.find (\<lambda>i. taken_v1 pn q 1 (get_dir_v1 (blk_at s p) i)) [0..<18])"
    by (rule scan_dir_v1 [OF dir]) (use w'(2) in \<open>simp add: exists_taken\<close>)
  moreover have "List.find (\<lambda>i. taken_v1 pn q 1 (get_dir_v1 (blk_at s p) i)) [0..<18] = None"
    unfolding find_upt_None using new by (auto simp: dir_list_v1_def taken_v1_def matches_v1_def split: option.splits)
  ultimately have sc: "scan_v1 (exists_v1 ?c0 pn q 1) ?c0 = Some None" by simp
  have len: "length pn \<le> MAX_FILENAME_V1" "case q of None \<Rightarrow> True | Some x \<Rightarrow> length x \<le> MAX_EXTENSION"
    using w'(2) by (auto simp: short_v1_def MAX_FILENAME_V1_def MAX_EXTENSION_def split: option.splits)
  have ent: "entries_v1 ?c0 = 18" using size by (simp add: entries_v1_def)
  show ?thesis
    using len by (auto simp: u_fs_mknod_v1_def op_create_v1_def par a ins w'(1) sc ent size MAX_DATA_V1_def Let_def
        split: option.splits)
qed

lemma v1_full_directory_undefined_witness:
  "u_fs_mknod_v1 zero_heap_v1 (sample_v1 full_dir_v1) (in_dir_v1 [SLASH] [97]) = None"
  by (rule v1_full_directory_undefined [OF sample_roots(3) dir_at_v1.root sample_dirs(3) name_a])
    (auto simp: dir_list_v1_def matches_v1_def sample_no_flags)

section \<open>Writing and reading\<close>

text \<open>What a write of less than a block to an empty file stores.\<close>

lemma write_text_v1:
  assumes ok: "root_ok_v1 s m" and d: "dir_at_v1 s d p" and dir: "dir_ok_v1 s p n" and w: "name_v1 w pn q"
    and i: "entry_at_v1 s p n pn q i" and e: "e = dir_list_v1 s p n ! i" "flag_v1 e = 1" "fsize_v1 e = 0"
    and f: "nStartBlock_v1 e = of_nat f" "inside_v1 s f" "1282 \<le> f" "f \<noteq> p" "size_v1 (blk_at s f) = 0" "next_v1 (blk_at s f) = - 1"
    and tx: "0 \<notin> set text" and l: "length text < 504"
  shows "\<exists>s' m'. u_fs_write_v1 h s (in_dir_v1 d w) text 0 = Some (int (length text), s') \<and> touched_v1 s s' {f, p}
    \<and> root_ok_v1 s' m' \<and> dir_at_v1 s' d p \<and> dir_ok_v1 s' p n \<and> entry_at_v1 s' p n pn q i
    \<and> dir_list_v1 s' p n ! i = e\<lparr>fsize_v1 := of_nat (length text)\<rparr> \<and> size_v1 (blk_at s' f) = of_nat (length text)
    \<and> (\<forall>a. 8 \<le> a \<longrightarrow> a < 512 \<longrightarrow> blk_at s' f a = (if a < 8 + length text then text ! (a - 8) else blk_at s f a))"
proof -
  let ?l = "length text" and ?c = "over (blk_at s f) (mem_v1 h V1_write)"
  let ?c3 = "set_next_v1 (set_size_v1 (store_bytes ?c 8 text) (of_nat ?l)) (- 1)"
  have f2: "f < 4194304" using f(2) by (simp add: inside_v1_def)
  have sf: "sint (of_nat f :: 32 word) = int f" by (rule sint_blk [OF f2])
  note opn = open_entry_at [OF ok d w dir i, folded e(1)]
  from write_blk_v1_spec [OF f2, of s ?c3] obtain s3 where
    w3: "op_write_blk_v1 s (int f) ?c3 = Some (0, s3)" "op_write_blk s (int f) ?c3 = (0, s3)" by blast
  have f1: "1281 \<le> f" using f(3) by simp
  note t3 = write_touched [OF w3(2) f1]
  have p1: "1281 \<le> p" using dir_at_block [OF d] by simp
  note dir3 = dir_kept [OF t3(1) dir p1]
  have ok3: "root_ok_v1 s3 m" and d3: "dir_at_v1 s3 d p"
    using root_kept [OF t3(1) ok] dir_at_kept [OF t3(1) d] f(3) by auto
  have dir3: "dir_ok_v1 s3 p n" "dir_list_v1 s3 p n = dir_list_v1 s p n" using dir3 f(4) by auto
  have i3: "entry_at_v1 s3 p n pn q i" using i entry_at_cong [OF dir3(2)] by simp
  define a where "a = (opened_v1 (junk_v1 h) e)\<lparr>fsize_v1 := of_nat ?l\<rparr>"
  have ca: "c_str (fname_v1 a) = Some (takeWhile (\<lambda>x. x \<noteq> 0) (fname_v1 e))" "c_str (fext_v1 a) = Some (takeWhile (\<lambda>x. x \<noteq> 0) (fext_v1 e))"
    by (simp_all add: a_def)
  have ea: "e\<lparr>fsize_v1 := fsize_v1 a, nStartBlock_v1 := nStartBlock_v1 a, flag_v1 := flag_v1 a\<rparr> = e\<lparr>fsize_v1 := of_nat ?l\<rparr>"
    by (simp add: a_def)
  have e3: "e = dir_list_v1 s3 p n ! i" using e(1) dir3(2) by simp
  from setattr_spec_v1 [OF ok3 d3 w dir3(1) i3 e3 ca, of h] obtain s4 where
    s4: "op_setattr_v1 h s3 (in_dir_v1 d w) a = Some (0, s4)" "touched_v1 s3 s4 {p}" "dir_ok_v1 s4 p n"
      "dir_list_v1 s4 p n = (dir_list_v1 s p n)[i := e\<lparr>fsize_v1 := of_nat ?l\<rparr>]"
    unfolding ea dir3(2) by blast
  have nx: "next_v1 (set_size_v1 (store_bytes ?c 8 text) (of_nat ?l)) = - 1"
  proof -
    have "next_v1 (set_size_v1 (store_bytes ?c 8 text) (of_nat ?l)) = next_v1 ?c"
      unfolding next_v1_def
      by (intro arg_cong [where f = sint] ld32_cong) (simp add: set_size_v1_def st32_def store_bytes_def)
    then show ?thesis using f(6) by simp
  qed
  have size: "size_v1 (store_bytes ?c 8 text) = 0"
  proof -
    have "size_v1 (store_bytes ?c 8 text) = size_v1 ?c"
      unfolding size_v1_def by (intro ld32_cong) (simp add: store_bytes_def)
    then show ?thesis using f(5) by simp
  qed
  have run: "u_fs_write_v1 h s (in_dir_v1 d w) text 0 = Some (int ?l, s4)"
    using l f opn sf w3(1) s4(1) nx size tx e
    by (simp add: u_fs_write_v1_def write_seek_v1.simps MAX_DATA_V1_def strncpy_no_zero free_chain_v1.simps a_def Let_def)
  have t: "touched_v1 s s4 {f, p}" using touched_trans [OF t3(1) s4(2)] by (simp add: insert_commute)
  obtain m' where ok4: "root_ok_v1 s4 m'" and d4: "dir_at_v1 s4 d p"
    using dir_changed [OF s4(2) ok3 d3 _ s4(3)] by auto
  let ?e4 = "e\<lparr>fsize_v1 := of_nat ?l\<rparr>"
  have i4: "entry_at_v1 s4 p n pn q i" "dir_list_v1 s4 p n ! i = ?e4"
    using i unfolding entry_at_v1_def s4(4) by (auto simp: nth_list_update e(1) simp del: nth_dir_list_v1)
  have b4: "blk_at s4 f a = ?c3 a" if "a < 512" for a
  proof -
    have "blk_at s4 f a = blk_at s3 f a"
      using s4(2) touched_inside [OF t3(1) f(2)] f1 f(4) that by (auto simp: touched_v1_def inside_v1_def)
    with write_blk_image(5) [OF w3(2) that] show ?thesis by simp
  qed
  have size4: "size_v1 (blk_at s4 f) = of_nat ?l"
  proof -
    have "size_v1 (blk_at s4 f) = size_v1 (set_size_v1 (store_bytes ?c 8 text) (of_nat ?l))"
      unfolding size_v1_def by (intro ld32_cong) (use b4 in \<open>simp add: set_next_v1_def st32_def store_bytes_def\<close>)
    then show ?thesis by simp
  qed
  have c3: "?c3 a = (if a < 8 + ?l then text ! (a - 8) else ?c a)" if "8 \<le> a" for a
    using that by (simp add: set_next_v1_def set_size_v1_def st32_def store_bytes_def)
  have "blk_at s4 f a = (if a < 8 + ?l then text ! (a - 8) else blk_at s f a)" if "8 \<le> a" "a < 512" for a
    using that b4 c3 by (simp add: over_def)
  with run t ok4 d4 s4(3) i4 size4 show ?thesis by blast
qed

text \<open>What reading such a file gives.\<close>

lemma read_text_v1:
  assumes ok: "root_ok_v1 s m" and d: "dir_at_v1 s d p" and dir: "dir_ok_v1 s p n" and w: "name_v1 w pn q"
    and i: "entry_at_v1 s p n pn q i" and e: "e = dir_list_v1 s p n ! i" "flag_v1 e = 1" "fsize_v1 e = of_nat (length text)"
    and f: "nStartBlock_v1 e = of_nat f" "inside_v1 s f" "size_v1 (blk_at s f) = of_nat (length text)"
    and tx: "0 \<notin> set text" "text \<noteq> []" and at8: "\<And>a. a < length text \<Longrightarrow> blk_at s f (8 + a) = text ! a"
    and z: "8 + length text \<le> z" "z < 512" "blk_at s f z = 0" and sz: "512 \<le> sz" "sz < 2 ^ 31"
  shows "\<exists>out. u_fs_read_v1 h s (in_dir_v1 d w) sz 0 = Some (int (length text), out) \<and> take (length text) out = text"
    and "u_fs_getattr_v1 h s (in_dir_v1 d w) = Some (0, 0x8000 OR 0x1B6, of_nat (length text))"
proof -
  let ?l = "length text"
  have l: "?l < 504" using z by simp
  have sf: "sint (of_nat f :: 32 word) = int f" by (rule sint_blk) (use f(2) in \<open>simp add: inside_v1_def\<close>)
  note opn = open_entry_at [OF ok d w dir i, folded e(1)]
  have us: "unat (of_nat ?l :: 32 word) = ?l" by (subst unat_of_nat) (use l in simp)
  have ui: "uint (of_nat ?l :: 32 word) = int ?l" using us by (metis of_nat_unat)
  have "load_bytes (over (blk_at s f) c) 8 ?l = text" for c
    by (rule nth_equalityI) (use l at8 in \<open>auto simp: over_def\<close>)
  moreover have "over (blk_at s f) c z = 0" for c using z by (simp add: over_def)
  ultimately obtain wd where wd: "block_str (over (blk_at s f) (mem_v1 h V1_read)) 8 = Some wd" "take ?l wd = text" "length wd \<le> 503"
    using block_str_text [OF _ tx(1) z(1,2)] by fastforce
  have "u_fs_read_v1 h s (in_dir_v1 d w) sz 0 = Some (int ?l, wd)"
    using opn e f sf wd l sz us ui tx(2)
    by (simp add: u_fs_read_v1_def MAX_DATA_V1_def read_rest_v1.simps Let_def)
  then show "\<exists>out. u_fs_read_v1 h s (in_dir_v1 d w) sz 0 = Some (int (length text), out) \<and> take (length text) out = text"
    using wd(2) by blast
  show "u_fs_getattr_v1 h s (in_dir_v1 d w) = Some (0, 0x8000 OR 0x1B6, of_nat ?l)"
    using opn e(2,3) by (simp add: u_fs_getattr_v1_def)
qed


text \<open>
  C22: Writing a text of fewer than 504 characters other than 0, and at least one, to an empty file whose block has a 0
  somewhere behind the text returns their number; reading
  with a buffer of at least 512 bytes returns that number and the text, \<open>getattr\<close> the size; only the block of the file
  and that of its directory changed.
\<close>
theorem v1_write_read_roundtrip:
  assumes ok: "root_ok_v1 s m" and d: "dir_at_v1 s d p" and dir: "dir_ok_v1 s p n" and w: "name_v1 w pn q"
    and i: "entry_at_v1 s p n pn q i" and e: "e = dir_list_v1 s p n ! i" "flag_v1 e = 1" "fsize_v1 e = 0"
    and f: "nStartBlock_v1 e = of_nat f" "inside_v1 s f" "1282 \<le> f" "f \<noteq> p" "size_v1 (blk_at s f) = 0" "next_v1 (blk_at s f) = - 1"
    and tx: "0 \<notin> set text" "text \<noteq> []" and z: "8 + length text \<le> z" "z < 512" "blk_at s f z = 0"
    and sz: "512 \<le> sz" "sz < 2 ^ 31"
  shows "\<exists>s' out. u_fs_write_v1 h s (in_dir_v1 d w) text 0 = Some (int (length text), s')
    \<and> u_fs_read_v1 h' s' (in_dir_v1 d w) sz 0 = Some (int (length text), out) \<and> take (length text) out = text
    \<and> u_fs_getattr_v1 h' s' (in_dir_v1 d w) = Some (0, 0x8000 OR 0x1B6, of_nat (length text))
    \<and> touched_v1 s s' {f, p}"
proof -
  let ?l = "length text"
  have l: "?l < 504" using z by simp
  from write_text_v1 [OF ok d dir w i e f tx(1) l, of h] obtain s' m' where
    run: "u_fs_write_v1 h s (in_dir_v1 d w) text 0 = Some (int ?l, s')" and t: "touched_v1 s s' {f, p}"
    and ok': "root_ok_v1 s' m'" and d': "dir_at_v1 s' d p" and dir': "dir_ok_v1 s' p n" and i': "entry_at_v1 s' p n pn q i"
    and e': "dir_list_v1 s' p n ! i = e\<lparr>fsize_v1 := of_nat ?l\<rparr>" and sz': "size_v1 (blk_at s' f) = of_nat ?l"
    and b: "\<And>a. 8 \<le> a \<Longrightarrow> a < 512 \<Longrightarrow> blk_at s' f a = (if a < 8 + ?l then text ! (a - 8) else blk_at s f a)" by blast
  have at8: "blk_at s' f (8 + a) = text ! a" if "a < ?l" for a using b [of "8 + a"] that l by simp
  have z': "blk_at s' f z = 0" using b [of z] z by simp
  have "fsize_v1 (e\<lparr>fsize_v1 := of_nat ?l\<rparr>) = of_nat ?l" "flag_v1 (e\<lparr>fsize_v1 := of_nat ?l\<rparr>) = 1"
    "nStartBlock_v1 (e\<lparr>fsize_v1 := of_nat ?l\<rparr>) = of_nat f" using e f(1) by simp_all
  note rd = read_text_v1 [OF ok' d' dir' w i' e' [symmetric] this(2,1,3) touched_inside [OF t f(2)] sz' tx at8 z(1,2) z' sz]
  show ?thesis using run t rd by blast
qed

lemma v1_write_read_roundtrip_witness:
  "\<exists>s' out. u_fs_write_v1 zero_heap_v1 (sample_v1 file_v1) (in_dir_v1 [SLASH] [97]) [98, 99] 0 = Some (int (length [98, 99 :: byte]), s')
    \<and> u_fs_read_v1 zero_heap_v1 s' (in_dir_v1 [SLASH] [97]) 4096 0 = Some (int (length [98, 99 :: byte]), out)
    \<and> take (length [98, 99 :: byte]) out = [98, 99]
    \<and> u_fs_getattr_v1 zero_heap_v1 s' (in_dir_v1 [SLASH] [97]) = Some (0, 0x8000 OR 0x1B6, of_nat (length [98, 99 :: byte]))
    \<and> touched_v1 (sample_v1 file_v1) s' {1282, 1281}"
  by (rule v1_write_read_roundtrip [where z = 100, OF sample_roots(2) dir_at_v1.root sample_dirs(2) name_a sample_at(1) refl])
    (simp_all add: sample_entry sample_block inside_sample)

text \<open>
  On a disk without a free block, writing more than 504 characters at the start of a file gives no result: the code
  asks for blocks, gets 0 of them, and asks again.
\<close>
theorem v1_write_full_disk_loops:
  assumes ok: "root_ok_v1 s m" and d: "dir_at_v1 s d p" and dir: "dir_ok_v1 s p n" and w: "name_v1 w pn q"
    and i: "entry_at_v1 s p n pn q i" and f: "nStartBlock_v1 (dir_list_v1 s p n ! i) = of_nat f" "inside_v1 s f" "1282 \<le> f"
    and full: "all_used_v1 s" "max_filesystem_in_block s \<le> 4194304"
    and len: "504 < length text" "length text < 2 ^ 31"
  shows "u_fs_write_v1 h s (in_dir_v1 d w) text 0 = None"
proof -
  let ?rest = "drop 504 text"
  have f2: "f < 4194304" "1281 \<le> f" using f(2,3) by (simp_all add: inside_v1_def)
  have sr: "op_search_free_blk_v1 s (1 + int ((length text - 504) div 504)) = Some (0, - 1, s)"
    by (rule search_none_v1 [OF full(1)]) simp
  have loops: "write_rest_v1 0 (b, ?rest, c', snd (op_write_blk s (int f) c)) = None" for b c c'
  proof -
    have "op_write_blk s (int f) c = (0, snd (op_write_blk s (int f) c))" by (simp add: op_write_blk_def)
    note t = write_touched [OF this f2(2)]
    have "all_used_v1 (snd (op_write_blk s (int f) c))" by (rule all_used_kept [OF full(1) t full(2)])
    from write_rest_loops [OF this, of ?rest b c'] len show ?thesis by simp
  qed
  show ?thesis
    using len open_entry_at [OF ok d w dir i] f sint_blk [OF f2(1)]
    by (simp add: u_fs_write_v1_def write_seek_v1.simps MAX_DATA_V1_def Let_def sr loops write_blk_v1 [OF f2(1)] split_beta)
qed

lemma v1_write_full_disk_loops_witness:
  "u_fs_write_v1 zero_heap_v1 (sample_v1 full_disk_v1) (in_dir_v1 [SLASH] [97]) (replicate 505 1) 0 = None"
  by (rule v1_write_full_disk_loops [where f = 1282, OF sample_roots(4) dir_at_v1.root sample_dirs(4) name_a sample_at(2)
      _ _ _ sample_full_disk]) (simp_all add: sample_entry inside_sample, simp_all add: sample_v1_def)

section \<open>Removing\<close>

text \<open>
  C26: \<open>unlink\<close> of a file whose blocks form a chain that ends returns 0: it frees exactly the blocks of the chain and
  clears the flag of the entry, \<open>getattr\<close> no longer finds the name, and the directory keeps its length: its entry is
  never used again.
\<close>
theorem v1_unlink_frees_chain:
  assumes ok: "root_ok_v1 s m" and d: "dir_at_v1 s d p" and dir: "dir_ok_v1 s p n" and w: "name_v1 w pn q"
    and i: "entry_at_v1 s p n pn q i" and fl: "flag_v1 (dir_list_v1 s p n ! i) = 1"
    and chain: "chain_v1 s (sint (nStartBlock_v1 (dir_list_v1 s p n ! i))) bs"
    and only: "\<forall>j < n. j \<noteq> i \<longrightarrow> \<not> matches_v1 pn q (dir_list_v1 s p n ! j)"
  shows "\<exists>s'. u_fs_unlink_v1 h s (in_dir_v1 d w) = Some (0, s') \<and> bits_are s s' (\<lambda>k u. k \<notin> set bs \<and> u)
    \<and> dir_list_v1 s' p n = (dir_list_v1 s p n)[i := (dir_list_v1 s p n ! i)\<lparr>flag_v1 := 0\<rparr>]
    \<and> u_fs_getattr_v1 h' s' (in_dir_v1 d w) = Some (- 2, 0, 0)"
proof -
  define e where "e = dir_list_v1 s p n ! i"
  note opn = open_entry_at [OF ok d w dir i, folded e_def]
  from free_chain_spec [OF chain, of "mem_v1 h V1_rm"] obtain s1 where
    s1: "free_chain_v1 s (sint (nStartBlock_v1 e)) (mem_v1 h V1_rm) = Some s1" "touched_v1 s s1 {}"
      "image_len s1 = image_len s" "bits_are s s1 (\<lambda>k u. k \<notin> set bs \<and> u)" by (auto simp: e_def)
  have p1: "1281 \<le> p" using dir_at_block [OF d] by simp
  note dir1 = dir_kept [OF s1(2) dir p1, simplified]
  have ok1: "root_ok_v1 s1 m" and d1: "dir_at_v1 s1 d p" using root_kept [OF s1(2) ok] dir_at_kept [OF s1(2) d] by auto
  have i1: "entry_at_v1 s1 p n pn q i" using i entry_at_cong [OF dir1(2)] by simp
  have e1: "e = dir_list_v1 s1 p n ! i" by (simp add: e_def dir1(2) del: nth_dir_list_v1)
  define a where "a = (opened_v1 (junk_v1 h) e)\<lparr>flag_v1 := 0\<rparr>"
  have ca: "c_str (fname_v1 a) = Some (takeWhile (\<lambda>x. x \<noteq> 0) (fname_v1 e))" "c_str (fext_v1 a) = Some (takeWhile (\<lambda>x. x \<noteq> 0) (fext_v1 e))"
    by (simp_all add: a_def)
  have ea: "e\<lparr>fsize_v1 := fsize_v1 a, nStartBlock_v1 := nStartBlock_v1 a, flag_v1 := flag_v1 a\<rparr> = e\<lparr>flag_v1 := 0\<rparr>"
    by (simp add: a_def)
  from setattr_spec_v1 [OF ok1 d1 w dir1(1) i1 e1 ca, of h] obtain s2 where
    s2: "op_setattr_v1 h s1 (in_dir_v1 d w) a = Some (0, s2)" "touched_v1 s1 s2 {p}" "same_bits_v1 s1 s2" "dir_ok_v1 s2 p n"
      "dir_list_v1 s2 p n = (dir_list_v1 s p n)[i := e\<lparr>flag_v1 := 0\<rparr>]"
    unfolding ea dir1(2) by blast
  have run: "u_fs_unlink_v1 h s (in_dir_v1 d w) = Some (0, s2)"
    using opn fl s1(1) s2(1) by (simp add: u_fs_unlink_v1_def op_rm_v1_def e_def [symmetric] a_def del: nth_dir_list_v1)
  have "bits_are s s2 (\<lambda>k u. k \<notin> set bs \<and> u)"
    using s1(3,4) s2(3) by (auto simp: bits_are_def same_bits_v1_def)
  moreover have "u_fs_getattr_v1 h' s2 (in_dir_v1 d w) = Some (- 2, 0, 0)"
  proof -
    obtain m' where ok2: "root_ok_v1 s2 m'" and d2: "dir_at_v1 s2 d p" using dir_changed [OF s2(2) ok1 d1 _ s2(4)] by auto
    have none: "\<not> matches_v1 pn q x" if "x \<in> set (dir_list_v1 s2 p n)" for x
    proof -
      from that obtain j where j: "j < n" "x = (dir_list_v1 s p n)[i := e\<lparr>flag_v1 := 0\<rparr>] ! j"
        unfolding s2(5) by (auto simp: in_set_conv_nth)
      then show ?thesis using only by (cases "j = i") (auto simp: matches_v1_def simp del: nth_dir_list_v1)
    qed
    have "List.find (matches_v1 pn q) (dir_list_v1 s2 p n) = None" using none by (simp add: find_None_iff)
    moreover have "exts_end (filter (matches_v1 pn q) (dir_list_v1 s2 p n))" using none by (simp add: exts_end_def)
    ultimately show ?thesis using open_list_v1 [OF ok2 d2 w s2(4)] by (simp add: u_fs_getattr_v1_def)
  qed
  ultimately show ?thesis using run s2(5) by (auto simp: e_def)
qed

lemma v1_unlink_frees_chain_witness:
  "\<exists>s'. u_fs_unlink_v1 zero_heap_v1 (sample_v1 file_v1) (in_dir_v1 [SLASH] [97]) = Some (0, s')
    \<and> bits_are (sample_v1 file_v1) s' (\<lambda>k u. k \<notin> set [1282] \<and> u)
    \<and> dir_list_v1 s' 1281 1 = (dir_list_v1 (sample_v1 file_v1) 1281 1)[0 := (dir_list_v1 (sample_v1 file_v1) 1281 1 ! 0)\<lparr>flag_v1 := 0\<rparr>]
    \<and> u_fs_getattr_v1 zero_heap_v1 s' (in_dir_v1 [SLASH] [97]) = Some (- 2, 0, 0)"
  by (rule v1_unlink_frees_chain [OF sample_roots(2) dir_at_v1.root sample_dirs(2) name_a sample_at(1)])
    (simp_all add: sample_entry sample_block inside_sample)

end
