(* ===== verification/AfsState.thy ===== *)
theory AfsState
  imports Bytes
begin

text \<open>
  The remote file system of \<open>exmple/l-fuse\<close>: a client that FUSE calls (\<open>afsfuse_client.c\<close>), a server that calls its host
  (\<open>afsfuse_server.c\<close>), and between them procedures that \<open>rxgen\<close> generates from \<open>afsfuse.xg\<close> on top of the library Rx. This
  theory has the structures and the requests of \<open>afsfuse.xg\<close>, and the two things that are parameters of the model: the
  system calls of the server's host (\<open>kernel\<close>) and the calls of Rx (\<open>rx\<close>, \<open>remote\<close>), with the documented laws of a byte
  stream as an interface. The program keeps an \<open>int\<close> where the library stores a \<open>long\<close>, so its target has 4 bytes for
  both; offsets of FUSE have 8 bytes (\<open>_FILE_OFFSET_BITS\<close> in the \<open>Makefile\<close>).
\<close>

section \<open>Structures\<close>

record my_file_info =
  fi_flags :: "32 word"
  fi_fh :: "32 word"
  fi_writepage :: "32 word"

record mystatfs =
  f_type :: "32 word"
  f_bsize :: "32 word"
  f_blocks :: "32 word"
  f_bfree :: "32 word"
  f_bavail :: "32 word"
  f_files :: "32 word"
  f_ffree :: "32 word"
  f_fsid1 :: "32 word"
  f_fsid2 :: "32 word"
  f_namelen :: "32 word"
  f_spare :: "32 word list"

record my_dirhandle =
  dh_type :: "32 word"
  dh_inode :: "32 word"
  dh_name :: "byte list"

text \<open>The host's structures: \<open>statfs\<close> and \<open>dirent\<close>. A \<open>struct stat\<close> is only passed on, as its 96 bytes.\<close>

record host_statfs =
  h_type :: "32 word"
  h_bsize :: "32 word"
  h_blocks :: "64 word"
  h_bfree :: "64 word"
  h_bavail :: "64 word"
  h_files :: "64 word"
  h_ffree :: "64 word"
  h_fsid0 :: "32 word"
  h_fsid1 :: "32 word"
  h_namelen :: "32 word"
  h_spare :: "32 word list"

record dirent =
  d_name :: "byte list"
  d_type :: "byte"
  d_ino :: "64 word"

definition SIZEOF_STAT :: nat where "SIZEOF_STAT = 96"

text \<open>The requests of \<open>afsfuse.xg\<close>, and what a procedure gives back: its result code and its \<open>OUT\<close> parameters.\<close>

datatype request =
    Q_getattr "byte list" "32 word"
  | Q_getdirWrapper "byte list"
  | Q_read "byte list" "32 word" "32 word" my_file_info
  | Q_open "byte list" "32 word"
  | Q_write "byte list" "32 word" "32 word" my_file_info
  | Q_chmod "byte list" "32 word"
  | Q_chown "byte list" "32 word" "32 word"
  | Q_utime "byte list" "32 word" "32 word"
  | Q_mknod "byte list" "32 word" "32 word"
  | Q_mkdir "byte list" "32 word"
  | Q_unlink "byte list"
  | Q_rmdir "byte list"
  | Q_rename "byte list" "byte list"
  | Q_truncate "byte list" "32 word"
  | Q_release "byte list" my_file_info
  | Q_readlink "byte list" "32 word"
  | Q_symlink "byte list" "byte list"
  | Q_link "byte list" "byte list"
  | Q_statfs "byte list"
  | Q_fsync "byte list" "32 word" my_file_info
  | Q_flush "byte list" my_file_info

record reply =
  rcode :: int
  handles_out :: "my_dirhandle list"
  hd_out :: "32 word"
  data_out :: "byte list"
  stbuf_out :: mystatfs

definition zero_statfs :: mystatfs where
  "zero_statfs = \<lparr>f_type = 0, f_bsize = 0, f_blocks = 0, f_bfree = 0, f_bavail = 0, f_files = 0, f_ffree = 0, f_fsid1 = 0,
     f_fsid2 = 0, f_namelen = 0, f_spare = replicate 6 0\<rparr>"

definition only_code :: "int \<Rightarrow> reply" where
  "only_code c = \<lparr>rcode = c, handles_out = [], hd_out = 0, data_out = [], stbuf_out = zero_statfs\<rparr>"

section \<open>The host of the server\<close>

text \<open>
  The system calls, over a state of the host that the model does not look into. Each gives the integer the C function
  returns, \<open>-1\<close> for an error, whose number is then in \<open>errno\<close>. \<open>k_opendir\<close> stands for \<open>opendir\<close>, the calls of \<open>readdir\<close>
  up to the null pointer and \<open>closedir\<close>: the entries, or None where \<open>opendir\<close> fails.
\<close>

record 'h kernel =
  k_errno :: "'h \<Rightarrow> int"
  k_lstat :: "byte list \<Rightarrow> 'h \<Rightarrow> (int \<times> byte list) \<times> 'h"
  k_opendir :: "byte list \<Rightarrow> 'h \<Rightarrow> dirent list option \<times> 'h"
  k_rmdir :: "byte list \<Rightarrow> 'h \<Rightarrow> int \<times> 'h"
  k_unlink :: "byte list \<Rightarrow> 'h \<Rightarrow> int \<times> 'h"
  k_mkdir :: "byte list \<Rightarrow> 32 word \<Rightarrow> 'h \<Rightarrow> int \<times> 'h"
  k_chmod :: "byte list \<Rightarrow> 32 word \<Rightarrow> 'h \<Rightarrow> int \<times> 'h"
  k_mknod :: "byte list \<Rightarrow> 32 word \<Rightarrow> 32 word \<Rightarrow> 'h \<Rightarrow> int \<times> 'h"
  k_lchown :: "byte list \<Rightarrow> 32 word \<Rightarrow> 32 word \<Rightarrow> 'h \<Rightarrow> int \<times> 'h"
  k_utime :: "byte list \<Rightarrow> 32 word \<Rightarrow> 32 word \<Rightarrow> 'h \<Rightarrow> int \<times> 'h"
  k_truncate :: "byte list \<Rightarrow> int \<Rightarrow> 'h \<Rightarrow> int \<times> 'h"
  k_symlink :: "byte list \<Rightarrow> byte list \<Rightarrow> 'h \<Rightarrow> int \<times> 'h"
  k_rename :: "byte list \<Rightarrow> byte list \<Rightarrow> 'h \<Rightarrow> int \<times> 'h"
  k_link :: "byte list \<Rightarrow> byte list \<Rightarrow> 'h \<Rightarrow> int \<times> 'h"
  k_statfs :: "byte list \<Rightarrow> 'h \<Rightarrow> (int \<times> host_statfs) \<times> 'h"
  k_open :: "byte list \<Rightarrow> 32 word \<Rightarrow> 'h \<Rightarrow> int \<times> 'h"
  k_close :: "int \<Rightarrow> 'h \<Rightarrow> int \<times> 'h"
  k_pread :: "int \<Rightarrow> nat \<Rightarrow> int \<Rightarrow> 'h \<Rightarrow> (int \<times> byte list) \<times> 'h"
  k_pwrite :: "int \<Rightarrow> byte list \<Rightarrow> int \<Rightarrow> 'h \<Rightarrow> int \<times> 'h"
  k_readlink :: "byte list \<Rightarrow> nat \<Rightarrow> 'h \<Rightarrow> (int \<times> byte list) \<times> 'h"

definition O_RDONLY :: "32 word" where "O_RDONLY = 0"
definition O_WRONLY :: "32 word" where "O_WRONLY = 1"

section \<open>The library Rx\<close>

text \<open>
  The operations on a call that is under way: reading (which gives the bytes it stored; their number is the result), writing,
  \<open>xdr_long\<close> in both directions (None where it returns false), \<open>rx_Error\<close> and \<open>rx_EndCall\<close>.
\<close>

record 'w rx =
  rx_Read :: "nat \<Rightarrow> 'w \<Rightarrow> byte list \<times> 'w"
  rx_Write :: "byte list \<Rightarrow> 'w \<Rightarrow> int \<times> 'w"
  xdr_get :: "'w \<Rightarrow> 32 word option \<times> 'w"
  xdr_put :: "32 word \<Rightarrow> 'w \<Rightarrow> bool \<times> 'w"
  rx_Error :: "'w \<Rightarrow> int"
  rx_EndCall :: "int \<Rightarrow> 'w \<Rightarrow> int \<times> 'w"

text \<open>
  On the side of the client also the generated procedures: \<open>rpc\<close> runs a request to its end; \<open>rx_start\<close> begins a \<open>split\<close> one
  (\<open>rx_NewCall\<close> and \<open>Startrxc_...\<close>). None is a run of the server that is undefined.
\<close>

record 'w remote = "'w rx" +
  rpc :: "request \<Rightarrow> 'w \<Rightarrow> (reply \<times> 'w) option"
  rx_start :: "request \<Rightarrow> 'w \<Rightarrow> (int \<times> 'w) option"

text \<open>The interface of everything bytes are read from in order and in pieces, as many as asked for while there are any.\<close>

locale byte_source =
  fixes get :: "nat \<Rightarrow> 's \<Rightarrow> byte list \<times> 's" and content :: "'s \<Rightarrow> byte list"
  assumes get_bytes: "fst (get n s) = take n (content s)"
    and get_rest: "content (snd (get n s)) = drop n (content s)"
begin

lemma get_Pair: "get n s = (bs, s') \<Longrightarrow> bs = take n (content s) \<and> content s' = drop n (content s)"
  using get_bytes [of n s] get_rest [of n s] by simp

lemma get_end: "0 < n \<Longrightarrow> fst (get n s) = [] \<longleftrightarrow> content s = []"
  by (simp add: get_bytes)

text \<open>Induction for a loop that reads until there is nothing left.\<close>

lemma chunk_induct [case_names positive finished chunk]:
  assumes "0 < n" and "\<And>s. content s = [] \<Longrightarrow> P s"
    and "\<And>s. content s \<noteq> [] \<Longrightarrow> P (snd (get n s)) \<Longrightarrow> P s"
  shows "P s"
proof (induction "length (content s)" arbitrary: s rule: less_induct)
  case less
  show ?case
  proof (cases "content s = []")
    case True
    then show ?thesis by (rule assms(2))
  next
    case False
    with \<open>0 < n\<close> have "length (content (snd (get n s))) < length (content s)" by (simp add: get_rest)
    then have "P (snd (get n s))" by (rule less)
    with False show ?thesis by (rule assms(3))
  qed
qed

end

text \<open>The interface of everything bytes are written to in order.\<close>

locale byte_sink =
  fixes put :: "byte list \<Rightarrow> 's \<Rightarrow> int \<times> 's" and sent :: "'s \<Rightarrow> byte list" and ready :: "'s \<Rightarrow> byte list \<Rightarrow> bool"
  assumes put_all: "ready s bs \<Longrightarrow> fst (put bs s) = int (length bs)"
    and put_sent: "ready s bs \<Longrightarrow> sent (snd (put bs s)) = sent s @ bs"
    and put_ready: "ready s (bs @ cs) \<Longrightarrow> ready s bs \<and> ready (snd (put bs s)) cs"
begin

lemma put_Pair: "ready s bs \<Longrightarrow> put bs s = (n, s') \<Longrightarrow> n = int (length bs) \<and> sent s' = sent s @ bs"
  using put_all [of s bs] put_sent [of s bs] by simp

end

text \<open>
  A call as Rx documents it: reading gives the bytes in order, a long is 4 bytes with the highest first, and reading does not
  change the state of errors. \<open>inc\<close> are the bytes that are still to be read, \<open>out\<close> those written so far.
\<close>

definition xdr_bytes :: "32 word \<Rightarrow> byte list" where "xdr_bytes w = rev (le_bytes 4 w)"

definition reads_in_order :: "('w, 'z) rx_scheme \<Rightarrow> ('w \<Rightarrow> byte list) \<Rightarrow> bool" where
  "reads_in_order R inc \<longleftrightarrow> byte_source (rx_Read R) inc
     \<and> (\<forall>w x bs. inc w = xdr_bytes x @ bs \<longrightarrow> fst (xdr_get R w) = Some x \<and> inc (snd (xdr_get R w)) = bs)
     \<and> (\<forall>w. inc w = [] \<longrightarrow> fst (xdr_get R w) = None)
     \<and> (\<forall>w n. rx_Error R (snd (rx_Read R n w)) = rx_Error R w \<and> rx_Error R (snd (xdr_get R w)) = rx_Error R w)"

definition writes_in_order :: "('w, 'z) rx_scheme \<Rightarrow> ('w \<Rightarrow> byte list) \<Rightarrow> bool" where
  "writes_in_order R out \<longleftrightarrow> byte_sink (rx_Write R) out (\<lambda>_ _. True)
     \<and> (\<forall>w x. fst (xdr_put R x w) \<and> out (snd (xdr_put R x w)) = out w @ xdr_bytes x)"

lemma reads_in_orderD:
  assumes "reads_in_order R inc"
  shows "byte_source (rx_Read R) inc"
    and "inc w = xdr_bytes x @ bs \<Longrightarrow> \<exists>w'. xdr_get R w = (Some x, w') \<and> inc w' = bs \<and> rx_Error R w' = rx_Error R w"
    and "inc w = [] \<Longrightarrow> \<exists>w'. xdr_get R w = (None, w') \<and> rx_Error R w' = rx_Error R w"
    and "\<exists>w'. rx_Read R n w = (take n (inc w), w') \<and> inc w' = drop n (inc w) \<and> rx_Error R w' = rx_Error R w"
proof -
  show src: "byte_source (rx_Read R) inc" using assms by (simp add: reads_in_order_def)
  have err: "rx_Error R (snd (rx_Read R n w)) = rx_Error R w" "rx_Error R (snd (xdr_get R w)) = rx_Error R w"
    using assms by (simp_all add: reads_in_order_def)
  have get: "inc w = xdr_bytes x @ bs \<Longrightarrow> fst (xdr_get R w) = Some x \<and> inc (snd (xdr_get R w)) = bs"
    and none: "inc w = [] \<Longrightarrow> fst (xdr_get R w) = None"
    using assms by (simp_all add: reads_in_order_def)
  show "\<exists>w'. rx_Read R n w = (take n (inc w), w') \<and> inc w' = drop n (inc w) \<and> rx_Error R w' = rx_Error R w"
    using err(1) byte_source.get_bytes [OF src, of n w] byte_source.get_rest [OF src, of n w] by (cases "rx_Read R n w") simp
  show "inc w = xdr_bytes x @ bs \<Longrightarrow> \<exists>w'. xdr_get R w = (Some x, w') \<and> inc w' = bs \<and> rx_Error R w' = rx_Error R w"
    using err(2) get by (cases "xdr_get R w") simp
  show "inc w = [] \<Longrightarrow> \<exists>w'. xdr_get R w = (None, w') \<and> rx_Error R w' = rx_Error R w"
    using err(2) none by (cases "xdr_get R w") simp
qed

lemma writes_in_orderD:
  assumes "writes_in_order R out"
  shows "\<exists>w'. rx_Write R bs w = (int (length bs), w') \<and> out w' = out w @ bs"
    and "\<exists>w'. xdr_put R x w = (True, w') \<and> out w' = out w @ xdr_bytes x"
proof -
  have snk: "byte_sink (rx_Write R) out (\<lambda>_ _. True)" using assms by (simp add: writes_in_order_def)
  show "\<exists>w'. rx_Write R bs w = (int (length bs), w') \<and> out w' = out w @ bs"
    using byte_sink.put_all [OF snk TrueI, of bs w] byte_sink.put_sent [OF snk TrueI, of bs w] by (cases "rx_Write R bs w") simp
  have "fst (xdr_put R x w) \<and> out (snd (xdr_put R x w)) = out w @ xdr_bytes x"
    using assms by (simp add: writes_in_order_def)
  then show "\<exists>w'. xdr_put R x w = (True, w') \<and> out w' = out w @ xdr_bytes x" by (cases "xdr_put R x w") simp
qed

end
