(* ===== verification/AfsServer.thy ===== *)
theory AfsServer
  imports AfsState
begin

text \<open>
  The procedures of \<open>afsfuse_server.c\<close>, over the system calls \<open>K\<close> of the host and, for those that stream data, the calls
  \<open>S\<close> of Rx on the side of the server. Each gives what the C function returns and the new state. An array that is
  overrun, and a variable that is read before it is set, is None; \<open>malloc\<close> is taken to succeed.
\<close>

section \<open>Paths\<close>

definition AFS :: "byte list" where "AFS = [47, 97, 102, 115]"

text \<open>The labels of the \<open>switch\<close>: the characters of \<open>punebimcoafs.\<close>, and the slash.\<close>

definition labels :: "byte list" where
  "labels = [112, 117, 110, 101, 105, 98, 109, 99, 111, 97, 102, 115, 46]"

definition IsAllowedPath :: "byte list \<Rightarrow> int option" where
  "IsAllowedPath path = after_loop
     (for_loop 0 (length path) (\<lambda>i (p, backCount :: int).
        if length path \<le> p then None
        else let c = path ! p; backCount' = (if c = 47 then backCount + 1 else backCount)
             in Some (if c = 47 \<or> c \<in> set labels
                      then (if backCount' = 3 then Return 1 else Next (p + 1, backCount'))
                      else (if backCount < 3 then Return 0 else Next (p, backCount)))) (0, 0))
     (\<lambda>_. Some 1)"

text \<open>\<open>translatePath\<close> into an array of 512 zeros: the prefix, the path and the 0 behind it have to fit.\<close>

definition translatePath :: "byte list \<Rightarrow> byte list option" where
  "translatePath path = (if length AFS + length path < 512 then Some (AFS @ path) else None)"

section \<open>Attributes and directories\<close>

definition rxc_getattr ::
  "'h kernel \<Rightarrow> ('c, 'z) rx_scheme \<Rightarrow> byte list \<Rightarrow> 32 word \<Rightarrow> 'c \<Rightarrow> 'h \<Rightarrow> (int \<times> 'c \<times> 'h) option" where
  "rxc_getattr K S path dummy c h = do {
     lbuff \<leftarrow> translatePath path;
     allowed \<leftarrow> IsAllowedPath lbuff;
     if allowed = 0 then Some (- 1, c, h)
     else let ((r, stemp), h1) = k_lstat K lbuff h in
       if r = - 1 then Some (- k_errno K h1, c, h1)
       else let (ok, c1) = xdr_put S (of_nat SIZEOF_STAT) c;
                (nbytes, c2) = rx_Write S stemp c1
            in Some (if nbytes \<noteq> int SIZEOF_STAT then - 1 else if ok then 0 else - 1, c2, h1)
   }"

text \<open>
  \<open>rxc_getdirWrapper\<close> lists the directory twice: it makes room for the entries of the first time and one more, and fills
  it with those of the second time.
\<close>

definition dir_handle :: "dirent \<Rightarrow> my_dirhandle option" where
  "dir_handle de = (if 512 \<le> length (d_name de) then None
     else Some \<lparr>dh_type = ucast (d_type de), dh_inode = ucast (d_ino de),
            dh_name = d_name de @ replicate (512 - length (d_name de)) 0\<rparr>)"

fun dir_handles :: "nat \<Rightarrow> dirent list \<Rightarrow> my_dirhandle list option" where
  "dir_handles room [] = Some []"
| "dir_handles room (de # des) =
     (if room = 0 then None else do {
        t \<leftarrow> dir_handle de;
        ts \<leftarrow> dir_handles (room - 1) des;
        Some (t # ts)
      })"

definition rxc_getdirWrapper :: "'h kernel \<Rightarrow> byte list \<Rightarrow> 'h \<Rightarrow> (reply \<times> 'h) option" where
  "rxc_getdirWrapper K path h = do {
     lbuff \<leftarrow> translatePath path;
     case k_opendir K lbuff h of
       (None, h1) \<Rightarrow> Some (only_code 1, h1)
     | (Some first, h1) \<Rightarrow>
         (case k_opendir K lbuff h1 of
            (None, h2) \<Rightarrow> Some (only_code 1, h2)
          | (Some second, h2) \<Rightarrow> do {
              ts \<leftarrow> dir_handles (length first + 1) second;
              Some ((only_code 0)\<lparr>handles_out := ts\<rparr>, h2)
            })
   }"

section \<open>Operations on names\<close>

text \<open>What the procedures make of the result of a system call: two ways of reporting an error.\<close>

definition minus_errno :: "'h kernel \<Rightarrow> int \<times> 'h \<Rightarrow> reply \<times> 'h" where
  "minus_errno K = (\<lambda>(res, h). (only_code (if res = - 1 then - k_errno K h else 0), h))"

definition minus_one :: "int \<times> 'h \<Rightarrow> reply \<times> 'h" where
  "minus_one = (\<lambda>(res, h). (only_code (if res = - 1 then - 1 else 0), h))"

definition rxc_rmdir :: "'h kernel \<Rightarrow> byte list \<Rightarrow> 'h \<Rightarrow> (reply \<times> 'h) option" where
  "rxc_rmdir K path h = map_option (\<lambda>lbuff. minus_errno K (k_rmdir K lbuff h)) (translatePath path)"

definition rxc_unlink :: "'h kernel \<Rightarrow> byte list \<Rightarrow> 'h \<Rightarrow> (reply \<times> 'h) option" where
  "rxc_unlink K path h = map_option (\<lambda>lbuff. minus_errno K (k_unlink K lbuff h)) (translatePath path)"

definition rxc_mkdir :: "'h kernel \<Rightarrow> byte list \<Rightarrow> 32 word \<Rightarrow> 'h \<Rightarrow> (reply \<times> 'h) option" where
  "rxc_mkdir K path mode h = map_option (\<lambda>lbuff. minus_errno K (k_mkdir K lbuff mode h)) (translatePath path)"

definition rxc_mknod :: "'h kernel \<Rightarrow> byte list \<Rightarrow> 32 word \<Rightarrow> 32 word \<Rightarrow> 'h \<Rightarrow> (reply \<times> 'h) option" where
  "rxc_mknod K path mode rdev h = map_option (\<lambda>lbuff. minus_errno K (k_mknod K lbuff mode rdev h)) (translatePath path)"

definition rxc_truncate :: "'h kernel \<Rightarrow> byte list \<Rightarrow> 32 word \<Rightarrow> 'h \<Rightarrow> (reply \<times> 'h) option" where
  "rxc_truncate K path sz h = map_option (\<lambda>lbuff. minus_errno K (k_truncate K lbuff (uint sz) h)) (translatePath path)"

definition rxc_chmod :: "'h kernel \<Rightarrow> byte list \<Rightarrow> 32 word \<Rightarrow> 'h \<Rightarrow> (reply \<times> 'h) option" where
  "rxc_chmod K path mode h = map_option (\<lambda>lbuff. minus_one (k_chmod K lbuff mode h)) (translatePath path)"

definition rxc_chown :: "'h kernel \<Rightarrow> byte list \<Rightarrow> 32 word \<Rightarrow> 32 word \<Rightarrow> 'h \<Rightarrow> (reply \<times> 'h) option" where
  "rxc_chown K path uid gid h = map_option (\<lambda>lbuff. minus_one (k_lchown K lbuff uid gid h)) (translatePath path)"

definition rxc_utime :: "'h kernel \<Rightarrow> byte list \<Rightarrow> 32 word \<Rightarrow> 32 word \<Rightarrow> 'h \<Rightarrow> (reply \<times> 'h) option" where
  "rxc_utime K path at mt h = map_option (\<lambda>lbuff. minus_one (k_utime K lbuff at mt h)) (translatePath path)"

text \<open>With two names both are translated, also the text of a symbolic link.\<close>

definition rxc_symlink :: "'h kernel \<Rightarrow> byte list \<Rightarrow> byte list \<Rightarrow> 'h \<Rightarrow> (reply \<times> 'h) option" where
  "rxc_symlink K from_path to_path h = do {
     lbufffrom \<leftarrow> translatePath from_path;
     lbuffto \<leftarrow> translatePath to_path;
     Some (minus_errno K (k_symlink K lbufffrom lbuffto h))
   }"

definition rxc_rename :: "'h kernel \<Rightarrow> byte list \<Rightarrow> byte list \<Rightarrow> 'h \<Rightarrow> (reply \<times> 'h) option" where
  "rxc_rename K from_path to_path h = do {
     lbufffrom \<leftarrow> translatePath from_path;
     lbuffto \<leftarrow> translatePath to_path;
     Some (minus_errno K (k_rename K lbufffrom lbuffto h))
   }"

definition rxc_link :: "'h kernel \<Rightarrow> byte list \<Rightarrow> byte list \<Rightarrow> 'h \<Rightarrow> (reply \<times> 'h) option" where
  "rxc_link K from_path to_path h = do {
     lbufffrom \<leftarrow> translatePath from_path;
     lbuffto \<leftarrow> translatePath to_path;
     Some (minus_errno K (k_link K lbufffrom lbuffto h))
   }"

text \<open>\<open>readlink\<close> stores at most 511 bytes, and a 0 is put behind them.\<close>

definition rxc_readlink :: "'h kernel \<Rightarrow> byte list \<Rightarrow> 32 word \<Rightarrow> 'h \<Rightarrow> (reply \<times> 'h) option" where
  "rxc_readlink K path sz h = do {
     lbuff \<leftarrow> translatePath path;
     let ((res, link), h1) = k_readlink K lbuff 511 h;
     if res = - 1 then Some (only_code (- k_errno K h1), h1)
     else if res < 0 \<or> 511 < res \<or> length link \<noteq> nat res then None
     else Some ((only_code 0)\<lparr>data_out := takeWhile (\<lambda>x. x \<noteq> 0) link\<rparr>, h1)
   }"

definition rxc_statfs :: "'h kernel \<Rightarrow> byte list \<Rightarrow> 'h \<Rightarrow> (reply \<times> 'h) option" where
  "rxc_statfs K path h = do {
     lbuff \<leftarrow> translatePath path;
     let ((res, st), h1) = k_statfs K lbuff h;
     Some (if res = - 1 then (only_code (- k_errno K h1), h1)
       else ((only_code 0)\<lparr>stbuf_out := \<lparr>f_type = h_type st, f_bsize = h_bsize st, f_blocks = ucast (h_blocks st),
              f_bfree = ucast (h_bfree st), f_bavail = ucast (h_bavail st), f_files = ucast (h_files st),
              f_ffree = ucast (h_ffree st), f_fsid1 = h_fsid0 st, f_fsid2 = h_fsid1 st, f_namelen = h_namelen st,
              f_spare = take 6 (h_spare st)\<rparr>\<rparr>, h1))
   }"

section \<open>Files\<close>

text \<open>The descriptor goes to the client, which is to give it back.\<close>

definition rxc_open :: "'h kernel \<Rightarrow> byte list \<Rightarrow> 32 word \<Rightarrow> 'h \<Rightarrow> (reply \<times> 'h) option" where
  "rxc_open K path oflags h = do {
     lbuff \<leftarrow> translatePath path;
     let (fd, h1) = k_open K lbuff oflags h;
     let hd = word_of_int fd;
     Some ((only_code (if hd = - 1 then - k_errno K h1 else 0))\<lparr>hd_out := hd\<rparr>, h1)
   }"

definition rxc_release :: "'h kernel \<Rightarrow> byte list \<Rightarrow> my_file_info \<Rightarrow> 'h \<Rightarrow> (reply \<times> 'h) option" where
  "rxc_release K path fi h = do {
     lbuff \<leftarrow> translatePath path;
     Some (if fi_fh fi \<noteq> 0 then minus_errno K (k_close K (sint (fi_fh fi)) h) else (only_code 0, h))
   }"

definition rxc_flush :: "byte list \<Rightarrow> 'h \<Rightarrow> (reply \<times> 'h) option" where
  "rxc_flush path h = map_option (\<lambda>_. (only_code 0, h)) (translatePath path)"

definition rxc_fsync :: "byte list \<Rightarrow> 'h \<Rightarrow> (reply \<times> 'h) option" where
  "rxc_fsync path h = map_option (\<lambda>_. (only_code 0, h)) (translatePath path)"

text \<open>
  \<open>rxc_rxc_read\<close>: the comparison binds stronger than the assignment, so \<open>nbytes\<close> is 1 after an error and 0 otherwise. A
  failing \<open>open\<close> is told by the descriptor 0.
\<close>

definition rxc_read ::
  "'h kernel \<Rightarrow> ('c, 'z) rx_scheme \<Rightarrow> byte list \<Rightarrow> 32 word \<Rightarrow> 32 word \<Rightarrow> 'c \<Rightarrow> 'h \<Rightarrow> (int \<times> 'c \<times> 'h) option" where
  "rxc_read K S path sz offset c h = do {
     lbuff \<leftarrow> translatePath path;
     let (fd, h1) = k_open K lbuff O_RDONLY h;
     let error = (if fd = 0 then 1 else 0);
     let ((n, buffer), h2) = k_pread K fd (unat sz) (uint offset) h1;
     let nbytes = (if n = - 1 then 1 else 0 :: nat);
     let error1 = (if nbytes \<noteq> 0 then - k_errno K h2 else error);
     let (error2, c2) =
       (if error1 = 0
        then let (ok, c1) = xdr_put S (of_nat nbytes) c;
                 (written, c2) = rx_Write S (take nbytes buffer) c1
             in (if written \<noteq> int nbytes then 1 else if ok then 0 else 1, c2)
        else (error1, c));
     let h3 = (if 0 < fd then snd (k_close K fd h2) else h2);
     Some (error2, c2, h3)
   }"

text \<open>\<open>rxc_rxc_write\<close>: the length comes with the data; a shorter stream leaves what \<open>rx_Error\<close> says as the result.\<close>

definition rxc_write ::
  "'h kernel \<Rightarrow> ('c, 'z) rx_scheme \<Rightarrow> byte list \<Rightarrow> 32 word \<Rightarrow> 32 word \<Rightarrow> 'c \<Rightarrow> 'h \<Rightarrow> (int \<times> 'c \<times> 'h) option" where
  "rxc_write K S path sz offset c h = do {
     lbuff \<leftarrow> translatePath path;
     let (got, c1) = xdr_get S c;
     len \<leftarrow> got;
     if sint len < 0 then None
     else do {
       let (buffer, c2) = rx_Read S (unat len) c1;
       if unat len < length buffer then None
       else do {
         let error = (if length buffer \<noteq> unat len then rx_Error S c2 else 0);
         let (fd, h1) = k_open K lbuff O_WRONLY h;
         let error1 = (if fd = 0 then - k_errno K h1 else error);
         let (nbytes, h2) = k_pwrite K fd buffer (uint offset) h1;
         let error2 = (if nbytes < 0 then - k_errno K h2 else error1);
         let h3 = (if 0 < fd then snd (k_close K fd h2) else h2);
         Some (error2, c2, h3)
       }
     }
   }"

section \<open>The dispatcher\<close>

text \<open>
  \<open>rxc_ExecuteRequest\<close>, which \<open>rxgen\<close> makes of the table in \<open>afsfuse.xg\<close>: the procedure of a request that streams no data.
\<close>

definition serve :: "'h kernel \<Rightarrow> request \<Rightarrow> 'h \<Rightarrow> (reply \<times> 'h) option" where
  "serve K q h = (case q of
     Q_getdirWrapper p \<Rightarrow> rxc_getdirWrapper K p h
   | Q_open p fl \<Rightarrow> rxc_open K p fl h
   | Q_chmod p m \<Rightarrow> rxc_chmod K p m h
   | Q_chown p u g \<Rightarrow> rxc_chown K p u g h
   | Q_utime p a m \<Rightarrow> rxc_utime K p a m h
   | Q_mknod p m r \<Rightarrow> rxc_mknod K p m r h
   | Q_mkdir p m \<Rightarrow> rxc_mkdir K p m h
   | Q_unlink p \<Rightarrow> rxc_unlink K p h
   | Q_rmdir p \<Rightarrow> rxc_rmdir K p h
   | Q_rename f t \<Rightarrow> rxc_rename K f t h
   | Q_truncate p n \<Rightarrow> rxc_truncate K p n h
   | Q_release p fi \<Rightarrow> rxc_release K p fi h
   | Q_readlink p n \<Rightarrow> rxc_readlink K p n h
   | Q_symlink f t \<Rightarrow> rxc_symlink K f t h
   | Q_link f t \<Rightarrow> rxc_link K f t h
   | Q_statfs p \<Rightarrow> rxc_statfs K p h
   | Q_fsync p ds fi \<Rightarrow> rxc_fsync p h
   | Q_flush p fi \<Rightarrow> rxc_flush p h
   | _ \<Rightarrow> None)"

end
