(* ===== verification/AfsClient.thy ===== *)
theory AfsClient
  imports AfsServer
begin

text \<open>
  The callbacks of \<open>afsfuse_client.c\<close> over the calls \<open>R\<close> of Rx. The state is the semaphore, which lets one callback at a
  time use the connection, and the world behind it. A callback that waits forever, and one that overruns an array, is None.
\<close>

section \<open>The connection\<close>

record 'w client =
  semlock :: nat
  world :: 'w

definition getconnection :: "'w client \<Rightarrow> 'w client option" where
  "getconnection s = (if semlock s = 0 then None else Some (s\<lparr>semlock := semlock s - 1\<rparr>))"

definition relconnection :: "'w client \<Rightarrow> 'w client" where
  "relconnection s = s\<lparr>semlock := semlock s + 1\<rparr>"

text \<open>The form of every callback that is one remote procedure.\<close>

definition remotely :: "('w, 'z) remote_scheme \<Rightarrow> request \<Rightarrow> 'w client \<Rightarrow> (reply \<times> 'w client) option" where
  "remotely R q s = do {
     local \<leftarrow> getconnection s;
     (ret, w) \<leftarrow> rpc R q (world local);
     Some (ret, relconnection (local\<lparr>world := w\<rparr>))
   }"

definition returned :: "(reply \<times> 'w client) option \<Rightarrow> (int \<times> 'w client) option" where
  "returned = map_option (\<lambda>(ret, s). (rcode ret, s))"

section \<open>Callbacks that are one remote procedure\<close>

definition xmp_chmod :: "('w, 'z) remote_scheme \<Rightarrow> byte list \<Rightarrow> 32 word \<Rightarrow> 'w client \<Rightarrow> (int \<times> 'w client) option" where
  "xmp_chmod R path mode s = returned (remotely R (Q_chmod path mode) s)"

definition xmp_chown ::
  "('w, 'z) remote_scheme \<Rightarrow> byte list \<Rightarrow> 32 word \<Rightarrow> 32 word \<Rightarrow> 'w client \<Rightarrow> (int \<times> 'w client) option" where
  "xmp_chown R path uid gid s = returned (remotely R (Q_chown path uid gid) s)"

definition xmp_utime ::
  "('w, 'z) remote_scheme \<Rightarrow> byte list \<Rightarrow> 32 word \<times> 32 word \<Rightarrow> 'w client \<Rightarrow> (int \<times> 'w client) option" where
  "xmp_utime R path buf s = returned (remotely R (Q_utime path (fst buf) (snd buf)) s)"

definition xmp_mknod ::
  "('w, 'z) remote_scheme \<Rightarrow> byte list \<Rightarrow> 32 word \<Rightarrow> 64 word \<Rightarrow> 'w client \<Rightarrow> (int \<times> 'w client) option" where
  "xmp_mknod R path mode rdev s = returned (remotely R (Q_mknod path mode (ucast rdev)) s)"

definition xmp_mkdir :: "('w, 'z) remote_scheme \<Rightarrow> byte list \<Rightarrow> 32 word \<Rightarrow> 'w client \<Rightarrow> (int \<times> 'w client) option" where
  "xmp_mkdir R path mode s = returned (remotely R (Q_mkdir path mode) s)"

definition xmp_unlink :: "('w, 'z) remote_scheme \<Rightarrow> byte list \<Rightarrow> 'w client \<Rightarrow> (int \<times> 'w client) option" where
  "xmp_unlink R path s = returned (remotely R (Q_unlink path) s)"

definition xmp_rmdir :: "('w, 'z) remote_scheme \<Rightarrow> byte list \<Rightarrow> 'w client \<Rightarrow> (int \<times> 'w client) option" where
  "xmp_rmdir R path s = returned (remotely R (Q_rmdir path) s)"

definition xmp_symlink ::
  "('w, 'z) remote_scheme \<Rightarrow> byte list \<Rightarrow> byte list \<Rightarrow> 'w client \<Rightarrow> (int \<times> 'w client) option" where
  "xmp_symlink R from_path to_path s = returned (remotely R (Q_symlink from_path to_path) s)"

definition xmp_rename ::
  "('w, 'z) remote_scheme \<Rightarrow> byte list \<Rightarrow> byte list \<Rightarrow> 'w client \<Rightarrow> (int \<times> 'w client) option" where
  "xmp_rename R from_path to_path s = returned (remotely R (Q_rename from_path to_path) s)"

definition xmp_link ::
  "('w, 'z) remote_scheme \<Rightarrow> byte list \<Rightarrow> byte list \<Rightarrow> 'w client \<Rightarrow> (int \<times> 'w client) option" where
  "xmp_link R from_path to_path s = returned (remotely R (Q_link from_path to_path) s)"

text \<open>The length has 8 bytes here and 4 in the request.\<close>

definition xmp_truncate :: "('w, 'z) remote_scheme \<Rightarrow> byte list \<Rightarrow> 64 word \<Rightarrow> 'w client \<Rightarrow> (int \<times> 'w client) option" where
  "xmp_truncate R path sz s = returned (remotely R (Q_truncate path (ucast sz)) s)"

text \<open>\<open>mfi\<close> is an automatic variable that is never set: what it holds is a parameter.\<close>

definition xmp_release ::
  "('w, 'z) remote_scheme \<Rightarrow> my_file_info \<Rightarrow> byte list \<Rightarrow> my_file_info \<Rightarrow> 'w client \<Rightarrow> (int \<times> 'w client) option" where
  "xmp_release R mfi path fi s = returned (remotely R (Q_release path mfi) s)"

definition xmp_fsync ::
  "('w, 'z) remote_scheme \<Rightarrow> my_file_info \<Rightarrow> byte list \<Rightarrow> 32 word \<Rightarrow> my_file_info \<Rightarrow> 'w client \<Rightarrow> (int \<times> 'w client) option" where
  "xmp_fsync R mfi path isdatasync fi s = returned (remotely R (Q_fsync path isdatasync mfi) s)"

definition xmp_flush ::
  "('w, 'z) remote_scheme \<Rightarrow> my_file_info \<Rightarrow> byte list \<Rightarrow> my_file_info \<Rightarrow> 'w client \<Rightarrow> (int \<times> 'w client) option" where
  "xmp_flush R mfi path fi s = returned (remotely R (Q_flush path mfi) s)"

section \<open>Callbacks with results beside the code\<close>

text \<open>The generated procedure stores its \<open>OUT\<close> parameter only when the code is 0.\<close>

definition xmp_open ::
  "('w, 'z) remote_scheme \<Rightarrow> byte list \<Rightarrow> my_file_info \<Rightarrow> 'w client \<Rightarrow> (int \<times> my_file_info \<times> 'w client) option" where
  "xmp_open R path fi s = map_option
     (\<lambda>(ret, s'). (rcode ret, (if rcode ret = 0 then fi\<lparr>fi_fh := hd_out ret\<rparr> else fi), s'))
     (remotely R (Q_open path (fi_flags fi)) s)"

text \<open>\<open>st\<close> is an automatic variable, which is copied after an error too: what it holds before the call is the parameter \<open>st0\<close>.\<close>

definition xmp_statfs ::
  "('w, 'z) remote_scheme \<Rightarrow> mystatfs \<Rightarrow> byte list \<Rightarrow> 'w client \<Rightarrow> (int \<times> host_statfs \<times> 'w client) option" where
  "xmp_statfs R st0 path s = map_option
     (\<lambda>(ret, s'). let st = (if rcode ret = 0 then stbuf_out ret else st0) in
        (rcode ret, \<lparr>h_type = f_type st, h_bsize = f_bsize st, h_blocks = ucast (f_blocks st), h_bfree = ucast (f_bfree st),
           h_bavail = ucast (f_bavail st), h_files = ucast (f_files st), h_ffree = ucast (f_ffree st), h_fsid0 = f_fsid1 st,
           h_fsid1 = f_fsid2 st, h_namelen = f_namelen st, h_spare = take 6 (f_spare st)\<rparr>, s'))
     (remotely R (Q_statfs path) s)"

text \<open>\<open>strncpy\<close> fills 511 bytes of the caller's buffer, whatever its size.\<close>

definition xmp_readlink ::
  "('w, 'z) remote_scheme \<Rightarrow> byte list \<Rightarrow> nat \<Rightarrow> 'w client \<Rightarrow> (int \<times> byte list \<times> 'w client) option" where
  "xmp_readlink R path sz s = do {
     (ret, s') \<leftarrow> remotely R (Q_readlink path 512) s;
     let w = take 511 (if rcode ret = 0 then data_out ret else []);
     if sz < 511 then None else Some (rcode ret, w @ replicate (sz - length w) 0, s')
   }"

text \<open>
  \<open>xmp_getdir\<close> hands the names to \<open>filler\<close>; \<open>full\<close> says, from the number of names it has, whether it refuses the next. The
  bound of the loop is the number of handles itself; behind the last handle there is none.
\<close>

definition xmp_getdir ::
  "('w, 'z) remote_scheme \<Rightarrow> (nat \<Rightarrow> bool) \<Rightarrow> byte list \<Rightarrow> 'w client
     \<Rightarrow> (int \<times> (byte list \<times> 32 word) list \<times> 'w client) option" where
  "xmp_getdir R full path s = do {
     local \<leftarrow> getconnection s;
     (ret, w) \<leftarrow> rpc R (Q_getdirWrapper path) (world local);
     if rcode ret \<noteq> 0 then Some (- 1, [], relconnection (local\<lparr>world := w\<rparr>))
     else do {
       names \<leftarrow> after_loop (for_loop 0 (length (handles_out ret) + 1) (\<lambda>iter names.
          if length (handles_out ret) \<le> iter then None
          else do {
            let t = handles_out ret ! iter;
            name \<leftarrow> c_str (dh_name t);
            Some (if full (length names) then Break names else Next (names @ [(name, dh_type t)]))
          }) []) Some;
       Some (0, names, relconnection (local\<lparr>world := w\<rparr>))
     }
   }"

section \<open>Callbacks that stream\<close>

text \<open>\<open>mypath\<close> has 512 characters; of \<open>stbuf\<close> as many bytes are set as the server sends.\<close>

definition xmp_getattr ::
  "('w, 'z) remote_scheme \<Rightarrow> byte list \<Rightarrow> byte list \<Rightarrow> 'w client \<Rightarrow> (int \<times> byte list \<times> 'w client) option" where
  "xmp_getattr R path stbuf s =
     (let throwerror = (\<lambda>w stbuf local. let (e, w') = rx_EndCall R (rx_Error R w) w
            in Some (rx_Error R w, stbuf, relconnection (local\<lparr>world := w'\<rparr>)))
      in if 512 \<le> length path then None
      else do {
        local \<leftarrow> getconnection s;
        (r, w) \<leftarrow> rx_start R (Q_getattr path 100) (world local);
        if r \<noteq> 0 then throwerror w stbuf local
        else let (got, w1) = xdr_get R w in
          case got of
            None \<Rightarrow> throwerror w1 stbuf local
          | Some len \<Rightarrow>
              if sint len < 0 then None
              else let (bs, w2) = rx_Read R (unat len) w1 in
                if length stbuf < length bs then None
                else if bs = [] then throwerror w2 (replicate 4 0 @ drop 4 stbuf) local
                else let (e, w3) = rx_EndCall R 0 w2
                  in Some (0, bs @ drop (length bs) stbuf, relconnection (local\<lparr>world := w3\<rparr>))
      })"

text \<open>
  The loop of \<open>xmp_read\<close>: \<open>error\<close> stays 0 until the loop is left, so its condition holds each time. \<open>cap\<close> is the size of
  the caller's buffer.
\<close>

partial_function (option) read_loop :: "('w, 'z) remote_scheme \<Rightarrow> nat \<Rightarrow> byte list \<Rightarrow> 'w \<Rightarrow> (byte list \<times> 'w) option" where
  "read_loop R cap out w =
     (case rx_Read R 1024 w of
        (bs, w1) \<Rightarrow> if bs = [] then Some (out, w1)
          else if cap < length out + length bs then None
          else read_loop R cap (out @ bs) w1)"

definition xmp_read ::
  "('w, 'z) remote_scheme \<Rightarrow> byte list \<Rightarrow> 32 word \<Rightarrow> 64 word \<Rightarrow> my_file_info \<Rightarrow> 'w client
     \<Rightarrow> (int \<times> byte list \<times> 'w client) option" where
  "xmp_read R path sz offset fi s = do {
     local \<leftarrow> getconnection s;
     (r, w) \<leftarrow> rx_start R (Q_read path sz (ucast offset) fi) (world local);
     if r \<noteq> 0 then Some (0, [], relconnection (local\<lparr>world := w\<rparr>))
     else let (got, w1) = xdr_get R w in
       case got of
         None \<Rightarrow> Some (0, [], relconnection (local\<lparr>world := w1\<rparr>))
       | Some len \<Rightarrow> do {
           (buffer, w2) \<leftarrow> read_loop R (unat sz) [] w1;
           let (e, w3) = rx_EndCall R (if rx_Error R w2 \<noteq> 0 then 1 else 0) w2;
           Some (int (length buffer), buffer, relconnection (local\<lparr>world := w3\<rparr>))
         }
   }"

text \<open>\<open>buffer\<close> holds the bytes to be written; their number is \<open>size\<close>.\<close>

definition xmp_write ::
  "('w, 'z) remote_scheme \<Rightarrow> byte list \<Rightarrow> byte list \<Rightarrow> 64 word \<Rightarrow> my_file_info \<Rightarrow> 'w client \<Rightarrow> (int \<times> 'w client) option" where
  "xmp_write R path buffer offset fi s =
     (let throwerror = (\<lambda>w local. Some (rx_Error R w, relconnection (local\<lparr>world := w\<rparr>)));
          sz = of_nat (length buffer)
      in do {
        local \<leftarrow> getconnection s;
        (r, w) \<leftarrow> rx_start R (Q_write path sz (ucast offset) fi) (world local);
        if r \<noteq> 0 then throwerror w local
        else let (ok, w1) = xdr_put R sz w in
          if \<not> ok then throwerror w1 local
          else let (nbytes, w2) = rx_Write R buffer w1 in
            if nbytes \<le> 0 then throwerror w2 local
            else let (error, w3) = rx_EndCall R 0 w2 in
              if error \<noteq> 0 then throwerror w3 local
              else Some (sint sz, relconnection (local\<lparr>world := w3\<rparr>))
      })"

end
