(* ===== verification/AfsBulk.thy ===== *)
theory AfsBulk
  imports AfsState
begin

text \<open>
  \<open>bulk_io.c\<close>: a file of the C library sent into a call and received from one, in pieces of 1024 bytes, and that a file
  which is sent at one end and received at the other is copied.
\<close>

section \<open>Files of the C library\<close>

text \<open>A file that is read: what is left up to its end, and whether it ends with an error. A file that is written: its bytes, and the room left.\<close>

record source =
  src_rest :: "byte list"
  src_failing :: bool

record sink =
  snk_bytes :: "byte list"
  snk_room :: nat

definition fread :: "nat \<Rightarrow> source \<Rightarrow> byte list \<times> source" where
  "fread n f = (take n (src_rest f), f\<lparr>src_rest := drop n (src_rest f)\<rparr>)"

definition fwrite :: "byte list \<Rightarrow> sink \<Rightarrow> int \<times> sink" where
  "fwrite bs f = (let n = min (length bs) (snk_room f)
     in (int n, \<lparr>snk_bytes = snk_bytes f @ take n bs, snk_room = snk_room f - n\<rparr>))"

interpretation from_file: byte_source fread src_rest
  by unfold_locales (simp_all add: fread_def)

interpretation to_file: byte_sink fwrite snk_bytes "\<lambda>f bs. length bs \<le> snk_room f"
  by unfold_locales (auto simp: fwrite_def Let_def)

section \<open>The code\<close>

function send_loop :: "('c, 'z) rx_scheme \<Rightarrow> source \<Rightarrow> 'c \<Rightarrow> int \<times> source \<times> 'c" where
  "send_loop S f c =
     (let (buffer, f1) = fread 1024 f
      in if buffer = [] then (if src_failing f1 then 1 else 0, f1, c)
         else let (n, c1) = rx_Write S buffer c
           in if n \<noteq> int (length buffer) then (1, f1, c1) else send_loop S f1 c1)"
  by pat_completeness auto
termination
  by (relation "measure (\<lambda>(S, f, c). length (src_rest f))") (auto simp: fread_def)

declare send_loop.simps [simp del]

definition bulk_SendFile :: "('c, 'z) rx_scheme \<Rightarrow> source \<Rightarrow> 'c \<Rightarrow> int \<times> source \<times> 'c" where
  "bulk_SendFile S f c = (let (ok, c1) = xdr_put S 1024 c in if ok then send_loop S f c1 else (1, f, c1))"

partial_function (option) receive_loop :: "('c, 'z) rx_scheme \<Rightarrow> 'c \<Rightarrow> sink \<Rightarrow> (int \<times> sink \<times> 'c) option" where
  "receive_loop S c f =
     (case rx_Read S 1024 c of
        (buffer, c1) \<Rightarrow>
          if buffer = [] then Some (if rx_Error S c1 \<noteq> 0 then 1 else 0, f, c1)
          else (case fwrite buffer f of
                  (n, f1) \<Rightarrow> if n \<noteq> int (length buffer) then Some (1, f1, c1) else receive_loop S c1 f1))"

definition bulk_ReceiveFile :: "('c, 'z) rx_scheme \<Rightarrow> 'c \<Rightarrow> sink \<Rightarrow> (int \<times> sink \<times> 'c) option" where
  "bulk_ReceiveFile S c f = (case xdr_get S c of
     (None, c1) \<Rightarrow> Some (1, f, c1)
   | (Some len, c1) \<Rightarrow> receive_loop S c1 f)"

section \<open>What they do\<close>

text \<open>
  A call that takes only so many bytes, \<open>room\<close> of them, as Rx does when the connection breaks: a write takes as many of its
  bytes as there is room for and returns their number, and \<open>xdr_long\<close> fails when its 4 bytes do not fit.
\<close>

definition writes_up_to :: "('c, 'z) rx_scheme \<Rightarrow> ('c \<Rightarrow> byte list) \<Rightarrow> ('c \<Rightarrow> nat) \<Rightarrow> bool" where
  "writes_up_to S sent room \<longleftrightarrow>
     (\<forall>bs c. fst (rx_Write S bs c) = int (min (length bs) (room c))
        \<and> sent (snd (rx_Write S bs c)) = sent c @ take (room c) bs \<and> room (snd (rx_Write S bs c)) = room c - length bs)
     \<and> (\<forall>x c. fst (xdr_put S x c) = (4 \<le> room c)
        \<and> (4 \<le> room c \<longrightarrow> sent (snd (xdr_put S x c)) = sent c @ xdr_bytes x \<and> room (snd (xdr_put S x c)) = room c - 4))"

lemma writes_up_toD:
  assumes "writes_up_to S sent room"
  shows "\<exists>c'. rx_Write S bs c = (int (min (length bs) (room c)), c') \<and> sent c' = sent c @ take (room c) bs \<and> room c' = room c - length bs"
    and "4 \<le> room c \<Longrightarrow> \<exists>c'. xdr_put S x c = (True, c') \<and> sent c' = sent c @ xdr_bytes x \<and> room c' = room c - 4"
    and "\<not> 4 \<le> room c \<Longrightarrow> \<exists>c'. xdr_put S x c = (False, c')"
  using assms by (simp_all add: writes_up_to_def prod_eq_iff)

lemma send_loop_all:
  assumes "writes_up_to S sent room"
  shows "\<exists>f' c'. send_loop S f c = (if room c < length (src_rest f) \<or> src_failing f then 1 else 0, f', c')
    \<and> sent c' = sent c @ take (room c) (src_rest f)"
proof -
  have "\<forall>c. \<exists>f' c'. send_loop S f c = (if room c < length (src_rest f) \<or> src_failing f then 1 else 0, f', c')
    \<and> sent c' = sent c @ take (room c) (src_rest f)"
  proof (induction f rule: from_file.chunk_induct [where n = 1024, case_names positive finished chunk])
    case positive
    show ?case by simp
  next
    case (finished f)
    then show ?case by (simp add: send_loop.simps fread_def)
  next
    case (chunk f)
    show ?case
    proof
      fix c
      let ?bs = "take 1024 (src_rest f)"
      obtain c1 where put: "rx_Write S ?bs c = (int (min (length ?bs) (room c)), c1)"
        "sent c1 = sent c @ take (room c) ?bs" "room c1 = room c - length ?bs"
        using writes_up_toD(1) [OF assms] by blast
      show "\<exists>f' c'. send_loop S f c = (if room c < length (src_rest f) \<or> src_failing f then 1 else 0, f', c')
        \<and> sent c' = sent c @ take (room c) (src_rest f)"
      proof (cases "length ?bs \<le> room c")
        case True
        have "take (room c) ?bs = ?bs" using True by (rule take_all)
        then have c1: "sent c1 = sent c @ ?bs" using put(2) by (simp only:)
        obtain f' c' where rest: "send_loop S (snd (fread 1024 f)) c1
            = (if room c - length ?bs < length (src_rest f) - 1024 \<or> src_failing f then 1 else 0, f', c')"
          "sent c' = (sent c @ ?bs) @ take (room c - length ?bs) (drop 1024 (src_rest f))"
          using spec [OF chunk(2), of c1] unfolding c1 put(3) by (auto simp: fread_def)
        have "?bs @ take (room c - length ?bs) (drop 1024 (src_rest f)) = take (room c) (src_rest f)"
          using True by (cases "1024 \<le> length (src_rest f)") (simp_all add: take_add [symmetric])
        moreover have "room c - length ?bs < length (src_rest f) - 1024 \<longleftrightarrow> room c < length (src_rest f)"
          using True by (cases "1024 \<le> length (src_rest f)") auto
        ultimately show ?thesis using chunk(1) put(1) rest True by (subst send_loop.simps) (simp add: fread_def min_def)
      next
        case False
        then have "room c < length (src_rest f)" "room c < 1024" by simp_all
        then have "room c < length (src_rest f)" "take (room c) ?bs = take (room c) (src_rest f)" by (simp_all add: min_def)
        then show ?thesis using chunk(1) put False by (subst send_loop.simps) (simp add: fread_def)
      qed
    qed
  qed
  then show ?thesis by blast
qed

lemma receive_loop_all:
  assumes R: "reads_in_order R inc"
  shows "\<exists>f' c'. receive_loop R c f = Some (if snk_room f < length (inc c) \<or> rx_Error R c \<noteq> 0 then 1 else 0, f', c')
    \<and> snk_bytes f' = snk_bytes f @ take (snk_room f) (inc c)"
proof -
  have "\<forall>f. \<exists>f' c'. receive_loop R c f = Some (if snk_room f < length (inc c) \<or> rx_Error R c \<noteq> 0 then 1 else 0, f', c')
    \<and> snk_bytes f' = snk_bytes f @ take (snk_room f) (inc c)"
  proof (induction c rule: byte_source.chunk_induct [OF reads_in_orderD(1) [OF R], where n = 1024, case_names positive finished chunk])
    case positive
    show ?case by simp
  next
    case (finished c)
    obtain c1 where "rx_Read R 1024 c = ([], c1)" "rx_Error R c1 = rx_Error R c"
      using reads_in_orderD(4) [OF R, of 1024 c] finished by auto
    with finished show ?case by (subst receive_loop.simps) simp
  next
    case (chunk c)
    let ?bs = "take 1024 (inc c)"
    obtain c1 where c1: "rx_Read R 1024 c = (?bs, c1)" "inc c1 = drop 1024 (inc c)" "rx_Error R c1 = rx_Error R c"
      using reads_in_orderD(4) [OF R, of 1024 c] by blast
    show ?case
    proof
      fix f
      show "\<exists>f' c'. receive_loop R c f = Some (if snk_room f < length (inc c) \<or> rx_Error R c \<noteq> 0 then 1 else 0, f', c')
        \<and> snk_bytes f' = snk_bytes f @ take (snk_room f) (inc c)"
      proof (cases "length ?bs \<le> snk_room f")
        case True
        then have "fwrite ?bs f = (int (length ?bs), \<lparr>snk_bytes = snk_bytes f @ ?bs, snk_room = snk_room f - length ?bs\<rparr>)"
          by (simp add: fwrite_def min_def Let_def)
        moreover obtain f' c' where "receive_loop R c1 \<lparr>snk_bytes = snk_bytes f @ ?bs, snk_room = snk_room f - length ?bs\<rparr>
            = Some (if snk_room f - length ?bs < length (inc c) - 1024 \<or> rx_Error R c \<noteq> 0 then 1 else 0, f', c')"
            "snk_bytes f' = (snk_bytes f @ ?bs) @ take (snk_room f - length ?bs) (drop 1024 (inc c))"
          using spec [OF chunk(2), of "\<lparr>snk_bytes = snk_bytes f @ ?bs, snk_room = snk_room f - length ?bs\<rparr>"]
          unfolding c1(1) snd_conv c1(2,3) by (elim exE conjE) (simp only: length_drop sink.simps)
        moreover have "?bs @ take (snk_room f - length ?bs) (drop 1024 (inc c)) = take (snk_room f) (inc c)"
          using True by (cases "1024 \<le> length (inc c)") (simp_all add: take_add [symmetric])
        moreover have "snk_room f - length ?bs < length (inc c) - 1024 \<longleftrightarrow> snk_room f < length (inc c)"
          using True by (cases "1024 \<le> length (inc c)") auto
        ultimately show ?thesis using chunk(1) c1(1) by (subst receive_loop.simps) simp
      next
        case False
        then have "snk_room f < 1024" by simp
        with False have "fwrite ?bs f = (int (snk_room f), \<lparr>snk_bytes = snk_bytes f @ take (snk_room f) (inc c), snk_room = 0\<rparr>)"
          by (simp add: fwrite_def min_def Let_def)
        moreover have "snk_room f < length (inc c)" using False by auto
        ultimately show ?thesis using False chunk(1) c1(1) by (subst receive_loop.simps) simp
      qed
    qed
  qed
  then show ?thesis by blast
qed

text \<open>
  C32: \<open>bulk_SendFile\<close> into a call that takes \<open>room c\<close> bytes sends a length and then the bytes of the file up to its end, as
  far as there is room, and returns 1 exactly when not all of them fit or reading the file ends with an error; without room
  for the length it sends no byte of the file. \<open>bulk_ReceiveFile\<close> of what was sent ends and appends all bytes behind the
  length to its file, as far as this has room, and returns 1 exactly when it has not, or the call ended with an error: a file
  that is sent at one end and received at the other is copied, for every length and however it is cut into pieces.
\<close>
theorem bulk_copy_roundtrip:
  assumes S: "writes_up_to S sent room" "sent c = []" and R: "reads_in_order R inc"
    and w: "inc w = sent (snd (snd (bulk_SendFile S f c)))"
  shows "fst (bulk_SendFile S f c) = (if room c < 4 + length (src_rest f) \<or> src_failing f then 1 else 0)
    \<and> (room c < 4 \<longrightarrow> fst (snd (bulk_SendFile S f c)) = f)
    \<and> (4 \<le> room c \<longrightarrow> (\<exists>g' w'. bulk_ReceiveFile R w g
          = Some (if snk_room g < min (room c - 4) (length (src_rest f)) \<or> rx_Error R w \<noteq> 0 then 1 else 0, g', w')
        \<and> snk_bytes g' = snk_bytes g @ take (snk_room g) (take (room c - 4) (src_rest f))))"
proof (cases "4 \<le> room c")
  case False
  then show ?thesis using writes_up_toD(3) [OF S(1), of c 1024] by (auto simp: bulk_SendFile_def)
next
  case True
  obtain c1 where c1: "xdr_put S 1024 c = (True, c1)" "sent c1 = xdr_bytes 1024" "room c1 = room c - 4"
    using writes_up_toD(2) [OF S(1) True, of 1024] S(2) by auto
  obtain f' c' where send: "send_loop S f c1 = (if room c < 4 + length (src_rest f) \<or> src_failing f then 1 else 0, f', c')"
    "sent c' = xdr_bytes 1024 @ take (room c - 4) (src_rest f)"
    using send_loop_all [OF S(1), of f c1] c1(2,3) True by (auto simp: less_diff_conv2 add.commute)
  have run: "bulk_SendFile S f c = (if room c < 4 + length (src_rest f) \<or> src_failing f then 1 else 0, f', c')"
    by (simp add: bulk_SendFile_def c1(1) send(1))
  then have "inc w = xdr_bytes 1024 @ take (room c - 4) (src_rest f)" using w send(2) by simp
  from reads_in_orderD(2) [OF R this] obtain w1 where
    w1: "xdr_get R w = (Some 1024, w1)" "inc w1 = take (room c - 4) (src_rest f)" "rx_Error R w1 = rx_Error R w" by blast
  then show ?thesis using run True receive_loop_all [OF R, of w1 g] by (simp add: bulk_ReceiveFile_def min.commute)
qed

end
