(* ===== verification/AfsProps.thy ===== *)
theory AfsProps
  imports AfsClient AfsBulk
begin

text \<open>
  What client and server of \<open>exmple/l-fuse\<close> do together: the callbacks of the client against the system calls of the
  server's host, when the calls of Rx deliver what is sent in order. \<open>served\<close> is what a remote procedure call promises;
  for the calls that stream data the bytes the server wrote are those the client reads.
\<close>

section \<open>Callbacks that are one remote procedure\<close>

definition served :: "'h kernel \<Rightarrow> ('h, 'z) remote_scheme \<Rightarrow> bool" where
  "served K R \<longleftrightarrow> (\<forall>q h. rpc R q h = serve K q h)"

definition short_path :: "byte list \<Rightarrow> bool" where
  "short_path p \<longleftrightarrow> length p \<le> 507"

lemma translate_short [simp]: "short_path p \<Longrightarrow> translatePath p = Some (AFS @ p)"
  by (simp add: translatePath_def short_path_def AFS_def)

lemma remotely_served:
  assumes "served K R" and "0 < semlock s"
  shows "remotely R q s = map_option (\<lambda>(ret, h). (ret, s\<lparr>world := h\<rparr>)) (serve K q (world s))"
  using assms by (cases "serve K q (world s)") (auto simp: remotely_def getconnection_def relconnection_def served_def)

text \<open>What a callback is to return and to leave: the result of one system call of the server's host.\<close>

definition on_host :: "'h kernel \<Rightarrow> 'h client \<Rightarrow> int \<times> 'h \<Rightarrow> (int \<times> 'h client) option" where
  "on_host K s = (\<lambda>(res, h). Some (if res = - 1 then - k_errno K h else 0, s\<lparr>world := h\<rparr>))"

definition on_host_no_errno :: "'h client \<Rightarrow> int \<times> 'h \<Rightarrow> (int \<times> 'h client) option" where
  "on_host_no_errno s = (\<lambda>(res, h). Some (if res = - 1 then - 1 else 0, s\<lparr>world := h\<rparr>))"

lemmas plain_defs = returned_def serve_def on_host_def on_host_no_errno_def minus_errno_def minus_one_def only_code_def

text \<open>
  C28: every callback on names is transparent. With a free connection and paths of at most 507 characters it returns what the
  one system call of the server's host returns on the path behind \<open>/afs\<close>, with its error number, and leaves the host in the
  state of that call and the connection free. Three calls report every error as \<open>EPERM\<close>; both texts of a symbolic link get
  the prefix; a length is cut to 32 bits on the way.
\<close>
theorem afs_names_transparent:
  assumes K: "served K R" and s: "0 < semlock s" and p: "short_path p" "short_path q"
  shows "xmp_mkdir R p m s = on_host K s (k_mkdir K (AFS @ p) m (world s))
    \<and> xmp_mknod R p m d s = on_host K s (k_mknod K (AFS @ p) m (ucast d) (world s))
    \<and> xmp_unlink R p s = on_host K s (k_unlink K (AFS @ p) (world s))
    \<and> xmp_rmdir R p s = on_host K s (k_rmdir K (AFS @ p) (world s))
    \<and> xmp_rename R p q s = on_host K s (k_rename K (AFS @ p) (AFS @ q) (world s))
    \<and> xmp_link R p q s = on_host K s (k_link K (AFS @ p) (AFS @ q) (world s))
    \<and> xmp_symlink R p q s = on_host K s (k_symlink K (AFS @ p) (AFS @ q) (world s))
    \<and> xmp_truncate R p n s = on_host K s (k_truncate K (AFS @ p) (uint n mod 2 ^ 32) (world s))
    \<and> xmp_chmod R p m s = on_host_no_errno s (k_chmod K (AFS @ p) m (world s))
    \<and> xmp_chown R p u g s = on_host_no_errno s (k_lchown K (AFS @ p) u g (world s))
    \<and> xmp_utime R p (a, b) s = on_host_no_errno s (k_utime K (AFS @ p) a b (world s))"
proof (intro conjI)
  have cut: "uint (ucast n :: 32 word) = uint n mod 2 ^ 32" by (simp add: unsigned_ucast_eq take_bit_eq_mod)
  note call = remotely_served [OF K s] plain_defs
  show "xmp_mkdir R p m s = on_host K s (k_mkdir K (AFS @ p) m (world s))"
    using p by (simp add: xmp_mkdir_def call rxc_mkdir_def split: prod.split)
  show "xmp_mknod R p m d s = on_host K s (k_mknod K (AFS @ p) m (ucast d) (world s))"
    using p by (simp add: xmp_mknod_def call rxc_mknod_def split: prod.split)
  show "xmp_unlink R p s = on_host K s (k_unlink K (AFS @ p) (world s))"
    using p by (simp add: xmp_unlink_def call rxc_unlink_def split: prod.split)
  show "xmp_rmdir R p s = on_host K s (k_rmdir K (AFS @ p) (world s))"
    using p by (simp add: xmp_rmdir_def call rxc_rmdir_def split: prod.split)
  show "xmp_rename R p q s = on_host K s (k_rename K (AFS @ p) (AFS @ q) (world s))"
    using p by (simp add: xmp_rename_def call rxc_rename_def split: prod.split)
  show "xmp_link R p q s = on_host K s (k_link K (AFS @ p) (AFS @ q) (world s))"
    using p by (simp add: xmp_link_def call rxc_link_def split: prod.split)
  show "xmp_symlink R p q s = on_host K s (k_symlink K (AFS @ p) (AFS @ q) (world s))"
    using p by (simp add: xmp_symlink_def call rxc_symlink_def split: prod.split)
  show "xmp_truncate R p n s = on_host K s (k_truncate K (AFS @ p) (uint n mod 2 ^ 32) (world s))"
    using p by (simp add: xmp_truncate_def call rxc_truncate_def cut split: prod.split)
  show "xmp_chmod R p m s = on_host_no_errno s (k_chmod K (AFS @ p) m (world s))"
    using p by (simp add: xmp_chmod_def call rxc_chmod_def split: prod.split)
  show "xmp_chown R p u g s = on_host_no_errno s (k_lchown K (AFS @ p) u g (world s))"
    using p by (simp add: xmp_chown_def call rxc_chown_def split: prod.split)
  show "xmp_utime R p (a, b) s = on_host_no_errno s (k_utime K (AFS @ p) a b (world s))"
    using p by (simp add: xmp_utime_def call rxc_utime_def split: prod.split)
qed

section \<open>Reading and attributes\<close>

text \<open>What the server writes for a read: nothing, or the number 0.\<close>

lemma read_server_writes:
  assumes S: "writes_in_order S out" "out c = []" and errno: "\<And>fd n off h b h'. k_pread K fd n off h = ((- 1, b), h') \<Longrightarrow> k_errno K h' \<noteq> 0"
    and run: "rxc_read K S path sz offset c h = Some (e, c', h')"
  shows "out c' = [] \<or> out c' = xdr_bytes 0"
proof -
  obtain c1 where c1: "xdr_put S 0 c = (True, c1)" "out c1 = xdr_bytes 0"
    using writes_in_orderD(2) [OF S(1), of 0 c] S(2) by auto
  obtain c2 where c2: "rx_Write S [] c1 = (0, c2)" "out c2 = out c1" using writes_in_orderD(1) [OF S(1), of "[]" c1] by auto
  from run obtain lbuff where "translatePath path = Some lbuff" by (auto simp: rxc_read_def bind_Some_iff)
  moreover obtain fd h1 where "k_open K lbuff O_RDONLY h = (fd, h1)" by fastforce
  moreover obtain n buffer h2 where "k_pread K fd (unat sz) (uint offset) h1 = ((n, buffer), h2)" by (metis prod.exhaust)
  ultimately show ?thesis
    using run c1 c2 S(2) errno [of fd "unat sz" "uint offset" h1 buffer h2]
    by (cases "n = - 1"; cases "fd = 0") (auto simp: rxc_read_def)
qed

text \<open>
  C30: \<open>read\<close> never returns data. Whatever the host has, when the stream of the call carries what the server wrote, the
  callback ends, returns 0, stores nothing, and gives the connection back: the server sends the result of a comparison
  instead of the number of bytes read.
\<close>
theorem afs_read_returns_nothing:
  assumes R: "reads_in_order R inc" and S: "writes_in_order S out" "out c = []"
    and errno: "\<And>fd n off h b h'. k_pread K fd n off h = ((- 1, b), h') \<Longrightarrow> k_errno K h' \<noteq> 0"
    and s: "0 < semlock s" "rx_start R (Q_read path sz (ucast offset) fi) (world s) = Some (0, w)"
    and run: "rxc_read K S path sz (ucast offset) c h = Some (e, c', h')" and w: "inc w = out c'"
  shows "\<exists>w'. xmp_read R path sz offset fi s = Some (0, [], s\<lparr>world := w'\<rparr>)"
  using read_server_writes [OF S errno run]
proof
  assume "out c' = []"
  with w reads_in_orderD(3) [OF R, of w] obtain w1 where "xdr_get R w = (None, w1)" by auto
  then show ?thesis using s by (auto simp: xmp_read_def getconnection_def relconnection_def)
next
  assume "out c' = xdr_bytes 0"
  with w reads_in_orderD(2) [OF R, of w 0 "[]"] obtain w1 where w1: "xdr_get R w = (Some 0, w1)" "inc w1 = []" by auto
  then obtain w2 where "rx_Read R 1024 w1 = ([], w2)" using reads_in_orderD(4) [OF R, of 1024 w1] by auto
  then have "read_loop R (unat sz) [] w1 = Some ([], w2)" by (subst read_loop.simps) simp
  then show ?thesis using s w1 by (auto simp: xmp_read_def getconnection_def relconnection_def split: prod.split)
qed

text \<open>The part of a path before its \<open>n\<close>-th slash.\<close>

fun before_slash :: "nat \<Rightarrow> byte list \<Rightarrow> byte list" where
  "before_slash n [] = []"
| "before_slash n (c # cs) = (if c = 47 then (if n = 1 then [] else c # before_slash (n - 1) cs) else c # before_slash n cs)"

lemma allowed_loop:
  assumes "i \<le> length path" and "0 < n" and "n \<le> 3"
  shows "after_loop (for_loop i (length path) (\<lambda>i (p, backCount :: int).
        if length path \<le> p then None
        else let c = path ! p; backCount' = (if c = 47 then backCount + 1 else backCount)
             in Some (if c = 47 \<or> c \<in> set labels
                      then (if backCount' = 3 then Return 1 else Next (p + 1, backCount'))
                      else (if backCount < 3 then Return 0 else Next (p, backCount)))) (i, 3 - int n)) (\<lambda>_. Some (1 :: int))
    = Some (if set (before_slash n (drop i path)) \<subseteq> insert 47 (set labels) then 1 else 0)"
  using assms
proof (induction "length path - i" arbitrary: i n)
  case 0
  then show ?case by simp
next
  case (Suc k)
  then have i: "i < length path" by simp
  then have d: "drop i path = path ! i # drop (Suc i) path" by (rule Cons_nth_drop_Suc [symmetric])
  have k: "k = length path - Suc i" "Suc i \<le> length path" using Suc.hyps(2) i by simp_all
  consider "path ! i = 47" "n = 1" | "path ! i = 47" "n \<noteq> 1" | "path ! i \<noteq> 47" "path ! i \<in> set labels"
    | "path ! i \<noteq> 47" "path ! i \<notin> set labels" by blast
  then show ?case
  proof cases
    case 1
    then show ?thesis using i by (simp add: for_loop_step d)
  next
    case 2
    then have n: "0 < n - 1" "n - 1 \<le> 3" "3 - int (n - 1) = 3 - int n + 1" using Suc.prems by auto
    show ?thesis using i 2 Suc.prems Suc.hyps(1) [OF k n(1,2)] unfolding n(3) by (simp add: for_loop_step d)
  next
    case 3
    then show ?thesis using i Suc.prems Suc.hyps(1) [OF k Suc.prems(2,3)] by (simp add: for_loop_step d)
  next
    case 4
    then show ?thesis using i Suc.prems(2) by (simp add: for_loop_step d)
  qed
qed

text \<open>The characters of the labels and the slash, as the paths of cells have them: \<open>punebimcoafs.\<close> and \<open>/\<close>.\<close>

lemma IsAllowedPath_eq:
  "IsAllowedPath path = Some (if set (before_slash 3 path) \<subseteq> insert 47 (set labels) then 1 else 0)"
  using allowed_loop [of 0 path 3] by (simp add: IsAllowedPath_def)

lemma labels_with_slash: "insert 47 (set labels) = {47, 46, 112, 117, 110, 101, 105, 98, 109, 99, 111, 97, 102, 115}"
  by (auto simp: labels_def)

text \<open>
  C34: \<open>IsAllowedPath\<close> ends without leaving its argument, and allows a path exactly when every character before its third
  slash is a slash (47), a dot (46) or one of the letters p, u, n, e, i, b, m, c, o, a, f and s (112, 117, 110, 101, 105, 98,
  109, 99, 111, 97, 102, 115): any word of these letters, and not only the names of cells.
\<close>
theorem afs_allowed_paths:
  "IsAllowedPath path = Some
     (if set (before_slash 3 path) \<subseteq> {47, 46, 112, 117, 110, 101, 105, 98, 109, 99, 111, 97, 102, 115} then 1 else 0)"
  unfolding IsAllowedPath_eq labels_with_slash ..

text \<open>
  C29: \<open>getattr\<close> on a path of at most 507 characters returns 0 and the bytes of \<open>lstat\<close> of the server's host on the path
  behind \<open>/afs\<close>, or the error number of \<open>lstat\<close>, or \<open>-1\<close> for a path that is not allowed, for which the host is not called.
  The hypotheses: the stream carries what the server wrote, and the call has the result of the server as its error.
\<close>
theorem afs_getattr_transparent:
  assumes R: "reads_in_order R inc" and S: "writes_in_order S out" "out c = []"
    and st: "\<And>p h. length (snd (fst (k_lstat K p h))) = 96" "length stbuf = 96" and p: "short_path path"
    and s: "0 < semlock s" "rx_start R (Q_getattr path 100) (world s) = Some (0, w)"
    and run: "rxc_getattr K S path 100 c h = Some (e, c', h')" and w: "inc w = out c'" "rx_Error R w = e"
    and l: "k_lstat K (AFS @ path) h = ((r, st), h1)"
  shows "\<exists>w'. xmp_getattr R path stbuf s = Some
    (if \<not> set (before_slash 3 (AFS @ path)) \<subseteq> insert 47 (set labels) then (- 1, stbuf, s\<lparr>world := w'\<rparr>)
     else if r = - 1 then (- k_errno K h1, stbuf, s\<lparr>world := w'\<rparr>) else (0, st, s\<lparr>world := w'\<rparr>))"
proof -
  have len: "\<not> 512 \<le> length path" using p by (simp add: short_path_def)
  have st96: "length st = 96" using st(1) [of "AFS @ path" h] l by simp
  obtain c1 where c1: "xdr_put S 96 c = (True, c1)" "out c1 = xdr_bytes 96"
    using writes_in_orderD(2) [OF S(1), of 96 c] S(2) by auto
  obtain c2 where c2: "rx_Write S st c1 = (96, c2)" "out c2 = xdr_bytes 96 @ st"
    using writes_in_orderD(1) [OF S(1), of st c1] c1(2) st96 by auto
  let ?ok = "set (before_slash 3 (AFS @ path)) \<subseteq> insert 47 (set labels)"
  show ?thesis
  proof (cases "?ok \<and> r \<noteq> - 1")
    case True
    then have "out c' = xdr_bytes 96 @ st"
      using run c1 c2 p l by (simp add: rxc_getattr_def IsAllowedPath_eq SIZEOF_STAT_def)
    with w reads_in_orderD(2) [OF R, of w 96 st] obtain w1 where w1: "xdr_get R w = (Some 96, w1)" "inc w1 = st" by auto
    then obtain w2 where "rx_Read R 96 w1 = (st, w2)" using reads_in_orderD(4) [OF R, of 96 w1] st96 by auto
    moreover have "st \<noteq> []" using st96 by auto
    ultimately show ?thesis
      using True len s w1 st st96 by (auto simp: xmp_getattr_def Let_def getconnection_def relconnection_def split: prod.split)
  next
    case False
    then have "out c' = []" "e = (if ?ok then - k_errno K h1 else - 1)"
      using run S(2) p l by (auto simp: rxc_getattr_def IsAllowedPath_eq split: if_splits)
    with w reads_in_orderD(3) [OF R, of w] obtain w1 where "xdr_get R w = (None, w1)" "rx_Error R w1 = (if ?ok then - k_errno K h1 else - 1)"
      by auto
    then show ?thesis
      using False len s by (auto simp: xmp_getattr_def Let_def getconnection_def relconnection_def split: prod.split)
  qed
qed

section \<open>Directories\<close>

text \<open>An entry whose name is a string that fits its field, as the host gives them.\<close>

definition plain_entry :: "dirent \<Rightarrow> bool" where
  "plain_entry de \<longleftrightarrow> length (d_name de) < 512 \<and> 0 \<notin> set (d_name de)"

definition handle_of :: "dirent \<Rightarrow> my_dirhandle" where
  "handle_of de = \<lparr>dh_type = ucast (d_type de), dh_inode = ucast (d_ino de),
     dh_name = d_name de @ replicate (512 - length (d_name de)) 0\<rparr>"

lemma dir_handles_all:
  "list_all plain_entry des \<Longrightarrow> length des \<le> n \<Longrightarrow> dir_handles n des = Some (map handle_of des)"
  by (induction des arbitrary: n) (auto simp: dir_handle_def handle_of_def plain_entry_def)

lemma dir_handles_overrun:
  "list_all plain_entry des \<Longrightarrow> n < length des \<Longrightarrow> dir_handles n des = None"
  by (induction des arbitrary: n) (auto simp: dir_handle_def plain_entry_def bind_eq_None_conv)

lemma handle_name: "plain_entry de \<Longrightarrow> c_str (dh_name (handle_of de)) = Some (d_name de)"
  by (auto simp: plain_entry_def handle_of_def c_str_def takeWhile_append)

definition shown :: "dirent \<Rightarrow> byte list \<times> 32 word" where "shown de = (d_name de, ucast (d_type de))"

lemma getdir_loop:
  assumes hs: "hs = map handle_of des" and "list_all plain_entry des" and "i \<le> length des" and "\<And>j. i \<le> j \<Longrightarrow> j < m \<Longrightarrow> \<not> full j" and "i \<le> m"
    and "m < length des \<Longrightarrow> full m"
  shows "after_loop (for_loop i (length hs + 1) (\<lambda>iter names.
          if length hs \<le> iter then None
          else do {
            let t = hs ! iter;
            name \<leftarrow> c_str (dh_name t);
            Some (if full (length names) then Break names else Next (names @ [(name, dh_type t)]))
          }) (map shown (take i des))) Some = (if m < length des then Some (map shown (take m des)) else None)"
  using assms(3-5)
proof (induction "length des - i" arbitrary: i)
  case 0
  then show ?case by (simp add: for_loop_step hs)
next
  case (Suc k)
  then have i: "i < length des" by simp
  have e: "c_str (dh_name (handle_of (des ! i))) = Some (d_name (des ! i))" "dh_type (handle_of (des ! i)) = ucast (d_type (des ! i))"
    using assms(2) i by (auto simp: list_all_length handle_name, simp add: handle_of_def)
  show ?case
  proof (cases "i = m")
    case True
    then show ?thesis using i e assms(6) by (simp add: for_loop_step hs)
  next
    case False
    then have "\<not> full i" "Suc i \<le> m" using Suc.prems by auto
    moreover have "map shown (take (Suc i) des) = map shown (take i des) @ [(d_name (des ! i), ucast (d_type (des ! i)))]"
      using i by (simp add: take_Suc_conv_app_nth shown_def)
    moreover have "k = length des - Suc i" using Suc.hyps(2) by simp
    ultimately show ?thesis using Suc.hyps(1) [of "Suc i"] Suc.prems i e by (simp add: for_loop_step hs)
  qed
qed

text \<open>
  C33: \<open>getdir\<close> hands the entries of the host's directory to \<open>filler\<close> in order until it refuses one, and then returns 0. When
  it refuses none, as FUSE does, the loop goes one entry too far and reads behind the array of handles: the run is not
  defined. It is not defined either, on the server, when the directory has grown by two entries between the two listings.
\<close>
theorem afs_getdir_overruns:
  assumes K: "served K R" and s: "0 < semlock s" and p: "short_path p" and e: "list_all plain_entry es" "list_all plain_entry es'"
    and open1: "k_opendir K (AFS @ p) (world s) = (Some es, h1)" and open2: "k_opendir K (AFS @ p) h1 = (Some es', h2)"
    and full: "\<And>j. j < m \<Longrightarrow> \<not> full j" "m < length es' \<Longrightarrow> full m"
  shows "xmp_getdir R full p s =
    (if length es' \<le> length es + 1 \<and> m < length es' then Some (0, map shown (take m es'), s\<lparr>world := h2\<rparr>) else None)"
proof (cases "length es' \<le> length es + 1")
  case True
  then obtain ret where ret: "rpc R (Q_getdirWrapper p) (world s) = Some (ret, h2)" "rcode ret = 0" "handles_out ret = map handle_of es'"
    using K p open1 open2 dir_handles_all [OF e(2)] by (simp add: served_def serve_def rxc_getdirWrapper_def only_code_def)
  show ?thesis
    using True s ret(1,2) getdir_loop [OF ret(3) e(2), of 0 m full] full
    by (simp add: xmp_getdir_def getconnection_def relconnection_def)
next
  case False
  then have "rpc R (Q_getdirWrapper p) (world s) = None"
    using K p open1 open2 dir_handles_overrun [OF e(2), of "length es + 1"] by (simp add: served_def serve_def rxc_getdirWrapper_def)
  then show ?thesis using False s by (simp add: xmp_getdir_def getconnection_def)
qed

section \<open>Writing, descriptors and links\<close>

text \<open>
  C31: \<open>write\<close> opens the host's file, writes the bytes once at the offset cut to 32 bits, and closes it. It returns the number
  of bytes it was given also when the host wrote fewer, and after an error of the host what \<open>rx_Error\<close> says of the ended call.
  The hypotheses: the bytes the client sends are those the server reads, and the server's result is the result of the call.
\<close>
theorem afs_write_claims_all:
  assumes R: "writes_in_order R out" "out w = []" and S: "reads_in_order S inc" and p: "short_path path"
    and buffer: "buffer \<noteq> []" "length buffer < 2 ^ 31"
    and s: "0 < semlock s" "rx_start R (Q_write path (of_nat (length buffer)) (ucast offset) fi) (world s) = Some (0, w)"
    and c: "inc c = xdr_bytes (of_nat (length buffer)) @ buffer"
    and host: "k_open K (AFS @ path) O_WRONLY h = (fd, h1)" "0 < fd" "k_pwrite K fd buffer (uint offset mod 2 ^ 32) h1 = (n, h2)"
    and errno: "n < 0 \<Longrightarrow> k_errno K h2 \<noteq> 0"
    and ends: "\<And>w1 k w2 e c' h'. xdr_put R (of_nat (length buffer)) w = (True, w1) \<Longrightarrow> rx_Write R buffer w1 = (k, w2)
      \<Longrightarrow> rxc_write K S path (of_nat (length buffer)) (ucast offset) c h = Some (e, c', h') \<Longrightarrow> fst (rx_EndCall R 0 w2) = e"
  shows "\<exists>c' w'. rxc_write K S path (of_nat (length buffer)) (ucast offset) c h
      = Some (if n < 0 then - k_errno K h2 else 0, c', snd (k_close K fd h2))
    \<and> xmp_write R path buffer offset fi s
      = Some (if n < 0 then rx_Error R w' else int (length buffer), s\<lparr>world := w'\<rparr>)"
proof -
  let ?n = "of_nat (length buffer) :: 32 word"
  have len: "unat ?n = length buffer" "sint ?n = int (length buffer)" "\<not> sint ?n < 0"
    using buffer(2) by (simp_all add: unat_of_nat take_bit_nat_eq_self sint_of_nat_small)
  have cut: "uint (ucast offset :: 32 word) = uint offset mod 2 ^ 32" by (simp add: unsigned_ucast_eq take_bit_eq_mod)
  obtain c1 where c1: "xdr_get S c = (Some ?n, c1)" "inc c1 = buffer" using reads_in_orderD(2) [OF S c] by blast
  obtain c2 where c2: "rx_Read S (length buffer) c1 = (buffer, c2)" using reads_in_orderD(4) [OF S, of "length buffer" c1] c1(2) by auto
  have run: "rxc_write K S path ?n (ucast offset) c h = Some (if n < 0 then - k_errno K h2 else 0, c2, snd (k_close K fd h2))"
    using p c1 c2 len host by (simp add: rxc_write_def cut)
  obtain w1 where w1: "xdr_put R ?n w = (True, w1)" "out w1 = xdr_bytes ?n"
    using writes_in_orderD(2) [OF R(1), of ?n w] R(2) by auto
  obtain w2 where w2: "rx_Write R buffer w1 = (int (length buffer), w2)" "out w2 = xdr_bytes ?n @ buffer"
    using writes_in_orderD(1) [OF R(1), of buffer w1] w1(2) by auto
  obtain e w3 where w3: "rx_EndCall R 0 w2 = (e, w3)" by fastforce
  then have "e = (if n < 0 then - k_errno K h2 else 0)" using ends [OF w1(1) w2(1) run] by simp
  then have "xmp_write R path buffer offset fi s = Some (if n < 0 then rx_Error R w3 else int (length buffer), s\<lparr>world := w3\<rparr>)"
    using buffer(1) s w1(1) w2(1) w3 len(2) errno by (simp add: xmp_write_def Let_def getconnection_def relconnection_def)
  with run show ?thesis by blast
qed

text \<open>
  A file that is opened is never closed. \<open>open\<close> hands out the descriptor of the server's host; \<open>release\<close> does not send it
  back, but what an unset variable holds: it closes that descriptor, whatever file it belongs to, or nothing.
\<close>
theorem afs_release_forgets_descriptor:
  assumes K: "served K R" and s: "0 < semlock s" and p: "short_path path"
    and opened: "k_open K (AFS @ path) (fi_flags fi) (world s) = (fd, h1)" "0 < fd" "fd < 2 ^ 31"
  shows "xmp_open R path fi s = Some (0, fi\<lparr>fi_fh := word_of_int fd\<rparr>, s\<lparr>world := h1\<rparr>)
    \<and> xmp_release R mfi path (fi\<lparr>fi_fh := word_of_int fd\<rparr>) (s\<lparr>world := h1\<rparr>) =
       (if fi_fh mfi = 0 then Some (0, s\<lparr>world := h1\<rparr>) else on_host K s (k_close K (sint (fi_fh mfi)) h1))"
proof
  have "sint (word_of_int fd :: 32 word) = fd" using opened by (intro sint_word_of_int_id) simp_all
  then have "(word_of_int fd :: 32 word) \<noteq> - 1" using opened(2) by auto
  then show "xmp_open R path fi s = Some (0, fi\<lparr>fi_fh := word_of_int fd\<rparr>, s\<lparr>world := h1\<rparr>)"
    using p opened by (simp add: xmp_open_def remotely_served [OF K s] serve_def rxc_open_def only_code_def)
  show "xmp_release R mfi path (fi\<lparr>fi_fh := word_of_int fd\<rparr>) (s\<lparr>world := h1\<rparr>) =
       (if fi_fh mfi = 0 then Some (0, s\<lparr>world := h1\<rparr>) else on_host K s (k_close K (sint (fi_fh mfi)) h1))"
    using p s by (simp add: xmp_release_def remotely_served [OF K] plain_defs rxc_release_def split: prod.split)
qed

text \<open>
  A symbolic link is read back with another text than it was made with: the server puts \<open>/afs\<close> before the text when it
  makes the link and does not take it off when it reads it.
\<close>
theorem afs_symlink_changes_target:
  assumes K: "served K R" and s: "0 < semlock s" and p: "short_path target" "short_path name" "0 \<notin> set target"
    and link: "k_symlink K (AFS @ target) (AFS @ name) (world s) = (0, h1)"
      "k_readlink K (AFS @ name) 511 h1 = ((int (length (AFS @ target)), AFS @ target), h2)"
    and sz: "511 \<le> sz"
  shows "xmp_symlink R target name s = Some (0, s\<lparr>world := h1\<rparr>)
    \<and> xmp_readlink R name sz (s\<lparr>world := h1\<rparr>) = Some (0, (AFS @ target) @ replicate (sz - length (AFS @ target)) 0, s\<lparr>world := h2\<rparr>)"
proof
  show "xmp_symlink R target name s = Some (0, s\<lparr>world := h1\<rparr>)"
    using p link by (simp add: xmp_symlink_def remotely_served [OF K s] plain_defs rxc_symlink_def)
  define t where "t = AFS @ target"
  have "length t \<le> 511" using p(1) by (simp add: t_def short_path_def AFS_def)
  moreover have tw: "takeWhile (\<lambda>x. x \<noteq> 0) t = t" using p(3) by (auto simp: t_def AFS_def takeWhile_eq_all_conv)
  ultimately show "xmp_readlink R name sz (s\<lparr>world := h1\<rparr>)
      = Some (0, (AFS @ target) @ replicate (sz - length (AFS @ target)) 0, s\<lparr>world := h2\<rparr>)"
    using p(2) s link(2) sz unfolding t_def [symmetric]
    by (simp add: xmp_readlink_def remotely_served [OF K] serve_def rxc_readlink_def only_code_def tw)
qed

section \<open>The connection\<close>

text \<open>The connection is free before a call and after it, if the call returns.\<close>

definition kept :: "'w client \<Rightarrow> 'w client \<Rightarrow> bool" where
  "kept s s' \<longleftrightarrow> 0 < semlock s \<and> semlock s' = semlock s"

lemma pred_bind: "(\<And>x. m = Some x \<Longrightarrow> pred_option P (f x)) \<Longrightarrow> pred_option P (m \<bind> f)"
  by (cases m) auto

text \<open>The run of a callback that is one remote procedure: it waits for the connection, calls, and gives it back.\<close>

definition once :: "('w, 'z) remote_scheme \<Rightarrow> request \<Rightarrow> 'w client \<Rightarrow> (int \<times> 'w client) option" where
  "once R q s = (if semlock s = 0 then None else map_option (\<lambda>(ret, w). (rcode ret, s\<lparr>world := w\<rparr>)) (rpc R q (world s)))"

lemma remotely_eq:
  "remotely R q s = (if semlock s = 0 then None else map_option (\<lambda>(ret, w). (ret, s\<lparr>world := w\<rparr>)) (rpc R q (world s)))"
  by (cases "rpc R q (world s)") (auto simp: remotely_def getconnection_def relconnection_def)

lemma returned_once: "returned (remotely R q s) = once R q s"
  by (cases "rpc R q (world s)") (auto simp: remotely_eq returned_def once_def)

text \<open>
  C35: no callback keeps the connection. For the seventeen callbacks that are one remote procedure the result and the state
  are exactly those of the procedure, run when the semaphore is positive and with the semaphore as it was before; without
  the connection they wait forever. The four callbacks that stream or list leave the semaphore as it was on every path on
  which they return, whatever the server and Rx do, and \<open>write\<close> returns whenever its call can be started.
\<close>
theorem afs_connection_given_back:
  "xmp_chmod R p m s = once R (Q_chmod p m) s \<and> xmp_chown R p u g s = once R (Q_chown p u g) s
    \<and> xmp_utime R p (a, b) s = once R (Q_utime p a b) s \<and> xmp_mknod R p m d s = once R (Q_mknod p m (ucast d)) s
    \<and> xmp_mkdir R p m s = once R (Q_mkdir p m) s \<and> xmp_unlink R p s = once R (Q_unlink p) s
    \<and> xmp_rmdir R p s = once R (Q_rmdir p) s \<and> xmp_symlink R p q s = once R (Q_symlink p q) s
    \<and> xmp_rename R p q s = once R (Q_rename p q) s \<and> xmp_link R p q s = once R (Q_link p q) s
    \<and> xmp_truncate R p n s = once R (Q_truncate p (ucast n)) s \<and> xmp_release R mfi p fi s = once R (Q_release p mfi) s
    \<and> xmp_fsync R mfi p ds fi s = once R (Q_fsync p ds mfi) s \<and> xmp_flush R mfi p fi s = once R (Q_flush p mfi) s
    \<and> map_option (\<lambda>(r, _, s'). (r, s')) (xmp_open R p fi s) = once R (Q_open p (fi_flags fi)) s
    \<and> map_option (\<lambda>(r, _, s'). (r, s')) (xmp_statfs R st0 p s) = once R (Q_statfs p) s
    \<and> map_option (\<lambda>(r, _, s'). (r, s')) (xmp_readlink R p sz s) = (if sz < 511 then None else once R (Q_readlink p 512) s)
    \<and> pred_option (\<lambda>(_, _, s'). kept s s') (xmp_getattr R p st s)
    \<and> pred_option (\<lambda>(_, _, s'). kept s s') (xmp_getdir R full p s)
    \<and> pred_option (\<lambda>(_, _, s'). kept s s') (xmp_read R p len off fi s)
    \<and> pred_option (\<lambda>(_, s'). kept s s') (xmp_write R p buf off fi s)
    \<and> (xmp_write R p buf off fi s \<noteq> None
        \<longleftrightarrow> 0 < semlock s \<and> rx_start R (Q_write p (of_nat (length buf)) (ucast off) fi) (world s) \<noteq> None)"
proof (intro conjI)
  note conn = kept_def getconnection_def relconnection_def Let_def
  show "map_option (\<lambda>(r, _, s'). (r, s')) (xmp_open R p fi s) = once R (Q_open p (fi_flags fi)) s"
    by (auto simp: xmp_open_def remotely_eq once_def option.map_comp intro!: option.map_cong)
  show "map_option (\<lambda>(r, _, s'). (r, s')) (xmp_statfs R st0 p s) = once R (Q_statfs p) s"
    by (auto simp: xmp_statfs_def remotely_eq once_def Let_def option.map_comp intro!: option.map_cong)
  show "map_option (\<lambda>(r, _, s'). (r, s')) (xmp_readlink R p sz s) = (if sz < 511 then None else once R (Q_readlink p 512) s)"
    by (cases "rpc R (Q_readlink p 512) (world s)") (auto simp: xmp_readlink_def remotely_eq once_def Let_def)
  show "pred_option (\<lambda>(_, _, s'). kept s s') (xmp_getattr R p st s)"
    by (auto simp: xmp_getattr_def conn intro!: pred_bind split: if_splits option.split prod.split)
  show "pred_option (\<lambda>(_, _, s'). kept s s') (xmp_getdir R full p s)"
    by (auto simp: xmp_getdir_def conn intro!: pred_bind split: if_splits)
  show "pred_option (\<lambda>(_, _, s'). kept s s') (xmp_read R p len off fi s)"
    by (auto simp: xmp_read_def conn intro!: pred_bind split: if_splits option.split prod.split)
  show "pred_option (\<lambda>(_, s'). kept s s') (xmp_write R p buf off fi s)"
    by (auto simp: xmp_write_def conn intro!: pred_bind split: if_splits prod.split)
  show "xmp_write R p buf off fi s \<noteq> None
      \<longleftrightarrow> 0 < semlock s \<and> rx_start R (Q_write p (of_nat (length buf)) (ucast off) fi) (world s) \<noteq> None"
    by (cases "rx_start R (Q_write p (of_nat (length buf)) (ucast off) fi) (world s)")
      (auto simp: xmp_write_def conn split: prod.split)
qed (simp_all add: xmp_chmod_def xmp_chown_def xmp_utime_def xmp_mknod_def xmp_mkdir_def xmp_unlink_def xmp_rmdir_def
  xmp_symlink_def xmp_rename_def xmp_link_def xmp_truncate_def xmp_release_def xmp_fsync_def xmp_flush_def returned_once)

section \<open>A host and a call\<close>

text \<open>A call that is two queues of bytes: it has the laws of Rx.\<close>

record pipe =
  to_read :: "byte list"
  written :: "byte list"
  pipe_error :: int

definition pipe_rx :: "pipe rx" where
  "pipe_rx = \<lparr>rx_Read = \<lambda>n c. (take n (to_read c), c\<lparr>to_read := drop n (to_read c)\<rparr>),
     rx_Write = \<lambda>bs c. (int (length bs), c\<lparr>written := written c @ bs\<rparr>),
     xdr_get = \<lambda>c. (if length (to_read c) < 4 then None else Some (le_word (rev (take 4 (to_read c)))), c\<lparr>to_read := drop 4 (to_read c)\<rparr>),
     xdr_put = \<lambda>x c. (True, c\<lparr>written := written c @ xdr_bytes x\<rparr>),
     rx_Error = pipe_error, rx_EndCall = \<lambda>e c. (if e \<noteq> 0 then e else pipe_error c, c)\<rparr>"

lemma pipe_reads: "reads_in_order pipe_rx to_read"
  unfolding reads_in_order_def
  by (auto simp: pipe_rx_def xdr_bytes_def le_word_le_bytes_full intro!: byte_source.intro)

lemma pipe_writes: "writes_in_order pipe_rx written"
  unfolding writes_in_order_def
  by (auto simp: pipe_rx_def intro!: byte_sink.intro)

text \<open>Client and server joined by such calls, for any host: a procedure that sends data runs when it is called, one that gets data when the call ends.\<close>

definition start_joined :: "'h kernel \<Rightarrow> request \<Rightarrow> pipe \<times> 'h \<Rightarrow> (int \<times> pipe \<times> 'h) option" where
  "start_joined K q = (\<lambda>(c, h). let empty = \<lparr>to_read = [], written = [], pipe_error = 0\<rparr>;
       sent = \<lambda>(e, c', h'). (0, \<lparr>to_read = written c', written = [], pipe_error = e\<rparr>, h')
     in case q of
       Q_getattr p n \<Rightarrow> map_option sent (rxc_getattr K pipe_rx p n empty h)
     | Q_read p n off fi \<Rightarrow> map_option sent (rxc_read K pipe_rx p n off empty h)
     | _ \<Rightarrow> Some (0, empty, h))"

definition joined :: "'h kernel \<Rightarrow> (pipe \<times> 'h) remote" where
  "joined K = \<lparr>rx_Read = \<lambda>n (c, h). (fst (rx_Read pipe_rx n c), snd (rx_Read pipe_rx n c), h),
     rx_Write = \<lambda>bs (c, h). (fst (rx_Write pipe_rx bs c), snd (rx_Write pipe_rx bs c), h),
     xdr_get = \<lambda>(c, h). (fst (xdr_get pipe_rx c), snd (xdr_get pipe_rx c), h),
     xdr_put = \<lambda>x (c, h). (fst (xdr_put pipe_rx x c), snd (xdr_put pipe_rx x c), h),
     rx_Error = \<lambda>(c, h). pipe_error c, rx_EndCall = \<lambda>e (c, h). (if e \<noteq> 0 then e else pipe_error c, c, h),
     rpc = \<lambda>q (c, h). map_option (\<lambda>(ret, h'). (ret, c, h')) (serve K q h), rx_start = start_joined K\<rparr>"

lemma joined_reads: "reads_in_order (joined K) (\<lambda>(c, h). to_read c)"
  unfolding reads_in_order_def
  by (auto simp: joined_def pipe_rx_def xdr_bytes_def le_word_le_bytes_full intro!: byte_source.intro)

lemma joined_writes: "writes_in_order (joined K) (\<lambda>(c, h). written c)"
  unfolding writes_in_order_def
  by (auto simp: joined_def pipe_rx_def intro!: byte_sink.intro)

text \<open>A small host: names with their contents, symbolic links, and the number of the last error.\<close>

record box =
  box_errno :: int
  box_files :: "(byte list \<times> byte list) list"
  box_links :: "(byte list \<times> byte list) list"

definition box_failing :: "int \<Rightarrow> box \<Rightarrow> int \<times> box" where
  "box_failing e h = (- 1, h\<lparr>box_errno := e\<rparr>)"

definition has_file :: "byte list \<Rightarrow> box \<Rightarrow> bool" where
  "has_file p h \<longleftrightarrow> map_of (box_files h) p \<noteq> None"

definition if_file :: "byte list \<Rightarrow> box \<Rightarrow> int \<times> box" where
  "if_file p h = (if has_file p h then (0, h) else box_failing 2 h)"

definition box_remove :: "byte list \<Rightarrow> box \<Rightarrow> int \<times> box" where
  "box_remove p h = (if has_file p h then (0, h\<lparr>box_files := filter (\<lambda>(q, _). q \<noteq> p) (box_files h)\<rparr>) else box_failing 2 h)"

definition box_make :: "byte list \<Rightarrow> box \<Rightarrow> int \<times> box" where
  "box_make p h = (if has_file p h then box_failing 17 h else (0, h\<lparr>box_files := (p, []) # box_files h\<rparr>))"

definition box_kernel :: "box kernel" where
  "box_kernel = \<lparr>k_errno = box_errno,
     k_lstat = \<lambda>p h. ((fst (if_file p h), replicate 96 7), snd (if_file p h)),
     k_opendir = \<lambda>p h. (Some (map (\<lambda>(q, _). \<lparr>d_name = drop (length p) q, d_type = 8, d_ino = 0\<rparr>) (box_files h)), h),
     k_rmdir = box_remove, k_unlink = box_remove, k_mkdir = \<lambda>p m. box_make p, k_chmod = \<lambda>p m. if_file p, k_mknod = \<lambda>p m d. box_make p,
     k_lchown = \<lambda>p u g. if_file p, k_utime = \<lambda>p a b. if_file p, k_truncate = \<lambda>p n. if_file p,
     k_symlink = \<lambda>t p h. (0, h\<lparr>box_links := (p, t) # box_links h\<rparr>), k_rename = \<lambda>p q. if_file p, k_link = \<lambda>p q. if_file p,
     k_statfs = \<lambda>p h. ((- 1, undefined), h\<lparr>box_errno := 38\<rparr>),
     k_open = \<lambda>p m h. if has_file p h then (3, h) else box_failing 2 h, k_close = \<lambda>fd h. (0, h),
     k_pread = \<lambda>fd n off h. (if fd = 3 then ((1, [120]), h) else ((- 1, []), h\<lparr>box_errno := 9\<rparr>)),
     k_pwrite = \<lambda>fd bs off h. (if fd = 3 then (1, h) else box_failing 9 h),
     k_readlink = \<lambda>p n h. (case map_of (box_links h) p of
        Some t \<Rightarrow> ((int (length t), t), h) | None \<Rightarrow> ((- 1, []), h\<lparr>box_errno := 2\<rparr>))\<rparr>"

definition box0 :: box where
  "box0 = \<lparr>box_errno = 0, box_files = [(AFS @ [47, 97], [120])], box_links = []\<rparr>"

text \<open>A client whose calls of Rx do nothing but remote procedure calls.\<close>

definition direct :: "'h kernel \<Rightarrow> 'h remote" where
  "direct K = \<lparr>rx_Read = \<lambda>n h. ([], h), rx_Write = \<lambda>bs h. (0, h), xdr_get = \<lambda>h. (None, h), xdr_put = \<lambda>x h. (False, h),
     rx_Error = \<lambda>h. 0, rx_EndCall = \<lambda>e h. (e, h), rpc = serve K, rx_start = \<lambda>q h. None\<rparr>"

lemma direct_served: "served K (direct K)"
  by (simp add: served_def direct_def)

lemma box_path [simp]: "short_path [47, 97]" "short_path [47, 98]"
  by (simp_all add: short_path_def)

definition client0 :: "box client" where "client0 = \<lparr>semlock = 1, world = box0\<rparr>"
definition client1 :: "(pipe \<times> box) client" where
  "client1 = \<lparr>semlock = 1, world = (\<lparr>to_read = [], written = [], pipe_error = 0\<rparr>, box0)\<rparr>"

lemma box_calls:
  "k_mkdir box_kernel (AFS @ [47, 97]) m box0 = (- 1, box0\<lparr>box_errno := 17\<rparr>)"
  "k_opendir box_kernel (AFS @ [47]) box0 = (Some [\<lparr>d_name = [97], d_type = 8, d_ino = 0\<rparr>], box0)"
  "k_lstat box_kernel (AFS @ [47, 97]) box0 = ((0, replicate 96 7), box0)"
  "k_open box_kernel (AFS @ [47, 97]) n box0 = (3, box0)"
  "k_pwrite box_kernel 3 bs off box0 = (1, box0)"
  "k_symlink box_kernel t (AFS @ [47, 98]) box0 = (0, box0\<lparr>box_links := [(AFS @ [47, 98], t)]\<rparr>)"
  "k_readlink box_kernel (AFS @ [47, 98]) 511 (box0\<lparr>box_links := [(AFS @ [47, 98], t)]\<rparr>)
    = ((int (length t), t), box0\<lparr>box_links := [(AFS @ [47, 98], t)]\<rparr>)"
  "k_errno box_kernel = box_errno"
  by (simp_all add: box_kernel_def box0_def box_make_def box_failing_def has_file_def if_file_def AFS_def)

lemma client0_simps [simp]: "semlock client0 = 1" "world client0 = box0" "client0\<lparr>world := box0\<rparr> = client0"
  by (simp_all add: client0_def)

definition fi0 :: my_file_info where "fi0 = \<lparr>fi_flags = 0, fi_fh = 0, fi_writepage = 0\<rparr>"

lemma afs_names_transparent_witness:
  "xmp_mkdir (direct box_kernel) [47, 97] 0 client0 = Some (- 17, client0\<lparr>world := box0\<lparr>box_errno := 17\<rparr>\<rparr>)"
  using afs_names_transparent [OF direct_served _ box_path, of client0 box_kernel 0]
  by (simp add: on_host_def box_calls)

lemma afs_getdir_overruns_witness:
  "xmp_getdir (direct box_kernel) (\<lambda>_. False) [47] client0 = None
    \<and> xmp_getdir (direct box_kernel) (\<lambda>_. True) [47] client0 = Some (0, [], client0)"
proof -
  let ?es = "[\<lparr>d_name = [97], d_type = 8, d_ino = 0\<rparr>] :: dirent list"
  have es: "list_all plain_entry ?es" "short_path [47]" by (simp_all add: plain_entry_def short_path_def)
  note run = afs_getdir_overruns [OF direct_served _ es(2,1,1) _ box_calls(2), where s = client0, simplified]
  show ?thesis using run [of 1 "\<lambda>_. False"] run [of 0 "\<lambda>_. True"] box_calls(2) by simp
qed

lemma afs_release_forgets_descriptor_witness:
  "xmp_open (direct box_kernel) [47, 97] fi0 client0 = Some (0, fi0\<lparr>fi_fh := 3\<rparr>, client0)
    \<and> xmp_release (direct box_kernel) fi0 [47, 97] (fi0\<lparr>fi_fh := 3\<rparr>) client0 = Some (0, client0)"
  using afs_release_forgets_descriptor [OF direct_served _ box_path(1), where s = client0 and K = box_kernel and fi = fi0 and fd = 3 and mfi = fi0]
    box_calls(4) by (simp add: fi0_def)

lemma afs_symlink_changes_target_witness:
  "xmp_readlink (direct box_kernel) [47, 98] 511 (client0\<lparr>world := box0\<lparr>box_links := [(AFS @ [47, 98], AFS @ [97])]\<rparr>\<rparr>)
    = Some (0, [47, 97, 102, 115, 97] @ replicate 506 0, client0\<lparr>world := box0\<lparr>box_links := [(AFS @ [47, 98], AFS @ [97])]\<rparr>\<rparr>)"
proof -
  have p: "short_path [97]" "(0 :: byte) \<notin> set [97]" by (simp_all add: short_path_def)
  have "k_symlink box_kernel (AFS @ [97]) (AFS @ [47, 98]) (world client0) = (0, box0\<lparr>box_links := [(AFS @ [47, 98], AFS @ [97])]\<rparr>)"
    by (simp only: client0_simps box_calls)
  from afs_symlink_changes_target [OF direct_served _ p(1) box_path(2) p(2) this box_calls(7), of 511]
  show ?thesis by (simp add: AFS_def)
qed

definition no_bytes :: pipe where "no_bytes = \<lparr>to_read = [], written = [], pipe_error = 0\<rparr>"

lemma no_bytes_simps [simp]: "to_read no_bytes = []" "written no_bytes = []" "pipe_error no_bytes = 0"
  by (simp_all add: no_bytes_def)

lemma client1_simps [simp]: "semlock client1 = 1" "world client1 = (no_bytes, box0)"
  by (simp_all add: client1_def no_bytes_def)

text \<open>The box knows that \<open>pread\<close> sets the number of its error.\<close>

lemma box_pread_errno: "k_pread box_kernel fd n off h = ((- 1, b), h') \<Longrightarrow> k_errno box_kernel h' \<noteq> 0"
  by (auto simp: box_kernel_def split: if_splits)

lemma box_read: "rxc_read box_kernel pipe_rx [47, 97] 4 0 no_bytes box0 = Some (0, no_bytes\<lparr>written := xdr_bytes 0\<rparr>, box0)"
  by (simp add: rxc_read_def box_calls no_bytes_def pipe_rx_def) (simp add: box_kernel_def)

lemma afs_read_returns_nothing_witness:
  "\<exists>w. xmp_read (joined box_kernel) [47, 97] 4 0 fi0 client1 = Some (0, [], client1\<lparr>world := w\<rparr>)"
proof (rule afs_read_returns_nothing [OF joined_reads pipe_writes _ box_pread_errno])
  show "rxc_read box_kernel pipe_rx [47, 97] 4 (ucast (0 :: 64 word)) no_bytes box0 = Some (0, no_bytes\<lparr>written := xdr_bytes 0\<rparr>, box0)"
    using box_read by simp
  show "rx_start (joined box_kernel) (Q_read [47, 97] 4 (ucast (0 :: 64 word)) fi0) (world client1)
    = Some (0, no_bytes\<lparr>to_read := xdr_bytes 0\<rparr>, box0)"
    using box_read by (simp add: joined_def start_joined_def no_bytes_def)
qed (simp_all add: no_bytes_def)

lemma box_getattr:
  "rxc_getattr box_kernel pipe_rx [47, 97] 100 no_bytes box0 = Some (0, no_bytes\<lparr>written := xdr_bytes 96 @ replicate 96 7\<rparr>, box0)"
proof -
  have "IsAllowedPath (AFS @ [47, 97]) = Some 1" by (simp add: IsAllowedPath_eq AFS_def labels_def)
  then show ?thesis by (simp add: rxc_getattr_def box_calls SIZEOF_STAT_def pipe_rx_def no_bytes_def)
qed

lemma afs_getattr_transparent_witness:
  "\<exists>w. xmp_getattr (joined box_kernel) [47, 97] (replicate 96 0) client1 = Some (0, replicate 96 7, client1\<lparr>world := w\<rparr>)"
proof -
  have start: "rx_start (joined box_kernel) (Q_getattr [47, 97] 100) (world client1)
      = Some (0, no_bytes\<lparr>to_read := xdr_bytes 96 @ replicate 96 7\<rparr>, box0)"
    using box_getattr by (simp add: joined_def start_joined_def no_bytes_def)
  have lstat: "length (snd (fst (k_lstat box_kernel p h))) = 96" for p h by (simp add: box_kernel_def)
  have "rx_Error (joined box_kernel) (no_bytes\<lparr>to_read := xdr_bytes 96 @ replicate 96 7\<rparr>, box0) = 0" by (simp add: joined_def)
  from afs_getattr_transparent [OF joined_reads pipe_writes _ lstat _ box_path(1) _ start box_getattr _ this box_calls(3)]
  show ?thesis by (auto simp: labels_def AFS_def)
qed

text \<open>For a write the server runs when the call ends.\<close>

definition ending :: "'h kernel \<Rightarrow> byte list \<Rightarrow> 32 word \<Rightarrow> 32 word \<Rightarrow> (pipe \<times> 'h) remote" where
  "ending K p sz off = (joined K)\<lparr>rx_EndCall := \<lambda>e (c, h).
     case rxc_write K pipe_rx p sz off (no_bytes\<lparr>to_read := written c\<rparr>) h of
       Some (r, c', h') \<Rightarrow> (r, c, h') | None \<Rightarrow> (- 1, c, h)\<rparr>"

lemma ending_writes: "writes_in_order (ending K p sz off) (\<lambda>(c, h). written c)"
  using joined_writes [of K] by (simp add: writes_in_order_def ending_def)

lemma afs_write_claims_all_witness:
  "\<exists>w. xmp_write (ending box_kernel [47, 97] 2 0) [47, 97] [104, 105] 0 fi0 client1 = Some (2, client1\<lparr>world := w\<rparr>)"
proof -
  let ?R = "ending box_kernel [47, 97] 2 0"
  let ?c = "no_bytes\<lparr>to_read := xdr_bytes 2 @ [104, 105]\<rparr>"
  have start: "rx_start ?R (Q_write [47, 97] (of_nat (length [104 :: byte, 105])) (ucast (0 :: 64 word)) fi0) (world client1) = Some (0, no_bytes, box0)"
    by (simp add: ending_def joined_def start_joined_def no_bytes_def)
  have ends: "fst (rx_EndCall ?R 0 w2) = e"
    if "xdr_put ?R (of_nat (length [104 :: byte, 105])) (no_bytes, box0) = (True, w1)" "rx_Write ?R [104, 105] w1 = (k, w2)"
      "rxc_write box_kernel pipe_rx [47, 97] (of_nat (length [104 :: byte, 105])) (ucast (0 :: 64 word)) ?c box0 = Some (e, c', h')" for w1 k w2 e c' h'
    using that by (auto simp: ending_def joined_def pipe_rx_def)
  have "k_pwrite box_kernel 3 [104, 105] (uint (0 :: 64 word) mod 2 ^ 32) box0 = (1, box0)" by (simp add: box_calls)
  from afs_write_claims_all [OF ending_writes _ pipe_reads box_path(1) _ _ _ start _ box_calls(4) _ this _ ends, of ?c]
  show ?thesis by auto
qed

text \<open>A pipe that takes only so many bytes: of a file of three bytes, six places take the length and two of them.\<close>

definition bounded_rx :: "(pipe \<times> nat) rx" where
  "bounded_rx = \<lparr>rx_Read = \<lambda>n (c, k). (fst (rx_Read pipe_rx n c), snd (rx_Read pipe_rx n c), k),
     rx_Write = \<lambda>bs (c, k). (int (min (length bs) k), snd (rx_Write pipe_rx (take k bs) c), k - length bs),
     xdr_get = \<lambda>(c, k). (fst (xdr_get pipe_rx c), snd (xdr_get pipe_rx c), k),
     xdr_put = \<lambda>x (c, k). if 4 \<le> k then (True, snd (xdr_put pipe_rx x c), k - 4) else (False, c, k),
     rx_Error = \<lambda>(c, k). pipe_error c, rx_EndCall = \<lambda>e (c, k). (if e \<noteq> 0 then e else pipe_error c, c, k)\<rparr>"

lemma bounded_writes: "writes_up_to bounded_rx (\<lambda>(c, k). written c) snd"
  by (auto simp: writes_up_to_def bounded_rx_def pipe_rx_def)

lemma bulk_copy_roundtrip_witness:
  "fst (bulk_SendFile bounded_rx \<lparr>src_rest = [1, 2, 3], src_failing = False\<rparr> (no_bytes, 6)) = 1
    \<and> (\<exists>g w. bulk_ReceiveFile pipe_rx (no_bytes\<lparr>to_read := xdr_bytes 1024 @ [1, 2]\<rparr>) \<lparr>snk_bytes = [], snk_room = 10\<rparr> = Some (0, g, w)
      \<and> snk_bytes g = [1, 2])"
proof -
  have "to_read (no_bytes\<lparr>to_read := xdr_bytes 1024 @ [1, 2]\<rparr>)
      = (\<lambda>(c, k). written c) (snd (snd (bulk_SendFile bounded_rx \<lparr>src_rest = [1, 2, 3], src_failing = False\<rparr> (no_bytes, 6))))"
    by (simp add: bulk_SendFile_def send_loop.simps fread_def bounded_rx_def pipe_rx_def)
  from bulk_copy_roundtrip [OF bounded_writes _ pipe_reads this, of "\<lparr>snk_bytes = [], snk_room = 10\<rparr>"]
  show ?thesis by (simp add: pipe_rx_def)
qed

text \<open>A callback that is refused by the host, and gives the connection back.\<close>

lemma afs_connection_given_back_witness:
  "xmp_mkdir (direct box_kernel) [47, 97] 0 client0 = Some (- 17, client0\<lparr>world := box0\<lparr>box_errno := 17\<rparr>\<rparr>)
    \<and> xmp_mkdir (direct box_kernel) [47, 97] 0 (client0\<lparr>semlock := 0\<rparr>) = None"
proof -
  note all = afs_connection_given_back
  have run: "xmp_mkdir (direct box_kernel) [47, 97] 0 s = once (direct box_kernel) (Q_mkdir [47, 97] 0) s" for s
    by (rule conjunct1 [OF conjunct2 [OF conjunct2 [OF conjunct2 [OF conjunct2 [OF all]]]]])
  show ?thesis
    unfolding run once_def
    by (simp add: direct_served [unfolded served_def, rule_format] serve_def rxc_mkdir_def minus_errno_def only_code_def box_calls)
qed

end
