(* ===== verification/SfsDisk.thy ===== *)
theory SfsDisk
  imports Bytes
begin

text \<open>
  The disk emulator of \<open>FileSystemWithFuse-master\<close> (\<open>disk_emu.c\<close>): blocks in one file of the host, behind the position of
  the stream \<open>fp\<close>. Whether the host lets the file be opened is a parameter, and so is what \<open>malloc\<close> gave for the block that
  is read into; latency and failures are switched off by the code.
\<close>

section \<open>The code\<close>

record emu =
  emu_file :: "byte list option"
  fp_open :: bool
  fpos :: nat
  block_size :: nat
  max_block :: nat

definition close_disk :: "emu \<Rightarrow> int \<times> emu" where
  "close_disk s = (0, s\<lparr>fp_open := False\<rparr>)"

text \<open>The two loops put a 0 for every byte of every block at the end of the new file.\<close>

definition init_fresh_disk :: "bool \<Rightarrow> nat \<Rightarrow> nat \<Rightarrow> emu \<Rightarrow> int \<times> emu" where
  "init_fresh_disk can bs num_blocks s =
     (let s1 = s\<lparr>block_size := bs, max_block := num_blocks\<rparr>
      in if can
         then (0, s1\<lparr>emu_file := Some (concat (replicate num_blocks (replicate bs 0))), fp_open := True, fpos := num_blocks * bs\<rparr>)
         else (- 1, s1\<lparr>fp_open := False\<rparr>))"

definition init_disk :: "bool \<Rightarrow> nat \<Rightarrow> nat \<Rightarrow> emu \<Rightarrow> int \<times> emu" where
  "init_disk can bs num_blocks s =
     (let s1 = s\<lparr>block_size := bs, max_block := num_blocks\<rparr>
      in if can \<and> emu_file s \<noteq> None then (0, s1\<lparr>fp_open := True, fpos := 0\<rparr>) else (- 1, s1\<lparr>fp_open := False\<rparr>))"

text \<open>\<open>fseek\<close>, which does nothing for an offset below 0, and \<open>fread\<close> and \<open>fwrite\<close> of one block at the position.\<close>

definition emu_seek :: "int \<Rightarrow> emu \<Rightarrow> emu" where
  "emu_seek off s = (if 0 \<le> off then s\<lparr>fpos := nat off\<rparr> else s)"

definition emu_fread :: "byte list \<Rightarrow> emu \<Rightarrow> byte list \<times> emu" where
  "emu_fread blockRead s =
     (let got = take (block_size s) (drop (fpos s) (the (emu_file s)))
      in (got @ drop (length got) blockRead, s\<lparr>fpos := fpos s + length got\<rparr>))"

definition emu_fwrite :: "byte list \<Rightarrow> emu \<Rightarrow> emu" where
  "emu_fwrite bs s =
     (let f = the (emu_file s); f' = f @ replicate (fpos s - length f) 0
      in s\<lparr>emu_file := Some (take (fpos s) f' @ bs @ drop (fpos s + length bs) f'), fpos := fpos s + length bs\<rparr>)"

fun read_each :: "nat \<Rightarrow> byte list \<Rightarrow> emu \<Rightarrow> byte list \<times> emu" where
  "read_each 0 blockRead s = ([], s)"
| "read_each (Suc n) blockRead s =
     (let (b, s1) = emu_fread blockRead s; (bs, s2) = read_each n b s1 in (b @ bs, s2))"

text \<open>The result, the bytes that are stored in \<open>buffer\<close>, and the state. A stream that is not open is a null pointer.\<close>

definition read_blocks_emu :: "byte list \<Rightarrow> int \<Rightarrow> nat \<Rightarrow> emu \<Rightarrow> (int \<times> byte list \<times> emu) option" where
  "read_blocks_emu blockRead start_address nblocks s =
     (if int (max_block s) < start_address + int nblocks then Some (- 1, [], s)
      else if \<not> fp_open s \<or> emu_file s = None then None
      else let (bs, s1) = read_each nblocks blockRead (emu_seek (start_address * int (block_size s)) s)
        in Some (int nblocks, bs, s1))"

fun write_each :: "nat \<Rightarrow> byte list \<Rightarrow> emu \<Rightarrow> emu" where
  "write_each 0 buffer s = s"
| "write_each (Suc n) buffer s = write_each n (drop (block_size s) buffer) (emu_fwrite (take (block_size s) buffer) s)"

definition write_blocks_emu :: "int \<Rightarrow> nat \<Rightarrow> byte list \<Rightarrow> emu \<Rightarrow> (int \<times> emu) option" where
  "write_blocks_emu start_address nblocks buffer s =
     (if int (max_block s) < start_address + int nblocks then Some (- 1, s)
      else if \<not> fp_open s \<or> emu_file s = None \<or> length buffer < nblocks * block_size s then None
      else Some (int nblocks, write_each nblocks buffer (emu_seek (start_address * int (block_size s)) s)))"

section \<open>The disk as an array of bytes\<close>

text \<open>A disk that is open and has the bytes of all its blocks.\<close>

definition emu_ok :: "emu \<Rightarrow> bool" where
  "emu_ok s \<longleftrightarrow> fp_open s \<and> (\<exists>f. emu_file s = Some f \<and> length f = max_block s * block_size s)"

definition emu_bytes :: "emu \<Rightarrow> byte list" where "emu_bytes s = the (emu_file s)"

definition emu_block :: "emu \<Rightarrow> nat \<Rightarrow> byte list" where
  "emu_block s b = take (block_size s) (drop (b * block_size s) (emu_bytes s))"

lemma emu_okD: "emu_ok s \<Longrightarrow> fp_open s \<and> emu_file s = Some (emu_bytes s) \<and> length (emu_bytes s) = max_block s * block_size s"
  by (auto simp: emu_ok_def emu_bytes_def)

lemma length_emu_block: "emu_ok s \<Longrightarrow> b < max_block s \<Longrightarrow> length (emu_block s b) = block_size s"
proof -
  assume s: "emu_ok s" and b: "b < max_block s"
  have "Suc b * block_size s \<le> max_block s * block_size s" using b by (intro mult_le_mono1) simp
  with emu_okD [OF s] show ?thesis by (simp add: emu_block_def)
qed

lemma read_each_bytes:
  assumes "emu_file s = Some f" and "fpos s + n * block_size s \<le> length f" and "length blk = block_size s"
  shows "\<exists>p. read_each n blk s = (take (n * block_size s) (drop (fpos s) f), s\<lparr>fpos := p\<rparr>)"
  using assms
proof (induction n arbitrary: s blk)
  case 0
  show ?case by (intro exI [of _ "fpos s"]) simp
next
  case (Suc n)
  let ?s = "s\<lparr>fpos := fpos s + block_size s\<rparr>"
  let ?b = "take (block_size s) (drop (fpos s) f)"
  have fread: "emu_fread blk s = (?b, ?s)" using Suc.prems by (simp add: emu_fread_def Let_def)
  have "fpos ?s + n * block_size ?s \<le> length f" "emu_file ?s = Some f" "length ?b = block_size ?s" using Suc.prems by simp_all
  from Suc.IH [OF this(2,1,3)] obtain p where
    "read_each n ?b ?s = (take (n * block_size s) (drop (fpos s + block_size s) f), ?s\<lparr>fpos := p\<rparr>)" by auto
  with fread show ?case by (auto simp: take_add drop_drop add.commute)
qed

text \<open>A block of bytes at a place of a list of bytes.\<close>

definition patched :: "byte list \<Rightarrow> nat \<Rightarrow> byte list \<Rightarrow> byte list" where
  "patched f p bs = take p f @ bs @ drop (p + length bs) f"

lemma length_patched [simp]: "p + length bs \<le> length f \<Longrightarrow> length (patched f p bs) = length f"
  by (simp add: patched_def)

lemma patched_append: "p + length as + length bs \<le> length f \<Longrightarrow> patched (patched f p as) (p + length as) bs = patched f p (as @ bs)"
  by (simp add: patched_def ac_simps)

lemma nth_patched:
  "p + length bs \<le> length f \<Longrightarrow> i < length f \<Longrightarrow> patched f p bs ! i = (if p \<le> i \<and> i < p + length bs then bs ! (i - p) else f ! i)"
  by (auto simp: patched_def nth_append min_def)

lemma write_each_bytes:
  assumes "emu_file s = Some f" and "fpos s + n * block_size s \<le> length f" and "n * block_size s \<le> length buffer"
  shows "\<exists>p. write_each n buffer s = s\<lparr>emu_file := Some (patched f (fpos s) (take (n * block_size s) buffer)), fpos := p\<rparr>"
  using assms
proof (induction n arbitrary: s f buffer)
  case 0
  then show ?case by (intro exI [of _ "fpos s"]) (simp add: patched_def)
next
  case (Suc n)
  let ?b = "take (block_size s) buffer"
  let ?s = "s\<lparr>emu_file := Some (patched f (fpos s) ?b), fpos := fpos s + block_size s\<rparr>"
  have len: "length ?b = block_size s" "fpos s + block_size s \<le> length f" using Suc.prems by simp_all
  then have w: "emu_fwrite ?b s = ?s" using Suc.prems by (simp add: emu_fwrite_def Let_def patched_def)
  have "emu_file ?s = Some (patched f (fpos s) ?b)" "fpos ?s + n * block_size ?s \<le> length (patched f (fpos s) ?b)"
    "n * block_size ?s \<le> length (drop (block_size s) buffer)" using Suc.prems len by simp_all
  from Suc.IH [OF this] obtain p where "write_each n (drop (block_size s) buffer) ?s
      = ?s\<lparr>emu_file := Some (patched (patched f (fpos s) ?b) (fpos s + block_size s) (take (n * block_size s) (drop (block_size s) buffer))), fpos := p\<rparr>"
    by auto
  moreover have "patched (patched f (fpos s) ?b) (fpos s + length ?b) (take (n * block_size s) (drop (block_size s) buffer))
      = patched f (fpos s) (take (block_size s + n * block_size s) buffer)"
    unfolding take_add by (rule patched_append) (use Suc.prems len in simp)
  ultimately show ?case using w len(1) by auto
qed

lemma in_range: "start + n \<le> max_block s \<Longrightarrow> start * block_size s + n * block_size s \<le> max_block s * block_size s"
  by (metis add_mult_distrib mult_le_mono1)

lemma read_blocks_eq:
  assumes s: "emu_ok s" and r: "start + n \<le> max_block s" and j: "length blk = block_size s"
  shows "\<exists>p. read_blocks_emu blk (int start) n s = Some (int n, take (n * block_size s) (drop (start * block_size s) (emu_bytes s)), s\<lparr>fpos := p\<rparr>)"
proof -
  let ?s = "emu_seek (int start * int (block_size s)) s"
  have seek: "?s = s\<lparr>fpos := start * block_size s\<rparr>" by (simp add: emu_seek_def nat_mult_distrib)
  have "fpos ?s + n * block_size ?s \<le> length (emu_bytes s)" "emu_file ?s = Some (emu_bytes s)" "length blk = block_size ?s"
    using in_range [OF r] emu_okD [OF s] j by (simp_all add: seek)
  from read_each_bytes [OF this(2,1,3)] obtain p where
    "read_each n blk ?s = (take (n * block_size s) (drop (start * block_size s) (emu_bytes s)), s\<lparr>fpos := p\<rparr>)"
    by (auto simp: seek)
  then show ?thesis using r emu_okD [OF s] by (auto simp: read_blocks_emu_def)
qed

lemma write_blocks_eq:
  assumes s: "emu_ok s" and r: "start + n \<le> max_block s" and j: "n * block_size s \<le> length buffer"
  shows "\<exists>p. write_blocks_emu (int start) n buffer s
    = Some (int n, s\<lparr>emu_file := Some (patched (emu_bytes s) (start * block_size s) (take (n * block_size s) buffer)), fpos := p\<rparr>)"
proof -
  let ?s = "emu_seek (int start * int (block_size s)) s"
  have seek: "?s = s\<lparr>fpos := start * block_size s\<rparr>" by (simp add: emu_seek_def nat_mult_distrib)
  have "fpos ?s + n * block_size ?s \<le> length (emu_bytes s)" "emu_file ?s = Some (emu_bytes s)" "n * block_size ?s \<le> length buffer"
    using in_range [OF r] emu_okD [OF s] j by (simp_all add: seek)
  from write_each_bytes [OF this(2,1,3)] obtain p where
    "write_each n buffer ?s = s\<lparr>emu_file := Some (patched (emu_bytes s) (start * block_size s) (take (n * block_size s) buffer)), fpos := p\<rparr>"
    by (auto simp: seek)
  then show ?thesis using r j emu_okD [OF s] by (auto simp: write_blocks_emu_def)
qed

end
