(* ===== verification/SfsState.thy ===== *)
theory SfsState
  imports SfsDisk
begin

text \<open>
  The structures of \<open>sfs_api.c\<close> and its tables in memory. A block has 512 bytes and \<open>indirectINode\<close> is one block of 128
  longs, so the target has longs of 4 bytes: an \<open>iNode\<close> has 72 bytes and does not divide a block.
\<close>

section \<open>Structures\<close>

definition BLOCKSIZE :: int where "BLOCKSIZE = 512"
definition NUMBEROFBLOCKS :: int where "NUMBEROFBLOCKS = 1000"
definition NUMBEROFINODES :: int where "NUMBEROFINODES = 100"
definition FREE_BLOCK :: int where "FREE_BLOCK = 0"
definition IN_USE :: int where "IN_USE = 1"
definition RWE :: int where "RWE = 666"
definition USER_UID :: int where "USER_UID = 1"

record FileDescriptor =
  fd_iNode :: int
  RWPointer :: int

record sfs_inode =
  sfs_mode :: "32 word"
  linkCnt :: "32 word"
  sfs_uid :: "32 word"
  sfs_gid :: "32 word"
  sfs_size :: "32 word"
  directPointers :: "32 word list"
  indirectPointer :: "32 word"

record DirectoryEntry =
  de_name :: "byte list"
  de_iNode :: "32 word"

definition longs_bytes :: "32 word list \<Rightarrow> byte list" where "longs_bytes ws = concat (map (le_bytes 4) ws)"

definition bytes_longs :: "nat \<Rightarrow> byte list \<Rightarrow> 32 word list" where
  "bytes_longs n bs = map (\<lambda>i. le_word (take 4 (drop (4 * i) bs))) [0..<n]"

definition encode_sfs_inode :: "sfs_inode \<Rightarrow> byte list" where
  "encode_sfs_inode n = longs_bytes ([sfs_mode n, linkCnt n, sfs_uid n, sfs_gid n, sfs_size n] @ directPointers n @ [indirectPointer n])"

definition decode_sfs_inode :: "byte list \<Rightarrow> sfs_inode" where
  "decode_sfs_inode bs = (let w = bytes_longs 18 bs
     in \<lparr>sfs_mode = w ! 0, linkCnt = w ! 1, sfs_uid = w ! 2, sfs_gid = w ! 3, sfs_size = w ! 4,
         directPointers = take 12 (drop 5 w), indirectPointer = w ! 17\<rparr>)"

definition wf_sfs_inode :: "sfs_inode \<Rightarrow> bool" where "wf_sfs_inode n \<longleftrightarrow> length (directPointers n) = 12"

lemma length_longs_bytes [simp]: "length (longs_bytes ws) = 4 * length ws"
  by (induction ws) (simp_all add: longs_bytes_def)

lemma long_at: "i < length ws \<Longrightarrow> take 4 (drop (4 * i) (longs_bytes ws)) = le_bytes 4 (ws ! i)"
proof (induction ws arbitrary: i)
  case (Cons w ws)
  have "longs_bytes (w # ws) = le_bytes 4 w @ longs_bytes ws" by (simp add: longs_bytes_def)
  with Cons show ?case by (cases i) (simp_all del: le_bytes.simps)
qed simp

lemma bytes_longs_bytes: "n = length ws \<Longrightarrow> bytes_longs n (longs_bytes ws) = ws"
  by (rule nth_equalityI) (simp_all add: bytes_longs_def long_at le_word_le_bytes_full)

lemma length_encode_sfs_inode: "wf_sfs_inode n \<Longrightarrow> length (encode_sfs_inode n) = 72"
  by (simp add: encode_sfs_inode_def wf_sfs_inode_def)

lemma decode_encode_sfs_inode: "wf_sfs_inode n \<Longrightarrow> decode_sfs_inode (encode_sfs_inode n) = n"
  by (simp add: decode_sfs_inode_def encode_sfs_inode_def bytes_longs_bytes wf_sfs_inode_def nth_append)

section \<open>The state\<close>

text \<open>
  \<open>directory\<close> and \<open>fileDescTable\<close> are pointers: None where they do not point to their arrays. What arrays on the stack and
  blocks from \<open>malloc\<close> hold before they are set is a parameter, by the function that has them.
\<close>

record sfs =
  dsk :: emu
  directory :: "DirectoryEntry list option"
  positionInDir :: nat
  fileDescTable :: "FileDescriptor list option"

datatype sfs_site = S_malloc | S_clear | S_root | S_empty | S_alloc | S_status | S_create | S_indirect | S_write | S_read | S_size

record sfs_mem =
  junk :: "sfs_site \<Rightarrow> byte list"
  name_junk :: "byte list"
  fd_junk :: "FileDescriptor list"
  last_errno :: int

definition mem_ok :: "sfs_mem \<Rightarrow> bool" where
  "mem_ok m \<longleftrightarrow> (\<forall>i. length (junk m i) = 512) \<and> length (name_junk m) = 12 \<and> length (fd_junk m) = 50"

text \<open>One block into a buffer, which keeps its bytes where the read fails, and one block from a buffer.\<close>

definition read_into :: "sfs_mem \<Rightarrow> int \<Rightarrow> byte list \<Rightarrow> sfs \<Rightarrow> (byte list \<times> sfs) option" where
  "read_into m addr buffer s = do {
     (r, bs, e) \<leftarrow> read_blocks_emu (junk m S_malloc) addr 1 (dsk s);
     Some (bs @ drop (length bs) buffer, s\<lparr>dsk := e\<rparr>)
   }"

definition write_from :: "int \<Rightarrow> byte list \<Rightarrow> sfs \<Rightarrow> sfs option" where
  "write_from addr buffer s = do {
     (r, e) \<leftarrow> write_blocks_emu addr 1 buffer (dsk s);
     Some (s\<lparr>dsk := e\<rparr>)
   }"

text \<open>\<open>memcpy\<close> of an \<open>iNode\<close> from a buffer and into it; one that reaches over the end leaves the array.\<close>

definition inode_in :: "byte list \<Rightarrow> int \<Rightarrow> sfs_inode option" where
  "inode_in buffer off =
     (if 0 \<le> off \<and> nat off + 72 \<le> length buffer then Some (decode_sfs_inode (take 72 (drop (nat off) buffer))) else None)"

definition inode_into :: "byte list \<Rightarrow> int \<Rightarrow> sfs_inode \<Rightarrow> byte list option" where
  "inode_into buffer off n =
     (if 0 \<le> off \<and> nat off + 72 \<le> length buffer then Some (patched buffer (nat off) (encode_sfs_inode n)) else None)"

section \<open>Open files\<close>

text \<open>The table has room for 100 pointers, which is 50 descriptors.\<close>

definition initializeFDTable :: "sfs_mem \<Rightarrow> sfs \<Rightarrow> sfs" where
  "initializeFDTable m s = s\<lparr>fileDescTable := Some (fd_junk m)\<rparr>"

definition fd_at :: "sfs \<Rightarrow> int \<Rightarrow> FileDescriptor option" where
  "fd_at s i = (case fileDescTable s of None \<Rightarrow> None | Some t \<Rightarrow> if 0 \<le> i \<and> nat i < length t then Some (t ! nat i) else None)"

definition set_fd :: "sfs \<Rightarrow> int \<Rightarrow> FileDescriptor \<Rightarrow> sfs" where
  "set_fd s i f = s\<lparr>fileDescTable := map_option (\<lambda>t. t[nat i := f]) (fileDescTable s)\<rparr>"

text \<open>
  The search reads an entry before it compares the index with its bound, and the table ends before the bound: a search that
  finds nothing leaves the table.
\<close>

definition addToFDTable :: "int \<Rightarrow> sfs \<Rightarrow> (int \<times> sfs) option" where
  "addToFDTable i s = do {
     t \<leftarrow> fileDescTable s;
     index \<leftarrow> List.find (\<lambda>k. fd_iNode (t ! k) = 0 \<or> fd_iNode (t ! k) = i) [0..<length t];
     Some (int index, if fd_iNode (t ! index) = 0 then set_fd s (int index) \<lparr>fd_iNode = i, RWPointer = 0\<rparr> else s)
   }"

definition removeFromFDTable :: "int \<Rightarrow> sfs \<Rightarrow> (int \<times> sfs) option" where
  "removeFromFDTable fileID s = do {
     f \<leftarrow> fd_at s fileID;
     Some (if fd_iNode f = 0 then (- 1, s) else (0, set_fd s fileID \<lparr>fd_iNode = 0, RWPointer = 0\<rparr>))
   }"

section \<open>The directory in memory\<close>

text \<open>\<open>strcmp\<close> of a string and an array: whether they are equal; None if it runs behind the array.\<close>

fun strcmp_array :: "byte list \<Rightarrow> byte list \<Rightarrow> bool option" where
  "strcmp_array w [] = None"
| "strcmp_array [] (b # bs) = Some (b = 0)"
| "strcmp_array (a # w) (b # bs) = (if a = b then strcmp_array w bs else Some False)"

definition initDirectory :: "sfs_mem \<Rightarrow> sfs \<Rightarrow> sfs" where
  "initDirectory m s = s\<lparr>directory := Some (replicate 100 \<lparr>de_name = replicate 15 32 @ [0] @ name_junk m, de_iNode = 0\<rparr>)\<rparr>"

definition addToDirectory :: "byte list \<Rightarrow> int \<Rightarrow> sfs \<Rightarrow> (int \<times> sfs) option" where
  "addToDirectory name i s = do {
     d \<leftarrow> directory s;
     index \<leftarrow> List.find (\<lambda>k. de_iNode (d ! k) = 0) [0..<length d];
     if length (de_name (d ! index)) \<le> length name then None
     else Some (int index, s\<lparr>directory := Some (d[index :=
            \<lparr>de_name = name @ [0] @ drop (length name + 1) (de_name (d ! index)), de_iNode = word_of_int i\<rparr>])\<rparr>)
   }"

text \<open>Here too the entry is read before the bound is tested: without a match the search leaves the array.\<close>

definition findDirectoryEntry :: "byte list \<Rightarrow> sfs \<Rightarrow> int option" where
  "findDirectoryEntry name s = do {
     d \<leftarrow> directory s;
     after_loop
       (for_loop 0 (length d) (\<lambda>k _. do {
          eq \<leftarrow> strcmp_array name (de_name (d ! k));
          Some (if eq then Return (int k) else Next ())
        }) ())
       (\<lambda>_. None)
   }"

definition clearDirectoryAtIndex :: "int \<Rightarrow> sfs \<Rightarrow> sfs option" where
  "clearDirectoryAtIndex index s = do {
     d \<leftarrow> directory s;
     if index < 0 \<or> length d \<le> nat index then None
     else Some (s\<lparr>directory := Some (d[nat index := \<lparr>de_name = 0 # drop 1 (de_name (d ! nat index)), de_iNode = 0\<rparr>])\<rparr>)
   }"

end
