(* ===== verification/SfsOps.thy ===== *)
theory SfsOps
  imports SfsState
begin

text \<open>
  The functions of \<open>sfs_api.c\<close> over the disk and the tables, and the callbacks of \<open>fuse_wrappers.c\<close> over them. Blocks are
  read into arrays of 512 bytes; an array or a variable that is used before it is set, and an index behind an array, is None.
\<close>

section \<open>The inode table\<close>

text \<open>\<open>sizeof\<close> is unsigned, so a negative number is taken modulo \<open>2^32\<close>.\<close>

definition inode_bytes :: "int \<Rightarrow> int" where
  "inode_bytes n = uint (word_of_int n * 72 :: 32 word)"

definition findINodeBlockAddress :: "int \<Rightarrow> int" where
  "findINodeBlockAddress n = (if NUMBEROFINODES < n then - 1 else inode_bytes n div BLOCKSIZE + 1)"

definition findINodeByteAddress :: "int \<Rightarrow> int" where
  "findINodeByteAddress n = inode_bytes n mod BLOCKSIZE"

text \<open>The mode is read from the four bytes at the place of the inode; a block is read when it differs from the last one.\<close>

definition findEmptyINode :: "sfs_mem \<Rightarrow> sfs \<Rightarrow> (int \<times> sfs) option" where
  "findEmptyINode m s = after_loop
     (for_loop 0 100 (\<lambda>i (currentBlock, buffer, s). do {
        let block = findINodeBlockAddress (int i);
        (buffer, s) \<leftarrow> (if currentBlock \<noteq> block then read_into m block buffer s else Some (buffer, s));
        let off = nat (findINodeByteAddress (int i));
        if length buffer < off + 4 then None
        else Some (if (le_word (take 4 (drop off buffer)) :: 32 word) = 0 then Return (int i, s) else Next (block, buffer, s))
      }) (- 1, junk m S_empty, s))
     (\<lambda>(_, _, s). Some (- 1, s))"

section \<open>The map of free blocks\<close>

text \<open>One char a block, in blocks 998 and 999; the number of the block of the map is rounded up.\<close>

definition blocksReq :: int where "blocksReq = (NUMBEROFBLOCKS + (BLOCKSIZE - 1)) div BLOCKSIZE"

definition changeBlockStatus :: "sfs_mem \<Rightarrow> int \<Rightarrow> int \<Rightarrow> sfs \<Rightarrow> sfs option" where
  "changeBlockStatus m blockNumber status s = do {
     let correspondingChar = blockNumber smod BLOCKSIZE;
     let blockToLookUp = (blockNumber + 511) sdiv BLOCKSIZE + (NUMBEROFBLOCKS - blocksReq) - 1;
     (buffer, s1) \<leftarrow> read_into m blockToLookUp (junk m S_status) s;
     if correspondingChar < 0 \<or> length buffer \<le> nat correspondingChar then None
     else write_from blockToLookUp (buffer[nat correspondingChar := word_of_int status]) s1
   }"

definition allocateFreeBlock :: "sfs_mem \<Rightarrow> sfs \<Rightarrow> (int \<times> sfs) option" where
  "allocateFreeBlock m s = after_loop
     (for_loop 998 1000 (\<lambda>currentBlock (buffer, s). do {
        (buffer, s1) \<leftarrow> read_into m (int currentBlock) buffer s;
        let found = List.find (\<lambda>i. buffer ! i = 0) [0..<512];
        case found of
          None \<Rightarrow> Some (Next (buffer, s1))
        | Some i \<Rightarrow> do {
            let b = (int currentBlock - (NUMBEROFBLOCKS - blocksReq)) * 512 + int i;
            s2 \<leftarrow> changeBlockStatus m b IN_USE s1;
            Some (Return (b, s2))
          }
      }) (junk m S_alloc, s))
     (\<lambda>(_, s). Some (- 1, s))"

text \<open>The blocks of the map are zeroed; then the first 16 blocks and those of the map itself, the last first, are marked.\<close>

definition initializeFreeBitMap :: "sfs_mem \<Rightarrow> sfs \<Rightarrow> sfs option" where
  "initializeFreeBitMap m s = do {
     s1 \<leftarrow> write_from 998 (replicate 512 0) s;
     s2 \<leftarrow> write_from 999 (replicate 512 0) s1;
     s3 \<leftarrow> after_loop (for_loop 0 16 (\<lambda>i s. map_option Next (changeBlockStatus m (int i) IN_USE s)) s2) Some;
     s4 \<leftarrow> changeBlockStatus m 999 IN_USE s3;
     changeBlockStatus m 998 IN_USE s4
   }"

section \<open>Inodes\<close>

text \<open>
  \<open>createINode\<close>: the pointers of a large file are allocated from the last down to the twelfth; the block of indirect
  pointers is written as it is, also where it was not set.
\<close>

definition allocate_indirect :: "sfs_mem \<Rightarrow> nat \<Rightarrow> sfs \<Rightarrow> (32 word \<times> sfs) option" where
  "allocate_indirect m num s = do {
     (ip, s1) \<leftarrow> allocateFreeBlock m s;
     (indirect, s2) \<leftarrow> after_loop
       (for_loop 12 (num + 1) (\<lambda>k (indirect, s). do {
          let numBlocks = num + 12 - k;
          (b, s1) \<leftarrow> allocateFreeBlock m s;
          if 128 \<le> numBlocks then None
          else Some (Next (indirect[numBlocks := word_of_int b], s1))
        }) (bytes_longs 128 (junk m S_indirect), s1)) Some;
     s3 \<leftarrow> write_from ip (longs_bytes indirect) s2;
     Some (word_of_int ip, s3)
   }"

fun allocate_direct :: "sfs_mem \<Rightarrow> nat \<Rightarrow> int \<Rightarrow> sfs \<Rightarrow> (32 word list \<times> sfs) option" where
  "allocate_direct m 0 num s = Some ([], s)"
| "allocate_direct m (Suc n) num s =
     (if 0 < num then do {
        (b, s1) \<leftarrow> allocateFreeBlock m s;
        (ps, s2) \<leftarrow> allocate_direct m n (num - 1) s1;
        Some (word_of_int b # ps, s2)
      }
      else do {
        (ps, s1) \<leftarrow> allocate_direct m n num s;
        Some (0 # ps, s1)
      })"

definition store_inode :: "sfs_mem \<Rightarrow> sfs_site \<Rightarrow> int \<Rightarrow> sfs_inode \<Rightarrow> sfs \<Rightarrow> sfs option" where
  "store_inode m site numI n s = do {
     (buffer, s1) \<leftarrow> read_into m (findINodeBlockAddress numI) (junk m site) s;
     buffer1 \<leftarrow> inode_into buffer (findINodeByteAddress numI) n;
     write_from (findINodeBlockAddress numI) buffer1 s1
   }"

definition createINode :: "sfs_mem \<Rightarrow> int \<Rightarrow> int \<Rightarrow> int \<Rightarrow> int \<Rightarrow> int \<Rightarrow> sfs \<Rightarrow> (int \<times> sfs) option" where
  "createINode m mode link_cnt uid gid sz s = do {
     let numBlocksToAllocate = sz sdiv BLOCKSIZE + 1;
     if 12 + BLOCKSIZE div 4 < numBlocksToAllocate then Some (- 1, s)
     else do {
       (ip, s1) \<leftarrow> (if 12 \<le> numBlocksToAllocate then allocate_indirect m (nat numBlocksToAllocate) s else Some (0, s));
       (ps, s2) \<leftarrow> allocate_direct m 12 (if 12 \<le> numBlocksToAllocate then 11 else numBlocksToAllocate) s1;
       (numI, s3) \<leftarrow> findEmptyINode m s2;
       s4 \<leftarrow> store_inode m S_create numI \<lparr>sfs_mode = word_of_int mode, linkCnt = word_of_int link_cnt, sfs_uid = word_of_int uid,
              sfs_gid = word_of_int gid, sfs_size = word_of_int sz, directPointers = ps, indirectPointer = ip\<rparr> s3;
       Some (numI, s4)
     }
   }"

definition load_inode :: "sfs_mem \<Rightarrow> sfs_site \<Rightarrow> int \<Rightarrow> sfs \<Rightarrow> (sfs_inode \<times> byte list \<times> sfs) option" where
  "load_inode m site numI s = do {
     (buffer, s1) \<leftarrow> read_into m (findINodeBlockAddress numI) (junk m site) s;
     n \<leftarrow> inode_in buffer (findINodeByteAddress numI);
     Some (n, buffer, s1)
   }"

text \<open>
  \<open>clearINode\<close>: with an indirect block the buffer that held the block of the inode holds that block when the inode is put
  into it and it is written back.
\<close>

fun free_pointers :: "sfs_mem \<Rightarrow> 32 word list \<Rightarrow> sfs \<Rightarrow> sfs option" where
  "free_pointers m [] s = Some s"
| "free_pointers m (p # ps) s = (if p \<noteq> 0 then changeBlockStatus m (sint p) FREE_BLOCK s else Some s) \<bind> free_pointers m ps"

definition clearINode :: "sfs_mem \<Rightarrow> int \<Rightarrow> sfs \<Rightarrow> sfs option" where
  "clearINode m numI s = do {
     (n, buffer, s1) \<leftarrow> load_inode m S_clear numI s;
     s2 \<leftarrow> free_pointers m (directPointers n) s1;
     (buffer1, s3) \<leftarrow> (if indirectPointer n \<noteq> 0
       then do {
         (b, s3) \<leftarrow> read_into m (sint (indirectPointer n)) buffer s2;
         s4 \<leftarrow> free_pointers m (bytes_longs 128 b) s3;
         s5 \<leftarrow> write_from (sint (indirectPointer n)) (replicate 512 0) s4;
         Some (b, s5)
       }
       else Some (buffer, s2));
     buffer2 \<leftarrow> inode_into buffer1 (findINodeByteAddress numI) \<lparr>sfs_mode = 0, linkCnt = 0, sfs_uid = 0, sfs_gid = 0, sfs_size = 0,
            directPointers = replicate 12 0, indirectPointer = 0\<rparr>;
     write_from (findINodeBlockAddress numI) buffer2 s3
   }"

section \<open>Reading the directory from the disk\<close>

text \<open>
  \<open>blocksToGet\<close> has one element for every block of the root directory; an element that was not set is None. The
  pointers of an inode up to the first 0, which has to lie in the array, go to \<open>blocksToGet\<close> from a place on.
\<close>

fun put_pointers :: "nat \<Rightarrow> 32 word list \<Rightarrow> int option list \<Rightarrow> int option list option" where
  "put_pointers i [] blocksToGet = None"
| "put_pointers i (p # ps) blocksToGet =
     (if p = 0 then Some blocksToGet
      else if length blocksToGet \<le> i then None
      else put_pointers (i + 1) ps (blocksToGet[i := Some (sint p)]))"

text \<open>At the end the bytes of the directory are copied over the pointer itself, not to where it points.\<close>

definition readDirectory :: "sfs_mem \<Rightarrow> sfs \<Rightarrow> sfs option" where
  "readDirectory m s = do {
     (buffer, s1) \<leftarrow> read_into m 1 (junk m S_root) s;
     root \<leftarrow> inode_in buffer 0;
     let sz = sint (sfs_size root);
     let numBlocksToRead = (sz + BLOCKSIZE - 1) sdiv BLOCKSIZE;
     if numBlocksToRead \<le> 0 then None
     else do {
       (blocksToGet, s2) \<leftarrow> (if indirectPointer root \<noteq> 0
         then do {
           (b, s2) \<leftarrow> read_into m (sint (indirectPointer root)) (junk m S_root) s1;
           bs \<leftarrow> put_pointers 12 (bytes_longs 128 b) (replicate (nat numBlocksToRead) None);
           Some (bs, s2)
         }
         else Some (replicate (nat numBlocksToRead) None, s1));
       blocks \<leftarrow> put_pointers 0 (directPointers root) blocksToGet;
       (buffer1, s3) \<leftarrow> after_loop
         (for_loop 0 (nat numBlocksToRead) (\<lambda>i (buffer, s). do {
            addr \<leftarrow> blocks ! i;
            (buffer1, s1) \<leftarrow> read_into m addr buffer s;
            Some (Next (buffer1, s1))
          }) (buffer, s2)) Some;
       if 4 < sz then None else Some (s3\<lparr>directory := None\<rparr>)
     }
   }"

text \<open>\<open>mksfs\<close>: the result is None inside where the program exits.\<close>

definition superblock_bytes :: "byte list" where
  "superblock_bytes = longs_bytes [83934122, 512, 1000, 100, 0] @ replicate 492 0"

definition mksfs :: "sfs_mem \<Rightarrow> bool \<Rightarrow> int \<Rightarrow> sfs \<Rightarrow> (int option \<times> sfs) option" where
  "mksfs m can fresh s =
     (if fresh = 1
      then (let (diskinit, e) = init_fresh_disk can 512 1000 (dsk s); s1 = s\<lparr>dsk := e\<rparr>
        in if diskinit \<noteq> 0 then Some (None, s1)
           else do {
             s2 \<leftarrow> write_from 0 superblock_bytes (initDirectory m s1);
             s3 \<leftarrow> initializeFreeBitMap m s2;
             (numRootINode, s4) \<leftarrow> createINode m RWE 1 0 0 1 (initializeFDTable m s3);
             s5 \<leftarrow> readDirectory m s4;
             Some (Some 0, s5)
           })
      else if fresh = 0
      then (let (diskinit, e) = init_disk can 512 1000 (dsk s); s1 = s\<lparr>dsk := e\<rparr>
        in Some (if diskinit \<noteq> 0 then None else Some 0, s1))
      else Some (Some (- 1), s))"

section \<open>Files\<close>

text \<open>A file that exists is opened under its index in the directory, not under the number of its inode.\<close>

definition sfs_fopen :: "sfs_mem \<Rightarrow> byte list \<Rightarrow> sfs \<Rightarrow> (int \<times> sfs) option" where
  "sfs_fopen m name s = do {
     i \<leftarrow> findDirectoryEntry name s;
     if i < 0
     then do {
       (numI, s1) \<leftarrow> createINode m RWE 0 USER_UID USER_UID 0 s;
       (index, s2) \<leftarrow> addToDirectory name numI s1;
       addToFDTable numI s2
     }
     else addToFDTable i s
   }"

definition sfs_fclose :: "int \<Rightarrow> sfs \<Rightarrow> (int \<times> sfs) option" where
  "sfs_fclose fileID s = removeFromFDTable fileID s"

definition sfs_fseek :: "int \<Rightarrow> int \<Rightarrow> sfs \<Rightarrow> (int \<times> sfs) option" where
  "sfs_fseek fileID offset s = do {
     f \<leftarrow> fd_at s fileID;
     Some (if fd_iNode f = 0 then (- 1, s) else (0, set_fd s fileID (f\<lparr>RWPointer := offset\<rparr>)))
   }"

text \<open>The smallest number of blocks for a number of bytes.\<close>

definition blocks_for :: "int \<Rightarrow> int" where "blocks_for n = - ((- n) div BLOCKSIZE)"

text \<open>
  \<open>sfs_fwrite\<close>: the loop that grows the file does not count the blocks it has, so it sets one pointer again and again; the
  inode is stored at the start of its block; no byte of \<open>buf\<close> is used.
\<close>

definition grow_blocks :: "sfs_mem \<Rightarrow> nat \<Rightarrow> nat \<Rightarrow> sfs_inode \<Rightarrow> sfs \<Rightarrow> (sfs_inode \<times> 32 word list \<times> sfs) option" where
  "grow_blocks m already missing n s = after_loop
     (for_loop 0 missing (\<lambda>_ (n, indirect, s).
        if already < 12
        then do {
          (b, s1) \<leftarrow> allocateFreeBlock m s;
          Some (Next (n\<lparr>directPointers := (directPointers n)[already := word_of_int b]\<rparr>, indirect, s1))
        }
        else do {
          (n1, s1) \<leftarrow> (if already = 12 \<and> indirectPointer n = 0
            then do { (ip, s1) \<leftarrow> allocateFreeBlock m s; Some (n\<lparr>indirectPointer := word_of_int ip\<rparr>, s1) }
            else Some (n, s));
          (b, s2) \<leftarrow> allocateFreeBlock m s1;
          if 128 \<le> already then None
          else Some (Next (n1, indirect[already := word_of_int b], s2))
        }) (n, bytes_longs 128 (junk m S_indirect), s)) Some"

definition sfs_fwrite :: "sfs_mem \<Rightarrow> int \<Rightarrow> byte list \<Rightarrow> int \<Rightarrow> sfs \<Rightarrow> (int \<times> sfs) option" where
  "sfs_fwrite m fileID buf len s = do {
     f \<leftarrow> fd_at s fileID;
     let numINode = fd_iNode f;
     (n, buffer, s1) \<leftarrow> load_inode m S_write numINode s;
     let sz = sint (sfs_size n);
     if RWPointer f + len \<le> sz then Some (0, s1)
     else do {
       let already = blocks_for sz;
       if 12 + BLOCKSIZE div 4 < already + already then Some (- 1, s1)
       else if already < 0 \<and> already < blocks_for (RWPointer f + len) then None
       else do {
         (n1, indirect, s2) \<leftarrow> grow_blocks m (nat already) (nat (blocks_for (RWPointer f + len) - already)) n s1;
         (buffer1, s3) \<leftarrow> (if 11 < already
           then do {
             let b = longs_bytes indirect;
             s3 \<leftarrow> write_from (sint (indirectPointer n1)) b s2;
             Some (b, s3)
           }
           else Some (buffer, s2));
         buffer2 \<leftarrow> inode_into buffer1 0 (n1\<lparr>sfs_size := word_of_int (RWPointer f + len)\<rparr>);
         s4 \<leftarrow> write_from (findINodeBlockAddress numINode) buffer2 s3;
         Some (0, s4)
       }
     }
   }"

text \<open>\<open>sfs_fread\<close>: the condition of the loop reads \<open>bytesRead\<close>, which is never set, unless the first block is behind the direct ones.\<close>

definition sfs_fread :: "sfs_mem \<Rightarrow> int \<Rightarrow> int \<Rightarrow> sfs \<Rightarrow> (int \<times> sfs) option" where
  "sfs_fread m fileID len s = do {
     f \<leftarrow> fd_at s fileID;
     if fd_iNode f = 0 then Some (- 1, s)
     else do {
       (n, buffer, s1) \<leftarrow> load_inode m S_read (fd_iNode f) s;
       if sint (sfs_size n) < RWPointer f + len then Some (- 1, s1)
       else if RWPointer f sdiv 512 < 12 then None
       else Some (0, set_fd s1 fileID f)
     }
   }"

definition sfs_remove :: "sfs_mem \<Rightarrow> byte list \<Rightarrow> sfs \<Rightarrow> (int \<times> sfs) option" where
  "sfs_remove m name s = do {
     index \<leftarrow> findDirectoryEntry name s;
     if index = - 1 then Some (- 1, s)
     else do {
       d \<leftarrow> directory s;
       s1 \<leftarrow> clearINode m (sint (de_iNode (d ! nat index))) s;
       s2 \<leftarrow> clearDirectoryAtIndex index s1;
       Some (0, s2)
     }
   }"

text \<open>The position, the name copied to an array of \<open>cap\<close> characters, and the state.\<close>

definition sfs_get_next_filename :: "nat \<Rightarrow> sfs \<Rightarrow> (int \<times> byte list \<times> sfs) option" where
  "sfs_get_next_filename cap s = do {
     d \<leftarrow> directory s;
     if length d \<le> positionInDir s then None
     else do {
       let p = (if de_iNode (d ! positionInDir s) = 0 then 0 else positionInDir s);
       name \<leftarrow> c_str (de_name (d ! p));
       if cap \<le> length name then None
       else Some (int p, name, s\<lparr>positionInDir := p + 1\<rparr>)
     }
   }"

definition sfs_GetFileSize :: "sfs_mem \<Rightarrow> byte list \<Rightarrow> sfs \<Rightarrow> (int \<times> sfs) option" where
  "sfs_GetFileSize m path s = do {
     index \<leftarrow> findDirectoryEntry path s;
     if index = - 1 then Some (- 1, s)
     else do {
       d \<leftarrow> directory s;
       (n, buffer, s1) \<leftarrow> load_inode m S_size (sint (de_iNode (d ! nat index))) s;
       Some (sint (sfs_size n), s1)
     }
   }"

section \<open>The callbacks of fuse_wrappers.c\<close>

text \<open>Paths are copied to an array of 13 characters.\<close>

definition MAXFILENAME :: nat where "MAXFILENAME = 13"

definition filename_of :: "byte list \<Rightarrow> byte list option" where
  "filename_of path = (if MAXFILENAME \<le> length path then None else Some path)"

text \<open>The result, and mode, links and size of \<open>stbuf\<close>.\<close>

definition fuse_getattr :: "sfs_mem \<Rightarrow> byte list \<Rightarrow> sfs \<Rightarrow> (int \<times> (int \<times> int \<times> int) \<times> sfs) option" where
  "fuse_getattr m path s =
     (if path = [47] then Some (0, (0x41ED, 2, 0), s)
      else do {
        (sz, s1) \<leftarrow> sfs_GetFileSize m path s;
        Some (if sz \<noteq> - 1 then (0, (0x8124, 1, sz), s1) else (- 2, (0, 0, 0), s1))
      })"

partial_function (option) readdir_rest :: "byte list list \<Rightarrow> sfs \<Rightarrow> (byte list list \<times> sfs) option" where
  "readdir_rest names s = do {
     (r, name, s1) \<leftarrow> sfs_get_next_filename MAXFILENAME s;
     if r = 0 then Some (names, s1) else if name = [] then None else readdir_rest (names @ [tl name]) s1
   }"

definition fuse_readdir :: "byte list \<Rightarrow> sfs \<Rightarrow> (int \<times> byte list list \<times> sfs) option" where
  "fuse_readdir path s =
     (if path \<noteq> [47] then Some (- 2, [], s)
      else map_option (\<lambda>(names, s1). (0, names, s1)) (readdir_rest [[46], [46, 46]] s))"

definition fuse_unlink :: "sfs_mem \<Rightarrow> byte list \<Rightarrow> sfs \<Rightarrow> (int \<times> sfs) option" where
  "fuse_unlink m path s = do {
     filename \<leftarrow> filename_of path;
     (res, s1) \<leftarrow> sfs_remove m filename s;
     Some (if res = - 1 then - last_errno m else 0, s1)
   }"

definition fuse_open :: "sfs_mem \<Rightarrow> byte list \<Rightarrow> sfs \<Rightarrow> (int \<times> sfs) option" where
  "fuse_open m path s = do {
     filename \<leftarrow> filename_of path;
     (res, s1) \<leftarrow> sfs_fopen m filename s;
     if res = - 1 then Some (- last_errno m, s1)
     else do {
       (r, s2) \<leftarrow> sfs_fclose res s1;
       Some (0, s2)
     }
   }"

definition fuse_read :: "sfs_mem \<Rightarrow> byte list \<Rightarrow> int \<Rightarrow> int \<Rightarrow> sfs \<Rightarrow> (int \<times> sfs) option" where
  "fuse_read m path sz offset s = do {
     filename \<leftarrow> filename_of path;
     (fd, s1) \<leftarrow> sfs_fopen m filename s;
     if fd = - 1 then Some (- last_errno m, s1)
     else do {
       (r, s2) \<leftarrow> sfs_fseek fd offset s1;
       if r = - 1 then Some (- last_errno m, s2)
       else do {
         (res, s3) \<leftarrow> sfs_fread m fd sz s2;
         if res = - 1 then Some (- last_errno m, s3)
         else do {
           (r, s4) \<leftarrow> sfs_fclose fd s3;
           Some (res, s4)
         }
       }
     }
   }"

definition fuse_write :: "sfs_mem \<Rightarrow> byte list \<Rightarrow> byte list \<Rightarrow> int \<Rightarrow> int \<Rightarrow> sfs \<Rightarrow> (int \<times> sfs) option" where
  "fuse_write m path buf sz offset s = do {
     filename \<leftarrow> filename_of path;
     (fd, s1) \<leftarrow> sfs_fopen m filename s;
     if fd = - 1 then Some (- last_errno m, s1)
     else do {
       (r, s2) \<leftarrow> sfs_fseek fd offset s1;
       if r = - 1 then Some (- last_errno m, s2)
       else do {
         (res, s3) \<leftarrow> sfs_fwrite m fd buf sz s2;
         if res = - 1 then Some (- last_errno m, s3)
         else do {
           (r, s4) \<leftarrow> sfs_fclose fd s3;
           Some (res, s4)
         }
       }
     }
   }"

definition fuse_truncate :: "sfs_mem \<Rightarrow> byte list \<Rightarrow> int \<Rightarrow> sfs \<Rightarrow> (int \<times> sfs) option" where
  "fuse_truncate m path sz s = do {
     filename \<leftarrow> filename_of path;
     (fd, s1) \<leftarrow> sfs_remove m filename s;
     if fd = - 1 then Some (- last_errno m, s1)
     else do {
       (fd, s2) \<leftarrow> sfs_fopen m filename s1;
       (r, s3) \<leftarrow> sfs_fclose fd s2;
       Some (0, s3)
     }
   }"

definition fuse_access :: "byte list \<Rightarrow> int \<Rightarrow> int" where "fuse_access path access_mask = 0"

definition fuse_mknod :: "byte list \<Rightarrow> int \<Rightarrow> int \<Rightarrow> int" where "fuse_mknod path mode rdev = 0"

definition fuse_create :: "sfs_mem \<Rightarrow> byte list \<Rightarrow> int \<Rightarrow> sfs \<Rightarrow> (int \<times> sfs) option" where
  "fuse_create m path mode s = do {
     filename \<leftarrow> filename_of path;
     (fd, s1) \<leftarrow> sfs_fopen m filename s;
     (r, s2) \<leftarrow> sfs_fclose fd s1;
     Some (0, s2)
   }"

end
