(* ===== verification/SfsFacts.thy ===== *)
theory SfsFacts
  imports SfsOps
begin

text \<open>
  The disk of \<open>FileSystemWithFuse-master\<close> as an array of blocks, and what the functions of \<open>sfs_api.c\<close> leave in it.
\<close>

section \<open>Blocks\<close>

lemma cell_ge: "i < n \<Longrightarrow> start * n \<le> b * n + i \<longleftrightarrow> start \<le> (b :: nat)"
  by (subst less_eq_div_iff_mult_less_eq [symmetric]) simp_all

lemma cell_less: "i < n \<Longrightarrow> b * n + i < m * n \<longleftrightarrow> b < (m :: nat)"
  using cell_ge [of i n m b] by linarith

lemma emu_block_nth: "emu_ok s \<Longrightarrow> b < max_block s \<Longrightarrow> i < block_size s \<Longrightarrow> emu_block s b ! i = emu_bytes s ! (b * block_size s + i)"
  using cell_less [of i "block_size s" b "max_block s"] emu_okD [of s] by (simp add: emu_block_def)

lemma written_block:
  assumes s: "emu_ok s" and r: "start + n \<le> max_block s" and len: "length buffer = n * block_size s" and b: "b < max_block s"
    and s': "s' = s\<lparr>emu_file := Some (patched (emu_bytes s) (start * block_size s) buffer), fpos := p\<rparr>"
  shows "emu_ok s'" and "emu_block s' b =
    (if start \<le> b \<and> b < start + n then take (block_size s) (drop ((b - start) * block_size s) buffer) else emu_block s b)"
proof -
  have fit: "start * block_size s + length buffer \<le> length (emu_bytes s)" using in_range [OF r] emu_okD [OF s] len by simp
  with emu_okD [OF s] show ok: "emu_ok s'" by (simp add: s' emu_ok_def)
  have bytes: "emu_bytes s' = patched (emu_bytes s) (start * block_size s) buffer" and same: "block_size s' = block_size s" "max_block s' = max_block s"
    by (simp_all add: s' emu_bytes_def)
  show "emu_block s' b = (if start \<le> b \<and> b < start + n then take (block_size s) (drop ((b - start) * block_size s) buffer) else emu_block s b)"
    (is "_ = ?r")
  proof (rule nth_equalityI)
    have r_len: "length ?r = block_size s"
    proof (cases "start \<le> b \<and> b < start + n")
      case True
      then have "Suc (b - start) * block_size s \<le> n * block_size s" by (intro mult_le_mono1) auto
      with True len show ?thesis by simp
    qed (use length_emu_block [OF s b] in auto)
    then show "length (emu_block s' b) = length ?r" using length_emu_block [OF ok] b same by simp
    fix i assume "i < length (emu_block s' b)"
    then have i: "i < block_size s" using length_emu_block [OF ok] b same by simp
    have at: "b * block_size s + i < length (emu_bytes s)" using cell_less [OF i, of b "max_block s"] b emu_okD [OF s] by simp
    have "emu_block s' b ! i = patched (emu_bytes s) (start * block_size s) buffer ! (b * block_size s + i)"
      using emu_block_nth [OF ok, of b i] b i same bytes by simp
    also have "\<dots> = (if start \<le> b \<and> b < start + n then buffer ! (b * block_size s + i - start * block_size s) else emu_bytes s ! (b * block_size s + i))"
      using nth_patched [OF fit at] cell_ge [OF i, of start b] cell_less [OF i, of b "start + n"] len by (simp add: add_mult_distrib)
    also have "\<dots> = ?r ! i"
    proof (cases "start \<le> b \<and> b < start + n")
      case True
      then have "(b - start) * block_size s + i < n * block_size s" by (subst cell_less [OF i]) auto
      with True i len show ?thesis by (simp add: diff_mult_distrib)
    next
      case False
      with emu_block_nth [OF s b i] show ?thesis by auto
    qed
    finally show "emu_block s' b ! i = ?r ! i" .
  qed
qed

lemma blocks_concat:
  "take (n * k) (drop (start * k) f) = concat (map (\<lambda>b. take k (drop (b * k) f)) [start..<start + n])"
proof (induction n)
  case (Suc n)
  have "take (Suc n * k) (drop (start * k) f) = take (n * k) (drop (start * k) f) @ take k (drop (n * k) (drop (start * k) f))"
    by (subst take_add [symmetric]) (simp add: add.commute)
  then show ?case by (simp add: Suc.IH add_mult_distrib add.commute)
qed simp

section \<open>Single blocks of a disk of 1000 blocks of 512 bytes\<close>

definition sfs_ok :: "sfs \<Rightarrow> bool" where
  "sfs_ok s \<longleftrightarrow> emu_ok (dsk s) \<and> block_size (dsk s) = 512 \<and> max_block (dsk s) = 1000"

definition blk :: "sfs \<Rightarrow> nat \<Rightarrow> byte list" where "blk s b = emu_block (dsk s) b"

text \<open>\<open>s'\<close> has the blocks of \<open>s\<close> but those in \<open>B\<close>, and the same tables in memory.\<close>

definition only_blocks :: "nat set \<Rightarrow> sfs \<Rightarrow> sfs \<Rightarrow> bool" where
  "only_blocks B s s' \<longleftrightarrow> sfs_ok s' \<and> (\<forall>b < 1000. b \<notin> B \<longrightarrow> blk s' b = blk s b) \<and> s' = s\<lparr>dsk := dsk s'\<rparr>"

lemma only_blocks_refl: "sfs_ok s \<Longrightarrow> only_blocks B s s"
  by (simp add: only_blocks_def)

lemma only_blocks_trans: "only_blocks B s s1 \<Longrightarrow> only_blocks C s1 s2 \<Longrightarrow> only_blocks (B \<union> C) s s2"
  unfolding only_blocks_def by (metis (no_types, lifting) UnCI sfs.surjective sfs.update_convs(1) sfs.select_convs(2-5))

lemma length_blk: "sfs_ok s \<Longrightarrow> b < 1000 \<Longrightarrow> length (blk s b) = 512"
  by (simp add: sfs_ok_def blk_def length_emu_block)

lemma read_into_ok:
  assumes s: "sfs_ok s" and m: "mem_ok m" and b: "b < 1000" and buf: "length buffer = 512"
  shows "\<exists>s'. read_into m (int b) buffer s = Some (blk s b, s') \<and> only_blocks {} s s'"
proof -
  have e: "emu_ok (dsk s)" "b + 1 \<le> max_block (dsk s)" "length (junk m S_malloc) = block_size (dsk s)" "block_size (dsk s) = 512"
    using s m b by (simp_all add: sfs_ok_def mem_ok_def)
  from read_blocks_eq [OF e(1-3)] e(4) obtain p where
    run: "read_blocks_emu (junk m S_malloc) (int b) 1 (dsk s) = Some (1, blk s b, (dsk s)\<lparr>fpos := p\<rparr>)"
    by (auto simp: blk_def emu_block_def)
  have "only_blocks {} s (s\<lparr>dsk := (dsk s)\<lparr>fpos := p\<rparr>\<rparr>)"
    using s by (auto simp: only_blocks_def sfs_ok_def emu_ok_def blk_def emu_block_def emu_bytes_def)
  with run length_blk [OF s b] buf show ?thesis by (simp add: read_into_def)
qed

lemma write_from_ok:
  assumes s: "sfs_ok s" and b: "b < 1000" and buf: "length buffer = 512"
  shows "\<exists>s'. write_from (int b) buffer s = Some s' \<and> only_blocks {b} s s' \<and> blk s' b = buffer"
proof -
  have e: "emu_ok (dsk s)" "b + 1 \<le> max_block (dsk s)" "1 * block_size (dsk s) \<le> length buffer" "length buffer = 1 * block_size (dsk s)"
    "max_block (dsk s) = 1000" "block_size (dsk s) = 512" using s b buf by (simp_all add: sfs_ok_def)
  from write_blocks_eq [OF e(1-3)] e(4) obtain p where
    run: "write_blocks_emu (int b) 1 buffer (dsk s)
      = Some (1, (dsk s)\<lparr>emu_file := Some (patched (emu_bytes (dsk s)) (b * block_size (dsk s)) buffer), fpos := p\<rparr>)" by auto
  let ?d = "(dsk s)\<lparr>emu_file := Some (patched (emu_bytes (dsk s)) (b * block_size (dsk s)) buffer), fpos := p\<rparr>"
  note w = written_block [OF e(1,2,4) _ refl, where p = p]
  have "emu_ok ?d" by (rule w(1) [of 0]) (simp add: e(5))
  moreover have "emu_block ?d c = (if c = b then buffer else blk s c)" if "c < 1000" for c
    using w(2) [of c] that e(4-6) by (auto simp: blk_def)
  ultimately have "only_blocks {b} s (s\<lparr>dsk := ?d\<rparr>)" "blk (s\<lparr>dsk := ?d\<rparr>) b = buffer"
    using e(5,6) b by (auto simp: only_blocks_def sfs_ok_def blk_def)
  with run show ?thesis by (simp add: write_from_def)
qed

lemma only_blocksD:
  assumes "only_blocks B s s'"
  shows "sfs_ok s'" and "b < 1000 \<Longrightarrow> b \<notin> B \<Longrightarrow> blk s' b = blk s b"
    and "directory s' = directory s" and "fileDescTable s' = fileDescTable s" and "positionInDir s' = positionInDir s"
proof -
  show "sfs_ok s'" "b < 1000 \<Longrightarrow> b \<notin> B \<Longrightarrow> blk s' b = blk s b" using assms by (simp_all add: only_blocks_def)
  have "s' = s\<lparr>dsk := dsk s'\<rparr>" using assms by (simp add: only_blocks_def)
  then show "directory s' = directory s" "fileDescTable s' = fileDescTable s" "positionInDir s' = positionInDir s"
    by (metis sfs.select_convs(2-5) sfs.surjective sfs.update_convs(1))+
qed

section \<open>The map of free blocks\<close>

text \<open>The block of the map and the char for a block number.\<close>

definition map_block :: "nat \<Rightarrow> nat" where "map_block b = (b + 511) div 512 + 997"

lemma change_status:
  assumes s: "sfs_ok s" and m: "mem_ok m" and b: "b < 1000"
  shows "\<exists>s'. changeBlockStatus m (int b) st s = Some s' \<and> only_blocks {map_block b} s s'
    \<and> blk s' (map_block b) = (blk s (map_block b))[b mod 512 := word_of_int st]"
proof -
  have mb: "map_block b < 1000" using b by (simp add: map_block_def)
  have addr: "(int b + 511) sdiv BLOCKSIZE + (NUMBEROFBLOCKS - blocksReq) - 1 = int (map_block b)"
    "int b smod BLOCKSIZE = int (b mod 512)"
    by (simp_all add: map_block_def BLOCKSIZE_def NUMBEROFBLOCKS_def blocksReq_def signed_divide_int_def signed_modulo_int_def
        sgn_if zdiv_int zmod_int)
  have junk: "length (junk m S_status) = 512" using m by (simp add: mem_ok_def)
  from read_into_ok [OF s m mb junk] obtain s1 where
    r: "read_into m (int (map_block b)) (junk m S_status) s = Some (blk s (map_block b), s1)" "only_blocks {} s s1" by blast
  have len: "length (blk s (map_block b)) = 512" by (rule length_blk [OF s mb])
  have "length ((blk s (map_block b))[b mod 512 := word_of_int st]) = 512" using len by simp
  from write_from_ok [OF only_blocksD(1) [OF r(2)] mb this] obtain s2 where
    w: "write_from (int (map_block b)) ((blk s (map_block b))[b mod 512 := word_of_int st]) s1 = Some s2"
      "only_blocks {map_block b} s1 s2" "blk s2 (map_block b) = (blk s (map_block b))[b mod 512 := word_of_int st]" by blast
  have "changeBlockStatus m (int b) st s = Some s2"
    unfolding changeBlockStatus_def addr using r(1) w(1) len by (simp add: nat_mod_distrib)
  with w(2,3) only_blocks_trans [OF r(2) w(2)] show ?thesis by auto
qed

text \<open>Marking block 0 goes to the block before the map.\<close>

lemma allocate_zero:
  assumes s: "sfs_ok s" and m: "mem_ok m" and z: "blk s 998 ! 0 = 0"
  shows "\<exists>s'. allocateFreeBlock m s = Some (0, s') \<and> only_blocks {997} s s'"
proof -
  have junk: "length (junk m S_alloc) = 512" using m by (simp add: mem_ok_def)
  from read_into_ok [OF s m _ junk, of 998] obtain s1 where
    r: "read_into m 998 (junk m S_alloc) s = Some (blk s 998, s1)" "only_blocks {} s s1" by auto
  have find: "List.find (\<lambda>i. blk s 998 ! i = 0) [0..<512] = Some 0" using z by (simp add: upt_conv_Cons)
  have mb: "map_block 0 = 997" by (simp add: map_block_def)
  from change_status [OF only_blocksD(1) [OF r(2)] m, of 0 IN_USE] mb obtain s2 where
    c: "changeBlockStatus m 0 IN_USE s1 = Some s2" "only_blocks {997} s1 s2" by auto
  have "allocateFreeBlock m s = Some (0, s2)"
    using r(1) find c(1) by (simp add: allocateFreeBlock_def for_loop_step NUMBEROFBLOCKS_def blocksReq_def BLOCKSIZE_def)
  with only_blocks_trans [OF r(2) c(2)] show ?thesis by auto
qed

text \<open>Block 998 begins with a 0 for block 0 also after the map has been set up.\<close>

lemma mark_keeps_zero:
  assumes s: "sfs_ok s" and m: "mem_ok m" and b: "b < 1000" "b \<noteq> 512" and z: "blk s 998 ! 0 = 0"
  shows "\<exists>s'. changeBlockStatus m (int b) IN_USE s = Some s' \<and> only_blocks {997..999} s s' \<and> blk s' 998 ! 0 = 0"
proof -
  from change_status [OF s m b(1), of IN_USE] obtain s' where c: "changeBlockStatus m (int b) IN_USE s = Some s'"
    "only_blocks {map_block b} s s'" "blk s' (map_block b) = (blk s (map_block b))[b mod 512 := word_of_int IN_USE]" by blast
  have mb: "map_block b \<in> {997..999}" "map_block b = 998 \<Longrightarrow> b mod 512 \<noteq> 0" using b by (auto simp: map_block_def)
  have "blk s' 998 ! 0 = 0"
  proof (cases "map_block b = 998")
    case True
    then show ?thesis using c(3) mb(2) z by simp
  next
    case False
    then show ?thesis using only_blocksD(2) [OF c(2), of 998] z by simp
  qed
  moreover have "only_blocks {997..999} s s'" using c(2) mb(1) by (auto simp: only_blocks_def)
  ultimately show ?thesis using c(1) by blast
qed

lemma map_set_up:
  assumes s: "sfs_ok s" and m: "mem_ok m"
  shows "\<exists>s'. initializeFreeBitMap m s = Some s' \<and> only_blocks {997..999} s s' \<and> blk s' 998 ! 0 = 0"
proof -
  let ?P = "\<lambda>s'. only_blocks {997..999} s s' \<and> blk s' 998 ! 0 = 0"
  have mark: "\<exists>t'. changeBlockStatus m (int b) IN_USE t = Some t' \<and> ?P t'" if "?P t" "b < 1000" "b \<noteq> 512" for t b
    using mark_keeps_zero [OF _ m that(2,3), of t] that(1) only_blocks_trans [of "{997..999}" s t "{997..999}"]
    by (fastforce dest: only_blocksD(1))
  have zeros: "length (replicate 512 (0 :: byte)) = 512" by simp
  from write_from_ok [OF s _ zeros, of 998] obtain s1 where
    s1: "write_from 998 (replicate 512 0) s = Some s1" "only_blocks {998} s s1" "blk s1 998 = replicate 512 0" by auto
  from write_from_ok [OF only_blocksD(1) [OF s1(2)] _ zeros, of 999] obtain s2 where
    s2: "write_from 999 (replicate 512 0) s1 = Some s2" "only_blocks {999} s1 s2" by auto
  have "blk s2 998 ! 0 = 0" using only_blocksD(2) [OF s2(2), of 998] s1(3) by simp
  moreover have "only_blocks {997..999} s s2" using only_blocks_trans [OF s1(2) s2(2)] by (auto simp: only_blocks_def)
  ultimately have P: "?P s2" by simp
  have "\<exists>s'. for_loop 0 16 (\<lambda>i s. map_option Next (changeBlockStatus m (int i) IN_USE s)) s2 = Some (Next s' :: (sfs, sfs) flow) \<and> ?P s'"
  proof (rule for_loop_invariant [where P = "\<lambda>_. ?P"])
    fix j t assume "j < (16 :: nat)" "?P t"
    with mark [of t j] show "\<exists>t'. map_option Next (changeBlockStatus m (int j) IN_USE t) = Some (Next t') \<and> ?P t'" by auto
  qed (use P in simp_all)
  then obtain s3 where s3: "for_loop 0 16 (\<lambda>i s. map_option Next (changeBlockStatus m (int i) IN_USE s)) s2 = Some (Next s3 :: (sfs, sfs) flow)" "?P s3" by blast
  from mark [OF s3(2), of 999] obtain s4 where s4: "changeBlockStatus m 999 IN_USE s3 = Some s4" "?P s4" by auto
  from mark [OF s4(2), of 998] obtain s5 where s5: "changeBlockStatus m 998 IN_USE s4 = Some s5" "?P s5" by auto
  show ?thesis using s1(1) s2(1) s3(1) s4(1) s5 by (auto simp: initializeFreeBitMap_def)
qed

section \<open>Inodes\<close>

lemma inode_address:
  assumes "i \<le> 100"
  shows "findINodeBlockAddress (int i) = int (i * 72 div 512 + 1)" and "findINodeByteAddress (int i) = int (i * 72 mod 512)"
    and "i * 72 div 512 + 1 < 1000"
proof -
  have "word_of_int (int i) * 72 = (of_nat (i * 72) :: 32 word)" by (simp add: of_nat_mult)
  then have "inode_bytes (int i) = uint (of_nat (i * 72) :: 32 word)" by (simp only: inode_bytes_def)
  then have "inode_bytes (int i) = int (i * 72)"
    using assms by (simp only: unsigned_of_nat) (simp add: take_bit_nat_eq_self)
  then show "findINodeBlockAddress (int i) = int (i * 72 div 512 + 1)" "findINodeByteAddress (int i) = int (i * 72 mod 512)"
    using assms by (simp_all add: findINodeBlockAddress_def findINodeByteAddress_def NUMBEROFINODES_def BLOCKSIZE_def zdiv_int zmod_int)
qed (use assms in simp)

lemma inode_into_in:
  assumes "wf_sfs_inode n" and "length buffer = 512" and "off \<le> 440"
  shows "\<exists>b. inode_into buffer (int off) n = Some b \<and> length b = 512 \<and> inode_in b (int off) = Some n"
  using assms
  by (simp add: inode_into_def inode_in_def patched_def length_encode_sfs_inode decode_encode_sfs_inode)

end
