(* ===== verification/SfsProps.thy ===== *)
theory SfsProps
  imports SfsFacts
begin

text \<open>What the file system of \<open>FileSystemWithFuse-master\<close> does: the disk, the map of free blocks, the inode table, formatting, names.\<close>

section \<open>The disk\<close>


section \<open>The map of free blocks\<close>

text \<open>Allocations one after the other.\<close>

fun allocations :: "sfs_mem \<Rightarrow> nat \<Rightarrow> sfs \<Rightarrow> (int list \<times> sfs) option" where
  "allocations m 0 s = Some ([], s)"
| "allocations m (Suc k) s = do {
     (b, s1) \<leftarrow> allocateFreeBlock m s;
     (bs, s2) \<leftarrow> allocations m k s1;
     Some (b # bs, s2)
   }"

lemma allocations_zero:
  assumes "sfs_ok s" and m: "mem_ok m" and "blk s 998 ! 0 = 0"
  shows "\<exists>s'. allocations m k s = Some (replicate k 0, s')"
  using assms(1,3)
proof (induction k arbitrary: s)
  case (Suc k)
  from allocate_zero [OF Suc.prems(1) m Suc.prems(2)] obtain s1 where
    s1: "allocateFreeBlock m s = Some (0, s1)" "only_blocks {997} s s1" by blast
  have "blk s1 998 ! 0 = 0" using only_blocksD(2) [OF s1(2), of 998] Suc.prems(2) by simp
  from Suc.IH [OF only_blocksD(1) [OF s1(2)] this] s1(1) show ?case by auto
qed simp

text \<open>
  On a disk whose map of free blocks has just been set up every allocation, however many there are, gives block 0, where the
  superblock is: the char of block 0 is looked up in the map, but marking it goes to the block before the map.
\<close>
theorem sfs_allocates_only_block_0:
  assumes "sfs_ok s" and "mem_ok m"
  shows "\<exists>s1 s2. initializeFreeBitMap m s = Some s1 \<and> allocations m k s1 = Some (replicate k 0, s2)"
proof -
  from map_set_up [OF assms] obtain s1 where
    s1: "initializeFreeBitMap m s = Some s1" "only_blocks {997..999} s s1" "blk s1 998 ! 0 = 0" by blast
  from allocations_zero [OF only_blocksD(1) [OF s1(2)] assms(2) s1(3)] s1(1) show ?thesis by blast
qed

section \<open>Inodes\<close>

text \<open>
  C37: the inode table is an array of inodes as far as inodes lie in one block: one that is stored is read back, and no other
  block is touched. Of the 101 numbers the code lets through, every one whose 72 bytes reach over the end of its block leaves the
  array that holds the block, both when it is stored and when it is read; number 7 is the first.
\<close>
theorem sfs_inode_table:
  assumes s: "sfs_ok s" and m: "mem_ok m" and n: "wf_sfs_inode n" and i: "i \<le> 100"
  shows "if i * 72 mod 512 \<le> 440
    then \<exists>s' buffer s''. store_inode m S_create (int i) n s = Some s' \<and> only_blocks {i * 72 div 512 + 1} s s'
      \<and> load_inode m S_size (int i) s' = Some (n, buffer, s'')
    else store_inode m S_create (int i) n s = None \<and> load_inode m S_size (int i) s = None"
proof -
  note addr = inode_address [OF i]
  let ?b = "i * 72 div 512 + 1"
  have junk: "length (junk m S_create) = 512" "length (junk m S_size) = 512" using m by (simp_all add: mem_ok_def)
  from read_into_ok [OF s m addr(3) junk(1)] obtain s1 where
    r1: "read_into m (int ?b) (junk m S_create) s = Some (blk s ?b, s1)" "only_blocks {} s s1" by blast
  from read_into_ok [OF s m addr(3) junk(2)] obtain t where r2: "read_into m (int ?b) (junk m S_size) s = Some (blk s ?b, t)" by blast
  have len: "length (blk s ?b) = 512" by (rule length_blk [OF s addr(3)])
  show ?thesis
  proof (cases "i * 72 mod 512 \<le> 440")
    case True
    from inode_into_in [OF n len True] obtain b where b: "inode_into (blk s ?b) (int (i * 72 mod 512)) n = Some b" "length b = 512"
      "inode_in b (int (i * 72 mod 512)) = Some n" by blast
    from write_from_ok [OF only_blocksD(1) [OF r1(2)] addr(3) b(2)] obtain s2 where
      w: "write_from (int ?b) b s1 = Some s2" "only_blocks {?b} s1 s2" "blk s2 ?b = b" by blast
    from read_into_ok [OF only_blocksD(1) [OF w(2)] m addr(3) junk(2)] w(3) obtain s3 where
      "read_into m (int ?b) (junk m S_size) s2 = Some (b, s3)" by auto
    then have "load_inode m S_size (int i) s2 = Some (n, b, s3)" unfolding load_inode_def addr(1,2) using b(3) by simp
    moreover have "store_inode m S_create (int i) n s = Some s2" unfolding store_inode_def addr(1,2) using r1(1) b(1) w(1) by simp
    moreover have "only_blocks {?b} s s2" using only_blocks_trans [OF r1(2) w(2)] by simp
    ultimately show ?thesis using True by auto
  next
    case False
    then have "inode_into (blk s ?b) (int (i * 72 mod 512)) n = None" "inode_in (blk s ?b) (int (i * 72 mod 512)) = None"
      using len by (simp_all add: inode_into_def inode_in_def)
    then show ?thesis unfolding store_inode_def load_inode_def addr(1,2) using False r1(1) r2 by simp
  qed
qed

section \<open>Formatting\<close>

lemma fresh_disk_blocks:
  assumes "s' = s\<lparr>dsk := snd (init_fresh_disk True 512 1000 (dsk s))\<rparr>"
  shows "sfs_ok s'" and "b < 1000 \<Longrightarrow> blk s' b = replicate 512 0"
proof -
  have zeros: "concat (replicate n (replicate 512 (0 :: byte))) = replicate (n * 512) 0" for n
    by (induction n) (simp_all add: replicate_add add.commute)
  show ok: "sfs_ok s'" using assms by (simp add: sfs_ok_def emu_ok_def init_fresh_disk_def zeros)
  assume "b < 1000"
  then have "512 \<le> 512000 - b * 512" by simp
  then show "blk s' b = replicate 512 0"
    using assms by (simp add: blk_def emu_block_def emu_bytes_def init_fresh_disk_def zeros)
qed

text \<open>On a disk whose inode blocks are zero the root inode gets number 0 and block 0.\<close>

definition root_inode :: sfs_inode where
  "root_inode = \<lparr>sfs_mode = 666, linkCnt = 1, sfs_uid = 0, sfs_gid = 0, sfs_size = 1, directPointers = replicate 12 0, indirectPointer = 0\<rparr>"

lemma create_root:
  assumes s: "sfs_ok s" and m: "mem_ok m" and z: "blk s 998 ! 0 = 0" "blk s 1 = replicate 512 0"
  shows "\<exists>s'. createINode m RWE 1 0 0 1 s = Some (0, s') \<and> sfs_ok s' \<and> inode_in (blk s' 1) 0 = Some root_inode"
proof -
  have junk: "length (junk m S_create) = 512" "length (junk m S_empty) = 512" using m by (simp_all add: mem_ok_def)
  have addr: "findINodeBlockAddress 0 = 1" "findINodeByteAddress 0 = 0" using inode_address [of 0] by simp_all
  from allocate_zero [OF s m z(1)] obtain s1 where s1: "allocateFreeBlock m s = Some (0, s1)" "only_blocks {997} s s1" by blast
  have rest: "allocate_direct m k 0 s1 = Some (replicate k 0, s1)" for k by (induction k) simp_all
  have direct: "allocate_direct m 12 1 s = Some (replicate 12 0, s1)"
    using s1(1) rest [of 11] by (simp add: numeral_eq_Suc)
  have z1: "blk s1 1 = replicate 512 0" using only_blocksD(2) [OF s1(2), of 1] z(2) by simp
  from read_into_ok [OF only_blocksD(1) [OF s1(2)] m _ junk(2), of 1] z1 obtain s2 where
    s2: "read_into m 1 (junk m S_empty) s1 = Some (replicate 512 0, s2)" "only_blocks {} s1 s2" by auto
  have "le_word (take 4 (replicate 512 (0 :: byte))) = (0 :: 32 word)" by (simp add: numeral_eq_Suc)
  then have empty: "findEmptyINode m s1 = Some (0, s2)"
    using s2(1) addr by (simp add: findEmptyINode_def for_loop_step)
  have "blk s2 1 = replicate 512 0" using only_blocksD(2) [OF s2(2), of 1] z1 by simp
  with read_into_ok [OF only_blocksD(1) [OF s2(2)] m _ junk(1), of 1] obtain s3 where
    s3: "read_into m 1 (junk m S_create) s2 = Some (replicate 512 0, s3)" "only_blocks {} s2 s3" by auto
  have "wf_sfs_inode root_inode" by (simp add: wf_sfs_inode_def root_inode_def)
  from inode_into_in [OF this, of "replicate 512 0" 0] obtain b where
    b: "inode_into (replicate 512 0) 0 root_inode = Some b" "length b = 512" "inode_in b 0 = Some root_inode" by auto
  from write_from_ok [OF only_blocksD(1) [OF s3(2)] _ b(2), of 1] obtain s4 where
    s4: "write_from 1 b s3 = Some s4" "only_blocks {1} s3 s4" "blk s4 1 = b" by auto
  have "store_inode m S_create 0 root_inode s2 = Some s4" using addr s3(1) b(1) s4(1) by (simp add: store_inode_def)
  then have "createINode m RWE 1 0 0 1 s = Some (0, s4)"
    using direct empty by (simp add: createINode_def BLOCKSIZE_def RWE_def root_inode_def signed_divide_int_def)
  with b(3) s4(3) only_blocksD(1) [OF s4(2)] show ?thesis by auto
qed

text \<open>
  C38: formatting never succeeds. When the host lets the disk file be made, \<open>mksfs\<close> allocates block 0 for the root directory, takes
  this pointer for the end of the pointers when it reads the directory back, and reads the block whose number it never set.
\<close>
theorem sfs_format_undefined:
  assumes "mem_ok m"
  shows "mksfs m True 1 s = None"
proof -
  let ?s1 = "s\<lparr>dsk := snd (init_fresh_disk True 512 1000 (dsk s))\<rparr>"
  note fresh = fresh_disk_blocks [OF refl, where s = s]
  have ok: "sfs_ok (initDirectory m ?s1)" "blk (initDirectory m ?s1) b = blk ?s1 b" for b
    using fresh(1) by (simp_all add: initDirectory_def sfs_ok_def blk_def)
  have "length superblock_bytes = 512" by (simp add: superblock_bytes_def)
  from write_from_ok [OF ok(1) _ this, of 0] obtain s2 where
    s2: "write_from 0 superblock_bytes (initDirectory m ?s1) = Some s2" "only_blocks {0} (initDirectory m ?s1) s2" by auto
  from map_set_up [OF only_blocksD(1) [OF s2(2)] assms] obtain s3 where
    s3: "initializeFreeBitMap m s2 = Some s3" "only_blocks {997..999} s2 s3" "blk s3 998 ! 0 = 0" by blast
  let ?s3 = "initializeFDTable m s3"
  have "blk s3 1 = replicate 512 0"
    using only_blocksD(2) [OF s3(2), of 1] only_blocksD(2) [OF s2(2), of 1] ok(2) [of 1] fresh(2) [of 1] by simp
  then have "sfs_ok ?s3" "blk ?s3 998 ! 0 = 0" "blk ?s3 1 = replicate 512 0"
    using only_blocksD(1) [OF s3(2)] s3(3) by (simp_all add: initializeFDTable_def sfs_ok_def blk_def)
  from create_root [OF this(1) assms this(2,3)] obtain s4 where
    s4: "createINode m RWE 1 0 0 1 ?s3 = Some (0, s4)" "sfs_ok s4" "inode_in (blk s4 1) 0 = Some root_inode" by blast
  have "length (junk m S_root) = 512" using assms by (simp add: mem_ok_def)
  from read_into_ok [OF s4(2) assms _ this, of 1] obtain s5 where
    "read_into m 1 (junk m S_root) s4 = Some (blk s4 1, s5)" by auto
  moreover have "sint (sfs_size root_inode) = 1" "indirectPointer root_inode = 0" "(1 + BLOCKSIZE - 1) sdiv BLOCKSIZE = 1"
    by (simp_all add: root_inode_def BLOCKSIZE_def signed_divide_int_def)
  moreover have "put_pointers 0 (directPointers root_inode) bs = Some bs" for bs
    by (simp add: root_inode_def numeral_eq_Suc)
  ultimately have "readDirectory m s4 = None"
    using s4(3) by (simp add: readDirectory_def for_loop_step)
  moreover obtain e where "init_fresh_disk True 512 1000 (dsk s) = (0, e)" by (simp add: init_fresh_disk_def)
  ultimately show ?thesis using s2(1) s3(1) s4(1) by (simp add: mksfs_def Let_def)
qed

section \<open>Names\<close>

text \<open>A name in its field: a string, then a 0.\<close>

definition holds_name :: "byte list \<Rightarrow> DirectoryEntry \<Rightarrow> bool" where
  "holds_name w e \<longleftrightarrow> 0 \<notin> set w \<and> (\<exists>rest. de_name e = w @ 0 # rest)"

lemma strcmp_holds:
  assumes "holds_name w e" and "0 \<notin> set name"
  shows "strcmp_array name (de_name e) = Some (name = w)"
proof -
  have "0 \<notin> set w \<Longrightarrow> 0 \<notin> set name \<Longrightarrow> strcmp_array name (w @ 0 # rest) = Some (name = w)" for rest
    by (induction name w rule: list_induct2') auto
  with assms show ?thesis by (auto simp: holds_name_def)
qed

lemma c_str_holds_name: "holds_name w e \<Longrightarrow> c_str (de_name e) = Some w"
  by (auto simp: holds_name_def c_str_def takeWhile_append)

text \<open>
  Looking a name up in a directory with the names \<open>ws\<close> gives the index of its first occurrence, and for a name that is not
  there the search runs behind the array: no name can be created, and a missing one is no error but an undefined run of every
  callback that looks it up.
\<close>
theorem sfs_missing_name_undefined:
  assumes d: "directory s = Some d" "list_all2 holds_name ws d" and name: "0 \<notin> set name"
  shows "findDirectoryEntry name s = map_option int (List.find (\<lambda>k. ws ! k = name) [0..<length ws])
    \<and> (name \<in> set ws \<or> fuse_create m name mode s = None \<and> fuse_unlink m name s = None \<and> fuse_open m name s = None
         \<and> (name = [47] \<or> fuse_getattr m name s = None))"
proof -
  have len: "length d = length ws" using d(2) by (simp add: list_all2_lengthD)
  have "for_loop 0 (length d) (\<lambda>k _. do {
          eq \<leftarrow> strcmp_array name (de_name (d ! k));
          Some (if eq then Return (int k) else Next ())
        }) () = Some (case List.find (\<lambda>k. ws ! k = name) [0..<length d] of Some j \<Rightarrow> Return (int j) | None \<Rightarrow> Next ())"
  proof (rule for_loop_search)
    fix j assume "j < length d"
    then have "strcmp_array name (de_name (d ! j)) = Some (name = ws ! j)"
      using strcmp_holds [OF _ name] d(2) len by (simp add: list_all2_conv_all_nth)
    then show "do {
          eq \<leftarrow> strcmp_array name (de_name (d ! j));
          Some (if eq then Return (int j) else Next ())
        } = Some (if ws ! j = name then Return (int j) else Next ())" by auto
  qed
  then have find: "findDirectoryEntry name s = map_option int (List.find (\<lambda>k. ws ! k = name) [0..<length ws])"
    using d(1) len by (simp add: findDirectoryEntry_def split: option.split)
  have "findDirectoryEntry name s = None" if "name \<notin> set ws"
    using that find by (auto simp: find_upt_None in_set_conv_nth)
  then have "name \<in> set ws \<or> sfs_fopen m name s = None \<and> sfs_remove m name s = None \<and> sfs_GetFileSize m name s = None"
    by (auto simp: sfs_fopen_def sfs_remove_def sfs_GetFileSize_def)
  with find show ?thesis
    by (auto simp: fuse_create_def fuse_unlink_def fuse_open_def fuse_getattr_def filename_of_def)
qed

text \<open>
  \<open>readdir\<close> never lists the first file. In a directory of \<open>k\<close> files before the first unused entry it starts where the last
  call ended, shows the names without their first character up to the unused entry, starts again at the first file and takes
  its number, 0, for the end: the first call lists nothing, the second all files but the first, and so on.
\<close>
theorem sfs_readdir_skips_first:
  assumes d: "directory s = Some d" "k < length d" "list_all2 holds_name ws (take k d)"
    and w: "\<forall>w \<in> set ws. w \<noteq> [] \<and> length w < 13" and use: "\<forall>j < k. de_iNode (d ! j) \<noteq> 0" "de_iNode (d ! k) = 0"
    and p: "positionInDir s \<le> k" "0 < k"
  shows "fuse_readdir [47] s = Some (0, [[46], [46, 46]] @ map tl (drop (if positionInDir s = 0 then k else positionInDir s) ws),
    s\<lparr>positionInDir := 1\<rparr>)"
proof -
  have len: "length ws = k" using d(2,3) by (simp add: list_all2_lengthD)
  have entry: "c_str (de_name (d ! j)) = Some (ws ! j) \<and> length (ws ! j) < 13 \<and> ws ! j \<noteq> []" if "j < k" for j
    using that d(3) len w c_str_holds_name [of "ws ! j" "d ! j"] by (auto simp: list_all2_conv_all_nth)
  have stop: "readdir_rest names t = Some (names, t\<lparr>positionInDir := 1\<rparr>)"
    if "directory t = Some d" "positionInDir t = 0 \<or> positionInDir t = k" for t names
  proof -
    have "sfs_get_next_filename 13 t = Some (0, ws ! 0, t\<lparr>positionInDir := 1\<rparr>)"
      using that d(2) use p(2) entry [OF p(2)] by (auto simp: sfs_get_next_filename_def Let_def)
    then show ?thesis by (simp add: readdir_rest.simps [of names t] MAXFILENAME_def)
  qed
  have rest: "readdir_rest names t = Some (names @ map tl (drop (positionInDir t) ws), t\<lparr>positionInDir := 1\<rparr>)"
    if "directory t = Some d" "0 < positionInDir t" "positionInDir t \<le> k" for t names
    using that
  proof (induction "k - positionInDir t" arbitrary: t names)
    case 0
    then show ?case using stop [of t names] len by simp
  next
    case (Suc n)
    let ?p = "positionInDir t" and ?t = "t\<lparr>positionInDir := positionInDir t + 1\<rparr>"
    have p': "?p < k" using Suc.hyps(2) by simp
    then have "sfs_get_next_filename 13 t = Some (int ?p, ws ! ?p, ?t)"
      using Suc.prems d(2) use(1) entry [of ?p] by (simp add: sfs_get_next_filename_def Let_def)
    then have "readdir_rest names t = readdir_rest (names @ [tl (ws ! ?p)]) ?t"
      using Suc.prems entry [OF p'] by (simp add: readdir_rest.simps [of names t] MAXFILENAME_def)
    moreover have "drop ?p ws = ws ! ?p # drop (?p + 1) ws" using p' len by (simp add: Cons_nth_drop_Suc)
    moreover have "readdir_rest (names @ [tl (ws ! ?p)]) ?t
        = Some ((names @ [tl (ws ! ?p)]) @ map tl (drop (positionInDir ?t) ws), ?t\<lparr>positionInDir := 1\<rparr>)"
      by (rule Suc.hyps(1)) (use Suc.hyps(2) Suc.prems p' in simp_all)
    ultimately show ?case by simp
  qed
  show ?thesis
  proof (cases "positionInDir s = 0")
    case True
    then show ?thesis using stop [OF d(1), of "[[46], [46, 46]]"] len by (simp add: fuse_readdir_def)
  next
    case False
    then show ?thesis using rest [OF d(1) _ p(1), of "[[46], [46, 46]]"] by (simp add: fuse_readdir_def)
  qed
qed

section \<open>Instances\<close>

definition zero_mem :: sfs_mem where
  "zero_mem = \<lparr>junk = \<lambda>_. replicate 512 0, name_junk = replicate 12 0, fd_junk = replicate 50 \<lparr>fd_iNode = 0, RWPointer = 0\<rparr>, last_errno = 0\<rparr>"


definition zero_disk :: sfs where
  "zero_disk = \<lparr>dsk = \<lparr>emu_file = Some (replicate 512000 0), fp_open = True, fpos = 0, block_size = 512, max_block = 1000\<rparr>,
     directory = None, positionInDir = 0, fileDescTable = None\<rparr>"

definition two_files :: sfs where
  "two_files = zero_disk\<lparr>directory := Some [\<lparr>de_name = [47, 97] @ 0 # replicate 25 0, de_iNode = 1\<rparr>,
     \<lparr>de_name = [47, 98] @ 0 # replicate 25 0, de_iNode = 2\<rparr>, \<lparr>de_name = [] @ 0 # replicate 27 0, de_iNode = 0\<rparr>]\<rparr>"

lemma zero_mem_ok: "mem_ok zero_mem"
  by (simp add: mem_ok_def zero_mem_def)

lemma zero_disk_ok: "sfs_ok zero_disk"
  by (simp add: sfs_ok_def zero_disk_def emu_ok_def)

lemma two_files_names: "directory two_files \<noteq> None" "list_all2 holds_name [[47, 97], [47, 98], []] (the (directory two_files))"
  by (auto simp: two_files_def holds_name_def)


lemma sfs_allocates_only_block_0_witness:
  "\<exists>s1 s2. initializeFreeBitMap zero_mem zero_disk = Some s1 \<and> allocations zero_mem 3 s1 = Some ([0, 0, 0], s2)"
  using sfs_allocates_only_block_0 [OF zero_disk_ok zero_mem_ok, of 3] by (simp add: numeral_3_eq_3)

lemma sfs_inode_table_witness:
  "(\<exists>s' b s''. store_inode zero_mem S_create 6 root_inode zero_disk = Some s' \<and> load_inode zero_mem S_size 6 s' = Some (root_inode, b, s''))
    \<and> store_inode zero_mem S_create 7 root_inode zero_disk = None"
proof -
  have n: "wf_sfs_inode root_inode" by (simp add: wf_sfs_inode_def root_inode_def)
  from sfs_inode_table [OF zero_disk_ok zero_mem_ok n, of 6] sfs_inode_table [OF zero_disk_ok zero_mem_ok n, of 7] show ?thesis by auto
qed

lemma sfs_format_undefined_witness: "mksfs zero_mem True 1 zero_disk = None"
  by (rule sfs_format_undefined [OF zero_mem_ok])

lemma sfs_missing_name_undefined_witness:
  "findDirectoryEntry [47, 98] two_files = Some 1 \<and> fuse_create zero_mem [47, 99] 0 two_files = None"
  using sfs_missing_name_undefined [OF _ two_files_names(2), of two_files "[47, 98]" zero_mem 0]
    sfs_missing_name_undefined [OF _ two_files_names(2), of two_files "[47, 99]" zero_mem 0] two_files_names(1)
  by (auto simp: upt_rec)

lemma sfs_readdir_skips_first_witness:
  "fuse_readdir [47] two_files = Some (0, [[46], [46, 46]], two_files\<lparr>positionInDir := 1\<rparr>)
    \<and> fuse_readdir [47] (two_files\<lparr>positionInDir := 1\<rparr>) = Some (0, [[46], [46, 46], [98]], two_files\<lparr>positionInDir := 1\<rparr>)"
proof -
  have "list_all2 holds_name [[47, 97], [47, 98]] (take 2 (the (directory two_files)))" by (auto simp: two_files_def holds_name_def)
  moreover have "\<forall>j < 2. de_iNode (the (directory two_files) ! j) \<noteq> 0" by (auto simp: two_files_def less_2_cases_iff)
  ultimately show ?thesis
    using sfs_readdir_skips_first [of two_files "the (directory two_files)" 2 "[[47, 97], [47, 98]]"]
      sfs_readdir_skips_first [of "two_files\<lparr>positionInDir := 1\<rparr>" "the (directory two_files)" 2 "[[47, 97], [47, 98]]"]
    by (simp add: two_files_def zero_disk_def)
qed

end
