(* ===== verification/Spec2Isabelle.thy ===== *)
theory Spec2Isabelle
  imports FsSession VfsSession UfsProps UfsV1Props AfsProps SfsProps
begin

text \<open>
  A verification library for the file systems of the repository: the block file system \<open>src/fslab-handout/fs.c\<close>
  with its simulated device \<open>disk.c\<close>, the shell file system \<open>5-vfs/vfs.c\<close>, and two FUSE file systems in an image
  file, \<open>lymly_3799072/ufs\<close> and the older \<open>exmple/ufs\<close> (\<open>op.c\<close>, \<open>ufs.c\<close>, \<open>init.c\<close> in each), and the
  remote file system \<open>exmple/l-fuse\<close> (\<open>afsfuse_client.c\<close>, \<open>afsfuse_server.c\<close>, \<open>bulk_io.c\<close>), and the simple file system
  \<open>FileSystemWithFuse-master\<close> (\<open>disk_emu.c\<close>, \<open>sfs_api.c\<close>, \<open>fuse_wrappers.c\<close>). They do not share code or state; they share the base of this library, and the two in an image the model of the image and its bitmap.

  \<^bold>\<open>How the code is modelled.\<close> Memory and disks are bytes (\<open>buf\<close>, a function from offsets), structures are records
  read out of the bytes at the offsets of the x86-64 ABI, and C integers are words of their width or integers
  with the conversions written out. A function whose C run can be undefined (an index out of an array, an
  automatic variable read before it is set, a missing return value that is used) has an option as result, with
  None for such a run; error codes are ordinary values. What the code reads without having written it (memory
  from \<open>malloc\<close>, bytes behind a buffer) and what the host gives it (time, user, file names it may open) are
  parameters. A C \<open>for\<close> loop is \<open>for_loop\<close> of Prelude, whose body goes on, breaks or returns; loops along chains
  of blocks that may never end are \<open>partial_function\<close>s, where not ending is None. No fuel is used.

  \<^bold>\<open>The base.\<close> Prelude: options, searches, \<open>for_loop\<close> with its invariant and search rules, and the interface
  \<open>array_store\<close> of everything that is read and written by index, extended to arrays of structures inside blocks
  (\<open>nested_store\<close>). Bytes: little-endian encodings, fields in place, C conversions.

  \<^bold>\<open>fs.c and disk.c.\<close> Disk: the device as host files (\<open>disk_init\<close>, \<open>disk_read\<close>, \<open>disk_write\<close>) and the array of
  65536 blocks it implements. Layout: \<open>iNode\<close> and \<open>DictioryContent\<close> and their bytes. Bitmap: the two allocation
  maps and the interface \<open>allocator\<close> they provide. Inodes: formatting (\<open>mkfs\<close>) and the inode table. Dirs and
  DirFacts: the entries of a directory, their search, insertion and removal, against the list of entries. Paths:
  path resolution with the relation it implements, \<open>getattr\<close>, \<open>readdir\<close>. FsNames: \<open>mknod\<close>, \<open>mkdir\<close>, \<open>unlink\<close>, \<open>rmdir\<close>,
  \<open>rename\<close>. FsData: \<open>read\<close>, \<open>write\<close>, \<open>truncate\<close>, \<open>utime\<close>, \<open>statfs\<close> and the rest of the interface. FsInv has the
  invariant \<open>dirs_ok\<close> (a map from directories to their numbers of entries) and the frame lemmas; FsCreate, FsIO, FsWrite
  (writes at any offset of the first eleven blocks), FsDelete and FsMisc have what each group of operations does; FsProps
  states the properties. FsSession composes
  them: histories of calls from \<open>mkfs\<close> on (\<open>session\<close>, a step relation), with the count of inodes and blocks left.

  \<^bold>\<open>vfs.c.\<close> VfsState: the array \<open>fdisk\<close> with its flag table and its 800 file control blocks, \<open>mFormat\<close>, \<open>LoadSys\<close>.
  VfsOps: every command, \<open>GetCommandType\<close>, \<open>ErrorConfig\<close> and the loop of \<open>main\<close>. VfsFacts: the table as an array,
  names, the search of a directory, the invariant \<open>vfs_ok\<close> (a map from directories to their entries) with the
  notion of a step that extends it, and \<open>mMkfile\<close>. VfsDirs: \<open>mMkdir\<close>, \<open>mCd\<close>. VfsIO: \<open>mWrite\<close>, \<open>mRead\<close> and the
  blocks taken for a file. VfsFormat: \<open>mFormat\<close> and restarts. VfsRm: \<open>mRm\<close> and the open table. VfsProps states
  the properties, on a formatted disk and disks with one and two files. VfsSession has the invariant \<open>steady\<close> of the
  whole state, kept by every command but \<open>cp\<close>, \<open>rm\<close> and \<open>cd ..\<close>, whose run is undefined, on every branch, and what follows for the loop of \<open>main\<close>.

  \<^bold>\<open>The UFS.\<close> UfsState: the image file, the fields of a block, the bitmap (\<open>op_set_blk\<close>, \<open>op_search_free_blk\<close>).
  UfsOps: paths, lookup, \<open>op_create\<close>, \<open>op_rm\<close>, \<open>op_modify_attr\<close> and \<open>is_empty_dir\<close> of \<open>op.c\<close>. UfsFuse: the callbacks of
  \<open>ufs.c\<close> and the formatting program \<open>init.c\<close>. UfsFacts: bits of the bitmap behind the four-byte accesses, blocks
  of the image, and the root directory. UfsProps states the properties.

  \<^bold>\<open>Version 1.0 of the UFS.\<close> \<open>exmple/ufs\<close> is another program than the one above: names with extensions, one level
  of directories, each of one block. \<open>ufs.h\<close> states 4 bytes for \<open>size_t\<close> and \<open>long\<close>, so it is modelled with the sizes
  of a 32-bit target. UfsV1State: the fields of a block and of an entry, access to blocks, the bitmap. UfsV1Ops: the
  functions of \<open>op.c\<close>. UfsV1Fuse: the callbacks of \<open>ufs.c\<close> and \<open>init.c\<close>. UfsV1Facts: the invariant of a directory
  block, the list of its entries, the directory a path leads to (\<open>dir_at_v1\<close>), and what each operation of \<open>op.c\<close>
  does to the list and to the bitmap. UfsV1Format: the image \<open>init.c\<close> leaves. UfsV1Props states the properties.

  \<^bold>\<open>The remote file system.\<close> \<open>exmple/l-fuse\<close> hands the calls of FUSE over the library Rx to a server that makes them on
  its host. AfsState: the structures and requests of \<open>afsfuse.xg\<close>; the system calls of the host (\<open>kernel\<close>) and the calls of
  Rx (\<open>rx\<close>, \<open>remote\<close>) are parameters, and what Rx documents of a stream is the interface \<open>byte_source\<close>, \<open>byte_sink\<close>, which
  the files of the C library provide as well. AfsServer: the procedures of the server, and the dispatcher \<open>serve\<close>.
  AfsClient: the callbacks and the semaphore of the connection. AfsBulk: sending and receiving a file. AfsProps states the
  properties: the callbacks against the system calls of the server's host. Their hypotheses say that a remote procedure
  call runs the procedure of the server and gives its result (\<open>served\<close>), and that a stream carries what was written; the
  witnesses join client and server by two queues, over a small host.

  \<^bold>\<open>FileSystemWithFuse-master.\<close> SfsDisk: the disk emulator, a host file read and written in blocks. SfsState: inodes,
  directory entries and descriptors with longs of 4 bytes, which its block of 128 pointers asks for, and the tables in
  memory. SfsOps: the operations of \<open>sfs_api.c\<close> and the callbacks of \<open>fuse_wrappers.c\<close>. SfsFacts: blocks
  read and written, the free map, inodes in their blocks. SfsProps states the properties: the emulator is an array of
  blocks that refuses what is out of range; an inode of the table is read back as it was stored as far as it lies in one
  block, and the others have no defined run; so have formatting, which reads a block whose number it never set, and the
  search of a name that is not there, which runs behind the directory; \<open>readdir\<close> leaves out the first file.

  \<^bold>\<open>What the properties show.\<close> Where the code works they are its contract: creating, listing, resolving and
  reading back names; writing and reading; allocation that never gives a block twice; invariants established by
  formatting and kept along whole histories of calls, which never get stuck; restarting from the saved image. Where it does not, they pin down what it does: data
  lost by writes of one block or of whole blocks, files lost by renaming or by removing and creating, an image
  emptied by a command that fails, bitmaps that are never cleared, directories destroyed by a new entry, a
  nineteenth entry behind its block, a write on a full disk that has no result, a remote read that never has data.

  \<^bold>\<open>Bounds.\<close> Directories of \<open>fs.c\<close> are followed through the 12 direct blocks of 128 entries (the code has no
  defined result beyond them); the properties of \<open>unlink\<close> are for at most 12 entries, where the removal is
  defined. Histories of \<open>fs.c\<close> have at most 32766 calls, as many as there are inodes but one that formatting takes and one that
  stays free, and take at most 64287 blocks, one less than formatting is sure to leave free; sessions of the shell take what a formatted disk has. Texts of \<open>vfs.c\<close> are below 10240 characters, the size of its array. Sizes and offsets of the UFS that
  are kept in an \<open>int\<close> are below \<open>2^31\<close>; its properties of lookups are for the root directory.

  \<^bold>\<open>Not modelled.\<close> The tables of callbacks handed to \<open>fuse_main\<close> and the \<open>main\<close> functions around them, a library
  of its own. The trace output of all programs. The copy of \<open>VirtualDisk.txt\<close> by the host's \<open>cp\<close> in \<open>vfs.c\<close>.
  The second copy of version 1.0 of the UFS, kept with its design report: but for the name of one type it is the same text. The main functions of \<open>l-fuse\<close>, which set up
  Rx and the table of callbacks, and \<open>GetIpAddress\<close>, which asks the host for an address. The test program of
  \<open>FileSystemWithFuse-master\<close>, and the loop of its \<open>sfs_fread\<close>, whose condition reads a variable that is never set.
\<close>

end
